(* ===== verification/KNE_Prelude.thy ===== *)
theory KNE_Prelude
  imports Main "HOL-Library.Word" "HOL-Library.List_Lexorder" "HOL-Library.Char_ord"
    "HOL-Library.Sublist" "HOL-Library.AList" "HOL-Library.Multiset"
begin

text \<open>
  Shared vocabulary of the development: Go's error values, results of fallible operations
  (a value, an error or a panic), Go maps as association lists, the string functions of the Go
  standard library the sources call, decimal formatting, and the generic lemmas the component
  theories rest on.

  Conventions.
  \<^item> A Go \<open>string\<close> or \<open>[]byte\<close> is a \<^typ>\<open>string\<close>: one \<^typ>\<open>char\<close> per byte, so the library's
    lexicographic order is Go's bytewise \<open><\<close>.
  \<^item> \<open>uint32\<close> is \<open>32 word\<close>; \<open>int32\<close>, \<open>int64\<close> and \<open>int\<close> are \<^typ>\<open>int\<close> with every narrowing
    conversion written out.
  \<^item> A Go map is an association list with distinct keys. The order of the list is the order in which
    the runtime happens to range over the map: theorems are stated for every list, so they hold for
    every iteration order. Where \<open>nil\<close> and the empty map differ for the code, the map is an
    \<open>option\<close> of such a list (\<open>None\<close> is \<open>nil\<close>).
  \<^item> Log output is not modelled.
\<close>

section \<open>Simplification and introduction collections\<close>

named_theorems kne_defs \<open>definitions of operations that proofs unfold\<close>
named_theorems kne_frame \<open>which parts of a state an operation leaves alone\<close>

section \<open>Errors and results\<close>

datatype code =
    CodeUnknown | InvalidArgument | NotFound | AlreadyExists | FailedPrecondition
  | Unimplemented | Internal | Unavailable

text \<open>
  Error values. \<open>Errorf\<close> carries the format string and its operands; \<open>Errorv\<close> has one error operand
  printed with \<open>%v\<close> or \<open>%s\<close> (its identity is lost), \<open>Errorw\<close> one wrapped with \<open>%w\<close>; \<open>Join\<close> is
  \<open>errors.Join\<close> or an \<open>errlist\<close> with at least one element. \<open>ErrExt\<close> is any other error handed back
  by code outside the repository.
\<close>

datatype err =
    Errorf string "string list"
  | Errorv string "string list" err
  | Errorw string "string list" err
  | StatusErr code string "string list"
  | Join "err list"
  | APINotFound string
  | ContextCanceled
  | DeadlineExceeded
  | EOF
  | NetErrClosed
  | OsErrClosed
  | Errno nat
  | ErrExt string

datatype 'a result = Ok 'a | Error err | Panic string

fun is_Ok :: "'a result \<Rightarrow> bool" where
  "is_Ok (Ok _) = True"
| "is_Ok _ = False"

lemma is_Ok_iff: "is_Ok r \<longleftrightarrow> (\<exists>x. r = Ok x)"
  by (cases r) auto

fun rbind :: "'a result \<Rightarrow> ('a \<Rightarrow> 'b result) \<Rightarrow> 'b result" where
  "rbind (Ok x) f = f x"
| "rbind (Error e) f = Error e"
| "rbind (Panic p) f = Panic p"

lemma rbind_Ok_iff [simp]: "rbind r f = Ok y \<longleftrightarrow> (\<exists>x. r = Ok x \<and> f x = Ok y)"
  by (cases r) auto

lemma rbind_Ok_id [simp]: "rbind r Ok = r"
  by (cases r) auto

lemma rbind_cong [fundef_cong]:
  "r = r' \<Longrightarrow> (\<And>x. r' = Ok x \<Longrightarrow> f x = g x) \<Longrightarrow> rbind r f = rbind r' g"
  by (cases r') auto

text \<open>\<open>errors.Is\<close>: the error itself, anything it wraps with \<open>%w\<close>, or a member of a join.\<close>

fun errors_Is :: "err \<Rightarrow> err \<Rightarrow> bool" where
  "errors_Is (Errorw f as e) t = (Errorw f as e = t \<or> errors_Is e t)"
| "errors_Is (Join es) t = (Join es = t \<or> list_ex (\<lambda>e. errors_Is e t) es)"
| "errors_Is e t = (e = t)"

lemma errors_Is_refl [simp]: "errors_Is e e"
  by (cases e) auto

text \<open>\<open>apierrors.IsNotFound\<close> and \<open>status.Code\<close> look through wrapped errors.\<close>

fun IsNotFound :: "err \<Rightarrow> bool" where
  "IsNotFound (APINotFound _) = True"
| "IsNotFound (Errorw f as e) = IsNotFound e"
| "IsNotFound _ = False"

fun status_Code :: "err \<Rightarrow> code" where
  "status_Code (StatusErr c _ _) = c"
| "status_Code (Errorw f as e) = status_Code e"
| "status_Code _ = CodeUnknown"

text \<open>\<open>errlist.List.Err\<close> and \<open>errors.Join\<close>: no error if the list is empty.\<close>

definition join_errs :: "err list \<Rightarrow> unit result" where
  "join_errs es = (if es = [] then Ok () else Error (Join es))"

lemma join_errs_Ok_iff [simp]: "join_errs es = Ok () \<longleftrightarrow> es = []"
  by (simp add: join_errs_def)

section \<open>Loops that may stop with an error\<close>

definition rmap_err :: "(err \<Rightarrow> err) \<Rightarrow> 'a result \<Rightarrow> 'a result" where
  "rmap_err f r = (case r of Error e \<Rightarrow> Error (f e) | _ \<Rightarrow> r)"

fun foldM :: "('s \<Rightarrow> 'a \<Rightarrow> 's result) \<Rightarrow> 's \<Rightarrow> 'a list \<Rightarrow> 's result" where
  "foldM f s [] = Ok s"
| "foldM f s (x # xs) = rbind (f s x) (\<lambda>s'. foldM f s' xs)"

lemma foldM_append:
  "foldM f s (xs @ ys) = rbind (foldM f s xs) (\<lambda>s'. foldM f s' ys)"
proof (induction xs arbitrary: s)
  case Nil
  show ?case by simp
next
  case (Cons x xs)
  then show ?case by (cases "f s x") auto
qed

lemma foldM_invariant:
  assumes "foldM f s xs = Ok s'" and "P s"
    and "\<And>s x t. P s \<Longrightarrow> x \<in> set xs \<Longrightarrow> f s x = Ok t \<Longrightarrow> P t"
  shows "P s'"
  using assms
proof (induction xs arbitrary: s)
  case Nil
  then show ?case by simp
next
  case (Cons x xs)
  from Cons.prems(1) obtain t where t: "f s x = Ok t" "foldM f t xs = Ok s'" by auto
  show ?case
    by (rule Cons.IH [OF t(2)]) (use Cons.prems(2,3) t(1) in auto)
qed

lemma foldM_unit_iff: "foldM (\<lambda>_ x. f x) () xs = Ok () \<longleftrightarrow> (\<forall>x \<in> set xs. f x = Ok ())"
  by (induction xs) auto

fun mapM :: "('a \<Rightarrow> 'b result) \<Rightarrow> 'a list \<Rightarrow> 'b list result" where
  "mapM f [] = Ok []"
| "mapM f (x # xs) = rbind (f x) (\<lambda>y. rbind (mapM f xs) (\<lambda>ys. Ok (y # ys)))"

lemma mapM_Ok_iff: "mapM f xs = Ok ys \<longleftrightarrow> list_all2 (\<lambda>x y. f x = Ok y) xs ys"
proof (induction xs arbitrary: ys)
  case Nil
  show ?case by (cases ys) auto
next
  case (Cons x xs)
  show ?case by (cases ys) (auto simp: Cons.IH)
qed

lemma mapM_pure: "(\<And>x. x \<in> set xs \<Longrightarrow> f x = Ok (g x)) \<Longrightarrow> mapM f xs = Ok (map g xs)"
  by (induction xs) auto

fun the_Ok :: "'a result \<Rightarrow> 'a" where
  "the_Ok (Ok x) = x"

lemma mapM_is_Ok: "(\<And>x. x \<in> set xs \<Longrightarrow> is_Ok (f x)) \<Longrightarrow> mapM f xs = Ok (map (\<lambda>x. the_Ok (f x)) xs)"
  by (rule mapM_pure) (metis is_Ok_iff the_Ok.simps)

section \<open>Go maps as association lists\<close>

type_synonym ('k, 'v) gomap = "('k \<times> 'v) list"

definition keys :: "('k, 'v) gomap \<Rightarrow> 'k list" where
  "keys m = map fst m"

definition wf_map :: "('k, 'v) gomap \<Rightarrow> bool" where
  "wf_map m \<longleftrightarrow> distinct (map fst m)"

abbreviation put :: "'k \<Rightarrow> 'v \<Rightarrow> ('k, 'v) gomap \<Rightarrow> ('k, 'v) gomap" where
  "put \<equiv> AList.update"

abbreviation del :: "'k \<Rightarrow> ('k, 'v) gomap \<Rightarrow> ('k, 'v) gomap" where
  "del \<equiv> AList.delete"

text \<open>Reading a missing key of a \<open>map[string]string\<close> gives the zero value.\<close>

definition get_str :: "('k, string) gomap \<Rightarrow> 'k \<Rightarrow> string" where
  "get_str m k = (case map_of m k of None \<Rightarrow> [] | Some s \<Rightarrow> s)"

lemma wf_map_put [simp]: "wf_map m \<Longrightarrow> wf_map (put k v m)"
  by (simp add: wf_map_def distinct_update)

lemma wf_map_Nil [simp]: "wf_map []"
  by (simp add: wf_map_def)

lemma map_of_put [simp]: "map_of (put k v m) = (map_of m)(k \<mapsto> v)"
  by (rule update_conv')

lemma wf_map_del [simp]: "wf_map m \<Longrightarrow> wf_map (del k m)"
  by (simp add: wf_map_def distinct_delete)

lemma map_of_del [simp]: "map_of (del k m) k' = (if k' = k then None else map_of m k')"
  by (simp add: delete_conv')

lemma get_str_put [simp]: "get_str (put k v m) k' = (if k' = k then v else get_str m k')"
  by (simp add: get_str_def)

lemma map_of_eq_iff_mem: "wf_map m \<Longrightarrow> map_of m k = Some v \<longleftrightarrow> (k, v) \<in> set m"
  by (simp add: wf_map_def map_of_eq_Some_iff)

text \<open>An order in which the runtime may range over a map.\<close>

definition range_order :: "('a list \<Rightarrow> 'a list) \<Rightarrow> bool" where
  "range_order ord \<longleftrightarrow> (\<forall>m. mset (ord m) = mset m)"

lemma range_order_set: "range_order ord \<Longrightarrow> set (ord m) = set m"
  by (metis range_order_def mset_eq_setD)

lemma range_order_id [simp]: "range_order (\<lambda>m. m)"
  by (simp add: range_order_def)

lemma range_order_distinct: "range_order ord \<Longrightarrow> distinct (map f (ord m)) = distinct (map f m)"
  by (metis range_order_def mset_map mset_eq_imp_distinct_iff)

lemma mset_eq_length_filter: "mset xs = mset ys \<Longrightarrow> length (filter P xs) = length (filter P ys)"
  by (metis mset_filter size_mset)

text \<open>In-place update of the value stored under a key, through its pointer.\<close>

definition modify :: "'k \<Rightarrow> ('v \<Rightarrow> 'v) \<Rightarrow> ('k, 'v) gomap \<Rightarrow> ('k, 'v) gomap" where
  "modify k f m = map (\<lambda>(k', v). (k', if k' = k then f v else v)) m"

lemma map_fst_modify [simp]: "map fst (modify k f m) = map fst m"
  by (induction m) (auto simp: modify_def)

lemma wf_map_modify [simp]: "wf_map (modify k f m) = wf_map m"
  by (simp add: wf_map_def)

lemma map_of_modify:
  "map_of (modify k f m) k' = (if k' = k then map_option f (map_of m k) else map_of m k')"
  by (induction m) (auto simp: modify_def)

section \<open>Strings\<close>

text \<open>\<open>strings.HasPrefix\<close>, \<open>HasSuffix\<close>, \<open>Contains\<close>, \<open>ContainsAny\<close>.\<close>

definition HasPrefix :: "string \<Rightarrow> string \<Rightarrow> bool" where
  "HasPrefix s p \<longleftrightarrow> prefix p s"

definition HasSuffix :: "string \<Rightarrow> string \<Rightarrow> bool" where
  "HasSuffix s p \<longleftrightarrow> suffix p s"

fun Contains :: "string \<Rightarrow> string \<Rightarrow> bool" where
  "Contains [] p = (p = [])"
| "Contains (c # s) p = (prefix p (c # s) \<or> Contains s p)"

lemma Contains_iff_sublist: "Contains s p \<longleftrightarrow> sublist p s"
  by (induction s) (auto simp: sublist_Cons_right)

text \<open>\<open>strings.Split\<close> with a one-byte separator and \<open>strings.Join\<close>.\<close>

fun Split :: "char \<Rightarrow> string \<Rightarrow> string list" where
  "Split c [] = [[]]"
| "Split c (x # xs) =
     (if x = c then [] # Split c xs
      else (case Split c xs of [] \<Rightarrow> [[x]] | w # ws \<Rightarrow> (x # w) # ws))"

fun StrJoin :: "string \<Rightarrow> string list \<Rightarrow> string" where
  "StrJoin sep [] = []"
| "StrJoin sep [w] = w"
| "StrJoin sep (w # v # ws) = w @ sep @ StrJoin sep (v # ws)"

lemma Split_ne [simp]: "Split c s \<noteq> []"
  by (induction s) (auto split: list.splits)

lemma StrJoin_Cons: "ws \<noteq> [] \<Longrightarrow> StrJoin sep (w # ws) = w @ sep @ StrJoin sep ws"
  by (cases ws) auto

lemma Split_StrJoin: "StrJoin [c] (Split c s) = s"
proof (induction s)
  case Nil
  show ?case by simp
next
  case (Cons x xs)
  obtain w ws where ws: "Split c xs = w # ws"
    by (cases "Split c xs") auto
  show ?case
  proof (cases "x = c")
    case True
    with Cons.IH show ?thesis by (simp add: StrJoin_Cons)
  next
    case False
    with Cons.IH ws show ?thesis by (cases ws) auto
  qed
qed

text \<open>ASCII case folding (\<open>strings.ToLower\<close>, \<open>strings.EqualFold\<close> on ASCII text).\<close>

definition lower_char :: "char \<Rightarrow> char" where
  "lower_char c = (let n = (of_char c :: nat) in if 65 \<le> n \<and> n \<le> 90 then char_of (n + 32) else c)"

definition ToLower :: "string \<Rightarrow> string" where
  "ToLower s = map lower_char s"

definition EqualFold :: "string \<Rightarrow> string \<Rightarrow> bool" where
  "EqualFold s t \<longleftrightarrow> ToLower s = ToLower t"

text \<open>\<open>strings.Trim(s, cutset)\<close>, \<open>strings.TrimSpace\<close> on ASCII text, \<open>strings.TrimPrefix\<close> and \<open>TrimSuffix\<close>.\<close>

definition Trim :: "char list \<Rightarrow> string \<Rightarrow> string" where
  "Trim cs s = rev (dropWhile (\<lambda>c. c \<in> set cs) (rev (dropWhile (\<lambda>c. c \<in> set cs) s)))"

definition TrimSpace :: "string \<Rightarrow> string" where
  "TrimSpace s = Trim (map char_of [9 :: nat, 10, 11, 12, 13, 32]) s"

definition TrimPrefix :: "string \<Rightarrow> string \<Rightarrow> string" where
  "TrimPrefix s p = (if prefix p s then drop (length p) s else s)"

definition TrimSuffix :: "string \<Rightarrow> string \<Rightarrow> string" where
  "TrimSuffix s p = (if suffix p s then take (length s - length p) s else s)"

section \<open>Decimal formatting\<close>

text \<open>\<open>fmt.Sprintf("%d", n)\<close>.\<close>

fun nat_to_str :: "nat \<Rightarrow> string" where
  "nat_to_str n =
     (if n < 10 then [char_of (48 + n)] else nat_to_str (n div 10) @ [char_of (48 + n mod 10)])"

declare nat_to_str.simps [simp del]

definition itoa :: "int \<Rightarrow> string" where
  "itoa i = (if i < 0 then CHR ''-'' # nat_to_str (nat (- i)) else nat_to_str (nat i))"

definition digit_char :: "char \<Rightarrow> bool" where
  "digit_char c \<longleftrightarrow> 48 \<le> (of_char c :: nat) \<and> (of_char c :: nat) \<le> 57"

text \<open>The value of a string of decimal digits, the inverse of \<^const>\<open>nat_to_str\<close>.\<close>

text \<open>The class \<open>[0-9A-Za-z]\<close> of regular expressions.\<close>

definition token_char :: "char \<Rightarrow> bool" where
  "token_char c \<longleftrightarrow> digit_char c \<or> (let n = of_char c :: nat in 65 \<le> n \<and> n \<le> 90 \<or> 97 \<le> n \<and> n \<le> 122)"

definition str_to_nat :: "string \<Rightarrow> nat" where
  "str_to_nat s = foldl (\<lambda>a c. a * 10 + (of_char c - 48)) 0 s"

lemma of_char_digit [simp]: "n < 10 \<Longrightarrow> of_char (char_of (48 + n) :: char) = (48 + n :: nat)"
  by (simp add: of_char_of)

lemma nat_to_str_ne [simp]: "nat_to_str n \<noteq> []"
  by (subst nat_to_str.simps) simp

lemma nat_to_str_digits: "list_all digit_char (nat_to_str n)"
proof (induction n rule: nat_to_str.induct)
  case (1 n)
  have d: "digit_char (char_of (48 + n mod 10))"
    using of_char_digit [of "n mod 10"] by (simp add: digit_char_def)
  show ?case
  proof (cases "n < 10")
    case True
    with d show ?thesis by (subst nat_to_str.simps) simp
  next
    case False
    with 1 d show ?thesis by (subst nat_to_str.simps) simp
  qed
qed

lemma str_to_nat_append: "str_to_nat (s @ [c]) = str_to_nat s * 10 + (of_char c - 48)"
  by (simp add: str_to_nat_def)

lemma str_to_nat_to_str [simp]: "str_to_nat (nat_to_str n) = n"
proof (induction n rule: nat_to_str.induct)
  case (1 n)
  show ?case
  proof (cases "n < 10")
    case True
    then show ?thesis by (subst nat_to_str.simps) (simp add: str_to_nat_def)
  next
    case False
    have c: "of_char (char_of (48 + n mod 10) :: char) = (48 + n mod 10 :: nat)"
      by (rule of_char_digit) simp
    from False have "nat_to_str n = nat_to_str (n div 10) @ [char_of (48 + n mod 10)]"
      by (subst nat_to_str.simps) simp
    with 1 [OF False] show ?thesis by (simp only: str_to_nat_append c) simp
  qed
qed

lemma nat_to_str_inject [simp]: "nat_to_str m = nat_to_str n \<longleftrightarrow> m = n"
  by (metis str_to_nat_to_str)

lemma nat_to_str_no_minus [simp]: "nat_to_str m \<noteq> CHR ''-'' # s"
proof
  assume "nat_to_str m = CHR ''-'' # s"
  with nat_to_str_digits [of m] have "digit_char (CHR ''-'')" by simp
  then show False by (simp add: digit_char_def)
qed

lemma itoa_inject [simp]: "itoa i = itoa j \<longleftrightarrow> i = j"
  by (auto simp: itoa_def dest: nat_to_str_no_minus [THEN notE, OF sym]
      nat_to_str_no_minus [THEN notE] split: if_splits)

text \<open>The same on integers, which evaluates in binary.\<close>

function int_to_str :: "int \<Rightarrow> string" where
  "int_to_str i = (if i < 10 then [char_of (48 + i)] else int_to_str (i div 10) @ [char_of (48 + i mod 10)])"
  by auto
termination by (relation "measure nat") auto

declare int_to_str.simps [simp del]

lemma int_to_str_int: "int_to_str (int n) = nat_to_str n"
proof (induction n rule: nat_to_str.induct)
  case (1 n)
  have c: "(char_of (48 + int k) :: char) = char_of (48 + k)" for k
    using char_of_nat [of "48 + k", where ?'a = int] by simp
  show ?case
  proof (cases "n < 10")
    case True
    then show ?thesis by (simp add: int_to_str.simps [of "int n"] nat_to_str.simps [of n] c)
  next
    case False
    then have "int_to_str (int n div 10) = nat_to_str (n div 10)" using 1 by (metis of_nat_div of_nat_numeral)
    moreover have "(char_of (48 + int n mod 10) :: char) = char_of (48 + n mod 10)" using c [of "n mod 10"] by (simp add: of_nat_mod)
    ultimately show ?thesis using False by (simp add: int_to_str.simps [of "int n"] nat_to_str.simps [of n])
  qed
qed

lemma itoa_code [code]: "itoa i = (if i < 0 then CHR ''-'' # int_to_str (- i) else int_to_str i)"
  using int_to_str_int [of "nat i"] int_to_str_int [of "nat (- i)"] by (cases "i < 0") (simp_all add: itoa_def)

section \<open>Fixed-width signed integers\<close>

text \<open>Two's complement wrap-around of \<open>int64\<close> and \<open>int32\<close>.\<close>

definition wrap64 :: "int \<Rightarrow> int" where
  "wrap64 i = (i + 2 ^ 63) mod 2 ^ 64 - 2 ^ 63"

definition wrap32 :: "int \<Rightarrow> int" where
  "wrap32 i = (i + 2 ^ 31) mod 2 ^ 32 - 2 ^ 31"

lemma wrap64_id: "- (2 ^ 63) \<le> i \<Longrightarrow> i < 2 ^ 63 \<Longrightarrow> wrap64 i = i"
  by (simp add: wrap64_def)

lemma wrap32_id: "- (2 ^ 31) \<le> i \<Longrightarrow> i < 2 ^ 31 \<Longrightarrow> wrap32 i = i"
  by (simp add: wrap32_def)

text \<open>
  The value \<open>strconv.Atoi\<close> returns, whose error the callers ignore: zero on a syntax error, the nearest
  \<open>int64\<close> if the number is out of range.
\<close>

definition Atoi_val :: "string \<Rightarrow> int" where
  "Atoi_val s =
     (let neg = (case s of c # _ \<Rightarrow> c = CHR ''-'' | [] \<Rightarrow> False);
          pos = (case s of c # _ \<Rightarrow> c = CHR ''+'' | [] \<Rightarrow> False);
          ds = (if neg \<or> pos then tl s else s) in
      if ds = [] \<or> \<not> list_all digit_char ds then 0
      else if neg then max (- (2 ^ 63)) (- int (str_to_nat ds))
      else min (2 ^ 63 - 1) (int (str_to_nat ds)))"

text \<open>\<open>strconv.Atoi\<close> with its error.\<close>

definition Atoi :: "string \<Rightarrow> int result" where
  "Atoi s =
     (let signed = (case s of c # _ \<Rightarrow> c = CHR ''-'' \<or> c = CHR ''+'' | [] \<Rightarrow> False);
          ds = (if signed then tl s else s) in
      if ds = [] \<or> \<not> list_all digit_char ds then Error (ErrExt ''invalid syntax'')
      else if Atoi_val s = (if hd s = CHR ''-'' then - int (str_to_nat ds) else int (str_to_nat ds)) then Ok (Atoi_val s)
      else Error (ErrExt ''value out of range''))"

lemma Atoi_val_nat_to_str: "int n < 2 ^ 63 \<Longrightarrow> Atoi_val (nat_to_str n) = int n"
proof -
  assume n: "int n < 2 ^ 63"
  obtain c cs where cs: "nat_to_str n = c # cs" by (cases "nat_to_str n") auto
  have "digit_char c" using nat_to_str_digits [of n] by (simp add: cs)
  then have "c \<noteq> CHR ''-''" "c \<noteq> CHR ''+''" by (auto simp: digit_char_def)
  then show ?thesis
    using n nat_to_str_digits [of n] str_to_nat_to_str [of n] by (simp add: Atoi_val_def cs Let_def)
qed

section \<open>Paths\<close>

text \<open>
  \<open>filepath.Clean\<close> on Unix: the components without empty and \<open>.\<close> elements, every inner \<open>..\<close> resolved
  (the stack holds the kept components, last first), a leading slash kept.
\<close>

fun clean_comps :: "bool \<Rightarrow> string list \<Rightarrow> string list \<Rightarrow> string list" where
  "clean_comps rooted stack [] = rev stack"
| "clean_comps rooted stack (c # cs) =
     (if c = [] \<or> c = ''.'' then clean_comps rooted stack cs
      else if c = ''..'' then
        (case stack of
           [] \<Rightarrow> clean_comps rooted (if rooted then [] else [''..'']) cs
         | t # rest \<Rightarrow> clean_comps rooted (if t = ''..'' then ''..'' # stack else rest) cs)
      else clean_comps rooted (c # stack) cs)"

definition filepath_Clean :: "string \<Rightarrow> string" where
  "filepath_Clean p =
     (let rooted = HasPrefix p ''/'';
          cs = clean_comps rooted [] (Split (CHR ''/'') p) in
      if rooted then CHR ''/'' # StrJoin ''/'' cs
      else if cs = [] then ''.'' else StrJoin ''/'' cs)"

text \<open>\<open>filepath.Join\<close>: from the first non-empty element on.\<close>

definition filepath_Join :: "string list \<Rightarrow> string" where
  "filepath_Join elems =
     (case dropWhile (\<lambda>e. e = []) elems of [] \<Rightarrow> [] | es \<Rightarrow> filepath_Clean (StrJoin ''/'' es))"

end
