(* ===== verification/Topo_Proto.thy ===== *)
theory Topo_Proto
  imports KNE_Prelude
begin

text \<open>
  The topology description of \<open>proto/topo.proto\<close>: the messages \<open>Topology\<close>, \<open>Node\<close>, \<open>Interface\<close>,
  \<open>Link\<close>, \<open>Config\<close>, \<open>Service\<close> and the host constraints, with the fields the sources read or write.
  A message pointer that may be \<open>nil\<close> is an \<open>option\<close>. Messages stored in a map or a repeated field
  are never \<open>nil\<close>: protobuf decoding does not produce such entries.
\<close>

type_synonym u32 = "32 word"

datatype vendor =
    V_UNKNOWN | V_HOST | V_ARISTA | V_CISCO | V_JUNIPER | V_KEYSIGHT | V_FRR | V_QUAGGA | V_GOBGP
  | V_NOKIA | V_OPENCONFIG | V_ALPINE | V_DRIVENETS | V_FORWARD | V_IN_CLUSTER_PROXY | V_SONIC
  | V_CIENA

text \<open>\<open>tpb.Vendor.String\<close>: the enum's name.\<close>

fun vendor_String :: "vendor \<Rightarrow> string" where
  "vendor_String V_UNKNOWN = ''UNKNOWN''"
| "vendor_String V_HOST = ''HOST''"
| "vendor_String V_ARISTA = ''ARISTA''"
| "vendor_String V_CISCO = ''CISCO''"
| "vendor_String V_JUNIPER = ''JUNIPER''"
| "vendor_String V_KEYSIGHT = ''KEYSIGHT''"
| "vendor_String V_FRR = ''FRR''"
| "vendor_String V_QUAGGA = ''QUAGGA''"
| "vendor_String V_GOBGP = ''GOBGP''"
| "vendor_String V_NOKIA = ''NOKIA''"
| "vendor_String V_OPENCONFIG = ''OPENCONFIG''"
| "vendor_String V_ALPINE = ''ALPINE''"
| "vendor_String V_DRIVENETS = ''DRIVENETS''"
| "vendor_String V_FORWARD = ''FORWARD''"
| "vendor_String V_IN_CLUSTER_PROXY = ''IN_CLUSTER_PROXY''"
| "vendor_String V_SONIC = ''SONIC''"
| "vendor_String V_CIENA = ''CIENA''"

datatype service_type = Service_UNKNOWN | Service_LOAD_BALANCER | Service_NODE_PORT | Service_CLUSTER_IP

record service =
  svc_Name :: string
  svc_Inside :: u32
  svc_Outside :: u32
  svc_InsideIp :: string
  svc_OutsideIp :: string
  svc_NodePort :: u32
  svc_Names :: "string list"
  svc_Type :: service_type
  svc_ExternalIpv6 :: bool

definition empty_service :: service where
  "empty_service = \<lparr>svc_Name = [], svc_Inside = 0, svc_Outside = 0, svc_InsideIp = [],
     svc_OutsideIp = [], svc_NodePort = 0, svc_Names = [], svc_Type = Service_UNKNOWN,
     svc_ExternalIpv6 = False\<rparr>"

record "interface" =
  ifc_Name :: string
  ifc_IntName :: string
  ifc_Mtu :: u32
  ifc_PeerName :: string
  ifc_PeerIntName :: string
  ifc_Uid :: int
  ifc_Group :: string

definition empty_interface :: "interface" where
  "empty_interface = \<lparr>ifc_Name = [], ifc_IntName = [], ifc_Mtu = 0, ifc_PeerName = [],
     ifc_PeerIntName = [], ifc_Uid = 0, ifc_Group = []\<rparr>"

record link =
  l_ANode :: string
  l_AInt :: string
  l_ZNode :: string
  l_ZInt :: string

record self_signed =
  ss_CertName :: string
  ss_KeyName :: string
  ss_KeySize :: u32
  ss_CommonName :: string

text \<open>\<open>CertificateCfg\<close> has a oneof with the single member \<open>self_signed\<close>.\<close>

datatype certificate_cfg = CertificateCfg (cert_SelfSigned: "self_signed option")

datatype config_data = Config_Data string | Config_File string

record config =
  cfg_Command :: "string list"
  cfg_Args :: "string list"
  cfg_Image :: string
  cfg_Env :: "(string, string) gomap option"
  cfg_EntryCommand :: string
  cfg_ConfigPath :: string
  cfg_ConfigFile :: string
  cfg_Sleep :: u32
  cfg_Cert :: "certificate_cfg option"
  cfg_ConfigData :: "config_data option"
  cfg_InitImage :: string
  cfg_VendorData :: "string option"

definition empty_config :: config where
  "empty_config = \<lparr>cfg_Command = [], cfg_Args = [], cfg_Image = [], cfg_Env = None,
     cfg_EntryCommand = [], cfg_ConfigPath = [], cfg_ConfigFile = [], cfg_Sleep = 0,
     cfg_Cert = None, cfg_ConfigData = None, cfg_InitImage = [], cfg_VendorData = None\<rparr>"

text \<open>\<open>BoundedInteger\<close> holds two \<open>int64\<close>; \<open>KernelParam\<close> and \<open>HostConstraint\<close> are oneofs that may be unset.\<close>

record bounded_integer =
  bi_MaxValue :: int
  bi_MinValue :: int

record kernel_param =
  kp_Name :: string
  kp_BoundedInteger :: "bounded_integer option"

datatype host_constraint = KernelConstraint kernel_param | UnsetConstraint

record node =
  n_Name :: string
  n_Labels :: "(string, string) gomap option"
  n_Config :: "config option"
  n_Services :: "(u32, service) gomap option"
  n_Constraints :: "(string, string) gomap option"
  n_Vendor :: vendor
  n_Model :: string
  n_Version :: string
  n_Os :: string
  n_Interfaces :: "(string, interface) gomap"
  n_HostConstraints :: "host_constraint list"
  n_PodIp :: string

definition empty_node :: node where
  "empty_node = \<lparr>n_Name = [], n_Labels = None, n_Config = None, n_Services = None,
     n_Constraints = None, n_Vendor = V_UNKNOWN, n_Model = [], n_Version = [], n_Os = [],
     n_Interfaces = [], n_HostConstraints = [], n_PodIp = []\<rparr>"

record topology =
  t_Name :: string
  t_Nodes :: "node list"
  t_Links :: "link list"

text \<open>The generated getters return the zero value on a \<open>nil\<close> message or map.\<close>

definition items :: "('k, 'v) gomap option \<Rightarrow> ('k, 'v) gomap" where
  "items m = (case m of None \<Rightarrow> [] | Some xs \<Rightarrow> xs)"

lemma items_simps [simp]: "items None = []" "items (Some xs) = xs"
  by (simp_all add: items_def)

definition GetConfig :: "node \<Rightarrow> config" where
  "GetConfig n = (case n_Config n of None \<Rightarrow> empty_config | Some c \<Rightarrow> c)"

definition GetSelfSigned :: "node \<Rightarrow> self_signed option" where
  "GetSelfSigned n = (case cfg_Cert (GetConfig n) of None \<Rightarrow> None | Some c \<Rightarrow> cert_SelfSigned c)"

text \<open>A node whose maps have distinct keys, as every Go map has.\<close>

definition wf_node :: "node \<Rightarrow> bool" where
  "wf_node n \<longleftrightarrow> wf_map (n_Interfaces n) \<and> wf_map (items (n_Services n)) \<and>
     wf_map (items (n_Labels n)) \<and> wf_map (items (n_Constraints n))"

end
