(* ===== verification/Node_Links.thy ===== *)
theory Node_Links
  imports Topo_Proto
begin

text \<open>
  The part of \<open>topo/node/node.go\<close> that turns a node's interfaces into meshnet links, and the registry
  through which \<open>node.New\<close> finds the constructor of a vendor. The meshnet types are those of
  \<open>third_party/meshnet/api/types/v1beta1/topology.go\<close>.
\<close>

section \<open>Meshnet resources\<close>

record mlink =
  ml_UID :: int
  ml_LocalIntf :: string
  ml_PeerIntf :: string
  ml_PeerPod :: string
  ml_LocalIP :: string
  ml_PeerIP :: string
  ml_MTU :: int

record mtopo =
  mt_Name :: string
  mt_Links :: "mlink list"

section \<open>From interfaces to links\<close>

definition mk_link :: "string \<Rightarrow> interface \<Rightarrow> mlink" where
  "mk_link ifcName ifc =
     \<lparr>ml_UID = ifc_Uid ifc, ml_LocalIntf = ifcName, ml_PeerIntf = ifc_PeerIntName ifc,
      ml_PeerPod = ifc_PeerName ifc, ml_LocalIP = [], ml_PeerIP = [], ml_MTU = uint (ifc_Mtu ifc)\<rparr>"

text \<open>The loop of \<open>GetNodeLinks\<close> over the interface map: the management interface \<open>eth0\<close> is skipped
  and the first interface without a peer ends the loop with an error.\<close>

fun links_loop :: "(string \<times> interface) list \<Rightarrow> mlink list result" where
  "links_loop [] = Ok []"
| "links_loop ((ifcName, ifc) # rest) =
     (if ifcName = ''eth0'' then links_loop rest
      else if ifc_PeerIntName ifc = [] then
        Error (Errorf ''interface %q PeerIntName cannot be empty'' [ifcName])
      else if ifc_PeerName ifc = [] then
        Error (Errorf ''interface %q PeerName cannot be empty'' [ifcName])
      else rbind (links_loop rest) (\<lambda>links. Ok (mk_link ifcName ifc # links)))"

definition GetNodeLinks :: "node \<Rightarrow> mlink list result" where
  "GetNodeLinks n = links_loop (n_Interfaces n)"

definition TopologySpecs :: "node \<Rightarrow> mtopo list result" where
  "TopologySpecs n =
     rbind (GetNodeLinks n) (\<lambda>links. Ok [\<lparr>mt_Name = n_Name n, mt_Links = links\<rparr>])"

text \<open>An interface that meshnet can wire up: it has both peer fields.\<close>

definition has_peer :: "interface \<Rightarrow> bool" where
  "has_peer i \<longleftrightarrow> ifc_PeerName i \<noteq> [] \<and> ifc_PeerIntName i \<noteq> []"

definition data_ifcs :: "node \<Rightarrow> (string \<times> interface) list" where
  "data_ifcs n = filter (\<lambda>(k, i). k \<noteq> ''eth0'') (n_Interfaces n)"

lemma links_loop_Ok:
  "(\<And>k i. (k, i) \<in> set is \<Longrightarrow> k \<noteq> ''eth0'' \<Longrightarrow> has_peer i) \<Longrightarrow>
   links_loop is = Ok (map (\<lambda>(k, i). mk_link k i) (filter (\<lambda>(k, i). k \<noteq> ''eth0'') is))"
proof (induction "is")
  case Nil
  show ?case by simp
next
  case (Cons a "is")
  obtain k i where a: "a = (k, i)" by (cases a)
  have IH: "links_loop is = Ok (map (\<lambda>(k, i). mk_link k i) (filter (\<lambda>(k, i). k \<noteq> ''eth0'') is))"
    by (rule Cons.IH) (use Cons.prems in auto)
  have "k \<noteq> ''eth0'' \<Longrightarrow> has_peer i"
    using Cons.prems [of k i] a by simp
  with IH a show ?case by (auto simp: has_peer_def)
qed

lemma links_loop_fails:
  "(k, i) \<in> set is \<Longrightarrow> k \<noteq> ''eth0'' \<Longrightarrow> \<not> has_peer i \<Longrightarrow> \<exists>e. links_loop is = Error e"
proof (induction "is")
  case Nil
  then show ?case by simp
next
  case (Cons a "is")
  obtain k' i' where a: "a = (k', i')" by (cases a)
  show ?case
  proof (cases "a = (k, i)")
    case True
    with Cons.prems show ?thesis by (auto simp: has_peer_def)
  next
    case False
    with Cons obtain e where "links_loop is = Error e" by auto
    with a show ?thesis by auto
  qed
qed

lemma GetNodeLinks_Ok:
  assumes "\<And>k i. (k, i) \<in> set (n_Interfaces n) \<Longrightarrow> k \<noteq> ''eth0'' \<Longrightarrow> has_peer i"
  shows "GetNodeLinks n = Ok (map (\<lambda>(k, i). mk_link k i) (data_ifcs n))"
  using links_loop_Ok [of "n_Interfaces n"] assms by (simp add: GetNodeLinks_def data_ifcs_def)

section \<open>The vendor registry\<close>

text \<open>
  \<open>vendorTypes\<close> maps a vendor to its \<open>NewNodeFn\<close>. A constructor receives the node description,
  fills in the vendor's defaults in place and returns the node or an error; the model returns the
  description as the constructor leaves it.
\<close>

type_synonym new_node_fn = "node \<Rightarrow> node result"
type_synonym registry = "(vendor, new_node_fn) gomap"

definition Vendor :: "vendor \<Rightarrow> new_node_fn \<Rightarrow> registry \<Rightarrow> registry result" where
  "Vendor v fn vendorTypes =
     (case map_of vendorTypes v of
        Some _ \<Rightarrow> Panic ''duplicate registration''
      | None \<Rightarrow> Ok (put v fn vendorTypes))"

text \<open>\<open>None\<close> is a \<open>nil\<close> \<open>*Impl\<close>, \<open>Some None\<close> an \<open>Impl\<close> whose \<open>Proto\<close> is \<open>nil\<close>.\<close>

definition getImpl :: "registry \<Rightarrow> node option option \<Rightarrow> node result" where
  "getImpl vendorTypes impl =
     (case impl of
        None \<Rightarrow> Error (Errorf ''node implementation cannot be nil'' [])
      | Some None \<Rightarrow> Error (Errorf ''node implementation proto cannot be nil'' [])
      | Some (Some pb) \<Rightarrow>
          (case map_of vendorTypes (n_Vendor pb) of
             Some fn \<Rightarrow> fn pb
           | None \<Rightarrow> Error (Errorf ''node implementation not found for vendor %v''
                             [vendor_String (n_Vendor pb)])))"

definition New :: "registry \<Rightarrow> node option \<Rightarrow> node result" where
  "New vendorTypes pb = getImpl vendorTypes (Some pb)"

lemma New_registered:
  "map_of reg (n_Vendor pb) = Some fn \<Longrightarrow> New reg (Some pb) = fn pb"
  by (simp add: New_def getImpl_def)

lemma Vendor_registers:
  "Vendor v fn reg = Ok reg' \<Longrightarrow> map_of reg' v = Some fn \<and> (\<forall>u. u \<noteq> v \<longrightarrow> map_of reg' u = map_of reg u)"
  by (auto simp: Vendor_def split: option.splits)

text \<open>\<open>BackToBackLoop\<close>: false for every node type but Keysight's, which overrides it.\<close>

definition BackToBackLoop :: "vendor \<Rightarrow> bool" where
  "BackToBackLoop v \<longleftrightarrow> v = V_KEYSIGHT"

end
