(* ===== verification/Topo_Load.thy ===== *)
theory Topo_Load
  imports Node_Links
begin

text \<open>
  \<open>Manager.load\<close> of \<open>topo/topo.go\<close>. The node messages are shared by pointer between \<open>topo.Nodes\<close>,
  \<open>nMap\<close> and the node objects, so the model keeps them in one list and refers to a node by its index:
  \<open>nMap\<close> maps a name to the index of the last node with that name. An interface pointer is the pair of
  a node index and a key of that node's interface map, so that two links that name the same interface
  (or one link whose two ends coincide) alias the same cell, as in the code.
\<close>

section \<open>The interface store\<close>

type_synonym addr = "nat \<times> string"

definition ifc_at :: "node list \<Rightarrow> addr \<Rightarrow> interface option" where
  "ifc_at ns a = (if fst a < length ns then map_of (n_Interfaces (ns ! fst a)) (snd a) else None)"

text \<open>\<open>aNode.Interfaces[l.AInt]\<close>, created with its \<open>IntName\<close> if it is missing.\<close>

definition ensure_ifc :: "addr \<Rightarrow> node list \<Rightarrow> node list" where
  "ensure_ifc a ns =
     (case ifc_at ns a of
        Some _ \<Rightarrow> ns
      | None \<Rightarrow> ns[fst a := (ns ! fst a)\<lparr>n_Interfaces :=
                   put (snd a) (empty_interface\<lparr>ifc_IntName := snd a\<rparr>) (n_Interfaces (ns ! fst a))\<rparr>])"

definition upd_ifc :: "addr \<Rightarrow> (interface \<Rightarrow> interface) \<Rightarrow> node list \<Rightarrow> node list" where
  "upd_ifc a f ns =
     ns[fst a := (ns ! fst a)\<lparr>n_Interfaces := modify (snd a) f (n_Interfaces (ns ! fst a))\<rparr>]"

definition peer_name :: "node list \<Rightarrow> addr \<Rightarrow> string" where
  "peer_name ns a = (case ifc_at ns a of None \<Rightarrow> [] | Some i \<Rightarrow> ifc_PeerName i)"

definition set_peer :: "string \<Rightarrow> string \<Rightarrow> int \<Rightarrow> interface \<Rightarrow> interface" where
  "set_peer n k uid i = i\<lparr>ifc_PeerName := n, ifc_PeerIntName := k, ifc_Uid := uid\<rparr>"

lemma length_ensure_ifc [simp, kne_frame]: "length (ensure_ifc a ns) = length ns"
  by (simp add: ensure_ifc_def split: option.splits)

lemma length_upd_ifc [simp, kne_frame]: "length (upd_ifc a f ns) = length ns"
  by (simp add: upd_ifc_def)

lemma ifc_at_ensure:
  "fst a < length ns \<Longrightarrow>
   ifc_at (ensure_ifc a ns) b =
     (if b = a \<and> ifc_at ns a = None then Some (empty_interface\<lparr>ifc_IntName := snd a\<rparr>) else ifc_at ns b)"
  by (cases a; cases b) (auto simp: ensure_ifc_def ifc_at_def nth_list_update split: option.splits)

lemma ifc_at_upd:
  "fst a < length ns \<Longrightarrow>
   ifc_at (upd_ifc a f ns) b = (if b = a then map_option f (ifc_at ns a) else ifc_at ns b)"
  by (cases a; cases b) (auto simp: upd_ifc_def ifc_at_def nth_list_update map_of_modify)

section \<open>The loops of load\<close>

text \<open>First loop: an interface without \<open>IntName\<close> is named after its key, and \<open>nMap\<close> is filled.\<close>

definition name_ifcs :: "node \<Rightarrow> node" where
  "name_ifcs n = n\<lparr>n_Interfaces :=
     map (\<lambda>(k, i). (k, if ifc_IntName i = [] then i\<lparr>ifc_IntName := k\<rparr> else i)) (n_Interfaces n)\<rparr>"

fun build_nMap :: "nat \<Rightarrow> node list \<Rightarrow> (string, nat) gomap \<Rightarrow> (string, nat) gomap" where
  "build_nMap idx [] m = m"
| "build_nMap idx (n # ns) m = build_nMap (Suc idx) ns (put (n_Name n) idx m)"

text \<open>Second loop: one iteration connects the two interfaces of a link and gives it the next UID.\<close>

definition add_link :: "(string, nat) gomap \<Rightarrow> node list \<times> nat \<Rightarrow> link \<Rightarrow> (node list \<times> nat) result" where
  "add_link nMap st l =
     (let ns = fst st; uid = snd st in
      case map_of nMap (l_ANode l) of
        None \<Rightarrow> Error (Errorf ''invalid topology: missing node %q'' [l_ANode l])
      | Some aNode \<Rightarrow>
          (let aInt = (aNode, l_AInt l); ns = ensure_ifc aInt ns in
           case map_of nMap (l_ZNode l) of
             None \<Rightarrow> Error (Errorf ''invalid topology: missing node %q'' [l_ZNode l])
           | Some zNode \<Rightarrow>
               (let zInt = (zNode, l_ZInt l); ns = ensure_ifc zInt ns in
                if peer_name ns aInt \<noteq> [] then
                  Error (Errorf ''interface %s:%s already connected'' [l_ANode l, l_AInt l])
                else if peer_name ns zInt \<noteq> [] then
                  Error (Errorf ''interface %s:%s already connected'' [l_ZNode l, l_ZInt l])
                else
                  Ok (upd_ifc zInt (set_peer (l_ANode l) (l_AInt l) (int uid))
                       (upd_ifc aInt (set_peer (l_ZNode l) (l_ZInt l) (int uid)) ns), Suc uid))))"

definition add_links :: "(string, nat) gomap \<Rightarrow> node list \<Rightarrow> link list \<Rightarrow> (node list \<times> nat) result" where
  "add_links nMap ns links = foldM (add_link nMap) (ns, 0) links"

text \<open>
  Third loop: for every entry of \<open>nMap\<close>, the \<open>set_pid_max\<close> workaround script is run if it exists, and
  the node is constructed. \<open>pidMax\<close> is \<open>None\<close> if the script is not installed, else its output and
  error for the iteration of a node.
\<close>

type_synonym pid_max = "(string \<Rightarrow> string \<times> err option) option"

definition run_pid_max :: "pid_max \<Rightarrow> string \<Rightarrow> unit result" where
  "run_pid_max pidMax k =
     (case pidMax of
        None \<Rightarrow> Ok ()
      | Some script \<Rightarrow>
          (case script k of
             (out, None) \<Rightarrow> Ok ()
           | (out, Some e) \<Rightarrow>
               if out \<noteq> [] then Error (Errorw ''failed to exec set_pid_max script: %w: %s'' [TrimSpace out] e)
               else Error (Errorw ''failed to exec set_pid_max script: %w'' [] e)))"

definition new_node ::
  "registry \<Rightarrow> pid_max \<Rightarrow> node list \<times> (string, nat) gomap \<Rightarrow> string \<times> nat \<Rightarrow>
   (node list \<times> (string, nat) gomap) result" where
  "new_node reg pidMax st kn =
     (case (st, kn) of ((ns, nodes), (k, i)) \<Rightarrow>
        rbind (run_pid_max pidMax k) (\<lambda>_.
          case New reg (Some (ns ! i)) of
            Ok nn \<Rightarrow> Ok (ns[i := nn], put k i nodes)
          | Error e \<Rightarrow> Error (Errorw ''failed to load topology: %w'' [] e)
          | Panic p \<Rightarrow> Panic p))"

text \<open>Fourth loop: a link between two interfaces of one node needs a node type that supports it.\<close>

definition node_b2b :: "node list \<Rightarrow> (string, nat) gomap \<Rightarrow> string \<Rightarrow> bool result" where
  "node_b2b ns nodes name =
     (case map_of nodes name of
        None \<Rightarrow> Panic ''nil node''
      | Some i \<Rightarrow> Ok (BackToBackLoop (n_Vendor (ns ! i))))"

definition check_loop :: "node list \<Rightarrow> (string, nat) gomap \<Rightarrow> link \<Rightarrow> unit result" where
  "check_loop ns nodes l =
     rbind (node_b2b ns nodes (l_ANode l)) (\<lambda>a.
       rbind (if a then node_b2b ns nodes (l_ZNode l) else Ok False) (\<lambda>z.
         let loop = (a \<and> z) in
         if \<not> loop \<and> l_ANode l = l_ZNode l then
           Error (Errorf ''invalid link: back to back loop %s:%s %s:%s not supported''
             [l_ANode l, l_AInt l, l_ZNode l, l_ZInt l])
         else Ok ()))"

text \<open>
  The manager's topology and its node objects (\<open>m.nodes\<close>, a name and the index of the node's message).
  \<open>ord\<close> gives the order in which the runtime ranges over \<open>nMap\<close>.
\<close>

record manager =
  m_topo :: topology
  m_nodes :: "(string, nat) gomap"

definition load ::
  "registry \<Rightarrow> pid_max \<Rightarrow> ((string, nat) gomap \<Rightarrow> (string, nat) gomap) \<Rightarrow> topology \<Rightarrow> manager result" where
  "load reg pidMax ord topo =
     (let nodes = map name_ifcs (t_Nodes topo);
          nMap = build_nMap 0 nodes [] in
      rbind (add_links nMap nodes (t_Links topo)) (\<lambda>(ns, uid).
      rbind (foldM (new_node reg pidMax) (ns, []) (ord nMap)) (\<lambda>(ns, mnodes).
      rbind (foldM (\<lambda>_ l. check_loop ns mnodes l) () (t_Links topo)) (\<lambda>_.
        Ok \<lparr>m_topo = topo\<lparr>t_Nodes := ns\<rparr>, m_nodes = mnodes\<rparr>))))"

section \<open>What the name map says\<close>

definition nm_ok :: "(string, nat) gomap \<Rightarrow> node list \<Rightarrow> bool" where
  "nm_ok nMap ns \<longleftrightarrow>
     (\<forall>k i. map_of nMap k = Some i \<longrightarrow> i < length ns \<and> n_Name (ns ! i) = k)"

lemma build_nMap_get:
  "map_of (build_nMap idx ns m) k = Some i \<Longrightarrow>
     map_of m k = Some i \<or> (idx \<le> i \<and> i < idx + length ns \<and> n_Name (ns ! (i - idx)) = k)"
proof (induction idx ns m rule: build_nMap.induct)
  case (1 idx m)
  then show ?case by simp
next
  case (2 idx n ns m)
  then have "map_of (put (n_Name n) idx m) k = Some i \<or>
    (Suc idx \<le> i \<and> i < Suc idx + length ns \<and> n_Name (ns ! (i - Suc idx)) = k)" by simp
  then show ?case
  proof
    assume "map_of (put (n_Name n) idx m) k = Some i"
    then show ?thesis by (auto split: if_splits)
  next
    assume r: "Suc idx \<le> i \<and> i < Suc idx + length ns \<and> n_Name (ns ! (i - Suc idx)) = k"
    then have "(n # ns) ! (i - idx) = ns ! (i - Suc idx)"
      by (simp add: Suc_diff_le Suc_le_eq nth_Cons' diff_Suc)
    with r show ?thesis by simp
  qed
qed

lemma build_nMap_mono: "map_of m k \<noteq> None \<Longrightarrow> map_of (build_nMap idx ns m) k \<noteq> None"
  by (induction idx ns m rule: build_nMap.induct) (auto split: if_splits)

lemma build_nMap_defined: "n \<in> set ns \<Longrightarrow> map_of (build_nMap idx ns m) (n_Name n) \<noteq> None"
proof (induction idx ns m rule: build_nMap.induct)
  case (1 idx m)
  then show ?case by simp
next
  case (2 idx n' ns m)
  show ?case
  proof (cases "n \<in> set ns")
    case True
    with 2 show ?thesis by simp
  next
    case False
    with "2.prems" have "n = n'" by simp
    then have "map_of (put (n_Name n') idx m) (n_Name n) \<noteq> None" by simp
    then show ?thesis by (simp only: build_nMap.simps build_nMap_mono not_False_eq_True)
  qed
qed

lemma nm_ok_build: "nm_ok (build_nMap 0 ns []) ns"
  using build_nMap_get [of 0 ns "[]"] by (fastforce simp: nm_ok_def)

lemma wf_map_build: "wf_map m \<Longrightarrow> wf_map (build_nMap idx ns m)"
  by (induction idx ns m rule: build_nMap.induct) auto

section \<open>What the link loop establishes\<close>

definition a_addr :: "(string, nat) gomap \<Rightarrow> link \<Rightarrow> addr" where
  "a_addr nMap l = (the (map_of nMap (l_ANode l)), l_AInt l)"

definition z_addr :: "(string, nat) gomap \<Rightarrow> link \<Rightarrow> addr" where
  "z_addr nMap l = (the (map_of nMap (l_ZNode l)), l_ZInt l)"

definition endpoints :: "(string, nat) gomap \<Rightarrow> link \<Rightarrow> addr set" where
  "endpoints nMap l = {a_addr nMap l, z_addr nMap l}"

text \<open>The interface at \<open>a\<close> is connected to interface \<open>k\<close> of node \<open>n\<close> by the link with this UID.\<close>

definition linked_at :: "node list \<Rightarrow> addr \<Rightarrow> string \<Rightarrow> string \<Rightarrow> nat \<Rightarrow> bool" where
  "linked_at ns a n k uid \<longleftrightarrow>
     (\<exists>i. ifc_at ns a = Some i \<and> ifc_PeerName i = n \<and> ifc_PeerIntName i = k \<and> ifc_Uid i = int uid)"

text \<open>Both ends of \<open>l\<close> point at each other.\<close>

definition link_wired :: "(string, nat) gomap \<Rightarrow> node list \<Rightarrow> link \<Rightarrow> nat \<Rightarrow> bool" where
  "link_wired nMap ns l uid \<longleftrightarrow>
     linked_at ns (a_addr nMap l) (l_ZNode l) (l_ZInt l) uid \<and>
     linked_at ns (z_addr nMap l) (l_ANode l) (l_AInt l) uid"

definition nodes_known :: "(string, nat) gomap \<Rightarrow> link \<Rightarrow> bool" where
  "nodes_known nMap l \<longleftrightarrow> map_of nMap (l_ANode l) \<noteq> None \<and> map_of nMap (l_ZNode l) \<noteq> None"

definition free_ends :: "(string, nat) gomap \<Rightarrow> node list \<Rightarrow> link \<Rightarrow> bool" where
  "free_ends nMap ns l \<longleftrightarrow> (\<forall>a \<in> endpoints nMap l. peer_name ns a = [])"

lemma nm_ok_inj:
  "nm_ok nMap ns \<Longrightarrow> map_of nMap j = Some i \<Longrightarrow> map_of nMap k = Some i \<Longrightarrow> j = k"
  by (auto simp: nm_ok_def)

lemma peer_name_ensure: "fst a < length ns \<Longrightarrow> peer_name (ensure_ifc a ns) b = peer_name ns b"
  by (auto simp: peer_name_def ifc_at_ensure empty_interface_def)

text \<open>One iteration succeeds exactly on two known nodes with free interfaces.\<close>

lemma add_link_Ok_iff:
  assumes "nm_ok nMap ns"
  shows "is_Ok (add_link nMap (ns, uid) l) \<longleftrightarrow> nodes_known nMap l \<and> free_ends nMap ns l"
  using assms
  by (auto simp: add_link_def Let_def nodes_known_def free_ends_def endpoints_def a_addr_def z_addr_def
      peer_name_ensure nm_ok_def split: option.splits)

lemma add_link_effect:
  assumes nm: "nm_ok nMap ns" and ok: "add_link nMap (ns, uid) l = Ok (ns', uid')"
  shows "uid' = Suc uid" and "length ns' = length ns" and "link_wired nMap ns' l uid"
    and "\<forall>b. b \<notin> endpoints nMap l \<longrightarrow> ifc_at ns' b = ifc_at ns b"
proof -
  have "is_Ok (add_link nMap (ns, uid) l)" using ok by simp
  with nm have "nodes_known nMap l" by (simp add: add_link_Ok_iff)
  then obtain a z where a: "map_of nMap (l_ANode l) = Some a" and z: "map_of nMap (l_ZNode l) = Some z"
    by (auto simp: nodes_known_def)
  define aI zI where "aI = (a, l_AInt l)" and "zI = (z, l_ZInt l)"
  define ns2 where "ns2 = ensure_ifc zI (ensure_ifc aI ns)"
  have lt: "fst aI < length ns" "fst zI < length ns"
    using nm a z by (auto simp: nm_ok_def aI_def zI_def)
  have addrs: "a_addr nMap l = aI" "z_addr nMap l = zI"
    by (simp_all add: a_addr_def z_addr_def a z aI_def zI_def)
  have ns': "ns' = upd_ifc zI (set_peer (l_ANode l) (l_AInt l) (int uid))
      (upd_ifc aI (set_peer (l_ZNode l) (l_ZInt l) (int uid)) ns2)" and "uid' = Suc uid"
    using ok a z by (auto simp: add_link_def Let_def aI_def zI_def ns2_def split: if_splits)
  then show "uid' = Suc uid" and "length ns' = length ns" by (simp_all add: ns2_def)
  have present: "\<exists>i. ifc_at ns2 aI = Some i" "\<exists>i. ifc_at ns2 zI = Some i"
    using lt by (auto simp: ns2_def ifc_at_ensure)
  have same: "aI = zI \<Longrightarrow> l_ANode l = l_ZNode l \<and> l_AInt l = l_ZInt l"
    using nm_ok_inj [OF nm a] z by (auto simp: aI_def zI_def)
  show "link_wired nMap ns' l uid"
    using present lt same
    by (auto simp: link_wired_def linked_at_def addrs ns' ns2_def ifc_at_upd set_peer_def)
  show "\<forall>b. b \<notin> endpoints nMap l \<longrightarrow> ifc_at ns' b = ifc_at ns b"
    using lt by (auto simp: endpoints_def addrs ns' ns2_def ifc_at_upd ifc_at_ensure)
qed

text \<open>Everything of a node but its interface map.\<close>

definition strip :: "node \<Rightarrow> node" where
  "strip n = n\<lparr>n_Interfaces := []\<rparr>"

lemma strip_ensure [kne_frame]: "map strip (ensure_ifc a ns) = map strip ns"
proof (cases "fst a < length ns")
  case True
  then show ?thesis
    by (simp add: ensure_ifc_def map_update strip_def list_update_same_conv split: option.splits)
next
  case False
  then show ?thesis by (simp add: ensure_ifc_def list_update_beyond split: option.splits)
qed

lemma strip_upd [kne_frame]: "map strip (upd_ifc a f ns) = map strip ns"
proof (cases "fst a < length ns")
  case True
  then show ?thesis by (simp add: upd_ifc_def map_update strip_def list_update_same_conv)
next
  case False
  then show ?thesis by (simp add: upd_ifc_def list_update_beyond)
qed

lemma add_link_strip [kne_frame]:
  "add_link nMap (ns, uid) l = Ok (ns', uid') \<Longrightarrow> map strip ns' = map strip ns"
  by (auto simp: add_link_def Let_def strip_ensure strip_upd split: option.splits if_splits)

lemma strip_eq_names: "map strip ns' = map strip ns \<Longrightarrow> nm_ok nMap ns' = nm_ok nMap ns"
proof -
  assume eq: "map strip ns' = map strip ns"
  have len: "length ns' = length ns" using eq by (rule map_eq_imp_length_eq)
  have "n_Name (ns' ! i) = n_Name (ns ! i)" if "i < length ns" for i
  proof -
    have "strip (ns' ! i) = strip (ns ! i)"
      using that len nth_map [of i ns' strip] nth_map [of i ns strip] eq by simp
    then have "n_Name (strip (ns' ! i)) = n_Name (strip (ns ! i))" by simp
    then show ?thesis by (simp add: strip_def)
  qed
  then show ?thesis unfolding nm_ok_def len by metis
qed

lemma strip_nth:
  assumes "map strip ns' = map strip ns" and "i < length ns"
  shows "i < length ns'" and "n_Name (ns' ! i) = n_Name (ns ! i)" and "n_Vendor (ns' ! i) = n_Vendor (ns ! i)"
proof -
  show len: "i < length ns'" using assms map_eq_imp_length_eq [OF assms(1)] by simp
  have eq: "strip (ns' ! i) = strip (ns ! i)" using assms len by (metis nth_map)
  show "n_Name (ns' ! i) = n_Name (ns ! i)" using arg_cong [OF eq, of n_Name] by (simp add: strip_def)
  show "n_Vendor (ns' ! i) = n_Vendor (ns ! i)" using arg_cong [OF eq, of n_Vendor] by (simp add: strip_def)
qed

text \<open>No two links of a list share an interface.\<close>

definition ends_disjoint :: "(string, nat) gomap \<Rightarrow> link list \<Rightarrow> bool" where
  "ends_disjoint nMap links \<longleftrightarrow>
     sorted_wrt (\<lambda>l l'. endpoints nMap l \<inter> endpoints nMap l' = {}) links"

definition all_ends :: "(string, nat) gomap \<Rightarrow> link list \<Rightarrow> addr set" where
  "all_ends nMap links = (\<Union>l \<in> set links. endpoints nMap l)"

lemma all_ends_snoc [simp]: "all_ends nMap (ls @ [l]) = all_ends nMap ls \<union> endpoints nMap l"
  by (auto simp: all_ends_def)

lemma all_ends_Nil [simp]: "all_ends nMap [] = {}"
  by (simp add: all_ends_def)

lemma ends_disjoint_snoc:
  "ends_disjoint nMap (ls @ [l]) \<longleftrightarrow>
     ends_disjoint nMap ls \<and> all_ends nMap ls \<inter> endpoints nMap l = {}"
  unfolding ends_disjoint_def sorted_wrt_append all_ends_def by auto

text \<open>The state of the link loop after a list of links.\<close>

definition loop_inv :: "(string, nat) gomap \<Rightarrow> node list \<Rightarrow> link list \<Rightarrow> node list \<times> nat \<Rightarrow> bool" where
  "loop_inv nMap ns0 links st \<longleftrightarrow>
     snd st = length links \<and> map strip (fst st) = map strip ns0 \<and>
     (\<forall>i < length links. link_wired nMap (fst st) (links ! i) i) \<and>
     (\<forall>b. b \<notin> all_ends nMap links \<longrightarrow> ifc_at (fst st) b = ifc_at ns0 b)"

lemma link_wired_cong:
  "(\<And>b. b \<in> endpoints nMap l \<Longrightarrow> ifc_at ns' b = ifc_at ns b) \<Longrightarrow>
   link_wired nMap ns' l uid = link_wired nMap ns l uid"
  by (simp add: link_wired_def linked_at_def endpoints_def)

lemma wired_peer_name:
  "link_wired nMap ns l uid \<Longrightarrow> nodes_known nMap l \<Longrightarrow> (\<forall>k. map_of nMap k \<noteq> None \<longrightarrow> k \<noteq> []) \<Longrightarrow>
   a \<in> endpoints nMap l \<Longrightarrow> peer_name ns a \<noteq> []"
  by (auto simp: link_wired_def linked_at_def endpoints_def peer_name_def nodes_known_def)

text \<open>
  The loop succeeds exactly if every link joins known nodes, no interface is used twice and no used
  interface had a peer before; it then leaves every link wired.
\<close>

lemma add_links_step:
  assumes nm: "nm_ok nMap ns0" and inv: "loop_inv nMap ns0 ls st"
    and disj: "ends_disjoint nMap ls" and known: "\<forall>l \<in> set ls. nodes_known nMap l"
    and names: "\<forall>k. map_of nMap k \<noteq> None \<longrightarrow> k \<noteq> []"
  shows "is_Ok (add_link nMap st l) \<longleftrightarrow>
           nodes_known nMap l \<and> free_ends nMap ns0 l \<and> all_ends nMap ls \<inter> endpoints nMap l = {}"
    and "add_link nMap st l = Ok st' \<Longrightarrow> loop_inv nMap ns0 (ls @ [l]) st'"
proof -
  obtain ns uid where st: "st = (ns, uid)" by (cases st)
  have nm': "nm_ok nMap ns"
    using inv nm strip_eq_names [of ns ns0 nMap] by (simp add: loop_inv_def st)
  have used: "peer_name ns a \<noteq> []" if "a \<in> all_ends nMap ls" for a
  proof -
    from that obtain i where i: "i < length ls" "a \<in> endpoints nMap (ls ! i)"
      by (auto simp: all_ends_def set_conv_nth)
    have "link_wired nMap ns (ls ! i) i" using inv i(1) by (simp add: loop_inv_def st)
    moreover have "nodes_known nMap (ls ! i)" using known i(1) by (meson nth_mem)
    ultimately show ?thesis using names i(2) by (rule wired_peer_name)
  qed
  have unused: "peer_name ns a = peer_name ns0 a" if "a \<notin> all_ends nMap ls" for a
    using inv that by (simp add: loop_inv_def st peer_name_def del: split_paired_All)
  have peer: "peer_name ns a = [] \<longleftrightarrow> a \<notin> all_ends nMap ls \<and> peer_name ns0 a = []" for a
    using used [of a] unused [of a] by (cases "a \<in> all_ends nMap ls") simp_all
  have "free_ends nMap ns l \<longleftrightarrow> free_ends nMap ns0 l \<and> all_ends nMap ls \<inter> endpoints nMap l = {}"
    unfolding free_ends_def peer by blast
  then show iff: "is_Ok (add_link nMap st l) \<longleftrightarrow>
      nodes_known nMap l \<and> free_ends nMap ns0 l \<and> all_ends nMap ls \<inter> endpoints nMap l = {}"
    by (simp only: st add_link_Ok_iff [OF nm'])
  assume ok: "add_link nMap st l = Ok st'"
  obtain ns' uid' where st': "st' = (ns', uid')" by (cases st')
  note eff = add_link_effect [OF nm' ok [unfolded st st']]
  have fresh: "all_ends nMap ls \<inter> endpoints nMap l = {}"
    using iff ok by simp
  have old: "link_wired nMap ns' (ls ! i) i" if "i < length ls" for i
  proof -
    have "endpoints nMap (ls ! i) \<subseteq> all_ends nMap ls"
      unfolding all_ends_def using nth_mem [OF that] by blast
    then have "ifc_at ns' b = ifc_at ns b" if "b \<in> endpoints nMap (ls ! i)" for b
      using fresh eff(4) that by blast
    then have "link_wired nMap ns' (ls ! i) i = link_wired nMap ns (ls ! i) i"
      by (rule link_wired_cong)
    then show ?thesis using inv that by (simp add: loop_inv_def st)
  qed
  have uid: "uid = length ls" using inv by (simp add: loop_inv_def st)
  have strip: "map strip ns' = map strip ns0"
    using add_link_strip [OF ok [unfolded st st']] inv by (simp add: loop_inv_def st)
  have frame: "ifc_at ns' b = ifc_at ns0 b" if "b \<notin> all_ends nMap (ls @ [l])" for b
    using that eff(4) inv by (simp add: loop_inv_def st del: split_paired_All)
  have "link_wired nMap ns' ((ls @ [l]) ! i) i" if "i < length (ls @ [l])" for i
    using that old eff(3) uid by (cases "i < length ls") (simp_all add: nth_append less_Suc_eq)
  with strip frame eff(1) uid show "loop_inv nMap ns0 (ls @ [l]) st'"
    by (simp add: loop_inv_def st' del: split_paired_All)
qed

lemma add_links_correct:
  assumes nm: "nm_ok nMap ns0" and names: "\<forall>k. map_of nMap k \<noteq> None \<longrightarrow> k \<noteq> []"
  shows "(is_Ok (add_links nMap ns0 links) \<longleftrightarrow>
            (\<forall>l \<in> set links. nodes_known nMap l \<and> free_ends nMap ns0 l) \<and> ends_disjoint nMap links) \<and>
         (\<forall>st. add_links nMap ns0 links = Ok st \<longrightarrow> loop_inv nMap ns0 links st)"
proof (induction links rule: rev_induct)
  case Nil
  show ?case by (simp add: add_links_def loop_inv_def ends_disjoint_def)
next
  case (snoc l ls)
  have app: "add_links nMap ns0 (ls @ [l]) = rbind (add_links nMap ns0 ls) (\<lambda>st. add_link nMap st l)"
    by (cases "foldM (add_link nMap) (ns0, 0) ls")
      (auto simp: add_links_def foldM_append intro: rbind_Ok_id)
  show ?case
  proof (cases "add_links nMap ns0 ls")
    case (Ok st)
    then have inv: "loop_inv nMap ns0 ls st" and dj: "ends_disjoint nMap ls"
      and pre: "\<forall>l \<in> set ls. nodes_known nMap l \<and> free_ends nMap ns0 l"
      using snoc.IH by simp_all
    have kn: "\<forall>l \<in> set ls. nodes_known nMap l" using pre by blast
    note step = add_links_step [OF nm inv dj kn names]
    show ?thesis
      using step pre dj by (auto simp: app Ok ends_disjoint_snoc)
  next
    case (Error e)
    with snoc.IH show ?thesis by (auto simp: app ends_disjoint_snoc)
  next
    case (Panic p)
    with snoc.IH show ?thesis by (auto simp: app ends_disjoint_snoc)
  qed
qed

section \<open>What the node constructors may do\<close>

text \<open>
  The part of an interface that makes the wiring, and the wiring of a node by interface key. A
  constructor fills in the vendor's defaults and may rename the interface keys, but it keeps the node's
  name and vendor and, unless two keys collide, what every interface is wired to. The renaming of a
  vendor is described by the sets of keys on which it has no collision and by the names a key may get;
  most vendors do not rename at all (\<open>no_rename\<close>).
\<close>

definition wire :: "interface \<Rightarrow> string \<times> string \<times> int" where
  "wire i = (ifc_PeerName i, ifc_PeerIntName i, ifc_Uid i)"

definition wiring :: "node \<Rightarrow> (string \<times> string \<times> string \<times> int) list" where
  "wiring n = map (\<lambda>(k, i). (k, wire i)) (n_Interfaces n)"

record renaming =
  rn_ok :: "string set \<Rightarrow> bool"
  rn_may :: "string \<Rightarrow> string \<Rightarrow> bool"

definition no_rename :: renaming where
  "no_rename = \<lparr>rn_ok = (\<lambda>_. True), rn_may = (=)\<rparr>"

text \<open>\<open>r\<close> renames the keys \<open>K\<close> without a collision, in the way the vendor does.\<close>

definition renames :: "renaming \<Rightarrow> (string \<Rightarrow> string) \<Rightarrow> string set \<Rightarrow> bool" where
  "renames ren r K \<longleftrightarrow> inj_on r K \<and> (\<forall>k \<in> K. rn_may ren k (r k))"

definition keeps_wiring :: "new_node_fn \<Rightarrow> renaming \<Rightarrow> bool" where
  "keeps_wiring fn ren \<longleftrightarrow>
     (\<forall>K K'. rn_ok ren K \<longrightarrow> K' \<subseteq> K \<longrightarrow> rn_ok ren K') \<and>
     (\<forall>n n'. fn n = Ok n' \<longrightarrow> n_Name n' = n_Name n \<and> n_Vendor n' = n_Vendor n \<and>
        (wf_map (n_Interfaces n) \<longrightarrow> wf_map (n_Interfaces n') \<and>
          (rn_ok ren (set (keys (n_Interfaces n))) \<longrightarrow>
            (\<exists>r. renames ren r (set (keys (n_Interfaces n))) \<and>
                 set (wiring n') = apfst r ` set (wiring n)))))"

definition registry_ok :: "registry \<Rightarrow> (vendor \<Rightarrow> renaming) \<Rightarrow> bool" where
  "registry_ok reg ren \<longleftrightarrow> (\<forall>v fn. map_of reg v = Some fn \<longrightarrow> keeps_wiring fn (ren v))"

lemma New_keeps:
  assumes "registry_ok reg ren" and "New reg (Some n) = Ok n'"
  shows "n_Name n' = n_Name n" and "n_Vendor n' = n_Vendor n"
    and "wf_map (n_Interfaces n) \<Longrightarrow> wf_map (n_Interfaces n')"
    and "rn_ok (ren (n_Vendor n)) K \<Longrightarrow> set (keys (n_Interfaces n)) \<subseteq> K \<Longrightarrow> wf_map (n_Interfaces n) \<Longrightarrow>
           \<exists>r. renames (ren (n_Vendor n)) r (set (keys (n_Interfaces n))) \<and> set (wiring n') = apfst r ` set (wiring n)"
proof -
  obtain fn where fn: "map_of reg (n_Vendor n) = Some fn" "fn n = Ok n'"
    using assms(2) by (auto simp: New_def getImpl_def split: option.splits)
  with assms(1) have "keeps_wiring fn (ren (n_Vendor n))" by (simp add: registry_ok_def)
  note kw = this [unfolded keeps_wiring_def]
  show "n_Name n' = n_Name n" and "n_Vendor n' = n_Vendor n"
    and "wf_map (n_Interfaces n) \<Longrightarrow> wf_map (n_Interfaces n')" using kw fn(2) by blast+
  show "\<exists>r. renames (ren (n_Vendor n)) r (set (keys (n_Interfaces n))) \<and> set (wiring n') = apfst r ` set (wiring n)"
    if "rn_ok (ren (n_Vendor n)) K" "set (keys (n_Interfaces n)) \<subseteq> K" "wf_map (n_Interfaces n)"
    using kw fn(2) that by blast
qed

section \<open>The construction loop\<close>

lemma new_node_Ok_iff:
  "new_node reg pidMax (ns, mn) (k, i) = Ok st \<longleftrightarrow>
     run_pid_max pidMax k = Ok () \<and> (\<exists>n'. New reg (Some (ns ! i)) = Ok n' \<and> st = (ns[i := n'], put k i mn))"
  by (auto simp: new_node_def split: result.splits)

lemma new_nodes_Ok:
  assumes "foldM (new_node reg pidMax) (ns, mn) xs = Ok (ns', mn')"
    and "distinct (map snd xs)" and "\<forall>(k, i) \<in> set xs. i < length ns"
  shows "length ns' = length ns \<and> (\<forall>(k, i) \<in> set xs. New reg (Some (ns ! i)) = Ok (ns' ! i)) \<and>
         (\<forall>i. i \<notin> snd ` set xs \<longrightarrow> ns' ! i = ns ! i) \<and> mn' = foldl (\<lambda>m (k, i). put k i m) mn xs"
  using assms
proof (induction xs arbitrary: ns mn)
  case Nil
  then show ?case by simp
next
  case (Cons x xs)
  obtain k i where x: "x = (k, i)" by (cases x)
  from Cons.prems(1) obtain n' where n': "New reg (Some (ns ! i)) = Ok n'"
    and rest: "foldM (new_node reg pidMax) (ns[i := n'], put k i mn) xs = Ok (ns', mn')"
    by (auto simp: x new_node_Ok_iff)
  have "length ns' = length (ns[i := n']) \<and>
      (\<forall>(k, j) \<in> set xs. New reg (Some (ns[i := n'] ! j)) = Ok (ns' ! j)) \<and>
      (\<forall>j. j \<notin> snd ` set xs \<longrightarrow> ns' ! j = ns[i := n'] ! j) \<and>
      mn' = foldl (\<lambda>m (k, i). put k i m) (put k i mn) xs"
    using Cons.prems by (intro Cons.IH [OF rest]) (auto simp: x)
  moreover have "i < length ns" and "i \<notin> snd ` set xs" using Cons.prems by (auto simp: x)
  moreover from this(2) have "\<forall>(k, j) \<in> set xs. ns[i := n'] ! j = ns ! j"
    by (auto simp: nth_list_update image_iff)
  ultimately show ?case using n' by (fastforce simp: x)
qed

lemma map_of_put_all:
  "distinct (map fst xs) \<Longrightarrow> map_of (foldl (\<lambda>m (k, i). put k i m) mn xs) = map_of mn ++ map_of xs"
proof (induction xs arbitrary: mn)
  case Nil
  then show ?case by simp
next
  case (Cons x xs)
  obtain k i where x: "x = (k, i)" by (cases x)
  have "map_of xs k = None" using Cons.prems by (auto simp: x map_of_eq_None_iff)
  with Cons show ?case by (auto simp: x map_add_def fun_eq_iff split: option.splits)
qed

section \<open>load as a whole\<close>

definition nodes0 :: "topology \<Rightarrow> node list" where
  "nodes0 topo = map name_ifcs (t_Nodes topo)"

definition name_map :: "topology \<Rightarrow> (string, nat) gomap" where
  "name_map topo = build_nMap 0 (nodes0 topo) []"

definition named :: "topology \<Rightarrow> bool" where
  "named topo \<longleftrightarrow> (\<forall>n \<in> set (t_Nodes topo). n_Name n \<noteq> [])"

definition node_of :: "manager \<Rightarrow> string \<Rightarrow> node option" where
  "node_of m name = map_option (\<lambda>i. t_Nodes (m_topo m) ! i) (map_of (m_nodes m) name)"

lemma name_ifcs_keeps [simp]:
  "n_Name (name_ifcs n) = n_Name n" "n_Vendor (name_ifcs n) = n_Vendor n"
  "wiring (name_ifcs n) = wiring n" "keys (n_Interfaces (name_ifcs n)) = keys (n_Interfaces n)"
  by (auto simp: name_ifcs_def wiring_def wire_def keys_def)

lemma name_map_nm_ok: "nm_ok (name_map topo) (nodes0 topo)"
  by (simp add: name_map_def nm_ok_build)

lemma name_map_get:
  "map_of (name_map topo) nm = Some j \<Longrightarrow> j < length (t_Nodes topo) \<and> n_Name (t_Nodes topo ! j) = nm"
  using name_map_nm_ok [of topo] by (fastforce simp: nm_ok_def nodes0_def)

lemma name_map_wf: "wf_map (name_map topo)"
  by (simp add: name_map_def wf_map_build)

lemma name_map_defined_iff: "map_of (name_map topo) k \<noteq> None \<longleftrightarrow> k \<in> n_Name ` set (t_Nodes topo)"
proof
  assume "map_of (name_map topo) k \<noteq> None"
  then obtain i where "map_of (name_map topo) k = Some i" by blast
  with name_map_nm_ok [of topo] have "i < length (nodes0 topo)" "n_Name (nodes0 topo ! i) = k"
    by (auto simp: nm_ok_def)
  then show "k \<in> n_Name ` set (t_Nodes topo)" by (auto simp: nodes0_def)
next
  assume "k \<in> n_Name ` set (t_Nodes topo)"
  then obtain n where "n \<in> set (t_Nodes topo)" "k = n_Name n" by auto
  then show "map_of (name_map topo) k \<noteq> None"
    using build_nMap_defined [of "name_ifcs n" "nodes0 topo" 0 "[]"]
    by (simp add: name_map_def nodes0_def)
qed

lemma name_map_named: "named topo \<Longrightarrow> \<forall>k. map_of (name_map topo) k \<noteq> None \<longrightarrow> k \<noteq> []"
  by (auto simp: name_map_defined_iff named_def simp del: not_None_eq)

lemma ord_name_map:
  assumes "range_order ord"
  shows "distinct (map snd (ord (name_map topo)))" and "distinct (map fst (ord (name_map topo)))"
    and "set (ord (name_map topo)) = set (name_map topo)"
proof -
  let ?m = "name_map topo"
  show eq: "set (ord ?m) = set ?m" using assms by (rule range_order_set)
  have "distinct (map fst ?m)" using name_map_wf [of topo] by (simp add: wf_map_def)
  then show df: "distinct (map fst (ord ?m))" using range_order_distinct [OF assms] by blast
  have "inj_on snd (set ?m)"
  proof (rule inj_onI)
    fix x y assume x: "x \<in> set ?m" and y: "y \<in> set ?m" and eq: "snd x = snd y"
    have "map_of ?m (fst x) = Some (snd x)" "map_of ?m (fst y) = Some (snd x)"
      using x y name_map_wf [of topo] by (simp_all add: map_of_eq_iff_mem) (simp add: eq)
    then have "fst x = fst y" by (rule nm_ok_inj [OF name_map_nm_ok])
    with eq show "x = y" by (simp add: prod_eq_iff)
  qed
  moreover have "distinct (ord ?m)" using df by (simp add: distinct_map)
  ultimately show "distinct (map snd (ord ?m))" by (simp add: distinct_map eq)
qed

lemma load_OkE:
  assumes ok: "load reg pidMax ord topo = Ok m" and ord: "range_order ord" and "named topo"
  obtains ns where "loop_inv (name_map topo) (nodes0 topo) (t_Links topo) (ns, length (t_Links topo))"
    and "add_links (name_map topo) (nodes0 topo) (t_Links topo) = Ok (ns, length (t_Links topo))"
    and "map_of (m_nodes m) = map_of (name_map topo)"
    and "\<And>k i. map_of (name_map topo) k = Some i \<Longrightarrow> New reg (Some (ns ! i)) = Ok (t_Nodes (m_topo m) ! i)"
    and "\<And>l. l \<in> set (t_Links topo) \<Longrightarrow> check_loop (t_Nodes (m_topo m)) (m_nodes m) l = Ok ()"
proof -
  from ok obtain ns uid ns' mn where
    links: "add_links (name_map topo) (nodes0 topo) (t_Links topo) = Ok (ns, uid)" and
    new: "foldM (new_node reg pidMax) (ns, []) (ord (name_map topo)) = Ok (ns', mn)" and
    loops: "foldM (\<lambda>_ l. check_loop ns' mn l) () (t_Links topo) = Ok ()" and
    m: "m = \<lparr>m_topo = topo\<lparr>t_Nodes := ns'\<rparr>, m_nodes = mn\<rparr>"
    by (auto simp: load_def Let_def name_map_def nodes0_def)
  have inv: "loop_inv (name_map topo) (nodes0 topo) (t_Links topo) (ns, uid)"
    using add_links_correct [OF name_map_nm_ok name_map_named [OF \<open>named topo\<close>]] links by blast
  then have uid: "uid = length (t_Links topo)" and "map strip ns = map strip (nodes0 topo)"
    by (simp_all add: loop_inv_def)
  then have nm: "nm_ok (name_map topo) ns" using strip_eq_names name_map_nm_ok by blast
  note o = ord_name_map [OF ord, of topo]
  have bound: "\<forall>(k, i) \<in> set (ord (name_map topo)). i < length ns"
    using nm name_map_wf [of topo] by (auto simp: o(3) nm_ok_def map_of_eq_iff_mem)
  note c = new_nodes_Ok [OF new o(1) bound]
  have "map_of mn = map_of (name_map topo)"
  proof -
    have "map_of mn = map_of (ord (name_map topo))"
      using c map_of_put_all [OF o(2), of "[]"] by simp
    also have "\<dots> = map_of (name_map topo)"
      using o(2,3) name_map_wf [of topo] by (intro map_of_inject_set [THEN iffD2]) (auto simp: wf_map_def)
    finally show ?thesis .
  qed
  moreover have "New reg (Some (ns ! i)) = Ok (ns' ! i)" if "map_of (name_map topo) k = Some i" for k i
    using c map_of_SomeD [OF that] o(3) by auto
  moreover have "check_loop ns' mn l = Ok ()" if "l \<in> set (t_Links topo)" for l
    using loops that by (simp add: foldM_unit_iff)
  ultimately show thesis
    using that [of ns] inv links by (simp add: uid m)
qed

section \<open>Which topologies load accepts\<close>

definition link_ends :: "link \<Rightarrow> (string \<times> string) set" where
  "link_ends l = {(l_ANode l, l_AInt l), (l_ZNode l, l_ZInt l)}"

text \<open>
  The requirements on the links: both nodes exist, no interface is used by two links, none is
  already connected in the description, and a link from a node to itself is on a Keysight node.
\<close>

definition links_ok :: "topology \<Rightarrow> bool" where
  "links_ok topo \<longleftrightarrow>
     (\<forall>l \<in> set (t_Links topo). {l_ANode l, l_ZNode l} \<subseteq> n_Name ` set (t_Nodes topo) \<and>
        free_ends (name_map topo) (nodes0 topo) l) \<and>
     sorted_wrt (\<lambda>l l'. link_ends l \<inter> link_ends l' = {}) (t_Links topo)"

definition node_vendor :: "topology \<Rightarrow> string \<Rightarrow> vendor" where
  "node_vendor topo k = n_Vendor (nodes0 topo ! the (map_of (name_map topo) k))"

definition loops_ok :: "topology \<Rightarrow> bool" where
  "loops_ok topo \<longleftrightarrow>
     (\<forall>l \<in> set (t_Links topo). l_ANode l = l_ZNode l \<longrightarrow> BackToBackLoop (node_vendor topo (l_ANode l)))"

lemma endpoints_disjoint_iff:
  assumes "nodes_known (name_map topo) l" and "nodes_known (name_map topo) l'"
  shows "endpoints (name_map topo) l \<inter> endpoints (name_map topo) l' = {} \<longleftrightarrow> link_ends l \<inter> link_ends l' = {}"
proof -
  let ?f = "\<lambda>(n, k). (the (map_of (name_map topo) n), k :: string)"
  let ?K = "{k. map_of (name_map topo) k \<noteq> None} \<times> UNIV"
  have inj: "inj_on ?f ?K"
    using nm_ok_inj [OF name_map_nm_ok [of topo]] by (fastforce intro!: inj_onI)
  have "endpoints (name_map topo) x = ?f ` link_ends x" for x
    by (simp add: endpoints_def link_ends_def a_addr_def z_addr_def)
  moreover have "link_ends l \<subseteq> ?K" "link_ends l' \<subseteq> ?K"
    using assms by (auto simp: link_ends_def nodes_known_def)
  ultimately show ?thesis using inj_on_image_Int [OF inj, of "link_ends l" "link_ends l'"] by (metis image_is_empty)
qed

lemma nodes_known_iff: "nodes_known (name_map topo) l \<longleftrightarrow> {l_ANode l, l_ZNode l} \<subseteq> n_Name ` set (t_Nodes topo)"
  unfolding nodes_known_def name_map_defined_iff by blast

lemma links_ok_iff:
  assumes "named topo"
  shows "is_Ok (add_links (name_map topo) (nodes0 topo) (t_Links topo)) \<longleftrightarrow> links_ok topo"
proof -
  have "is_Ok (add_links (name_map topo) (nodes0 topo) (t_Links topo)) \<longleftrightarrow>
      (\<forall>l \<in> set (t_Links topo). nodes_known (name_map topo) l \<and> free_ends (name_map topo) (nodes0 topo) l) \<and>
      ends_disjoint (name_map topo) (t_Links topo)"
    using add_links_correct [OF name_map_nm_ok name_map_named [OF assms]] by blast
  also have "\<dots> \<longleftrightarrow> links_ok topo"
  proof (cases "\<forall>l \<in> set (t_Links topo). nodes_known (name_map topo) l")
    case True
    then have "ends_disjoint (name_map topo) (t_Links topo) \<longleftrightarrow>
        sorted_wrt (\<lambda>l l'. link_ends l \<inter> link_ends l' = {}) (t_Links topo)"
      unfolding ends_disjoint_def sorted_wrt_iff_nth_less
      using endpoints_disjoint_iff by (meson nth_mem order.strict_trans)
    then show ?thesis by (auto simp: links_ok_def nodes_known_iff)
  next
    case False
    then show ?thesis by (auto simp: links_ok_def nodes_known_iff)
  qed
  finally show ?thesis .
qed

text \<open>Every node of the topology finds a constructor that accepts it, however its interfaces are wired.\<close>

definition accepts :: "registry \<Rightarrow> pid_max \<Rightarrow> topology \<Rightarrow> bool" where
  "accepts reg pidMax topo \<longleftrightarrow>
     (\<forall>n \<in> set (t_Nodes topo). run_pid_max pidMax (n_Name n) = Ok () \<and>
        (\<forall>ifcs. is_Ok (New reg (Some (n\<lparr>n_Interfaces := ifcs\<rparr>)))))"

lemma new_nodes_accept:
  assumes "\<forall>(k, i) \<in> set xs. run_pid_max pidMax k = Ok () \<and> i < length ns \<and> is_Ok (New reg (Some (ns ! i)))"
    and "distinct (map snd xs)"
  shows "\<exists>st. foldM (new_node reg pidMax) (ns, mn) xs = Ok st"
  using assms
proof (induction xs arbitrary: ns mn)
  case Nil
  then show ?case by simp
next
  case (Cons x xs)
  obtain k i where x: "x = (k, i)" by (cases x)
  from Cons.prems(1) obtain n' where n': "New reg (Some (ns ! i)) = Ok n'"
    by (auto simp: x is_Ok_iff)
  with Cons.prems(1) have one: "new_node reg pidMax (ns, mn) (k, i) = Ok (ns[i := n'], put k i mn)"
    by (simp add: x new_node_Ok_iff)
  have "\<exists>st. foldM (new_node reg pidMax) (ns[i := n'], put k i mn) xs = Ok st"
    using Cons.prems by (intro Cons.IH) (auto simp: x nth_list_update image_iff)
  with one show ?case by (simp add: x)
qed

lemma check_loop_Ok_iff:
  assumes "map_of mn (l_ANode l) = Some a" and "map_of mn (l_ZNode l) = Some z"
  shows "check_loop ns mn l = Ok () \<longleftrightarrow> (l_ANode l = l_ZNode l \<longrightarrow> BackToBackLoop (n_Vendor (ns ! a)))"
    and "\<nexists>p. check_loop ns mn l = Panic p"
  using assms by (auto simp: check_loop_def node_b2b_def Let_def)

lemma foldM_unit_no_panic: "(\<And>x. x \<in> set xs \<Longrightarrow> \<nexists>p. f x = Panic p) \<Longrightarrow> \<nexists>p. foldM (\<lambda>_ x. f x) () xs = Panic p"
proof (induction xs)
  case Nil
  then show ?case by simp
next
  case (Cons x xs)
  then show ?case by (cases "f x") auto
qed

lemma foldM_no_panic: "(\<And>s x. \<nexists>p. f s x = Panic p) \<Longrightarrow> \<nexists>p. foldM f s xs = Panic p"
proof (induction xs arbitrary: s)
  case Nil
  then show ?case by simp
next
  case (Cons x xs)
  then show ?case by (cases "f s x") auto
qed

lemma add_links_no_panic: "\<nexists>p. add_links nMap ns links = Panic p"
  unfolding add_links_def
  by (rule foldM_no_panic) (auto simp: add_link_def Let_def split: option.splits)

lemma strip_restore: "strip n = strip n' \<Longrightarrow> n = n'\<lparr>n_Interfaces := n_Interfaces n\<rparr>"
  by (cases n; cases n') (simp add: strip_def)

lemma load_iff:
  assumes nm: "named topo" and ord: "range_order ord" and reg: "registry_ok reg ren"
    and acc: "accepts reg pidMax topo"
  shows "(is_Ok (load reg pidMax ord topo) \<longleftrightarrow> links_ok topo \<and> loops_ok topo) \<and>
         (\<nexists>p. load reg pidMax ord topo = Panic p)"
proof (cases "links_ok topo")
  case False
  then have "\<not> is_Ok (add_links (name_map topo) (nodes0 topo) (t_Links topo))"
    by (simp add: links_ok_iff [OF nm])
  with add_links_no_panic [of "name_map topo"] obtain e where
    "add_links (name_map topo) (nodes0 topo) (t_Links topo) = Error e"
    by (cases "add_links (name_map topo) (nodes0 topo) (t_Links topo)") auto
  with False show ?thesis by (simp add: load_def Let_def name_map_def nodes0_def)
next
  case True
  let ?nm = "name_map topo" and ?o = "ord (name_map topo)"
  from True obtain ns u where al: "add_links ?nm (nodes0 topo) (t_Links topo) = Ok (ns, u)"
    by (auto simp: links_ok_iff [OF nm, symmetric] is_Ok_iff)
  have inv: "loop_inv ?nm (nodes0 topo) (t_Links topo) (ns, u)"
    using add_links_correct [OF name_map_nm_ok name_map_named [OF nm]] al by blast
  then have st: "map strip ns = map strip (nodes0 topo)" by (simp add: loop_inv_def)
  note o = ord_name_map [OF ord, of topo]
  have mem: "map_of ?nm k = Some i \<longleftrightarrow> (k, i) \<in> set ?nm" for k i
    by (rule map_of_eq_iff_mem [OF name_map_wf])
  have each: "run_pid_max pidMax k = Ok () \<and> i < length ns \<and> is_Ok (New reg (Some (ns ! i)))"
    if "map_of ?nm k = Some i" for k i
  proof -
    have i: "i < length (t_Nodes topo)" "n_Name (t_Nodes topo ! i) = k" using name_map_get [OF that] by auto
    then have i0: "i < length (nodes0 topo)" by (simp add: nodes0_def)
    have "strip (ns ! i) = strip (nodes0 topo ! i)" using st strip_nth(1) [OF st i0] i0 by (metis nth_map)
    also have "\<dots> = strip (t_Nodes topo ! i)" using i by (simp add: nodes0_def strip_def name_ifcs_def)
    finally have "ns ! i = (t_Nodes topo ! i)\<lparr>n_Interfaces := n_Interfaces (ns ! i)\<rparr>" by (rule strip_restore)
    with acc nth_mem [OF i(1)] i(2) strip_nth(1) [OF st i0] show ?thesis unfolding accepts_def by metis
  qed
  then have "\<exists>st. foldM (new_node reg pidMax) (ns, []) ?o = Ok st"
    using mem o by (intro new_nodes_accept) auto
  then obtain ns' mn where new: "foldM (new_node reg pidMax) (ns, []) ?o = Ok (ns', mn)" by auto
  have bound: "\<forall>(k, i) \<in> set ?o. i < length ns" using each mem o by auto
  note c = new_nodes_Ok [OF new o(1) bound]
  have mn: "map_of mn = map_of ?nm"
    using c map_of_put_all [OF o(2), of "[]"] o(2,3) name_map_wf [of topo]
    by (simp add: map_of_inject_set wf_map_def)
  have "nodes_known ?nm l" if "l \<in> set (t_Links topo)" for l
    using True that by (simp add: links_ok_def nodes_known_iff)
  then have loop: "(check_loop ns' mn l = Ok () \<longleftrightarrow>
      (l_ANode l = l_ZNode l \<longrightarrow> BackToBackLoop (node_vendor topo (l_ANode l)))) \<and>
      (\<nexists>p. check_loop ns' mn l = Panic p)" if l: "l \<in> set (t_Links topo)" for l
  proof -
    from \<open>l \<in> _ \<Longrightarrow> nodes_known ?nm l\<close> l obtain a z where
      az: "map_of ?nm (l_ANode l) = Some a" "map_of ?nm (l_ZNode l) = Some z" by (auto simp: nodes_known_def)
    have "New reg (Some (ns ! a)) = Ok (ns' ! a)" using c az(1) mem o(3) by auto
    from New_keeps(2) [OF reg this] have "n_Vendor (ns' ! a) = node_vendor topo (l_ANode l)"
      using az(1) name_map_get [OF az(1)] strip_nth(3) [OF st, of a] by (simp add: node_vendor_def nodes0_def)
    with check_loop_Ok_iff [of mn l a z ns'] az show ?thesis by (simp add: mn)
  qed
  have eq: "load reg pidMax ord topo =
      rbind (foldM (\<lambda>_ l. check_loop ns' mn l) () (t_Links topo))
        (\<lambda>_. Ok \<lparr>m_topo = topo\<lparr>t_Nodes := ns'\<rparr>, m_nodes = mn\<rparr>)"
    using al new by (simp add: load_def Let_def name_map_def nodes0_def)
  have np: "\<nexists>p. foldM (\<lambda>_ l. check_loop ns' mn l) () (t_Links topo) = Panic p"
    using loop by (intro foldM_unit_no_panic) blast
  have "foldM (\<lambda>_ l. check_loop ns' mn l) () (t_Links topo) = Ok () \<longleftrightarrow> loops_ok topo"
    using loop by (auto simp: foldM_unit_iff loops_ok_def)
  with True np show ?thesis
    unfolding eq by (cases "foldM (\<lambda>_ l. check_loop ns' mn l) () (t_Links topo)") auto
qed

end
