(* ===== verification/Vendor_Base.thy ===== *)
theory Vendor_Base
  imports Topo_Load
begin

text \<open>
  What the vendor packages under \<open>topo/node\<close> share: the assignments \<open>if x == "" { x = d }\<close> their
  \<open>defaults\<close> functions consist of, the renaming of interface keys, and the contract of a \<open>defaults\<close>
  function (locale \<open>vendor_defaults\<close>) from which the constructor's contract follows.
\<close>

section \<open>Constants of node.go\<close>

definition OndatraRoleLabel :: string where "OndatraRoleLabel = ''ondatra-role''"
definition OndatraRoleDUT :: string where "OndatraRoleDUT = ''DUT''"
definition OndatraRoleATE :: string where "OndatraRoleATE = ''ATE''"

definition DefaultInitContainerImage :: string where
  "DefaultInitContainerImage = ''us-west1-docker.pkg.dev/kne-external/kne/init-wait:ga''"

lemmas role_consts = OndatraRoleLabel_def OndatraRoleDUT_def OndatraRoleATE_def

section \<open>Filling in defaults\<close>

text \<open>\<open>if x == "" { x = d }\<close>, also for a command list of length zero.\<close>

definition dflt :: "'a list \<Rightarrow> 'a list \<Rightarrow> 'a list" where
  "dflt d x = (if x = [] then d else x)"

text \<open>\<open>if m == nil { m = d }\<close>.\<close>

definition dflt_map :: "('k, 'v) gomap \<Rightarrow> ('k, 'v) gomap option \<Rightarrow> ('k, 'v) gomap" where
  "dflt_map d m = (case m of None \<Rightarrow> d | Some m \<Rightarrow> m)"

definition dflt_opt :: "'a \<Rightarrow> 'a option \<Rightarrow> 'a option" where
  "dflt_opt d x = (case x of None \<Rightarrow> Some d | Some v \<Rightarrow> Some v)"

text \<open>\<open>if m[k] == "" { m[k] = v }\<close> on a map that is not \<open>nil\<close>.\<close>

definition put_dflt :: "string \<Rightarrow> string \<Rightarrow> (string, string) gomap \<Rightarrow> (string, string) gomap" where
  "put_dflt k v m = (if get_str m k = [] then put k v m else m)"

lemma dflt_idem [simp]: "dflt d (dflt d x) = dflt d x"
  by (simp add: dflt_def)

lemma dflt_ne [simp]: "d \<noteq> [] \<Longrightarrow> dflt d x \<noteq> []"
  by (simp add: dflt_def)

lemma dflt_map_Some [simp]: "dflt_map d (Some m) = m"
  by (simp add: dflt_map_def)

lemma dflt_opt_Some [simp]: "dflt_opt d (Some x) = Some x"
  by (simp add: dflt_opt_def)

lemma dflt_opt_idem [simp]: "dflt_opt d (dflt_opt d x) = dflt_opt d x"
  by (cases x) (simp_all add: dflt_opt_def)

lemma GetConfig_Some [simp]: "GetConfig (n\<lparr>n_Config := Some c\<rparr>) = c"
  by (simp add: GetConfig_def)

text \<open>A second pass over an assignment that has been made changes nothing.\<close>

definition settled :: "string \<Rightarrow> string \<Rightarrow> (string, string) gomap \<Rightarrow> bool" where
  "settled k v m \<longleftrightarrow> get_str m k \<noteq> [] \<or> map_of m k = Some v"

lemma put_same: "map_of m k = Some v \<Longrightarrow> put k v m = m"
  by (induction m) auto

lemma settled_noop [simp]: "settled k v m \<Longrightarrow> put_dflt k v m = m"
  by (auto simp: settled_def put_dflt_def put_same)

lemma settled_put_dflt [simp]: "settled k v (put_dflt k v m)"
  by (simp add: settled_def put_dflt_def)

lemma settled_put_dflt_other [simp]: "k \<noteq> k' \<Longrightarrow> settled k v (put_dflt k' v' m) = settled k v m"
  by (simp add: settled_def put_dflt_def)

lemma settled_put_other [simp]: "k \<noteq> k' \<Longrightarrow> settled k v (put k' v' m) = settled k v m"
  by (simp add: settled_def)

lemma settled_lit: "map_of m k = Some v \<Longrightarrow> settled k v m"
  by (simp add: settled_def)

lemma put_put [simp]: "put k v (put k v m) = put k v m"
  by (rule put_same) simp

lemma put_put_dflt: "k \<noteq> k' \<Longrightarrow> map_of m k = Some v \<Longrightarrow> put k v (put_dflt k' v' m) = put_dflt k' v' m"
  by (rule put_same) (simp add: put_dflt_def)

lemma get_put_dflt: "get_str (put_dflt k v m) k = dflt v (get_str m k)"
  by (simp add: put_dflt_def dflt_def)

section \<open>The contract of a defaults function\<close>

locale vendor_defaults =
  fixes defaults :: "node \<Rightarrow> node"
  assumes idem: "defaults (defaults n) = defaults n"
    and keeps_name: "n_Name (defaults n) = n_Name n"
    and keeps_vendor: "n_Vendor (defaults n) = n_Vendor n"
    and keeps_ifcs: "n_Interfaces (defaults n) = n_Interfaces n"
begin

text \<open>A constructor that only fills in defaults keeps the wiring, and a restart of KNE on a topology that
  was written back after a first run leaves it as it is.\<close>

lemma constructor_keeps: "keeps_wiring (\<lambda>n. Ok (defaults n)) no_rename"
  unfolding keeps_wiring_def
  by (auto simp: no_rename_def keeps_name keeps_vendor keeps_ifcs renames_def wiring_def intro!: exI [of _ id])

lemma stable: "defaults (defaults (defaults n)) = defaults n"
  by (simp add: idem)

end

section \<open>Renaming interface keys\<close>

text \<open>
  A \<open>renameInterfaces\<close> function ranges over the interface map and stores each interface under a new key
  in a fresh map; \<open>f\<close> gives the new key and may depend on a running index, which advances on the keys
  it renames. Two equal new keys overwrite each other, as in the code.
\<close>

fun rename_loop ::
  "(nat \<Rightarrow> string \<Rightarrow> string \<times> nat) \<Rightarrow> nat \<Rightarrow> (string, interface) gomap \<Rightarrow> (string, interface) gomap \<Rightarrow>
   (string, interface) gomap" where
  "rename_loop f idx [] intf = intf"
| "rename_loop f idx ((k, v) # rest) intf =
     (let (name, idx') = f idx k in rename_loop f idx' rest (put name v intf))"

lemma wf_rename_loop: "wf_map intf \<Longrightarrow> wf_map (rename_loop f idx m intf)"
  by (induction f idx m intf rule: rename_loop.induct) (auto split: prod.splits)

text \<open>The new names in the order of the range.\<close>

fun new_names :: "(nat \<Rightarrow> string \<Rightarrow> string \<times> nat) \<Rightarrow> nat \<Rightarrow> string list \<Rightarrow> string list" where
  "new_names f idx [] = []"
| "new_names f idx (k # ks) = fst (f idx k) # new_names f (snd (f idx k)) ks"

lemma length_new_names [simp]: "length (new_names f idx ks) = length ks"
  by (induction f idx ks rule: new_names.induct) auto

lemma new_names_nth: "j < length ks \<Longrightarrow> \<exists>i. new_names f idx ks ! j = fst (f i (ks ! j))"
proof (induction ks arbitrary: idx j)
  case Nil
  then show ?case by simp
next
  case (Cons k ks)
  then show ?case by (cases j) auto
qed

lemma put_fresh: "k \<notin> fst ` set m \<Longrightarrow> put k v m = m @ [(k, v)]"
  by (induction m) auto

lemma rename_loop_distinct:
  assumes "distinct (map fst intf @ new_names f idx (map fst m))"
  shows "rename_loop f idx m intf = intf @ zip (new_names f idx (map fst m)) (map snd m)"
  using assms
proof (induction m arbitrary: idx intf)
  case Nil
  then show ?case by simp
next
  case (Cons kv m)
  obtain k v where kv: "kv = (k, v)" by (cases kv)
  obtain name idx' where f: "f idx k = (name, idx')" by (cases "f idx k")
  have "name \<notin> fst ` set intf" using Cons.prems by (auto simp: kv f)
  then have "put name v intf = intf @ [(name, v)]" by (rule put_fresh)
  moreover have "rename_loop f idx' m (intf @ [(name, v)]) =
      (intf @ [(name, v)]) @ zip (new_names f idx' (map fst m)) (map snd m)"
    by (rule Cons.IH) (use Cons.prems in \<open>auto simp: kv f\<close>)
  ultimately show ?case by (simp add: kv f)
qed

text \<open>If the new names are distinct, the loop is a renaming of the keys that keeps the interfaces.\<close>

lemma rename_loop_renames:
  assumes wf: "wf_map m" and d: "distinct (new_names f idx (map fst m))"
    and may: "\<And>i k. k \<in> set (map fst m) \<Longrightarrow> rn_may ren k (fst (f i k))"
  shows "\<exists>r. renames ren r (set (keys m)) \<and>
    set (map (\<lambda>(k, i). (k, wire i)) (rename_loop f idx m [])) = apfst r ` set (map (\<lambda>(k, i). (k, wire i)) m)"
proof -
  let ?ks = "map fst m" and ?ns = "new_names f idx (map fst m)"
  define r where "r k = the (map_of (zip ?ks ?ns) k)" for k
  have dk: "distinct ?ks" using wf by (simp add: wf_map_def)
  have r: "r (?ks ! j) = ?ns ! j" if "j < length m" for j
    unfolding r_def using that dk map_of_zip_nth [of ?ks ?ns j] by simp
  have loop: "rename_loop f idx m [] = zip ?ns (map snd m)"
    using rename_loop_distinct [of "[]" f idx m] d by simp
  also have "\<dots> = map (apfst r) m"
    by (rule nth_equalityI) (use r in \<open>auto simp: prod_eq_iff\<close>)
  finally have eq: "rename_loop f idx m [] = map (apfst r) m" .
  have "inj_on r (set (keys m))"
  proof (rule inj_onI)
    fix x y assume "x \<in> set (keys m)" "y \<in> set (keys m)" "r x = r y"
    then obtain i j where ij: "i < length m" "j < length m" "x = ?ks ! i" "y = ?ks ! j"
      by (auto simp: keys_def in_set_conv_nth)
    with \<open>r x = r y\<close> have "?ns ! i = ?ns ! j" by (metis r)
    with ij have "i = j" by (metis d nth_eq_iff_index_eq length_new_names length_map)
    with ij show "x = y" by simp
  qed
  moreover have "rn_may ren k (r k)" if "k \<in> set (keys m)" for k
  proof -
    from that obtain j where j: "j < length m" "k = ?ks ! j" by (auto simp: keys_def in_set_conv_nth)
    obtain i where "?ns ! j = fst (f i (?ks ! j))" using new_names_nth [of j ?ks f idx] j by auto
    with may [of "?ks ! j" i] r [OF j(1)] j show ?thesis by (metis length_map nth_mem)
  qed
  ultimately have "renames ren r (set (keys m))" by (simp add: renames_def)
  moreover have "set (map (\<lambda>(k, i). (k, wire i)) (map (apfst r) m)) = apfst r ` set (map (\<lambda>(k, i). (k, wire i)) m)"
    by force
  ultimately show ?thesis unfolding eq by blast
qed

end
