(* ===== verification/Vendor_Hosts.thy ===== *)
theory Vendor_Hosts
  imports Vendor_Base
begin

text \<open>
  The constructors and \<open>defaults\<close> functions of the host-like node types: \<open>host\<close>, \<open>gobgp\<close>, \<open>forward\<close>,
  \<open>alpine\<close>, \<open>sonic\<close>, \<open>ciena\<close> and \<open>keysight\<close>. The nil checks at the head of every constructor cannot fail
  behind \<open>getImpl\<close>, which makes them first, and are not repeated.
\<close>

definition entry_command :: "string \<Rightarrow> string \<Rightarrow> string" where
  "entry_command name sh = ''kubectl exec -it '' @ name @ '' -- '' @ sh"

definition names_service :: "string list \<Rightarrow> u32 \<Rightarrow> service" where
  "names_service names inside = empty_service\<lparr>svc_Names := names, svc_Inside := inside\<rparr>"

definition name_service :: "string \<Rightarrow> u32 \<Rightarrow> service" where
  "name_service name inside = empty_service\<lparr>svc_Name := name, svc_Inside := inside\<rparr>"

section \<open>host, gobgp, forward\<close>

definition host_defaults :: "node \<Rightarrow> node" where
  "host_defaults pb =
     (let cfg = GetConfig pb in
      pb\<lparr>n_Config := Some (cfg\<lparr>
           cfg_Command := dflt [''/bin/sh'', ''-c'', ''sleep 2000000000000''] (cfg_Command cfg),
           cfg_EntryCommand := dflt (entry_command (n_Name pb) ''sh'') (cfg_EntryCommand cfg),
           cfg_Image := dflt ''alpine:latest'' (cfg_Image cfg),
           cfg_ConfigPath := dflt ''/etc'' (cfg_ConfigPath cfg),
           cfg_ConfigFile := dflt ''config'' (cfg_ConfigFile cfg)\<rparr>)\<rparr>)"

definition host_New :: new_node_fn where
  "host_New pb = Ok (host_defaults pb)"

definition gobgp_defaults :: "node \<Rightarrow> node" where
  "gobgp_defaults pb =
     (let cfg = GetConfig pb in
      pb\<lparr>n_Config := Some (cfg\<lparr>
           cfg_Image := dflt ''hfam/gobgp:latest'' (cfg_Image cfg),
           cfg_Command := dflt [''/usr/local/bin/gobgpd'', ''-f'', ''/gobgp.conf'', ''-t'', ''yaml''] (cfg_Command cfg),
           cfg_EntryCommand := dflt (entry_command (n_Name pb) ''/bin/bash'') (cfg_EntryCommand cfg),
           cfg_ConfigPath := dflt ''/'' (cfg_ConfigPath cfg),
           cfg_ConfigFile := dflt ''gobgp.conf'' (cfg_ConfigFile cfg)\<rparr>)\<rparr>)"

definition gobgp_New :: new_node_fn where
  "gobgp_New pb = Ok (gobgp_defaults pb)"

definition forward_defaults :: "node \<Rightarrow> node" where
  "forward_defaults pb =
     (let cfg = GetConfig pb in
      pb\<lparr>n_Config := Some (cfg\<lparr>
           cfg_EntryCommand := dflt (entry_command (n_Name pb) ''sh'') (cfg_EntryCommand cfg),
           cfg_Image := dflt ''us-west1-docker.pkg.dev/kne-external/kne/bridge:ga'' (cfg_Image cfg),
           cfg_ConfigPath := dflt ''/etc'' (cfg_ConfigPath cfg),
           cfg_ConfigFile := dflt ''config'' (cfg_ConfigFile cfg)\<rparr>)\<rparr>)"

definition forward_New :: new_node_fn where
  "forward_New pb = Ok (forward_defaults pb)"

interpretation host: vendor_defaults host_defaults
  by unfold_locales (simp_all add: host_defaults_def Let_def GetConfig_def)

interpretation gobgp: vendor_defaults gobgp_defaults
  by unfold_locales (simp_all add: gobgp_defaults_def Let_def GetConfig_def)

interpretation forward: vendor_defaults forward_defaults
  by unfold_locales (simp_all add: forward_defaults_def Let_def GetConfig_def)

section \<open>alpine and sonic\<close>

definition dflt_resources :: "(string, string) gomap" where
  "dflt_resources = [(''cpu'', ''500m''), (''memory'', ''1Gi'')]"

definition alpine_defaults :: "node \<Rightarrow> node" where
  "alpine_defaults pb =
     (let cfg = GetConfig pb in
      pb\<lparr>n_Config := Some (cfg\<lparr>
           cfg_Command := dflt [''go'', ''run'', ''main.go''] (cfg_Command cfg),
           cfg_EntryCommand := dflt (entry_command (n_Name pb) ''sh'') (cfg_EntryCommand cfg),
           cfg_Image := dflt ''alpine:latest'' (cfg_Image cfg)\<rparr>),
         n_Services := Some (dflt_map [(22, name_service ''ssh'' 22)] (n_Services pb)),
         n_Constraints := Some (dflt_map dflt_resources (n_Constraints pb))\<rparr>)"

definition sonic_defaults :: "node \<Rightarrow> node" where
  "sonic_defaults pb =
     (let cfg = GetConfig pb in
      pb\<lparr>n_Config := Some (cfg\<lparr>
           cfg_Command := dflt [''bash''] (cfg_Command cfg),
           cfg_EntryCommand := dflt (entry_command (n_Name pb) ''sh'') (cfg_EntryCommand cfg),
           cfg_Image := dflt ''sonic:latest'' (cfg_Image cfg)\<rparr>),
         n_Services := Some (dflt_map [(22, name_service ''ssh'' 22)] (n_Services pb)),
         n_Constraints := Some (dflt_map dflt_resources (n_Constraints pb))\<rparr>)"

text \<open>The body of the \<open>renameInterfaces\<close> loop that the two packages share.\<close>

definition eth_name :: "nat \<Rightarrow> string" where
  "eth_name idx = ''eth'' @ nat_to_str idx"

definition rename_ethernet :: "nat \<Rightarrow> string \<Rightarrow> string \<times> nat" where
  "rename_ethernet idx k = (if HasPrefix k ''Ethernet'' then (eth_name idx, Suc idx) else (k, idx))"

definition renameInterfaces :: "(string, interface) gomap \<Rightarrow> (string, interface) gomap" where
  "renameInterfaces ifcs = rename_loop rename_ethernet 1 ifcs []"

definition alpine_New :: new_node_fn where
  "alpine_New pb =
     (let n = alpine_defaults pb in Ok (n\<lparr>n_Interfaces := renameInterfaces (n_Interfaces n)\<rparr>))"

definition sonic_New :: new_node_fn where
  "sonic_New pb =
     (let n = sonic_defaults pb in Ok (n\<lparr>n_Interfaces := renameInterfaces (n_Interfaces n)\<rparr>))"

interpretation alpine: vendor_defaults alpine_defaults
  by unfold_locales (simp_all add: alpine_defaults_def Let_def GetConfig_def)

interpretation sonic: vendor_defaults sonic_defaults
  by unfold_locales (simp_all add: sonic_defaults_def Let_def GetConfig_def)

text \<open>An \<open>Ethernet\<close> name and a plain \<open>eth\<close> name on one node may collide.\<close>

definition ethernet_renaming :: renaming where
  "ethernet_renaming =
     \<lparr>rn_ok = (\<lambda>K. (\<forall>k \<in> K. \<not> HasPrefix k ''Ethernet'') \<or> (\<forall>k \<in> K. \<forall>i. k \<noteq> eth_name i)),
      rn_may = (\<lambda>k k'. if HasPrefix k ''Ethernet'' then \<exists>i. k' = eth_name i else k' = k)\<rparr>"

lemma eth_name_inject [simp]: "eth_name i = eth_name j \<longleftrightarrow> i = j"
  by (simp add: eth_name_def)

lemma rename_ethernet_simps [simp]:
  "HasPrefix k ''Ethernet'' \<Longrightarrow> rename_ethernet idx k = (eth_name idx, Suc idx)"
  "\<not> HasPrefix k ''Ethernet'' \<Longrightarrow> rename_ethernet idx k = (k, idx)"
  by (simp_all add: rename_ethernet_def)

lemma rename_ethernet_distinct:
  assumes "distinct ks" and "rn_ok ethernet_renaming (set ks)"
  shows "distinct (new_names rename_ethernet idx ks)"
proof -
  from assms(2) consider "\<forall>k \<in> set ks. \<not> HasPrefix k ''Ethernet''" | "\<forall>k \<in> set ks. \<forall>i. k \<noteq> eth_name i"
    by (auto simp: ethernet_renaming_def)
  then show ?thesis
  proof cases
    case 1
    then have "new_names rename_ethernet idx ks = ks" by (induction ks) auto
    with assms(1) show ?thesis by simp
  next
    case 2
    have "distinct (new_names rename_ethernet idx ks) \<and>
        set (new_names rename_ethernet idx ks) \<subseteq> set ks \<union> eth_name ` {idx..}"
      using assms(1) 2
    proof (induction ks arbitrary: idx)
      case Nil
      then show ?case by simp
    next
      case (Cons k ks)
      show ?case
      proof (cases "HasPrefix k ''Ethernet''")
        case True
        have "distinct (new_names rename_ethernet (Suc idx) ks) \<and>
            set (new_names rename_ethernet (Suc idx) ks) \<subseteq> set ks \<union> eth_name ` {Suc idx..}"
          using Cons by simp
        moreover have "eth_name idx \<notin> set ks \<union> eth_name ` {Suc idx..}" using Cons.prems(2) by auto
        ultimately show ?thesis using True by auto
      next
        case False
        have "distinct (new_names rename_ethernet idx ks) \<and>
            set (new_names rename_ethernet idx ks) \<subseteq> set ks \<union> eth_name ` {idx..}"
          using Cons by simp
        moreover have "k \<notin> set ks \<union> eth_name ` {idx..}" using Cons.prems by auto
        ultimately show ?thesis using False by auto
      qed
    qed
    then show ?thesis ..
  qed
qed

lemma renameInterfaces_keeps:
  assumes "wf_map m"
  shows "wf_map (renameInterfaces m)"
    and "rn_ok ethernet_renaming (set (keys m)) \<Longrightarrow>
      \<exists>r. renames ethernet_renaming r (set (keys m)) \<and>
        set (map (\<lambda>(k, i). (k, wire i)) (renameInterfaces m)) = apfst r ` set (map (\<lambda>(k, i). (k, wire i)) m)"
proof -
  show "wf_map (renameInterfaces m)" by (simp add: renameInterfaces_def wf_rename_loop)
  assume "rn_ok ethernet_renaming (set (keys m))"
  then have "distinct (new_names rename_ethernet 1 (map fst m))"
    using assms by (intro rename_ethernet_distinct) (simp_all add: wf_map_def keys_def)
  then show "\<exists>r. renames ethernet_renaming r (set (keys m)) \<and>
        set (map (\<lambda>(k, i). (k, wire i)) (renameInterfaces m)) = apfst r ` set (map (\<lambda>(k, i). (k, wire i)) m)"
    unfolding renameInterfaces_def
    by (intro rename_loop_renames [OF assms]) (auto simp: ethernet_renaming_def rename_ethernet_def)
qed

lemma alpine_keeps: "keeps_wiring alpine_New ethernet_renaming"
  unfolding keeps_wiring_def
  using renameInterfaces_keeps
  by (auto simp: alpine_New_def Let_def alpine.keeps_name alpine.keeps_vendor alpine.keeps_ifcs wiring_def
      ethernet_renaming_def)

lemma sonic_keeps: "keeps_wiring sonic_New ethernet_renaming"
  unfolding keeps_wiring_def
  using renameInterfaces_keeps
  by (auto simp: sonic_New_def Let_def sonic.keeps_name sonic.keeps_vendor sonic.keeps_ifcs wiring_def
      ethernet_renaming_def)

section \<open>ciena\<close>

text \<open>The regular expression \<open>^\d+$\<close>, and \<open>^\d+/\d+/\d+$\<close> as a split at \<open>/\<close>.\<close>

definition all_digits :: "string \<Rightarrow> bool" where
  "all_digits s \<longleftrightarrow> s \<noteq> [] \<and> list_all digit_char s"

definition three_numbers :: "string \<Rightarrow> bool" where
  "three_numbers s \<longleftrightarrow> length (Split (CHR ''/'') s) = 3 \<and> list_all all_digits (Split (CHR ''/'') s)"

definition ciena_name :: "string \<Rightarrow> string" where
  "ciena_name k =
     (if three_numbers k then ''eth'' @ last (Split (CHR ''/'') k)
      else if all_digits k then ''eth'' @ k
      else k)"

definition ciena_renameInterfaces :: "(string, interface) gomap \<Rightarrow> (string, interface) gomap" where
  "ciena_renameInterfaces ifcs = rename_loop (\<lambda>idx k. (ciena_name k, idx)) 1 ifcs []"

definition ciena_services :: "(u32, service) gomap" where
  "ciena_services =
     [(22, names_service [''ssh''] 22), (179, names_service [''bgp''] 179),
      (225, names_service [''debug''] 225), (443, names_service [''ssl''] 443),
      (830, names_service [''netconf''] 830), (4243, names_service [''docker-daemon''] 4243),
      (9339, names_service [''gnmi''] 9339), (9340, names_service [''gribi''] 9340),
      (9559, names_service [''p4rt''] 9559), (10161, names_service [''gnmi-gnoi-alternate''] 10161)]"

text \<open>The two environment variables are overwritten on every run; the image depends on the model.\<close>

definition ciena_defaults :: "node \<Rightarrow> node" where
  "ciena_defaults pb =
     (let cfg = GetConfig pb;
          model = dflt ''5132'' (n_Model pb);
          os = dflt ''saos'' (n_Os pb);
          labels = put_dflt OndatraRoleLabel OndatraRoleDUT
                     (put_dflt ''os'' os (put_dflt ''model'' model
                       (put_dflt ''vendor'' ''CIENA'' (dflt_map [] (n_Labels pb)))));
          env = put ''CLAB_LABEL_CLAB_NODE_TYPE'' model
                  (put ''CLAB_LABEL_CLAB_NODE_NAME'' (n_Name pb) (dflt_map [] (cfg_Env cfg)))
      in pb\<lparr>n_Config := Some (cfg\<lparr>
              cfg_ConfigFile := dflt ''config.cfg'' (cfg_ConfigFile cfg),
              cfg_ConfigPath := dflt ''config/'' (cfg_ConfigPath cfg),
              cfg_Env := Some env,
              cfg_Image := (if model = ''waverouter'' \<and> cfg_Image cfg = []
                            then ''artifactory.ciena.com/psa/rw-containerlab:latest''
                            else dflt ''artifactory.ciena.com/psa/saos-containerlab:latest'' (cfg_Image cfg))\<rparr>),
            n_Model := model, n_Os := os,
            n_Services := Some (dflt_map ciena_services (n_Services pb)),
            n_Labels := Some labels\<rparr>)"

definition ciena_New :: new_node_fn where
  "ciena_New pb =
     (let n = ciena_defaults pb in Ok (n\<lparr>n_Interfaces := ciena_renameInterfaces (n_Interfaces n)\<rparr>))"

lemma put_put_same_twice:
  "k \<noteq> k' \<Longrightarrow> put k v (put k' v' (put k v (put k' v' m))) = put k v (put k' v' m)"
  by (subst put_same [of "put k v (put k' v' m)" k' v']) simp_all

interpretation ciena: vendor_defaults ciena_defaults
  by unfold_locales
    (simp_all add: ciena_defaults_def Let_def GetConfig_def role_consts put_put_same_twice dflt_def)

definition ciena_renaming :: renaming where
  "ciena_renaming = \<lparr>rn_ok = inj_on ciena_name, rn_may = (\<lambda>k k'. k' = ciena_name k)\<rparr>"

lemma ciena_keeps: "keeps_wiring ciena_New ciena_renaming"
proof -
  let ?f = "\<lambda>idx k. (ciena_name k, idx :: nat)"
  have nn: "new_names ?f idx ks = map ciena_name ks" for idx ks
    by (induction ks arbitrary: idx) auto
  have wf: "wf_map (ciena_renameInterfaces m)" for m
    by (simp add: ciena_renameInterfaces_def wf_rename_loop)
  have ren: "\<exists>r. renames ciena_renaming r (set (keys m)) \<and>
      set (map (\<lambda>(k, i). (k, wire i)) (ciena_renameInterfaces m)) = apfst r ` set (map (\<lambda>(k, i). (k, wire i)) m)"
    if m: "wf_map m" and inj: "inj_on ciena_name (set (keys m))" for m
  proof -
    have "distinct (map ciena_name (map fst m))"
      using m inj distinct_map [of ciena_name "map fst m"] by (simp add: wf_map_def keys_def)
    then show ?thesis unfolding ciena_renameInterfaces_def
      by (intro rename_loop_renames [OF m]) (simp_all add: nn ciena_renaming_def)
  qed
  show ?thesis unfolding keeps_wiring_def using wf ren
    by (auto simp: ciena_New_def Let_def ciena.keeps_name ciena.keeps_vendor ciena.keeps_ifcs wiring_def
        ciena_renaming_def intro: inj_on_subset)
qed

section \<open>keysight\<close>

definition keysight_services :: "(u32, service) gomap" where
  "keysight_services =
     [(8443, name_service ''https'' 8443), (40051, name_service ''grpc'' 40051), (50051, name_service ''gnmi'' 50051)]"

definition keysight_defaults :: "node \<Rightarrow> node" where
  "keysight_defaults pb =
     pb\<lparr>n_Services := Some (dflt_map keysight_services (n_Services pb)),
        n_Labels := Some (put_dflt OndatraRoleLabel OndatraRoleATE
          (dflt_map [(OndatraRoleLabel, OndatraRoleATE)] (n_Labels pb)))\<rparr>"

definition keysight_FixInterfaces :: "node \<Rightarrow> node" where
  "keysight_FixInterfaces n =
     n\<lparr>n_Interfaces := map (\<lambda>(k, v). (k, v\<lparr>ifc_Name := ifc_IntName v\<rparr>)) (n_Interfaces n)\<rparr>"

definition keysight_New :: new_node_fn where
  "keysight_New pb = Ok (keysight_FixInterfaces (keysight_defaults pb))"

interpretation keysight: vendor_defaults keysight_defaults
  by unfold_locales (simp_all add: keysight_defaults_def)

lemma map_ifc_wiring:
  assumes "\<And>k v. wire (g k v) = wire v"
  shows "map (\<lambda>(k, i). (k, wire i)) (map (\<lambda>(k, v). (k, g k v)) m) = map (\<lambda>(k, i). (k, wire i)) m"
    and "map fst (map (\<lambda>(k, v). (k, g k v)) m) = map fst m"
  using assms by auto

lemma keeps_wiring_map:
  assumes "\<And>n n'. fn n = Ok n' \<Longrightarrow> n_Name n' = n_Name n \<and> n_Vendor n' = n_Vendor n \<and>
      map fst (n_Interfaces n') = map fst (n_Interfaces n) \<and> wiring n' = wiring n"
  shows "keeps_wiring fn no_rename"
  unfolding keeps_wiring_def
  using assms by (fastforce simp: no_rename_def renames_def wf_map_def intro!: exI [of _ id])

lemma keysight_keeps: "keeps_wiring keysight_New no_rename"
  by (rule keeps_wiring_map)
    (auto simp: keysight_New_def keysight_FixInterfaces_def keysight.keeps_name keysight.keeps_vendor
      keysight.keeps_ifcs wiring_def wire_def)

end
