(* ===== verification/Vendor_NOS.thy ===== *)
theory Vendor_NOS
  imports Vendor_Hosts
begin

text \<open>
  The constructors and \<open>defaults\<close> functions of the network operating systems: \<open>nokia\<close>, \<open>arista\<close>,
  \<open>juniper\<close>, \<open>openconfig\<close> (lemming and magna) and \<open>drivenets\<close>. The labels and constraints are filled in
  with one conditional assignment per key, in the order of the code.
\<close>

text \<open>\<open>filepath.Ext\<close>: the suffix from the last dot of the last path element.\<close>

definition filepath_Ext :: "string \<Rightarrow> string" where
  "filepath_Ext p =
     (let r = takeWhile (\<lambda>c. c \<noteq> CHR ''/'') (rev p) in
      if CHR ''.'' \<in> set r then CHR ''.'' # rev (takeWhile (\<lambda>c. c \<noteq> CHR ''.'') r) else [])"

definition GetFile :: "config \<Rightarrow> string" where
  "GetFile cfg = (case cfg_ConfigData cfg of Some (Config_File f) \<Rightarrow> f | _ \<Rightarrow> [])"

definition self_signed_cert :: "string \<Rightarrow> string \<Rightarrow> u32 \<Rightarrow> string \<Rightarrow> certificate_cfg" where
  "self_signed_cert cert key sz common =
     CertificateCfg (Some \<lparr>ss_CertName = cert, ss_KeyName = key, ss_KeySize = sz, ss_CommonName = common\<rparr>)"

text \<open>\<open>cpu\<close> and \<open>memory\<close> with their defaults.\<close>

definition resources :: "string \<Rightarrow> string \<Rightarrow> (string, string) gomap \<Rightarrow> (string, string) gomap" where
  "resources cpu memory m = put_dflt ''memory'' memory (put_dflt ''cpu'' cpu m)"

lemma resources_idem [simp]: "resources c m (resources c m x) = resources c m x"
  by (simp add: resources_def)

section \<open>nokia\<close>

definition nokia_services :: "(u32, service) gomap" where
  "nokia_services =
     [(443, names_service [''ssl''] 443), (22, names_service [''ssh''] 22),
      (9339, names_service [''gnmi'', ''gnoi'', ''gnsi''] 57400), (9340, names_service [''gribi''] 57401),
      (9559, names_service [''p4rt''] 9559)]"

definition nokia_defaults :: "node \<Rightarrow> node" where
  "nokia_defaults pb =
     (let model = dflt ''ixrd2'' (n_Model pb);
          os = dflt ''nokia_srlinux'' (n_Os pb);
          labels = put_dflt OndatraRoleLabel OndatraRoleDUT
                     (put_dflt ''os'' os (put_dflt ''model'' model
                       (put_dflt ''vendor'' ''NOKIA'' (dflt_map [] (n_Labels pb)))));
          cfg = GetConfig pb;
          ext = (let e = filepath_Ext (GetFile cfg) in if e \<noteq> ''.json'' then ''.cli'' else e)
      in pb\<lparr>n_Services := Some (dflt_map nokia_services (n_Services pb)),
            n_Model := model, n_Os := os, n_Labels := Some labels,
            n_Config := Some (cfg\<lparr>
              cfg_Image := dflt ''ghcr.io/nokia/srlinux:latest'' (cfg_Image cfg),
              cfg_InitImage := dflt DefaultInitContainerImage (cfg_InitImage cfg),
              cfg_ConfigFile := dflt (''config'' @ ext) (cfg_ConfigFile cfg)\<rparr>),
            n_Constraints := Some (resources ''2000m'' ''4Gi'' (dflt_map [] (n_Constraints pb)))\<rparr>)"

definition nokia_New :: new_node_fn where
  "nokia_New pb = Ok (nokia_defaults pb)"

interpretation nokia: vendor_defaults nokia_defaults
  by unfold_locales (simp_all add: nokia_defaults_def Let_def GetConfig_def GetFile_def role_consts)

section \<open>juniper\<close>

definition juniper_services :: "(u32, service) gomap" where
  "juniper_services =
     [(443, names_service [''ssl''] 443), (22, names_service [''ssh''] 22),
      (9339, names_service [''gnmi'', ''gnoi'', ''gnsi''] 9339), (9340, names_service [''gribi''] 9340),
      (9559, names_service [''p4rt''] 9559)]"

text \<open>The model chooses between two sets of constraints, commands and images.\<close>

definition juniper_defaults :: "node \<Rightarrow> node" where
  "juniper_defaults pb =
     (let model = dflt ''ncptx'' (n_Model pb);
          os = dflt ''evo'' (n_Os pb);
          cfg = GetConfig pb;
          ncptx = (model = ''ncptx'');
          constraints =
            (if ncptx
             then resources ''4000m'' ''4Gi'' (dflt_map [(''cpu'', ''4000m''), (''memory'', ''4Gi'')] (n_Constraints pb))
             else resources ''8000m'' ''8Gi'' (dflt_map [] (n_Constraints pb)));
          labels = put_dflt OndatraRoleLabel OndatraRoleDUT
                     (put_dflt ''os'' os (put_dflt ''model'' model
                       (put_dflt ''vendor'' ''JUNIPER'' (dflt_map [] (n_Labels pb)))))
      in pb\<lparr>n_Model := model, n_Os := os,
            n_Config := Some (cfg\<lparr>
              cfg_Command := dflt [if ncptx then ''/sbin/cevoCntrEntryPoint'' else ''/entrypoint.sh''] (cfg_Command cfg),
              cfg_Image := dflt (if ncptx then ''ncptx:latest'' else ''cptx:latest'') (cfg_Image cfg),
              cfg_Cert := dflt_opt (self_signed_cert ''grpc-server-cert'' ''my_key'' 2048 []) (cfg_Cert cfg),
              cfg_Env := dflt_opt [(''JUNOS_EVOLVED_CONTAINER'', ''1'')] (cfg_Env cfg),
              cfg_EntryCommand := dflt (entry_command (n_Name pb) ''cli'') (cfg_EntryCommand cfg),
              cfg_ConfigPath := dflt ''/home/evo/configdisk'' (cfg_ConfigPath cfg),
              cfg_ConfigFile := dflt ''juniper.conf'' (cfg_ConfigFile cfg)\<rparr>),
            n_Constraints := Some constraints,
            n_Services := Some (dflt_map juniper_services (n_Services pb)),
            n_Labels := Some labels\<rparr>)"

definition juniper_New :: new_node_fn where
  "juniper_New pb = Ok (juniper_defaults pb)"

interpretation juniper: vendor_defaults juniper_defaults
  by unfold_locales (simp_all add: juniper_defaults_def Let_def GetConfig_def role_consts)

section \<open>arista\<close>

definition arista_services :: "(u32, service) gomap" where
  "arista_services =
     [(443, names_service [''ssl''] 443), (22, names_service [''ssh''] 22),
      (6030, names_service [''gnmi'', ''gnoi''] 6030), (9340, names_service [''gribi''] 9340),
      (9559, names_service [''p4rt''] 9559)]"

definition arista_constraints :: "node \<Rightarrow> node" where
  "arista_constraints pb = pb\<lparr>n_Constraints := Some (resources ''500m'' ''1Gi'' (dflt_map [] (n_Constraints pb)))\<rparr>"

definition arista_defaults :: "node \<Rightarrow> node" where
  "arista_defaults pb0 =
     (let pb = arista_constraints pb0;
          model = dflt ''ceos'' (n_Model pb);
          os = dflt ''eos'' (n_Os pb);
          labels = put_dflt OndatraRoleLabel OndatraRoleDUT
                     (put_dflt ''version'' (n_Version pb) (put_dflt ''os'' os (put_dflt ''model'' model
                       (put_dflt ''vendor'' ''ARISTA'' (dflt_map [] (n_Labels pb))))));
          cfg = GetConfig pb
      in pb\<lparr>n_Services := Some (dflt_map arista_services (n_Services pb)),
            n_Os := os, n_Model := model, n_Labels := Some labels,
            n_Config := Some (cfg\<lparr>
              cfg_EntryCommand := dflt (entry_command (n_Name pb) ''Cli'') (cfg_EntryCommand cfg),
              cfg_ConfigPath := dflt ''/mnt/flash'' (cfg_ConfigPath cfg),
              cfg_ConfigFile := dflt ''startup-config'' (cfg_ConfigFile cfg),
              cfg_Image := dflt ''ceos:latest'' (cfg_Image cfg),
              cfg_InitImage := dflt DefaultInitContainerImage (cfg_InitImage cfg),
              cfg_Cert := dflt_opt (self_signed_cert ''gnmiCert.pem'' ''gnmiCertKey.pem'' 4096 []) (cfg_Cert cfg)\<rparr>)\<rparr>)"

interpretation arista: vendor_defaults arista_defaults
  by unfold_locales
    (simp_all add: arista_defaults_def arista_constraints_def Let_def GetConfig_def role_consts)

text \<open>
  \<open>^Ethernet\d+(?:/\d+)?(?:/\d+)?$\<close> and \<open>^Management\d+(?:/\d+)?$\<close>: a prefix and up to three or two
  numbers separated by slashes.
\<close>

definition slash_numbers :: "nat \<Rightarrow> string \<Rightarrow> string \<Rightarrow> bool" where
  "slash_numbers most pre s \<longleftrightarrow>
     HasPrefix s pre \<and>
     (let parts = Split (CHR ''/'') (drop (length pre) s) in length parts \<le> most \<and> list_all all_digits parts)"

definition ethIntfRe :: "string \<Rightarrow> bool" where
  "ethIntfRe s = slash_numbers 3 ''Ethernet'' s"

definition mgmtIntfRe :: "string \<Rightarrow> bool" where
  "mgmtIntfRe s = slash_numbers 2 ''Management'' s"

text \<open>The body of the loop of \<open>FixInterfaces\<close> for one interface.\<close>

definition arista_fix :: "string \<times> interface \<Rightarrow> (string \<times> interface) result" where
  "arista_fix kv =
     (case kv of (k, v) \<Rightarrow>
        if \<not> HasPrefix k ''eth'' \<or> ethIntfRe (ifc_Name v) \<or> mgmtIntfRe (ifc_Name v) then Ok (k, v)
        else if ifc_Name v = [] then Ok (k, v\<lparr>ifc_Name := ''Ethernet'' @ TrimPrefix k ''eth''\<rparr>)
        else Error (Errorf ''Unrecognized interface name: %s'' [ifc_Name v]))"

definition arista_FixInterfaces :: "node \<Rightarrow> node result" where
  "arista_FixInterfaces n =
     rbind (mapM arista_fix (n_Interfaces n)) (\<lambda>ifcs. Ok (n\<lparr>n_Interfaces := ifcs\<rparr>))"

definition arista_New :: new_node_fn where
  "arista_New pb = arista_FixInterfaces (arista_defaults pb)"

lemma arista_fix_Ok: "arista_fix (k, v) = Ok (k', v') \<Longrightarrow> k' = k \<and> wire v' = wire v"
  by (auto simp: arista_fix_def wire_def split: if_splits)

lemma arista_keeps: "keeps_wiring arista_New no_rename"
proof (rule keeps_wiring_map)
  fix n n' assume ok: "arista_New n = Ok n'"
  let ?ifcs = "n_Interfaces (arista_defaults n)"
  from ok obtain ifcs where n': "n' = (arista_defaults n)\<lparr>n_Interfaces := ifcs\<rparr>"
    and m: "mapM arista_fix ?ifcs = Ok ifcs" by (auto simp: arista_New_def arista_FixInterfaces_def)
  from m have "list_all2 (\<lambda>x y. fst y = fst x \<and> wire (snd y) = wire (snd x)) ?ifcs ifcs"
    unfolding mapM_Ok_iff by (rule list_all2_mono) (use arista_fix_Ok in fastforce)
  then have "map fst ifcs = map fst ?ifcs" and
    "map (\<lambda>(k, i). (k, wire i)) ifcs = map (\<lambda>(k, i). (k, wire i)) ?ifcs"
    by (induction rule: list_all2_induct) auto
  then show "n_Name n' = n_Name n \<and> n_Vendor n' = n_Vendor n \<and>
      map fst (n_Interfaces n') = map fst (n_Interfaces n) \<and> wiring n' = wiring n"
    by (simp add: n' wiring_def arista.keeps_name arista.keeps_vendor arista.keeps_ifcs)
qed

section \<open>openconfig: lemming and magna\<close>

definition lemming_services :: "(u32, service) gomap" where
  "lemming_services =
     [(9339, names_service [''gnmi'', ''gnoi'', ''gnsi''] 9339), (9340, names_service [''gribi''] 9340)]"

text \<open>The role label is overwritten on every run.\<close>

definition lemmingDefaults :: "node \<Rightarrow> node" where
  "lemmingDefaults pb =
     (let cfg = GetConfig pb;
          labels = put OndatraRoleLabel OndatraRoleDUT
                     (put_dflt ''vendor'' ''OPENCONFIG''
                       (dflt_map [(''vendor'', ''OPENCONFIG''), (OndatraRoleLabel, OndatraRoleDUT)] (n_Labels pb)))
      in pb\<lparr>n_Config := Some (cfg\<lparr>
              cfg_Image := dflt ''us-west1-docker.pkg.dev/openconfig-lemming/release/lemming:ga'' (cfg_Image cfg),
              cfg_InitImage := dflt DefaultInitContainerImage (cfg_InitImage cfg),
              cfg_Command := dflt [''/lemming/lemming''] (cfg_Command cfg),
              cfg_EntryCommand := dflt (entry_command (n_Name pb) ''/bin/bash'') (cfg_EntryCommand cfg),
              cfg_Cert := dflt_opt (self_signed_cert [] [] 2048 (n_Name pb)) (cfg_Cert cfg)\<rparr>),
            n_Constraints := Some (resources ''500m'' ''1Gi'' (dflt_map dflt_resources (n_Constraints pb))),
            n_Labels := Some labels,
            n_Services := Some (dflt_map lemming_services (n_Services pb))\<rparr>)"

text \<open>A service is added under each of the two ports that the map does not have.\<close>

definition add_service :: "u32 \<Rightarrow> service \<Rightarrow> (u32, service) gomap \<Rightarrow> (u32, service) gomap" where
  "add_service port svc m = (case map_of m port of None \<Rightarrow> put port svc m | Some _ \<Rightarrow> m)"

definition magna_command :: "string list" where
  "magna_command = [''/app/magna'', ''-v=2'', ''-alsologtostderr'', ''-port=40051'', ''-telemetry_port=50051'',
     ''-certfile=/data/cert.pem'', ''-keyfile=/data/key.pem'']"

definition magnaDefaults :: "node \<Rightarrow> node" where
  "magnaDefaults pb =
     (let cfg = GetConfig pb in
      pb\<lparr>n_Config := Some (cfg\<lparr>
           cfg_Command := dflt magna_command (cfg_Command cfg),
           cfg_EntryCommand := dflt (entry_command (n_Name pb) ''sh'') (cfg_EntryCommand cfg),
           cfg_Image := dflt ''magna:latest'' (cfg_Image cfg)\<rparr>),
         n_Services := Some (add_service 50051 (names_service [''gnmi''] 50051)
           (add_service 40051 (names_service [''grpc''] 40051) (dflt_map [] (n_Services pb)))),
         n_Labels := Some (put OndatraRoleLabel OndatraRoleATE
           (dflt_map [(''vendor'', ''OPENCONFIG'')] (n_Labels pb)))\<rparr>)"

definition openconfig_New :: new_node_fn where
  "openconfig_New pb =
     (if n_Model pb = ''LEMMING'' then Ok (lemmingDefaults pb)
      else if n_Model pb = ''MAGNA'' then Ok (magnaDefaults pb)
      else Error (Errorf ''a model must be specified'' []))"

lemma map_of_add_service: "map_of (add_service p s m) q = (if q = p \<and> map_of m p = None then Some s else map_of m q)"
  by (simp add: add_service_def split: option.splits)

lemma add_service_noop: "map_of m p \<noteq> None \<Longrightarrow> add_service p s m = m"
  by (auto simp: add_service_def)

lemma put_dflt_put: "k \<noteq> k' \<Longrightarrow> settled k v m \<Longrightarrow> put_dflt k v (put k' v' m) = put k' v' m"
  by simp

interpretation lemming: vendor_defaults lemmingDefaults
  by unfold_locales
    (simp_all add: lemmingDefaults_def Let_def GetConfig_def role_consts)

interpretation magna: vendor_defaults magnaDefaults
  by unfold_locales
    (simp_all add: magnaDefaults_def Let_def GetConfig_def role_consts add_service_noop map_of_add_service)

lemma openconfig_keeps: "keeps_wiring openconfig_New no_rename"
  by (rule keeps_wiring_map)
    (auto simp: openconfig_New_def wiring_def lemming.keeps_name lemming.keeps_vendor lemming.keeps_ifcs
      magna.keeps_name magna.keeps_vendor magna.keeps_ifcs split: if_splits)

section \<open>drivenets\<close>

definition drivenets_services :: "(u32, service) gomap" where
  "drivenets_services =
     [(22, names_service [''ssh''] 22), (830, names_service [''netconf''] 830),
      (50051, names_service [''grpc''] 50051), (51337, names_service [''gnmi''] 51337),
      (52443, names_service [''gnmi-ssl''] 52443)]"

definition cdnosDefaults :: "node \<Rightarrow> node" where
  "cdnosDefaults pb =
     (let cfg = GetConfig pb;
          labels = put OndatraRoleLabel OndatraRoleDUT
                     (put_dflt ''vendor'' ''DRIVENETS''
                       (dflt_map [(''vendor'', ''DRIVENETS''), (OndatraRoleLabel, OndatraRoleDUT)] (n_Labels pb)))
      in pb\<lparr>n_Config := Some (cfg\<lparr>
              cfg_ConfigFile := dflt ''default'' (cfg_ConfigFile cfg),
              cfg_ConfigPath := dflt ''/config_load'' (cfg_ConfigPath cfg),
              cfg_Image := dflt ''registry.dev.drivenets.net/devops/cdnos:latest'' (cfg_Image cfg),
              cfg_InitImage := dflt DefaultInitContainerImage (cfg_InitImage cfg),
              cfg_Command := dflt [''/define_notif_net.sh''] (cfg_Command cfg),
              cfg_EntryCommand := dflt (entry_command (n_Name pb) ''/bin/bash'') (cfg_EntryCommand cfg),
              cfg_Cert := dflt_opt (self_signed_cert [] [] 2048 (n_Name pb)) (cfg_Cert cfg)\<rparr>),
            n_Constraints := Some (resources ''500m'' ''1Gi'' (dflt_map dflt_resources (n_Constraints pb))),
            n_Labels := Some labels,
            n_Services := Some (dflt_map drivenets_services (n_Services pb))\<rparr>)"

definition drivenets_New :: new_node_fn where
  "drivenets_New pb =
     (if n_Model pb \<noteq> ''CDNOS'' then Error (Errorf ''unknown model'' []) else Ok (cdnosDefaults pb))"

interpretation cdnos: vendor_defaults cdnosDefaults
  by unfold_locales
    (simp_all add: cdnosDefaults_def Let_def GetConfig_def role_consts)

lemma drivenets_keeps: "keeps_wiring drivenets_New no_rename"
  by (rule keeps_wiring_map)
    (auto simp: drivenets_New_def wiring_def cdnos.keeps_name cdnos.keeps_vendor cdnos.keeps_ifcs split: if_splits)

end
