(* ===== verification/Vendor_Cisco.thy ===== *)
theory Vendor_Cisco
  imports Vendor_NOS
begin

text \<open>
  \<open>topo/node/cisco/cisco.go\<close>: the constructor and its defaults, the mapping of interface keys to IOS-XR
  interface names with the regular expressions it uses, the environment variables, and the
  preparation of a configuration for a push.
\<close>

section \<open>The interface regular expressions\<close>

text \<open>
  \<open>e(t(h(e(r(n(e(t)*)*)*)*)*)*)\<close> matches \<open>et\<close> and then any number of further letters of \<open>ethernet\<close>. The state
  is the innermost group that the last letter belongs to; every state accepts, and the greedy match
  prefers the innermost group, so the leftmost match runs as far as the automaton can go.
\<close>

datatype eth_state = G_t | G_h | G_e | G_r | G_n | G_ne | G_net

fun eth_next :: "eth_state \<Rightarrow> char \<Rightarrow> eth_state option" where
  "eth_next st c =
     (if c = CHR ''h'' then Some G_h
      else if c = CHR ''e'' \<and> st \<in> {G_h, G_e, G_r} then Some G_e
      else if c = CHR ''e'' \<and> st \<in> {G_n, G_ne, G_net} then Some G_ne
      else if c = CHR ''r'' \<and> st \<in> {G_e, G_r, G_n, G_ne, G_net} then Some G_r
      else if c = CHR ''n'' \<and> st \<in> {G_r, G_n, G_ne, G_net} then Some G_n
      else if c = CHR ''t'' \<and> st \<in> {G_ne, G_net} then Some G_net
      else None)"

text \<open>What is left of the input after the match.\<close>

fun eth_run :: "eth_state \<Rightarrow> string \<Rightarrow> string" where
  "eth_run st [] = []"
| "eth_run st (c # s) = (case eth_next st c of None \<Rightarrow> c # s | Some st' \<Rightarrow> eth_run st' s)"

definition eth_here :: "string \<Rightarrow> string option" where
  "eth_here s = (if HasPrefix s ''et'' then Some (eth_run G_t (drop 2 s)) else None)"

text \<open>\<open>ethWithIDRegx.MatchString\<close>: a match of the expression directly followed by a digit.\<close>

fun ethWithIDRegx :: "string \<Rightarrow> bool" where
  "ethWithIDRegx [] = False"
| "ethWithIDRegx (c # s) =
     ((case eth_here (c # s) of Some (d # _) \<Rightarrow> digit_char d | _ \<Rightarrow> False) \<or> ethWithIDRegx s)"

text \<open>\<open>ethRegx.Split(eth, -1)[1]\<close>: the text between the first match and the second, or the end.\<close>

fun after_match :: "string \<Rightarrow> string" where
  "after_match [] = []"
| "after_match (c # s) = (case eth_here (c # s) of Some r \<Rightarrow> r | None \<Rightarrow> after_match s)"

fun before_match :: "string \<Rightarrow> string" where
  "before_match [] = []"
| "before_match (c # s) = (case eth_here (c # s) of Some _ \<Rightarrow> [] | None \<Rightarrow> c # before_match s)"

definition split_second :: "string \<Rightarrow> string" where
  "split_second s = before_match (after_match s)"

section \<open>Interface names\<close>

definition fmtInt100 :: "int \<Rightarrow> string" where
  "fmtInt100 eid = ''HundredGigE0/0/0/'' @ itoa eid"

definition fmtInt400 :: "int \<Rightarrow> string" where
  "fmtInt400 eid = ''FourHundredGigE0/0/0/'' @ itoa eid"

definition unmapped_id :: "int \<Rightarrow> string \<Rightarrow> string \<Rightarrow> string result" where
  "unmapped_id ethID supported model =
     Error (Errorf ''interface id %d can not be mapped to a cisco interface, %s is supported on %s ''
              [itoa ethID, supported, model])"

definition getCiscoInterfaceID :: "node \<Rightarrow> string \<Rightarrow> string result" where
  "getCiscoInterfaceID pb eth =
     (if \<not> ethWithIDRegx eth then Error (Errorf ''interface '%s' is invalid'' [eth])
      else case map_of (n_Interfaces pb) eth of
        None \<Rightarrow> Panic ''nil interface''
      | Some ifc \<Rightarrow>
          if ifc_Name ifc \<noteq> [] then Ok (ifc_Name ifc)
          else (let ethID = Atoi_val (split_second eth); eid = wrap64 (ethID - 1); model = n_Model pb in
                if model = ''8201'' then
                  (if eid \<le> 23 then Ok (fmtInt400 eid) else if eid \<le> 35 then Ok (fmtInt100 eid)
                   else unmapped_id ethID ''eth1..eth36'' model)
                else if model = ''8202'' then
                  (if eid \<le> 47 then Ok (fmtInt100 eid) else if eid \<le> 59 then Ok (fmtInt400 eid)
                   else if eid \<le> 71 then Ok (fmtInt100 eid) else unmapped_id ethID ''eth1..eth72'' model)
                else if model = ''8201-32FH'' then
                  (if eid \<le> 31 then Ok (fmtInt400 eid) else unmapped_id ethID ''eth1..eth32'' model)
                else if model = ''8101-32H'' then
                  (if eid \<le> 31 then Ok (fmtInt100 eid) else unmapped_id ethID ''eth1..eth32'' model)
                else if model = ''8102-64H'' then
                  (if eid \<le> 63 then Ok (fmtInt100 eid) else unmapped_id ethID ''eth1..eth64'' model)
                else Ok (''GigabitEthernet0/0/0/'' @ itoa eid)))"

section \<open>Environment variables\<close>

definition sorted_eths :: "node \<Rightarrow> string list" where
  "sorted_eths pb = sort (keys (n_Interfaces pb))"

definition env_of :: "node \<Rightarrow> (string, string) gomap" where
  "env_of pb = dflt_map [] (cfg_Env (GetConfig pb))"

definition set_env :: "(string, string) gomap \<Rightarrow> node \<Rightarrow> node" where
  "set_env env pb = pb\<lparr>n_Config := Some ((GetConfig pb)\<lparr>cfg_Env := Some env\<rparr>)\<rparr>"

definition boot_config :: "node \<Rightarrow> string" where
  "boot_config pb = filepath_Join [cfg_ConfigPath (GetConfig pb), cfg_ConfigFile (GetConfig pb)]"

text \<open>The loop over the sorted interfaces, with the list and the map it builds.\<close>

definition e8000_step :: "node \<Rightarrow> string \<times> string \<Rightarrow> string \<Rightarrow> (string \<times> string) result" where
  "e8000_step pb lm eth =
     rbind (getCiscoInterfaceID pb eth)
       (\<lambda>i. Ok (fst lm @ '','' @ i, snd lm @ '','' @ i @ '':'' @ eth))"

definition setE8000Env :: "node \<Rightarrow> node result" where
  "setE8000Env pb =
     rbind (foldM (e8000_step pb) (''MgmtEther0/RP0/CPU0/0'', ''MgmtEther0/RP0/CPU0/0:eth0'') (sorted_eths pb))
       (\<lambda>(interfaceList, interfaceMap).
          Ok (set_env (put_dflt ''XR_EVERY_BOOT_CONFIG'' (boot_config pb)
                 (put_dflt ''XR_CHECKSUM_OFFLOAD_COUNTERACT'' interfaceList
                   (put_dflt ''XR_INTERFACES'' interfaceMap (env_of pb)))) pb))"

definition xrd_step :: "node \<Rightarrow> string \<Rightarrow> string \<Rightarrow> string result" where
  "xrd_step pb interfaceMap eth =
     rbind (getCiscoInterfaceID pb eth)
       (\<lambda>i. let one = ''linux:'' @ eth @ '',xr_name='' @ i in
            Ok (if interfaceMap = [] then one else interfaceMap @ '';'' @ one))"

definition setXRDEnv :: "node \<Rightarrow> node result" where
  "setXRDEnv pb =
     rbind (foldM (xrd_step pb) [] (sorted_eths pb))
       (\<lambda>interfaceMap.
          Ok (set_env (put ''XR_MGMT_INTERFACES'' ''linux:eth0,xr_name=MgmtEth0/RP0/CPU0/0,chksum,snoop_v4,snoop_v6''
                 (put_dflt ''XR_EVERY_BOOT_CONFIG'' (boot_config pb)
                   (put_dflt ''XR_INTERFACES'' interfaceMap (env_of pb)))) pb))"

section \<open>Defaults\<close>

definition models_8000e :: "string list" where
  "models_8000e = [''8201'', ''8201-32FH'', ''8202'', ''8101-32H'', ''8102-64H'']"

definition cisco_constraints :: "string \<Rightarrow> (string, string) gomap option \<Rightarrow> (string, string) gomap" where
  "cisco_constraints model m =
     (if model \<in> set models_8000e then resources ''4000m'' ''20Gi'' (dflt_map [] m)
      else resources ''1000m'' ''2Gi'' (dflt_map [] m))"

definition cisco_services :: "(u32, service) gomap" where
  "cisco_services =
     [(22, names_service [''ssh''] 22), (9339, names_service [''gnmi'', ''gnoi'', ''gnsi''] 57400),
      (9340, names_service [''gribi''] 57400), (9559, names_service [''p4rt''] 57400)]"

text \<open>The assignments before the switch on the model.\<close>

definition cisco_base :: "node \<Rightarrow> node" where
  "cisco_base pb =
     (let cfg = GetConfig pb;
          model = dflt ''xrd'' (n_Model pb);
          os = dflt ''ios-xr'' (n_Os pb);
          labels = put_dflt OndatraRoleLabel OndatraRoleDUT
                     (put_dflt ''os'' os (put_dflt ''model'' model
                       (put_dflt ''vendor'' ''CISCO'' (dflt_map [] (n_Labels pb)))))
      in pb\<lparr>n_Config := Some (cfg\<lparr>
              cfg_ConfigFile := dflt ''startup.cfg'' (cfg_ConfigFile cfg),
              cfg_ConfigPath := dflt ''/'' (cfg_ConfigPath cfg),
              cfg_Cert := dflt_opt (self_signed_cert ''ems.pem'' ''ems.key'' 2048 []) (cfg_Cert cfg),
              cfg_EntryCommand := dflt (entry_command (n_Name pb) ''bash'') (cfg_EntryCommand cfg)\<rparr>),
            n_Model := model, n_Os := os,
            n_Constraints := Some (cisco_constraints model (n_Constraints pb)),
            n_Services := Some (dflt_map cisco_services (n_Services pb)),
            n_Labels := Some labels\<rparr>)"

definition kernel_constraint :: "string \<Rightarrow> int \<Rightarrow> int \<Rightarrow> host_constraint" where
  "kernel_constraint name mx mn =
     KernelConstraint \<lparr>kp_Name = name, kp_BoundedInteger = Some \<lparr>bi_MaxValue = mx, bi_MinValue = mn\<rparr>\<rparr>"

text \<open>Image and host constraints of a model.\<close>

definition cisco_model :: "string \<Rightarrow> host_constraint \<Rightarrow> node \<Rightarrow> node" where
  "cisco_model img constraint pb =
     pb\<lparr>n_Config := Some ((GetConfig pb)\<lparr>cfg_Image := dflt img (cfg_Image (GetConfig pb))\<rparr>),
        n_HostConstraints := dflt [constraint] (n_HostConstraints pb)\<rparr>"

definition cisco_defaults :: "node \<Rightarrow> node result" where
  "cisco_defaults pb0 =
     (let pb = cisco_base pb0 in
      if n_Model pb = ''xrd'' then
        rbind (setXRDEnv pb) (\<lambda>pb.
          Ok (cisco_model ''xrd:latest'' (kernel_constraint ''fs.inotify.max_user_instances'' 0 64000) pb))
      else if n_Model pb \<in> set models_8000e then
        rbind (setE8000Env pb) (\<lambda>pb.
          Ok (cisco_model ''8000e:latest'' (kernel_constraint ''kernel.pid_max'' 1048575 0) pb))
      else Error (Errorf ''unexpected model %q'' [n_Model pb]))"

definition cisco_New :: new_node_fn where
  "cisco_New pb = cisco_defaults pb"

section \<open>Preparing a configuration\<close>

definition is_end :: "string \<Rightarrow> bool" where
  "is_end line \<longleftrightarrow> ToLower (Trim '' '' line) = ''end''"

definition newline :: string where
  "newline = [char_of (10 :: nat)]"

fun process_lines :: "string list \<Rightarrow> string \<Rightarrow> string \<Rightarrow> string \<times> string" where
  "process_lines [] processedCfg lastLine = (processedCfg, lastLine)"
| "process_lines (line # lines) processedCfg lastLine =
     (if is_end line then process_lines lines processedCfg lastLine
      else process_lines lines (processedCfg @ line @ newline) line)"

definition processConfig :: "string \<Rightarrow> string" where
  "processConfig cfg =
     (let (processedCfg, lastLine) = process_lines (Split (char_of (10 :: nat)) cfg) [] [] in
      if ToLower (Trim '' '' lastLine) \<noteq> ''commit'' then processedCfg @ ''commit'' @ newline else processedCfg)"

section \<open>Interface keys of the form eth<k>\<close>

lemma eth_here_no_e: "c \<noteq> CHR ''e'' \<Longrightarrow> eth_here (c # s) = None"
  by (simp add: eth_here_def HasPrefix_def)

lemma digit_not_letter: "digit_char c \<Longrightarrow> c \<noteq> CHR ''e'' \<and> c \<noteq> CHR ''h'' \<and> c \<noteq> CHR ''r'' \<and> c \<noteq> CHR ''n'' \<and> c \<noteq> CHR ''t''"
  by (auto simp: digit_char_def)

lemma eth_next_digit: "digit_char c \<Longrightarrow> eth_next st c = None"
  by (drule digit_not_letter) simp

lemma eth_run_digits: "list_all digit_char s \<Longrightarrow> eth_run st s = s"
  by (cases s) (simp_all add: digit_not_letter del: eth_next.simps add: eth_next_digit)

lemma before_match_digits: "list_all digit_char s \<Longrightarrow> before_match s = s"
  by (induction s) (simp_all add: digit_not_letter eth_here_no_e)

lemma eth_here_eth: "list_all digit_char s \<Longrightarrow> eth_here (''eth'' @ s) = Some s"
  by (simp add: eth_here_def HasPrefix_def eth_run_digits)

lemma eth_name_regexps:
  "ethWithIDRegx (''eth'' @ nat_to_str k)" "split_second (''eth'' @ nat_to_str k) = nat_to_str k"
proof -
  have d: "list_all digit_char (nat_to_str k)" by (rule nat_to_str_digits)
  obtain c cs where c: "nat_to_str k = c # cs" by (cases "nat_to_str k") auto
  have "eth_here (CHR ''e'' # ''th'' @ nat_to_str k) = Some (nat_to_str k)" using eth_here_eth [OF d] by simp
  moreover have "before_match (nat_to_str k) = nat_to_str k" by (rule before_match_digits [OF d])
  ultimately show "ethWithIDRegx (''eth'' @ nat_to_str k)" "split_second (''eth'' @ nat_to_str k) = nat_to_str k"
    using d by (simp_all add: c split_second_def del: before_match.simps)
qed

text \<open>The number of interfaces of a model; \<open>xrd\<close> and unknown models have no limit below \<open>int64\<close>.\<close>

definition cisco_ports :: "string \<Rightarrow> int" where
  "cisco_ports model =
     (if model = ''8201'' then 36 else if model = ''8202'' then 72
      else if model \<in> {''8201-32FH'', ''8101-32H''} then 32
      else if model = ''8102-64H'' then 64 else 2 ^ 63 - 1)"

text \<open>The speed of a port: its position among the model's 400G and 100G ports.\<close>

definition cisco_port_prefix :: "string \<Rightarrow> int \<Rightarrow> string" where
  "cisco_port_prefix model k =
     (if model = ''8201-32FH'' \<or> model = ''8201'' \<and> k \<le> 24 \<or> model = ''8202'' \<and> 49 \<le> k \<and> k \<le> 60
      then ''FourHundredGigE0/0/0/''
      else if model \<in> set models_8000e then ''HundredGigE0/0/0/'' else ''GigabitEthernet0/0/0/'')"

lemma getCiscoInterfaceID_eth:
  assumes ifc: "map_of (n_Interfaces pb) (''eth'' @ nat_to_str k) = Some i" "ifc_Name i = []"
    and k: "int k < 2 ^ 63"
  shows "getCiscoInterfaceID pb (''eth'' @ nat_to_str k) =
    (if int k \<le> cisco_ports (n_Model pb) then Ok (cisco_port_prefix (n_Model pb) (int k) @ itoa (int k - 1))
     else Error (Errorf ''interface id %d can not be mapped to a cisco interface, %s is supported on %s ''
       [itoa (int k), ''eth1..eth'' @ itoa (cisco_ports (n_Model pb)), n_Model pb]))"
proof -
  have w: "wrap64 (int k - 1) = int k - 1" by (rule wrap64_id) (use k in auto)
  have a: "Atoi_val (nat_to_str k) = int k" by (rule Atoi_val_nat_to_str) (use k in simp)
  have n: "itoa 36 = ''36''" "itoa 72 = ''72''" "itoa 32 = ''32''" "itoa 64 = ''64''"
    by code_simp+
  define eth where "eth = ''eth'' @ nat_to_str k"
  have e: "ethWithIDRegx eth" "split_second eth = nat_to_str k" "map_of (n_Interfaces pb) eth = Some i"
    unfolding eth_def by (rule eth_name_regexps ifc(1))+
  note defs = getCiscoInterfaceID_def e a w n ifc(2) Let_def cisco_ports_def cisco_port_prefix_def
    models_8000e_def fmtInt100_def fmtInt400_def unmapped_id_def
  consider "n_Model pb = ''8201''" | "n_Model pb = ''8202''" | "n_Model pb = ''8201-32FH''" | "n_Model pb = ''8101-32H''"
    | "n_Model pb = ''8102-64H''" | "n_Model pb \<notin> set models_8000e" by (auto simp: models_8000e_def)
  then show ?thesis
  proof cases
    case 6
    then show ?thesis using k unfolding eth_def [symmetric] by (simp add: defs)
  qed (unfold eth_def [symmetric], simp_all add: defs)
qed

section \<open>Defaults are stable\<close>

lemma sorted_eths_cong: "n_Interfaces pb = n_Interfaces pb' \<Longrightarrow> sorted_eths pb = sorted_eths pb'"
  by (simp add: sorted_eths_def)

lemma getCiscoInterfaceID_cong:
  "n_Interfaces pb = n_Interfaces pb' \<Longrightarrow> n_Model pb = n_Model pb' \<Longrightarrow> getCiscoInterfaceID pb = getCiscoInterfaceID pb'"
  unfolding getCiscoInterfaceID_def by (simp only:)

lemma cisco_base_idem: "cisco_base (cisco_base pb) = cisco_base pb"
  by (simp add: cisco_base_def cisco_constraints_def Let_def GetConfig_def role_consts)

text \<open>The environment and the model step commute with the base step and keep what the loops read.\<close>

lemma cisco_base_set_env: "cisco_base (set_env env pb) = set_env env (cisco_base pb)"
  by (simp add: cisco_base_def set_env_def Let_def GetConfig_def)

lemma cisco_base_model: "cisco_base (cisco_model img c pb) = cisco_model img c (cisco_base pb)"
  by (simp add: cisco_base_def cisco_model_def Let_def GetConfig_def)

lemma cisco_base_keeps [simp]:
  "n_Name (cisco_base pb) = n_Name pb" "n_Vendor (cisco_base pb) = n_Vendor pb"
  "n_Interfaces (cisco_base pb) = n_Interfaces pb" "n_Model (cisco_base pb) = dflt ''xrd'' (n_Model pb)"
  by (simp_all add: cisco_base_def Let_def)

lemma set_env_keeps [simp]:
  "n_Name (set_env env pb) = n_Name pb" "n_Vendor (set_env env pb) = n_Vendor pb"
  "n_Interfaces (set_env env pb) = n_Interfaces pb" "n_Model (set_env env pb) = n_Model pb"
  "env_of (set_env env pb) = env" "boot_config (set_env env pb) = boot_config pb"
  by (simp_all add: set_env_def env_of_def boot_config_def)

lemma cisco_model_keeps [simp]:
  "n_Name (cisco_model img c pb) = n_Name pb" "n_Vendor (cisco_model img c pb) = n_Vendor pb"
  "n_Interfaces (cisco_model img c pb) = n_Interfaces pb" "n_Model (cisco_model img c pb) = n_Model pb"
  "env_of (cisco_model img c pb) = env_of pb" "boot_config (cisco_model img c pb) = boot_config pb"
  by (simp_all add: cisco_model_def env_of_def boot_config_def GetConfig_def)

lemma cisco_model_idem: "cisco_model img c (cisco_model img c pb) = cisco_model img c pb"
  by (simp add: cisco_model_def GetConfig_def)

lemma set_env_model: "set_env env (cisco_model img c pb) = cisco_model img c (set_env env pb)"
  by (simp add: cisco_model_def set_env_def GetConfig_def)

lemma set_env_idem: "set_env env (set_env env pb) = set_env env pb"
  by (simp add: set_env_def GetConfig_def)

lemma cisco_loops_cong:
  assumes "n_Interfaces pb = n_Interfaces pb'" "n_Model pb = n_Model pb'"
  shows "foldM (e8000_step pb) lm (sorted_eths pb) = foldM (e8000_step pb') lm (sorted_eths pb')"
    and "foldM (xrd_step pb) im (sorted_eths pb) = foldM (xrd_step pb') im (sorted_eths pb')"
proof -
  have "e8000_step pb = e8000_step pb'" "xrd_step pb = xrd_step pb'"
    by (auto simp: fun_eq_iff e8000_step_def xrd_step_def getCiscoInterfaceID_cong [OF assms])
  then show "foldM (e8000_step pb) lm (sorted_eths pb) = foldM (e8000_step pb') lm (sorted_eths pb')"
    and "foldM (xrd_step pb) im (sorted_eths pb) = foldM (xrd_step pb') im (sorted_eths pb')"
    using sorted_eths_cong [OF assms(1)] by simp_all
qed

text \<open>An environment step is stable: on a node with its own result it gives that result again.\<close>

lemma setXRDEnv_stable:
  assumes "setXRDEnv pb = Ok pb'"
  obtains env where "pb' = set_env env pb" "setXRDEnv (cisco_model img c pb') = Ok (cisco_model img c pb')"
proof -
  from assms obtain im where im: "foldM (xrd_step pb) [] (sorted_eths pb) = Ok im"
    by (auto simp: setXRDEnv_def)
  let ?env = "put ''XR_MGMT_INTERFACES'' ''linux:eth0,xr_name=MgmtEth0/RP0/CPU0/0,chksum,snoop_v4,snoop_v6''
    (put_dflt ''XR_EVERY_BOOT_CONFIG'' (boot_config pb) (put_dflt ''XR_INTERFACES'' im (env_of pb)))"
  have pb': "pb' = set_env ?env pb" using assms im by (simp add: setXRDEnv_def)
  have "foldM (xrd_step (cisco_model img c pb')) [] (sorted_eths (cisco_model img c pb')) = Ok im"
    using im cisco_loops_cong(2) [of "cisco_model img c pb'" pb "[]"] by (simp add: pb')
  then have "setXRDEnv (cisco_model img c pb') = Ok (cisco_model img c pb')"
    by (simp add: setXRDEnv_def pb' set_env_model set_env_idem)
  with pb' show thesis by (rule that)
qed

lemma setE8000Env_stable:
  assumes "setE8000Env pb = Ok pb'"
  obtains env where "pb' = set_env env pb" "setE8000Env (cisco_model img c pb') = Ok (cisco_model img c pb')"
proof -
  let ?start = "(''MgmtEther0/RP0/CPU0/0'', ''MgmtEther0/RP0/CPU0/0:eth0'')"
  from assms obtain il im where lm: "foldM (e8000_step pb) ?start (sorted_eths pb) = Ok (il, im)"
    by (auto simp: setE8000Env_def)
  let ?env = "put_dflt ''XR_EVERY_BOOT_CONFIG'' (boot_config pb) (put_dflt ''XR_CHECKSUM_OFFLOAD_COUNTERACT'' il
    (put_dflt ''XR_INTERFACES'' im (env_of pb)))"
  have pb': "pb' = set_env ?env pb" using assms lm by (simp add: setE8000Env_def)
  have "foldM (e8000_step (cisco_model img c pb')) ?start (sorted_eths (cisco_model img c pb')) = Ok (il, im)"
    using lm cisco_loops_cong(1) [of "cisco_model img c pb'" pb ?start] by (simp add: pb')
  then have "setE8000Env (cisco_model img c pb') = Ok (cisco_model img c pb')"
    by (simp add: setE8000Env_def pb' set_env_model set_env_idem)
  with pb' show thesis by (rule that)
qed

lemma cisco_defaultsE:
  assumes "cisco_defaults pb = Ok pb'"
  obtains env img c where "pb' = cisco_model img c (set_env env (cisco_base pb))" "cisco_defaults pb' = Ok pb'"
proof (cases "dflt ''xrd'' (n_Model pb) = ''xrd''")
  case True
  let ?c = "kernel_constraint ''fs.inotify.max_user_instances'' 0 64000"
  from assms True obtain q where q: "setXRDEnv (cisco_base pb) = Ok q" "pb' = cisco_model ''xrd:latest'' ?c q"
    by (auto simp: cisco_defaults_def Let_def)
  obtain env where env: "q = set_env env (cisco_base pb)" "setXRDEnv pb' = Ok pb'"
    using setXRDEnv_stable [OF q(1), of "''xrd:latest''" ?c] q(2) by metis
  moreover have "cisco_base pb' = pb'"
    by (simp add: q(2) env(1) cisco_base_model cisco_base_set_env cisco_base_idem)
  ultimately have "cisco_defaults pb' = Ok pb'"
    using True by (simp add: cisco_defaults_def Let_def q(2) cisco_model_idem)
  with q env show thesis using that by blast
next
  case False
  let ?c = "kernel_constraint ''kernel.pid_max'' 1048575 0"
  from assms False obtain q where q: "setE8000Env (cisco_base pb) = Ok q" "pb' = cisco_model ''8000e:latest'' ?c q"
    and m: "dflt ''xrd'' (n_Model pb) \<in> set models_8000e"
    by (auto simp: cisco_defaults_def Let_def split: if_splits)
  obtain env where env: "q = set_env env (cisco_base pb)" "setE8000Env pb' = Ok pb'"
    using setE8000Env_stable [OF q(1), of "''8000e:latest''" ?c] q(2) by metis
  moreover have "cisco_base pb' = pb'"
    by (simp add: q(2) env(1) cisco_base_model cisco_base_set_env cisco_base_idem)
  ultimately have "cisco_defaults pb' = Ok pb'"
    using False m by (simp add: cisco_defaults_def Let_def q(2) cisco_model_idem)
  with q env show thesis using that by blast
qed

lemma cisco_defaults_stable: "cisco_defaults pb = Ok pb' \<Longrightarrow> cisco_defaults pb' = Ok pb'"
  by (erule cisco_defaultsE)

lemma cisco_defaults_keeps:
  assumes "cisco_defaults pb = Ok pb'"
  shows "n_Name pb' = n_Name pb" "n_Vendor pb' = n_Vendor pb" "n_Interfaces pb' = n_Interfaces pb"
  using assms by - (erule cisco_defaultsE, simp)+

lemma cisco_keeps: "keeps_wiring cisco_New no_rename"
  by (rule keeps_wiring_map) (simp_all add: cisco_New_def wiring_def cisco_defaults_keeps)

section \<open>The prepared configuration\<close>

lemma process_lines_eq:
  "process_lines ls cfg lst =
     (cfg @ concat (map (\<lambda>l. l @ newline) (filter (\<lambda>l. \<not> is_end l) ls)), last (lst # filter (\<lambda>l. \<not> is_end l) ls))"
  by (induction ls cfg lst rule: process_lines.induct) auto

text \<open>The lines of a text that is a concatenation of terminated lines.\<close>

lemma Split_lines:
  assumes "\<forall>l \<in> set ls. d \<notin> set l"
  shows "Split d (concat (map (\<lambda>l. l @ [d]) ls)) = ls @ [[]]"
  using assms
proof (induction ls)
  case Nil
  then show ?case by simp
next
  case (Cons l ls)
  have "Split d (l @ d # r) = l # Split d r" if "d \<notin> set l" for r
    using that by (induction l) auto
  with Cons show ?case by simp
qed

lemma Split_no_sep: "l \<in> set (Split d s) \<Longrightarrow> d \<notin> set l"
proof (induction s arbitrary: l)
  case Nil
  then show ?case by simp
next
  case (Cons c s)
  obtain w ws where w: "Split d s = w # ws" using Split_ne [of d s] by (cases "Split d s") blast+
  with Cons show ?case by (auto split: if_splits)
qed

lemma processConfig_eq:
  "processConfig cfg =
    (let ls = filter (\<lambda>l. \<not> is_end l) (Split (char_of (10 :: nat)) cfg) in
     concat (map (\<lambda>l. l @ newline)
       (ls @ (if ls \<noteq> [] \<and> ToLower (Trim '' '' (last ls)) = ''commit'' then [] else [''commit'']))))"
proof -
  have "ToLower (Trim '' '' []) \<noteq> ''commit''" by (simp add: ToLower_def Trim_def)
  then show ?thesis by (auto simp: processConfig_def process_lines_eq Let_def)
qed

text \<open>
  The configuration that is sent to an IOS-XR device consists of the lines of the given configuration
  in their order, without the \<open>end\<close> lines, and ends with a \<open>commit\<close> line, which is added exactly if the last
  of the lines is not one.
\<close>

theorem processConfig_lines:
  "Split (char_of (10 :: nat)) (processConfig cfg) =
    (let ls = filter (\<lambda>l. \<not> is_end l) (Split (char_of (10 :: nat)) cfg) in
     ls @ (if ls \<noteq> [] \<and> ToLower (Trim '' '' (last ls)) = ''commit'' then [] else [''commit'']) @ [[]])"
proof -
  let ?ls = "filter (\<lambda>l. \<not> is_end l) (Split (char_of (10 :: nat)) cfg)"
  let ?all = "?ls @ (if ?ls \<noteq> [] \<and> ToLower (Trim '' '' (last ?ls)) = ''commit'' then [] else [''commit''])"
  have "char_of (10 :: nat) \<notin> set ''commit''" by (simp add: char_of_def)
  then have "\<forall>l \<in> set ?all. char_of (10 :: nat) \<notin> set l"
    by (auto dest: Split_no_sep)
  from Split_lines [OF this] show ?thesis
    by (simp only: processConfig_eq Let_def newline_def append_assoc)
qed

section \<open>Distinct ports\<close>

lemma cisco_port_prefix_cases:
  "cisco_port_prefix model k \<in> {''FourHundredGigE0/0/0/'', ''HundredGigE0/0/0/'', ''GigabitEthernet0/0/0/''}"
  by (simp add: cisco_port_prefix_def)

lemma itoa_no_slash: "CHR ''/'' \<notin> set (itoa i)"
proof -
  have "CHR ''/'' \<notin> set (nat_to_str n)" for n
    using nat_to_str_digits [of n] by (auto simp: list_all_iff digit_char_def)
  then show ?thesis by (simp add: itoa_def)
qed

lemma port_name_inject:
  assumes "cisco_port_prefix m j @ itoa i = cisco_port_prefix m k @ itoa i'"
  shows "i = i'"
proof -
  have "rev (takeWhile (\<lambda>c. c \<noteq> CHR ''/'') (rev (p @ itoa i))) = itoa i"
    if "p \<in> {''FourHundredGigE0/0/0/'', ''HundredGigE0/0/0/'', ''GigabitEthernet0/0/0/''}" for p i
  proof -
    have "\<forall>c \<in> set (rev (itoa i)). c \<noteq> CHR ''/''" using itoa_no_slash [of i] by auto
    then have "takeWhile (\<lambda>c. c \<noteq> CHR ''/'') (rev (itoa i) @ CHR ''/'' # ys) = rev (itoa i)" for ys
      by (simp add: takeWhile_append2 del: set_rev)
    moreover have "rev p = CHR ''/'' # tl (rev p)" using that by auto
    ultimately show ?thesis by (metis rev_append rev_rev_ident)
  qed
  from this [OF cisco_port_prefix_cases] assms show ?thesis by (metis itoa_inject)
qed


definition ex_cisco :: node where
  "ex_cisco = empty_node\<lparr>n_Model := ''8201'', n_Interfaces := [(''eth1'', empty_interface), (''eth37'', empty_interface)]\<rparr>"


end
