(* ===== verification/Net_IP.thy ===== *)
theory Net_IP
  imports KNE_Prelude
begin

text \<open>
  The part of Go's package \<open>net\<close> that the sources use: \<open>ParseCIDR\<close> with the address grammars of
  \<open>netip.ParseAddr\<close>, \<open>IP.To4\<close>, \<open>IP.Mask\<close> and \<open>IP.String\<close>. An address is the list of its bytes, 4 or 16
  of them. Parsing an IPv4 address that was printed gives it back.
\<close>

unbundle bit_operations_syntax

type_synonym u8 = "8 word"

type_synonym ip = "u8 list"

section \<open>IPv4\<close>

definition parse_octet :: "string \<Rightarrow> u8 option" where
  "parse_octet s =
     (if s = [] \<or> \<not> list_all digit_char s \<or> length s > 1 \<and> hd s = CHR ''0'' \<or> str_to_nat s > 255 then None
      else Some (of_nat (str_to_nat s)))"

fun all_Some :: "'a option list \<Rightarrow> 'a list option" where
  "all_Some [] = Some []"
| "all_Some (x # xs) = (case x of None \<Rightarrow> None | Some y \<Rightarrow> map_option ((#) y) (all_Some xs))"

definition parseIPv4 :: "string \<Rightarrow> ip option" where
  "parseIPv4 s =
     (let fs = Split (CHR ''.'') s in if length fs \<noteq> 4 then None else all_Some (map parse_octet fs))"

definition v4InV6Prefix :: ip where
  "v4InV6Prefix = replicate 10 0 @ [0xff, 0xff]"

definition To4 :: "ip \<Rightarrow> ip option" where
  "To4 ip =
     (if length ip = 4 then Some ip
      else if length ip = 16 \<and> take 12 ip = v4InV6Prefix then Some (drop 12 ip) else None)"

section \<open>IPv6\<close>

definition hex_char :: "char \<Rightarrow> bool" where
  "hex_char c \<longleftrightarrow> digit_char c \<or> (let n = of_char c :: nat in 97 \<le> n \<and> n \<le> 102 \<or> 65 \<le> n \<and> n \<le> 70)"

definition hex_val :: "char \<Rightarrow> nat" where
  "hex_val c = (let n = of_char c :: nat in if digit_char c then n - 48 else if 97 \<le> n then n - 87 else n - 55)"

definition hex_to_nat :: "string \<Rightarrow> nat" where
  "hex_to_nat s = foldl (\<lambda>acc c. acc * 16 + hex_val c) 0 s"

text \<open>
  The loop of \<open>parseIPv6\<close>: at most \<open>n\<close> more groups, with the bytes so far, the position of the ellipsis and
  the rest of the input. The result is the final triple, or \<open>None\<close> for an error.
\<close>

fun parse_groups :: "nat \<Rightarrow> string \<Rightarrow> ip \<Rightarrow> nat option \<Rightarrow> (ip \<times> nat option \<times> string) option" where
  "parse_groups 0 s ip ellipsis = Some (ip, ellipsis, s)"
| "parse_groups (Suc n) s ip ellipsis =
     (let h = takeWhile hex_char s; r = dropWhile hex_char s; acc = hex_to_nat h in
      if h = [] \<or> length h > 4 then None
      else case r of
        [] \<Rightarrow> Some (ip @ [of_nat (acc div 256), of_nat acc], ellipsis, [])
      | c # r' \<Rightarrow>
          if c = CHR ''.'' then
            (if ellipsis = None \<and> length ip \<noteq> 12 \<or> length ip + 4 > 16 then None
             else map_option (\<lambda>v4. (ip @ v4, ellipsis, [])) (parseIPv4 s))
          else if c \<noteq> CHR '':'' \<or> r' = [] then None
          else (let ip' = ip @ [of_nat (acc div 256), of_nat acc] in
                if hd r' = CHR '':'' then
                  (if ellipsis \<noteq> None then None
                   else if tl r' = [] then Some (ip', Some (length ip'), [])
                   else parse_groups n (tl r') ip' (Some (length ip')))
                else parse_groups n r' ip' ellipsis))"

definition expand_ellipsis :: "ip \<times> nat option \<times> string \<Rightarrow> ip option" where
  "expand_ellipsis = (\<lambda>(ip, ellipsis, s).
     if s \<noteq> [] then None
     else case ellipsis of
       None \<Rightarrow> if length ip < 16 then None else Some ip
     | Some e \<Rightarrow> if length ip < 16 then Some (take e ip @ replicate (16 - length ip) 0 @ drop e ip) else None)"

definition parseIPv6 :: "string \<Rightarrow> ip option" where
  "parseIPv6 s =
     (if HasPrefix s ''::'' then
        (if drop 2 s = [] then Some (replicate 16 0)
         else Option.bind (parse_groups 8 (drop 2 s) [] (Some 0)) expand_ellipsis)
      else Option.bind (parse_groups 8 s [] None) expand_ellipsis)"

text \<open>
  \<open>netip.ParseAddr\<close> as \<open>ParseCIDR\<close> uses it: an address with a zone is refused there, and every address with a
  percent sign is an error or has a zone. The first dot or colon decides the family. The result is the
  address and its length in bits.
\<close>

definition ParseAddr :: "string \<Rightarrow> (ip \<times> nat) option" where
  "ParseAddr s =
     (if CHR ''%'' \<in> set s then None
      else case dropWhile (\<lambda>c. c \<noteq> CHR ''.'' \<and> c \<noteq> CHR '':'') s of
        [] \<Rightarrow> None
      | c # _ \<Rightarrow>
          if c = CHR ''.'' then map_option (\<lambda>ip. (v4InV6Prefix @ ip, 32)) (parseIPv4 s)
          else map_option (\<lambda>ip. (ip, 128)) (parseIPv6 s))"

definition ParseCIDR :: "string \<Rightarrow> (ip \<times> nat) result" where
  "ParseCIDR s =
     (let addr = takeWhile (\<lambda>c. c \<noteq> CHR ''/'') s; rest = dropWhile (\<lambda>c. c \<noteq> CHR ''/'') s; mask = tl rest;
          bad = Error (Errorf ''invalid CIDR address: %s'' [s]) in
      if rest = [] then bad
      else case ParseAddr addr of
        None \<Rightarrow> bad
      | Some (ip, bits) \<Rightarrow>
          if mask = [] \<or> \<not> list_all digit_char mask \<or> str_to_nat mask > bits then bad
          else Ok (ip, str_to_nat mask))"

text \<open>
  The address of the \<open>IPNet\<close> that \<open>ParseCIDR\<close> also returns: the address masked. It has four bytes when the text is
  an IPv4 address; a text with a colon is IPv6 and keeps sixteen, also when it stands for an IPv4 address.
\<close>

fun mask_bytes :: "nat \<Rightarrow> ip \<Rightarrow> ip" where
  "mask_bytes ones [] = []"
| "mask_bytes ones (b # bs) =
     (let k = 8 - min 8 ones in push_bit k (drop_bit k b) # mask_bytes (ones - 8) bs)"

definition CIDR_network :: "string \<Rightarrow> ip result" where
  "CIDR_network s =
     rbind (ParseCIDR s) (\<lambda>(ip, ones). Ok (mask_bytes ones (if CHR '':'' \<in> set s then ip else drop 12 ip)))"

section \<open>Printing\<close>

definition print_v4 :: "ip \<Rightarrow> string" where
  "print_v4 ip = StrJoin ''.'' (map (\<lambda>b. nat_to_str (unat b)) ip)"

definition hex_digit :: "nat \<Rightarrow> char" where
  "hex_digit n = char_of (if n < 10 then 48 + n else 87 + n)"

fun hex_str :: "nat \<Rightarrow> string" where
  "hex_str n = (if n < 16 then [hex_digit n] else hex_str (n div 16) @ [hex_digit (n mod 16)])"

fun groups16 :: "ip \<Rightarrow> nat list" where
  "groups16 (a # b # bs) = (unat a * 256 + unat b) # groups16 bs"
| "groups16 _ = []"

text \<open>The first longest run of at least two zero groups from position \<open>i\<close> on, as start and end.\<close>

fun zero_run :: "nat list \<Rightarrow> nat \<Rightarrow> nat \<times> nat \<Rightarrow> nat \<times> nat" where
  "zero_run [] i best = best"
| "zero_run (g # gs) i best =
     (let l = length (takeWhile (\<lambda>x. x = 0) (g # gs)) in
      zero_run gs (Suc i) (if l \<ge> 2 \<and> l > snd best - fst best then (i, i + l) else best))"

definition print_v6 :: "ip \<Rightarrow> string" where
  "print_v6 ip =
     (let gs = groups16 ip; (zeroStart, zeroEnd) = zero_run gs 0 (255, 255);
          hexes = (\<lambda>xs. StrJoin '':'' (map hex_str xs)) in
      if zeroStart = 255 then hexes gs
      else hexes (take zeroStart gs) @ ''::'' @ hexes (drop zeroEnd gs))"

definition IP_String :: "ip \<Rightarrow> string" where
  "IP_String ip = (case To4 ip of Some ip4 \<Rightarrow> print_v4 ip4 | None \<Rightarrow> print_v6 ip)"

section \<open>Parsing what was printed\<close>

lemma Split_append: "d \<notin> set l \<Longrightarrow> Split d (l @ d # r) = l # Split d r"
  by (induction l) auto

lemma Split_single: "d \<notin> set l \<Longrightarrow> Split d l = [l]"
  by (induction l) auto

lemma Split_of_StrJoin: "ws \<noteq> [] \<Longrightarrow> \<forall>w \<in> set ws. d \<notin> set w \<Longrightarrow> Split d (StrJoin [d] ws) = ws"
proof (induction ws)
  case (Cons w ws)
  then show ?case by (cases ws) (simp_all add: Split_single Split_append)
qed simp

lemma nat_to_str_hd: "0 < n \<Longrightarrow> hd (nat_to_str n) \<noteq> CHR ''0''"
proof (induction n rule: nat_to_str.induct)
  case (1 n)
  show ?case
  proof (cases "n < 10")
    case True
    have "char_of (48 + n) \<noteq> CHR ''0''"
    proof
      assume "char_of (48 + n) = CHR ''0''"
      then have "of_char (char_of (48 + n) :: char) = (of_char CHR ''0'' :: nat)" by simp
      with True 1(2) show False by simp
    qed
    with True show ?thesis by (simp add: nat_to_str.simps [of n])
  next
    case False
    with 1 show ?thesis by (subst nat_to_str.simps) (simp add: hd_append)
  qed
qed

lemma nat_to_str_0: "nat_to_str 0 = ''0''"
  by code_simp

lemma parse_octet_print: "parse_octet (nat_to_str (unat b)) = Some b"
proof -
  have "unat b \<le> 255" using unsigned_less [of b, where 'a = nat] by simp
  moreover have "\<not> (length (nat_to_str (unat b)) > 1 \<and> hd (nat_to_str (unat b)) = CHR ''0'')"
    by (cases "unat b = 0") (simp_all add: nat_to_str_0 nat_to_str_hd)
  ultimately show ?thesis
    by (auto simp: parse_octet_def nat_to_str_digits)
qed

lemma all_Some_map: "(\<And>x. x \<in> set xs \<Longrightarrow> f x = Some (g x)) \<Longrightarrow> all_Some (map f xs) = Some (map g xs)"
  by (induction xs) auto

lemma digits_no: "\<not> digit_char c \<Longrightarrow> c \<notin> set (nat_to_str n)"
  using nat_to_str_digits [of n] by (auto simp: list_all_iff)

lemma parseIPv4_print: "length ip = 4 \<Longrightarrow> parseIPv4 (print_v4 ip) = Some ip"
proof -
  assume l: "length ip = 4"
  have "Split (CHR ''.'') (print_v4 ip) = map (\<lambda>b. nat_to_str (unat b)) ip"
    unfolding print_v4_def
    by (rule Split_of_StrJoin) (use l digits_no [of "CHR ''.''"] in \<open>auto simp: digit_char_def\<close>)
  then show ?thesis
    using l by (simp add: parseIPv4_def Let_def comp_def parse_octet_print all_Some_map [of _ _ id])
qed

lemma set_StrJoin: "set (StrJoin sep ws) \<subseteq> set sep \<union> \<Union> (set ` set ws)"
  by (induction sep ws rule: StrJoin.induct) auto

lemma print_v4_chars: "c \<in> set (print_v4 ip) \<Longrightarrow> digit_char c \<or> c = CHR ''.''"
  using set_StrJoin [of "''.''" "map (\<lambda>b. nat_to_str (unat b)) ip"] nat_to_str_digits
  by (fastforce simp: print_v4_def list_all_iff)

lemma ParseAddr_print_v4:
  assumes "length ip = 4"
  shows "ParseAddr (print_v4 ip) = Some (v4InV6Prefix @ ip, 32)"
proof -
  let ?s = "print_v4 ip"
  have no: "CHR ''%'' \<notin> set ?s" "CHR '':'' \<notin> set ?s" by (auto dest!: print_v4_chars simp: digit_char_def)
  have "CHR ''.'' \<in> set ?s"
  proof (rule ccontr)
    assume "CHR ''.'' \<notin> set ?s"
    then have "Split (CHR ''.'') ?s = [?s]" by (rule Split_single)
    with parseIPv4_print [OF assms] show False by (simp add: parseIPv4_def)
  qed
  with no have "dropWhile (\<lambda>c. c \<noteq> CHR ''.'' \<and> c \<noteq> CHR '':'') ?s \<noteq> []"
    by (auto simp: dropWhile_eq_Nil_conv)
  then obtain c r where c: "dropWhile (\<lambda>c. c \<noteq> CHR ''.'' \<and> c \<noteq> CHR '':'') ?s = c # r" by (meson neq_Nil_conv)
  then have "c \<in> set ?s" using set_dropWhileD [of c _ ?s] by (metis list.set_intros(1))
  moreover have "c = CHR ''.'' \<or> c = CHR '':''" 
    using hd_dropWhile [of "\<lambda>c. c \<noteq> CHR ''.'' \<and> c \<noteq> CHR '':''" ?s] c by simp
  ultimately have "c = CHR ''.''" using no by blast
  with c no parseIPv4_print [OF assms] show ?thesis by (simp add: ParseAddr_def)
qed

lemma ParseCIDR_print_v4:
  assumes "length ip = 4" and "m \<noteq> []" and "list_all digit_char m" and "str_to_nat m \<le> 32"
  shows "ParseCIDR (print_v4 ip @ CHR ''/'' # m) = Ok (v4InV6Prefix @ ip, str_to_nat m)"
proof -
  have ok: "\<forall>c \<in> set (print_v4 ip). c \<noteq> CHR ''/''" by (auto dest!: print_v4_chars simp: digit_char_def)
  then have "takeWhile (\<lambda>c. c \<noteq> CHR ''/'') (print_v4 ip @ CHR ''/'' # m) = print_v4 ip"
    "dropWhile (\<lambda>c. c \<noteq> CHR ''/'') (print_v4 ip @ CHR ''/'' # m) = CHR ''/'' # m"
    by (simp_all add: takeWhile_append2 dropWhile_append2)
  with assms show ?thesis by (simp add: ParseCIDR_def Let_def ParseAddr_print_v4)
qed

lemma To4_mapped [simp]: "length ip = 4 \<Longrightarrow> To4 (v4InV6Prefix @ ip) = Some ip"
  by (simp add: To4_def v4InV6Prefix_def)

lemma To4_4 [simp]: "length ip = 4 \<Longrightarrow> To4 ip = Some ip"
  by (simp add: To4_def)

lemma To4_length: "To4 ip = Some ip4 \<Longrightarrow> length ip4 = 4"
  by (auto simp: To4_def split: if_splits)

section \<open>Host and port\<close>

definition last_index :: "char \<Rightarrow> string \<Rightarrow> nat option" where
  "last_index c s = (if c \<in> set s then Some (length s - 1 - length (takeWhile (\<lambda>d. d \<noteq> c) (rev s))) else None)"

definition first_index :: "char \<Rightarrow> string \<Rightarrow> nat option" where
  "first_index c s = (if c \<in> set s then Some (length (takeWhile (\<lambda>d. d \<noteq> c) s)) else None)"

definition addr_error :: "string \<Rightarrow> string \<Rightarrow> (string \<times> string) result" where
  "addr_error hostport why = Error (Errorf (''address %s: '' @ why) [hostport])"

text \<open>\<open>net.SplitHostPort\<close>: the port starts after the last colon; a bracketed host ends right before it.\<close>

definition SplitHostPort :: "string \<Rightarrow> (string \<times> string) result" where
  "SplitHostPort hostport =
     (case last_index (CHR '':'') hostport of
        None \<Rightarrow> addr_error hostport ''missing port in address''
      | Some i \<Rightarrow>
          if hd hostport = CHR ''['' then
            (case first_index (CHR '']'') hostport of
               None \<Rightarrow> addr_error hostport (''missing '' @ '']'' @ '' in address'')
             | Some e \<Rightarrow>
                 if e + 1 = i then
                   (if CHR ''['' \<in> set (drop 1 hostport) then addr_error hostport (''unexpected '' @ ''['' @ '' in address'')
                    else if CHR '']'' \<in> set (drop (e + 1) hostport) then addr_error hostport (''unexpected '' @ '']'' @ '' in address'')
                    else Ok (drop 1 (take e hostport), drop (i + 1) hostport))
                 else addr_error hostport ''too many colons or missing port in address'')
          else if CHR '':'' \<in> set (take i hostport) then addr_error hostport ''too many colons in address''
          else if CHR ''['' \<in> set hostport then addr_error hostport (''unexpected '' @ ''['' @ '' in address'')
          else if CHR '']'' \<in> set hostport then addr_error hostport (''unexpected '' @ '']'' @ '' in address'')
          else Ok (take i hostport, drop (i + 1) hostport))"

definition JoinHostPort :: "string \<Rightarrow> string \<Rightarrow> string" where
  "JoinHostPort host port =
     (if CHR '':'' \<in> set host then ''['' @ host @ '']:'' @ port else host @ '':'' @ port)"

lemma takeWhile_until: "c \<notin> set xs \<Longrightarrow> takeWhile (\<lambda>d. d \<noteq> c) (xs @ c # ys) = xs"
  by (subst takeWhile_append2) auto

lemma last_index_append: "c \<notin> set p \<Longrightarrow> last_index c (h @ c # p) = Some (length h)"
  using takeWhile_until [of c "rev p" "rev h"] by (simp add: last_index_def)

lemma first_index_append: "c \<notin> set h \<Longrightarrow> first_index c (h @ c # p) = Some (length h)"
  by (simp add: first_index_def takeWhile_until)

text \<open>Splitting what was joined gives host and port back, unless one of them has a bracket or the port a colon.\<close>

lemma Split_JoinHostPort:
  assumes "CHR ''['' \<notin> set host" "CHR '']'' \<notin> set host" "set port \<inter> {CHR '':'', CHR ''['', CHR '']''} = {}"
  shows "SplitHostPort (JoinHostPort host port) = Ok (host, port)"
proof (cases "CHR '':'' \<in> set host")
  case True
  have f: "first_index (CHR '']'') ((CHR ''['' # host) @ CHR '']'' # CHR '':'' # port) = Some (length host + 1)"
    using assms by (subst first_index_append) auto
  have l: "last_index (CHR '':'') ((CHR ''['' # host @ '']'') @ CHR '':'' # port) = Some (length host + 2)"
    using assms by (subst last_index_append) auto
  from True assms f l show ?thesis by (auto simp: SplitHostPort_def JoinHostPort_def)
next
  case False
  have l: "last_index (CHR '':'') (host @ CHR '':'' # port) = Some (length host)"
    using assms by (subst last_index_append) auto
  have "hd (host @ CHR '':'' # port) \<noteq> CHR ''[''" using assms(1) by (cases host) auto
  with False assms l show ?thesis by (auto simp: SplitHostPort_def JoinHostPort_def)
qed

end
