(* ===== verification/Vendor_Proxy.thy ===== *)
theory Vendor_Proxy
  imports Net_IP Vendor_NOS
begin

text \<open>
  \<open>topo/node/inclusterproxy\<close>: the address of the proxy's side of a point-to-point link, the defaults
  that build the \<open>socat\<close> command from labels, and the validation.
\<close>

definition deriveAdjacentIP :: "string \<Rightarrow> (string \<times> string \<times> bool) result" where
  "deriveAdjacentIP cidr =
     rbind (ParseCIDR cidr) (\<lambda>(ip, ones).
       case To4 ip of
         Some ip4 \<Rightarrow>
           if ones \<noteq> 31 then Error (Errorf ''only /31 mask is supported for IPv4 static IP calculation'' [])
           else (let staticIP = ip4[3 := ip4 ! 3 XOR 1] in
                 Ok (IP_String staticIP @ ''/31'', IP_String ip, False))
       | None \<Rightarrow>
           if ones \<noteq> 127 then Error (Errorf ''only /127 mask is supported for IPv6 static IP calculation'' [])
           else (let staticIP = ip[15 := ip ! 15 XOR 1] in
                 Ok (IP_String staticIP @ ''/127'', IP_String ip, True)))"

definition label :: "node \<Rightarrow> string \<Rightarrow> string" where
  "label pb k = get_str (items (n_Labels pb)) k"

definition peer_cidr :: "node \<Rightarrow> string" where
  "peer_cidr pb = label pb ''peer-ip'' @ ''/'' @ label pb ''peer-prefix''"

definition socat_args :: "string \<Rightarrow> string \<Rightarrow> bool \<Rightarrow> u32 \<Rightarrow> string \<Rightarrow> string" where
  "socat_args staticIPWithMask peerIPStr isV6 insidePort targetPort =
     ''ip addr add '' @ staticIPWithMask @ '' dev eth1 && ip link set eth1 up && sleep 2 && /usr/bin/socat -d -d '' @
     (if isV6 then ''TCP6-LISTEN'' else ''TCP-LISTEN'') @ '':'' @ itoa (uint insidePort) @ '',reuseaddr,fork '' @
     (if isV6 then ''TCP6'' else ''TCP'') @ '':'' @ peerIPStr @ '':'' @ targetPort"

text \<open>The generated argument, if every label is there, exactly one service is configured and the address parses.\<close>

definition generated_arg :: "node \<Rightarrow> string option" where
  "generated_arg pb =
     (if n_Labels pb = None then None
      else if label pb ''peer-ip'' \<noteq> [] \<and> label pb ''peer-prefix'' \<noteq> [] \<and> label pb ''target-port'' \<noteq> [] \<and>
              length (items (n_Services pb)) = 1
      then (case deriveAdjacentIP (peer_cidr pb) of
              Ok (staticIPWithMask, peerIPStr, isV6) \<Rightarrow>
                Some (socat_args staticIPWithMask peerIPStr isV6
                        (svc_Inside (snd (hd (items (n_Services pb))))) (label pb ''target-port''))
            | _ \<Rightarrow> None)
      else None)"

definition proxy_defaults :: "node \<Rightarrow> node" where
  "proxy_defaults pb =
     (let cfg = GetConfig pb; cfg' = cfg\<lparr>cfg_Image := dflt ''nicolaka/netshoot:latest'' (cfg_Image cfg)\<rparr> in
      case generated_arg pb of
        None \<Rightarrow> pb\<lparr>n_Config := Some cfg'\<rparr>
      | Some arg \<Rightarrow> pb\<lparr>n_Config := Some (cfg'\<lparr>cfg_Command := [''/bin/sh'', ''-c''], cfg_Args := [arg]\<rparr>)\<rparr>)"

text \<open>The warning about a missing \<open>socat\<close> has no effect on the result.\<close>

definition validate :: "node \<Rightarrow> unit result" where
  "validate pb =
     (let bad = (\<lambda>fmt args. Error (Errorf (''node %s: '' @ fmt) (n_Name pb # args))) in
      if n_Labels pb = None \<or> label pb ''proxy-pool-for'' = [] then bad ''label 'proxy-pool-for' is required'' []
      else if length (n_Interfaces pb) \<noteq> 1 then
        bad ''exactly one interface is required, found %d'' [itoa (int (length (n_Interfaces pb)))]
      else if map_of (n_Interfaces pb) ''eth1'' = None then bad (''interface must be 'eth1'' @ [CHR 0x27]) []
      else if length (items (n_Services pb)) \<noteq> 1 then
        bad ''exactly one service must be configured, found %d'' [itoa (int (length (items (n_Services pb))))]
      else if label pb ''peer-ip'' \<noteq> [] \<or> label pb ''peer-prefix'' \<noteq> [] \<or> label pb ''target-port'' \<noteq> [] then
        (if label pb ''peer-ip'' = [] \<or> label pb ''peer-prefix'' = [] \<or> label pb ''target-port'' = [] then
           bad ''label 'peer-ip', 'peer-prefix' and 'target-port' must be provided together'' []
         else case deriveAdjacentIP (peer_cidr pb) of
           Error e \<Rightarrow> Error (Errorv ''invalid 'peer-ip' or 'peer-prefix' label: %v'' [n_Name pb] e)
         | Panic p \<Rightarrow> Panic p
         | Ok _ \<Rightarrow> Ok ())
      else Ok ())"

definition proxy_New :: new_node_fn where
  "proxy_New pb0 = (let pb = proxy_defaults pb0 in rbind (validate pb) (\<lambda>_. Ok pb))"

section \<open>The two ends of a point-to-point link\<close>

lemma xor_1_twice: "(b XOR 1) XOR 1 = (b :: u8)"
  by (simp add: xor.assoc)

lemma deriveAdjacentIP_v4E:
  assumes "deriveAdjacentIP cidr = Ok (s, p, False)"
  obtains ip4 where "length ip4 = 4" "s = print_v4 (ip4[3 := ip4 ! 3 XOR 1]) @ ''/31''" "p = print_v4 ip4"
proof -
  obtain ip ones where cidr: "ParseCIDR cidr = Ok (ip, ones)"
    using assms by (cases "ParseCIDR cidr") (auto simp: deriveAdjacentIP_def)
  note body = assms [unfolded deriveAdjacentIP_def cidr, simplified]
  obtain ip4 where ip4: "To4 ip = Some ip4"
    using body by (cases "To4 ip") (simp_all add: Let_def split: if_splits)
  have l: "length ip4 = 4" using ip4 by (rule To4_length)
  have "s = print_v4 (ip4[3 := ip4 ! 3 XOR 1]) @ ''/31''" "p = print_v4 ip4"
    using body l by (simp_all add: ip4 Let_def IP_String_def split: if_splits)
  with l show thesis by (rule that)
qed

lemma deriveAdjacentIP_print:
  assumes "length ip4 = 4"
  shows "deriveAdjacentIP (print_v4 ip4 @ ''/31'') = Ok (print_v4 (ip4[3 := ip4 ! 3 XOR 1]) @ ''/31'', print_v4 ip4, False)"
proof -
  have "str_to_nat ''31'' = 31" by code_simp
  then have "ParseCIDR (print_v4 ip4 @ ''/31'') = Ok (v4InV6Prefix @ ip4, 31)"
    using ParseCIDR_print_v4 [OF assms, of "''31''"] by (simp add: digit_char_def)
  with assms show ?thesis by (simp add: deriveAdjacentIP_def Let_def IP_String_def)
qed

text \<open>
  The address that the proxy gives its side of an IPv4 point-to-point link is the other address of
  the /31: deriving the neighbour of the derived address gives the peer's address back, and the two
  addresses differ.
\<close>

theorem deriveAdjacentIP_involution:
  assumes "deriveAdjacentIP cidr = Ok (static, peer, False)"
  shows "\<exists>own. static = own @ ''/31'' \<and> own \<noteq> peer \<and> deriveAdjacentIP static = Ok (peer @ ''/31'', own, False)"
proof -
  obtain ip4 where ip4: "length ip4 = 4" "static = print_v4 (ip4[3 := ip4 ! 3 XOR 1]) @ ''/31''" "peer = print_v4 ip4"
    using assms by (rule deriveAdjacentIP_v4E)
  let ?own = "ip4[3 := ip4 ! 3 XOR 1]"
  have "?own[3 := ?own ! 3 XOR 1] = ip4" using ip4(1) by (simp add: xor_1_twice)
  then have "deriveAdjacentIP static = Ok (peer @ ''/31'', print_v4 ?own, False)"
    using deriveAdjacentIP_print [of ?own] ip4 by simp
  moreover have "print_v4 ?own \<noteq> peer"
  proof
    assume "print_v4 ?own = peer"
    then have "?own = ip4" using parseIPv4_print [of ?own] parseIPv4_print [of ip4] ip4 by simp
    then have "ip4 ! 3 XOR 1 = ip4 ! 3" using ip4(1) nth_list_update_eq [of 3 ip4 "ip4 ! 3 XOR 1"] by simp
    then have "bit (ip4 ! 3 XOR 1) 0 = bit (ip4 ! 3) 0" by simp
    then show False by (simp add: bit_xor_iff)
  qed
  ultimately show ?thesis using ip4(2) by blast
qed

theorem deriveAdjacentIP_involution_witness:
  "\<exists>own. ''10.0.0.1/31'' = own @ ''/31'' \<and> own \<noteq> ''10.0.0.0'' \<and>
     deriveAdjacentIP ''10.0.0.1/31'' = Ok (''10.0.0.0/31'', own, False)"
proof -
  have "deriveAdjacentIP ''10.0.0.0/31'' = Ok (''10.0.0.1/31'', ''10.0.0.0'', False)" by code_simp
  from deriveAdjacentIP_involution [OF this] show ?thesis by simp
qed

section \<open>The constructor\<close>

lemma label_config [simp]: "label (pb\<lparr>n_Config := c\<rparr>) k = label pb k"
  by (simp add: label_def)

lemma peer_cidr_config [simp]: "peer_cidr (pb\<lparr>n_Config := c\<rparr>) = peer_cidr pb"
  by (simp add: peer_cidr_def)

lemma generated_arg_config [simp]: "generated_arg (pb\<lparr>n_Config := c\<rparr>) = generated_arg pb"
  by (simp add: generated_arg_def split: result.splits)

interpretation proxy: vendor_defaults proxy_defaults
  by unfold_locales (simp_all add: proxy_defaults_def Let_def GetConfig_def split: option.splits)

lemma proxy_keeps: "keeps_wiring proxy_New no_rename"
  by (rule keeps_wiring_map)
    (auto simp: proxy_New_def Let_def wiring_def proxy.keeps_name proxy.keeps_vendor proxy.keeps_ifcs)

end
