(* ===== verification/Topo_Wiring.thy ===== *)
theory Topo_Wiring
  imports Topo_Load
begin

text \<open>
  What \<open>Manager.load\<close> leaves in the node objects: every link of the topology is wired at both of its
  ends, under its index as UID, and nothing else is wired. The statements go through the node
  constructors, which may rename interface keys.
\<close>

section \<open>Wiring through the constructors\<close>

text \<open>The interface names a node ends up with, and that a vendor's renaming does not merge two of them.\<close>

definition used_ifcs :: "topology \<Rightarrow> node \<Rightarrow> string list" where
  "used_ifcs topo n = keys (n_Interfaces n)
     @ map l_AInt (filter (\<lambda>l. l_ANode l = n_Name n) (t_Links topo))
     @ map l_ZInt (filter (\<lambda>l. l_ZNode l = n_Name n) (t_Links topo))"

definition ren_ok :: "(vendor \<Rightarrow> renaming) \<Rightarrow> topology \<Rightarrow> bool" where
  "ren_ok ren topo \<longleftrightarrow>
     (\<forall>n \<in> set (t_Nodes topo). wf_node n \<and> rn_ok (ren (n_Vendor n)) (set (used_ifcs topo n)))"

lemma ifc_at_wiring: "ifc_at ns a = Some i \<Longrightarrow> (snd a, wire i) \<in> set (wiring (ns ! fst a))"
  by (auto simp: ifc_at_def wiring_def split: if_splits dest!: map_of_SomeD)

lemma wiring_ifc_at:
  assumes "(k, w) \<in> set (wiring (ns ! j))" and "wf_map (n_Interfaces (ns ! j))" and "j < length ns"
  shows "\<exists>i. ifc_at ns (j, k) = Some i \<and> wire i = w"
  using assms by (auto simp: wiring_def ifc_at_def map_of_eq_iff_mem)

lemma ifc_at_keys:
  "j < length ns \<Longrightarrow> ifc_at ns (j, k) \<noteq> None \<longleftrightarrow> k \<in> set (keys (n_Interfaces (ns ! j)))"
  by (auto simp: ifc_at_def keys_def map_of_eq_None_iff)

lemma endpoints_name:
  assumes "nodes_known (name_map topo) l" and "(i, k) \<in> endpoints (name_map topo) l"
  shows "i < length (t_Nodes topo)"
    and "l_ANode l = n_Name (t_Nodes topo ! i) \<and> l_AInt l = k \<or>
         l_ZNode l = n_Name (t_Nodes topo ! i) \<and> l_ZInt l = k"
proof -
  from assms(1) obtain a z where "map_of (name_map topo) (l_ANode l) = Some a"
    "map_of (name_map topo) (l_ZNode l) = Some z" by (auto simp: nodes_known_def)
  with assms(2) name_map_get [of topo "l_ANode l" a] name_map_get [of topo "l_ZNode l" z]
  show "i < length (t_Nodes topo)"
    and "l_ANode l = n_Name (t_Nodes topo ! i) \<and> l_AInt l = k \<or>
         l_ZNode l = n_Name (t_Nodes topo ! i) \<and> l_ZInt l = k"
    by (auto simp: endpoints_def a_addr_def z_addr_def)
qed

text \<open>After the link loop the keys of a node are among \<^const>\<open>used_ifcs\<close>.\<close>

lemma loop_keys:
  assumes inv: "loop_inv (name_map topo) (nodes0 topo) (t_Links topo) (ns, u)"
    and ok: "\<forall>l \<in> set (t_Links topo). nodes_known (name_map topo) l"
    and i: "i < length (t_Nodes topo)"
  shows "set (keys (n_Interfaces (ns ! i))) \<subseteq> set (used_ifcs topo (t_Nodes topo ! i))"
proof
  fix k assume "k \<in> set (keys (n_Interfaces (ns ! i)))"
  have st: "map strip ns = map strip (nodes0 topo)" using inv by (simp add: loop_inv_def)
  then have len: "length ns = length (t_Nodes topo)"
    using map_eq_imp_length_eq by (fastforce simp: nodes0_def)
  have at: "ifc_at ns (i, k) \<noteq> None"
    using \<open>k \<in> _\<close> i len by (simp only: ifc_at_keys)
  show "k \<in> set (used_ifcs topo (t_Nodes topo ! i))"
  proof (cases "(i, k) \<in> all_ends (name_map topo) (t_Links topo)")
    case True
    then obtain l where l: "l \<in> set (t_Links topo)" "(i, k) \<in> endpoints (name_map topo) l"
      by (auto simp: all_ends_def)
    with ok endpoints_name(2) [of topo l i k] have
      "l_ANode l = n_Name (t_Nodes topo ! i) \<and> l_AInt l = k \<or>
       l_ZNode l = n_Name (t_Nodes topo ! i) \<and> l_ZInt l = k" by blast
    with l(1) show ?thesis unfolding used_ifcs_def by auto
  next
    case False
    then have "ifc_at ns (i, k) = ifc_at (nodes0 topo) (i, k)" using inv by (simp add: loop_inv_def)
    with at i have "k \<in> set (keys (n_Interfaces (nodes0 topo ! i)))"
      using ifc_at_keys [of i "nodes0 topo" k] by (simp add: nodes0_def)
    with i show ?thesis by (simp add: used_ifcs_def nodes0_def)
  qed
qed

text \<open>The loops keep the keys of every interface map distinct.\<close>

definition wf_ifcs :: "node list \<Rightarrow> bool" where
  "wf_ifcs ns \<longleftrightarrow> (\<forall>n \<in> set ns. wf_map (n_Interfaces n))"

lemma wf_map_name_ifcs [simp]: "wf_map (n_Interfaces (name_ifcs n)) = wf_map (n_Interfaces n)"
  using name_ifcs_keeps(4) [of n] by (simp add: wf_map_def keys_def)

lemma wf_ifcs_update: "wf_ifcs ns \<Longrightarrow> wf_map (n_Interfaces n) \<Longrightarrow> wf_ifcs (ns[i := n])"
  using set_update_subset_insert [of ns i n] by (auto simp: wf_ifcs_def)

lemma wf_ifcs_nth: "wf_ifcs ns \<Longrightarrow> i < length ns \<Longrightarrow> wf_map (n_Interfaces (ns ! i))"
  by (simp add: wf_ifcs_def)

lemma wf_ifcs_ensure [kne_frame]: "wf_ifcs ns \<Longrightarrow> fst a < length ns \<Longrightarrow> wf_ifcs (ensure_ifc a ns)"
  by (auto simp: ensure_ifc_def wf_ifcs_nth intro!: wf_ifcs_update split: option.splits)

lemma wf_ifcs_upd [kne_frame]: "wf_ifcs ns \<Longrightarrow> fst a < length ns \<Longrightarrow> wf_ifcs (upd_ifc a f ns)"
  by (auto simp: upd_ifc_def wf_ifcs_nth intro!: wf_ifcs_update)

lemma add_link_wf:
  assumes "nm_ok nMap ns" and "wf_ifcs ns" and "add_link nMap (ns, uid) l = Ok (ns', uid')"
  shows "wf_ifcs ns'"
  using assms
  by (auto simp: add_link_def Let_def nm_ok_def wf_ifcs_ensure wf_ifcs_upd split: option.splits if_splits)

lemma add_links_wf:
  assumes "nm_ok nMap ns" and "wf_ifcs ns" and ok: "add_links nMap ns links = Ok st"
  shows "wf_ifcs (fst st)"
proof -
  have "wf_ifcs (fst st) \<and> nm_ok nMap (fst st)"
  proof (rule foldM_invariant [OF ok [unfolded add_links_def]])
    show "wf_ifcs (fst (ns, 0 :: nat)) \<and> nm_ok nMap (fst (ns, 0 :: nat))" using assms by simp
  next
    fix s x t
    assume s: "wf_ifcs (fst s) \<and> nm_ok nMap (fst s)" and step: "add_link nMap s x = Ok t"
    have step': "add_link nMap (fst s, snd s) x = Ok (fst t, snd t)" using step by simp
    show "wf_ifcs (fst t) \<and> nm_ok nMap (fst t)"
      using s add_link_wf [OF _ _ step'] strip_eq_names [OF add_link_strip [OF step']] by blast
  qed
  then show ?thesis ..
qed

text \<open>What a constructed node's wiring is, in terms of the state after the link loop.\<close>

definition constructed ::
  "(vendor \<Rightarrow> renaming) \<Rightarrow> (string \<Rightarrow> string \<Rightarrow> string) \<Rightarrow> topology \<Rightarrow> node list \<Rightarrow> manager \<Rightarrow> bool" where
  "constructed ren r topo ns m \<longleftrightarrow>
     (\<forall>k i. map_of (name_map topo) k = Some i \<longrightarrow>
        (\<exists>n. node_of m k = Some n \<and> n_Name n = k \<and> n_Vendor n = n_Vendor (t_Nodes topo ! i) \<and>
             i < length ns \<and> i < length (t_Nodes topo) \<and>
             wf_map (n_Interfaces (ns ! i)) \<and> wf_map (n_Interfaces n) \<and>
             renames (ren (n_Vendor n)) (r k) (set (keys (n_Interfaces (ns ! i)))) \<and>
             set (wiring n) = apfst (r k) ` set (wiring (ns ! i))))"

lemmas constructedD = constructed_def [THEN iffD1, rule_format]

lemma load_wiring:
  assumes ok: "load reg pidMax ord topo = Ok m" and ord: "range_order ord" and nm: "named topo"
    and reg: "registry_ok reg ren" and ren: "ren_ok ren topo"
  obtains ns r where "loop_inv (name_map topo) (nodes0 topo) (t_Links topo) (ns, length (t_Links topo))"
    and "\<forall>l \<in> set (t_Links topo). nodes_known (name_map topo) l"
    and "constructed ren r topo ns m"
proof -
  obtain ns where
    inv: "loop_inv (name_map topo) (nodes0 topo) (t_Links topo) (ns, length (t_Links topo))" and
    al: "add_links (name_map topo) (nodes0 topo) (t_Links topo) = Ok (ns, length (t_Links topo))" and
    mn: "map_of (m_nodes m) = map_of (name_map topo)" and
    new: "\<And>k i. map_of (name_map topo) k = Some i \<Longrightarrow> New reg (Some (ns ! i)) = Ok (t_Nodes (m_topo m) ! i)"
    using load_OkE [OF ok ord nm] by metis
  have known: "\<forall>l \<in> set (t_Links topo). nodes_known (name_map topo) l"
    using add_links_correct [OF name_map_nm_ok name_map_named [OF nm]] al by (metis is_Ok.simps(1))
  have "wf_ifcs (nodes0 topo)" using ren by (simp add: wf_ifcs_def nodes0_def wf_node_def ren_ok_def)
  then have wf: "wf_ifcs ns" using add_links_wf [OF name_map_nm_ok _ al] by simp
  have each: "\<exists>n r. node_of m k = Some n \<and> n_Name n = k \<and> n_Vendor n = n_Vendor (t_Nodes topo ! i) \<and>
        i < length ns \<and> i < length (t_Nodes topo) \<and> wf_map (n_Interfaces (ns ! i)) \<and> wf_map (n_Interfaces n) \<and>
        renames (ren (n_Vendor n)) r (set (keys (n_Interfaces (ns ! i)))) \<and>
        set (wiring n) = apfst r ` set (wiring (ns ! i))" if k: "map_of (name_map topo) k = Some i" for k i
  proof -
    have i: "i < length (nodes0 topo)" and name: "n_Name (nodes0 topo ! i) = k"
      using k name_map_nm_ok [of topo] by (auto simp: nm_ok_def)
    have "map strip ns = map strip (nodes0 topo)" using inv by (simp add: loop_inv_def)
    note s = strip_nth [OF this i]
    have iT: "i < length (t_Nodes topo)" using i by (simp add: nodes0_def)
    have v: "n_Vendor (ns ! i) = n_Vendor (t_Nodes topo ! i)" using s(3) iT by (simp add: nodes0_def)
    have wi: "wf_map (n_Interfaces (ns ! i))" using wf s(1) by (simp add: wf_ifcs_def)
    have rk: "rn_ok (ren (n_Vendor (ns ! i))) (set (used_ifcs topo (t_Nodes topo ! i)))"
      using ren nth_mem [OF iT] unfolding v ren_ok_def by blast
    note kp = New_keeps [OF reg new [OF k]]
    from kp(4) [OF rk loop_keys [OF inv known iT] wi] kp(1,2) kp(3) [OF wi] s name mn k iT v wi
    show ?thesis by (simp add: node_of_def)
  qed
  have "\<exists>r. constructed ren r topo ns m"
  proof -
    let ?P = "\<lambda>k r. \<forall>i. map_of (name_map topo) k = Some i \<longrightarrow>
        (\<exists>n. node_of m k = Some n \<and> n_Name n = k \<and> n_Vendor n = n_Vendor (t_Nodes topo ! i) \<and>
             i < length ns \<and> i < length (t_Nodes topo) \<and>
             wf_map (n_Interfaces (ns ! i)) \<and> wf_map (n_Interfaces n) \<and>
             renames (ren (n_Vendor n)) r (set (keys (n_Interfaces (ns ! i)))) \<and>
             set (wiring n) = apfst r ` set (wiring (ns ! i)))"
    have "\<exists>r. ?P k r" for k
      using each [of k] by (cases "map_of (name_map topo) k") auto
    then have "\<exists>r. \<forall>k. ?P k (r k)" by (intro choice allI)
    then show ?thesis unfolding constructed_def by blast
  qed
  with that inv known show thesis by blast
qed

section \<open>What load establishes\<close>

text \<open>Link \<open>l\<close> with UID \<open>i\<close> joins the interfaces that carry its two ends.\<close>

definition link_at ::
  "(vendor \<Rightarrow> renaming) \<Rightarrow> (string \<Rightarrow> string \<Rightarrow> string) \<Rightarrow> manager \<Rightarrow> link \<Rightarrow> nat \<Rightarrow> bool" where
  "link_at ren r m l i \<longleftrightarrow>
     (\<exists>a z. node_of m (l_ANode l) = Some a \<and> node_of m (l_ZNode l) = Some z \<and>
        rn_may (ren (n_Vendor a)) (l_AInt l) (r (l_ANode l) (l_AInt l)) \<and>
        rn_may (ren (n_Vendor z)) (l_ZInt l) (r (l_ZNode l) (l_ZInt l)) \<and>
        (r (l_ANode l) (l_AInt l), l_ZNode l, l_ZInt l, int i) \<in> set (wiring a) \<and>
        (r (l_ZNode l) (l_ZInt l), l_ANode l, l_AInt l, int i) \<in> set (wiring z) \<and>
        (l_ANode l = l_ZNode l \<and> l_AInt l \<noteq> l_ZInt l \<longrightarrow>
           r (l_ANode l) (l_AInt l) \<noteq> r (l_ZNode l) (l_ZInt l)))"

text \<open>A connected interface is an end of the link that its UID names.\<close>

definition only_links :: "(string \<Rightarrow> string \<Rightarrow> string) \<Rightarrow> topology \<Rightarrow> manager \<Rightarrow> bool" where
  "only_links r topo m \<longleftrightarrow>
     (\<forall>name n k pn pk u. node_of m name = Some n \<longrightarrow> (k, pn, pk, u) \<in> set (wiring n) \<longrightarrow> pn \<noteq> [] \<longrightarrow>
        (\<exists>i < length (t_Links topo). u = int i \<and> (let l = t_Links topo ! i in
           name = l_ANode l \<and> k = r name (l_AInt l) \<and> (pn, pk) = (l_ZNode l, l_ZInt l) \<or>
           name = l_ZNode l \<and> k = r name (l_ZInt l) \<and> (pn, pk) = (l_ANode l, l_AInt l))))"

definition wired_by ::
  "(vendor \<Rightarrow> renaming) \<Rightarrow> (string \<Rightarrow> string \<Rightarrow> string) \<Rightarrow> topology \<Rightarrow> manager \<Rightarrow> bool" where
  "wired_by ren r topo m \<longleftrightarrow>
     (\<forall>i < length (t_Links topo). link_at ren r m (t_Links topo ! i) i) \<and> only_links r topo m"

text \<open>No interface of the description has a peer yet.\<close>

definition unwired :: "topology \<Rightarrow> bool" where
  "unwired topo \<longleftrightarrow> (\<forall>n \<in> set (t_Nodes topo). \<forall>(k, i) \<in> set (n_Interfaces n). ifc_PeerName i = [])"

lemma wiring_keys: "(k, w) \<in> set (wiring n) \<Longrightarrow> k \<in> set (keys (n_Interfaces n))"
  by (force simp: wiring_def keys_def)

lemma link_at_load:
  assumes inv: "loop_inv (name_map topo) (nodes0 topo) (t_Links topo) (ns, length (t_Links topo))"
    and known: "\<forall>l \<in> set (t_Links topo). nodes_known (name_map topo) l"
    and con: "constructed ren r topo ns m"
    and i: "i < length (t_Links topo)" and l: "l = t_Links topo ! i"
  shows "link_at ren r m l i"
proof -
  let ?nm = "name_map topo"
  have "nodes_known ?nm l" using known l nth_mem [OF i] by blast
  then obtain a z where a: "map_of ?nm (l_ANode l) = Some a" and z: "map_of ?nm (l_ZNode l) = Some z"
    by (auto simp: nodes_known_def)
  have "link_wired ?nm ns l i" using inv i l by (simp add: loop_inv_def)
  then have w: "(l_AInt l, l_ZNode l, l_ZInt l, int i) \<in> set (wiring (ns ! a))"
    "(l_ZInt l, l_ANode l, l_AInt l, int i) \<in> set (wiring (ns ! z))"
    using ifc_at_wiring by (fastforce simp: link_wired_def linked_at_def a_addr_def z_addr_def a z wire_def)+
  obtain na where na: "node_of m (l_ANode l) = Some na"
      "renames (ren (n_Vendor na)) (r (l_ANode l)) (set (keys (n_Interfaces (ns ! a))))"
      "set (wiring na) = apfst (r (l_ANode l)) ` set (wiring (ns ! a))"
    using constructedD [OF con a] by blast
  obtain nz where nz: "node_of m (l_ZNode l) = Some nz"
      "renames (ren (n_Vendor nz)) (r (l_ZNode l)) (set (keys (n_Interfaces (ns ! z))))"
      "set (wiring nz) = apfst (r (l_ZNode l)) ` set (wiring (ns ! z))"
    using constructedD [OF con z] by blast
  note k = wiring_keys [OF w(1)] wiring_keys [OF w(2)]
  have "r (l_ANode l) (l_AInt l) \<noteq> r (l_ZNode l) (l_ZInt l)" if "l_ANode l = l_ZNode l" "l_AInt l \<noteq> l_ZInt l"
    using that k na(2) a z by (auto simp: renames_def dest: inj_onD)
  moreover have "rn_may (ren (n_Vendor na)) (l_AInt l) (r (l_ANode l) (l_AInt l))"
    "rn_may (ren (n_Vendor nz)) (l_ZInt l) (r (l_ZNode l) (l_ZInt l))"
    using k na(2) nz(2) by (auto simp: renames_def)
  ultimately show ?thesis unfolding link_at_def
    using na nz imageI [OF w(1), of "apfst (r (l_ANode l))"] imageI [OF w(2), of "apfst (r (l_ZNode l))"]
    by (intro exI [of _ na] exI [of _ nz]) simp
qed

lemma wired_end:
  assumes kn: "nodes_known (name_map topo) l" and e: "(j, k) \<in> endpoints (name_map topo) l"
    and w: "link_wired (name_map topo) ns l u" and f: "ifc_at ns (j, k) = Some f"
  shows "ifc_Uid f = int u \<and>
    (l_ANode l = n_Name (t_Nodes topo ! j) \<and> l_AInt l = k \<and>
       ifc_PeerName f = l_ZNode l \<and> ifc_PeerIntName f = l_ZInt l \<or>
     l_ZNode l = n_Name (t_Nodes topo ! j) \<and> l_ZInt l = k \<and>
       ifc_PeerName f = l_ANode l \<and> ifc_PeerIntName f = l_AInt l)"
proof -
  from kn obtain a z where "map_of (name_map topo) (l_ANode l) = Some a"
    "map_of (name_map topo) (l_ZNode l) = Some z" by (auto simp: nodes_known_def)
  with e w f name_map_get [of topo "l_ANode l" a] name_map_get [of topo "l_ZNode l" z] show ?thesis
    by (auto simp: endpoints_def a_addr_def z_addr_def link_wired_def linked_at_def)
qed

lemma only_links_load:
  assumes inv: "loop_inv (name_map topo) (nodes0 topo) (t_Links topo) (ns, length (t_Links topo))"
    and known: "\<forall>l \<in> set (t_Links topo). nodes_known (name_map topo) l"
    and con: "constructed ren r topo ns m" and mn: "map_of (m_nodes m) = map_of (name_map topo)"
    and un: "unwired topo"
  shows "only_links r topo m"
  unfolding only_links_def
proof (intro allI impI)
  fix name n k pn pk u
  assume n: "node_of m name = Some n" and w: "(k, pn, pk, u) \<in> set (wiring n)" and pn: "pn \<noteq> []"
  let ?nm = "name_map topo" and ?ls = "t_Links topo"
  from n mn obtain j where j: "map_of ?nm name = Some j" by (auto simp: node_of_def)
  from constructedD [OF con j] n have jb: "j < length ns" "j < length (t_Nodes topo)"
    and wf: "wf_map (n_Interfaces (ns ! j))" and "set (wiring n) = apfst (r name) ` set (wiring (ns ! j))" by auto
  with w obtain k0 where k0: "k = r name k0" "(k0, pn, pk, u) \<in> set (wiring (ns ! j))" by auto
  from wiring_ifc_at [OF k0(2) wf jb(1)] obtain f where
    f: "ifc_at ns (j, k0) = Some f" "wire f = (pn, pk, u)" by blast
  have name: "n_Name (t_Nodes topo ! j) = name" using name_map_get [OF j] by blast
  show "\<exists>i < length ?ls. u = int i \<and> (let l = ?ls ! i in
      name = l_ANode l \<and> k = r name (l_AInt l) \<and> (pn, pk) = (l_ZNode l, l_ZInt l) \<or>
      name = l_ZNode l \<and> k = r name (l_ZInt l) \<and> (pn, pk) = (l_ANode l, l_AInt l))"
  proof (cases "(j, k0) \<in> all_ends ?nm ?ls")
    case True
    then obtain i where i: "i < length ?ls" "(j, k0) \<in> endpoints ?nm (?ls ! i)"
      by (auto simp: all_ends_def in_set_conv_nth)
    have "link_wired ?nm ns (?ls ! i) i" using inv i by (simp add: loop_inv_def)
    from wired_end [OF known [rule_format, OF nth_mem [OF i(1)]] i(2) this f(1)] i(1) f(2)
    show ?thesis unfolding name k0(1) wire_def by (intro exI [of _ i]) (auto simp: Let_def)
  next
    case False
    then have "ifc_at (nodes0 topo) (j, k0) = Some f" using inv f by (simp add: loop_inv_def)
    from ifc_at_wiring [OF this] have "(k0, wire f) \<in> set (wiring (t_Nodes topo ! j))"
      using jb by (simp add: nodes0_def)
    then obtain g where "(k0, g) \<in> set (n_Interfaces (t_Nodes topo ! j))" "ifc_PeerName g = pn"
      using f(2) by (auto simp: wiring_def wire_def)
    with un nth_mem [OF jb(2)] have "pn = []" unfolding unwired_def by blast
    with pn show ?thesis by simp
  qed
qed

theorem load_wired_by:
  assumes ok: "load reg pidMax ord topo = Ok m" and ord: "range_order ord" and nm: "named topo"
    and reg: "registry_ok reg ren" and ren: "ren_ok ren topo" and un: "unwired topo"
  shows "\<exists>r. wired_by ren r topo m"
proof -
  obtain ns r where inv: "loop_inv (name_map topo) (nodes0 topo) (t_Links topo) (ns, length (t_Links topo))"
    and known: "\<forall>l \<in> set (t_Links topo). nodes_known (name_map topo) l"
    and con: "constructed ren r topo ns m" by (rule load_wiring [OF ok ord nm reg ren])
  have mn: "map_of (m_nodes m) = map_of (name_map topo)" by (rule load_OkE [OF ok ord nm])
  show ?thesis unfolding wired_by_def
    using link_at_load [OF inv known con] only_links_load [OF inv known con mn un] by blast
qed

lemma load_nodes:
  assumes ok: "load reg pidMax ord topo = Ok m" and ord: "range_order ord" and nm: "named topo"
    and reg: "registry_ok reg ren" and ren: "ren_ok ren topo"
  shows "wf_map (m_nodes m)" and "node_of m k = Some n \<Longrightarrow> n_Name n = k"
    and "node_of m k = Some n \<Longrightarrow> wf_map (n_Interfaces n)"
proof -
  obtain ns u ns' mn where new: "foldM (new_node reg pidMax) (ns, []) (ord (name_map topo)) = Ok (ns', mn)"
    and m: "m = \<lparr>m_topo = topo\<lparr>t_Nodes := ns'\<rparr>, m_nodes = mn\<rparr>"
    using ok by (auto simp: load_def Let_def name_map_def nodes0_def)
  have "wf_map (snd (ns', mn))"
    by (rule foldM_invariant [OF new]) (auto simp: new_node_Ok_iff)
  then show "wf_map (m_nodes m)" by (simp add: m)
  obtain ns r where con: "constructed ren r topo ns m" by (rule load_wiring [OF ok ord nm reg ren])
  have mn: "map_of (m_nodes m) = map_of (name_map topo)" by (rule load_OkE [OF ok ord nm])
  assume n: "node_of m k = Some n"
  with mn obtain i where i: "map_of (name_map topo) k = Some i" by (auto simp: node_of_def)
  from constructedD [OF con i] n show "n_Name n = k" and "wf_map (n_Interfaces n)" by auto
qed

end
