(* ===== verification/Vendor_Registry.thy ===== *)
theory Vendor_Registry
  imports Vendor_Hosts Vendor_NOS Vendor_Cisco Vendor_Proxy Topo_Wiring
begin

text \<open>
  The vendor registry as the packages that \<open>topo/topo.go\<close> imports fill it, that every constructor in it
  keeps the wiring of a node, and that constructing a node again changes nothing.
\<close>

definition kne_vendors :: registry where
  "kne_vendors =
     [(V_ALPINE, alpine_New), (V_ARISTA, arista_New), (V_CIENA, ciena_New), (V_CISCO, cisco_New),
      (V_DRIVENETS, drivenets_New), (V_FORWARD, forward_New), (V_GOBGP, gobgp_New), (V_HOST, host_New),
      (V_IN_CLUSTER_PROXY, proxy_New), (V_JUNIPER, juniper_New), (V_KEYSIGHT, keysight_New),
      (V_NOKIA, nokia_New), (V_OPENCONFIG, openconfig_New), (V_SONIC, sonic_New)]"

definition kne_renaming :: "vendor \<Rightarrow> renaming" where
  "kne_renaming v =
     (case v of V_ALPINE \<Rightarrow> ethernet_renaming | V_SONIC \<Rightarrow> ethernet_renaming
      | V_CIENA \<Rightarrow> ciena_renaming | _ \<Rightarrow> no_rename)"

lemma host_keeps: "keeps_wiring host_New no_rename"
  using host.constructor_keeps by (simp add: host_New_def [abs_def])

lemma gobgp_keeps: "keeps_wiring gobgp_New no_rename"
  using gobgp.constructor_keeps by (simp add: gobgp_New_def [abs_def])

lemma forward_keeps: "keeps_wiring forward_New no_rename"
  using forward.constructor_keeps by (simp add: forward_New_def [abs_def])

lemma nokia_keeps: "keeps_wiring nokia_New no_rename"
  using nokia.constructor_keeps by (simp add: nokia_New_def [abs_def])

lemma juniper_keeps: "keeps_wiring juniper_New no_rename"
  using juniper.constructor_keeps by (simp add: juniper_New_def [abs_def])

lemmas vendors_keep = alpine_keeps sonic_keeps ciena_keeps keysight_keeps host_keeps gobgp_keeps forward_keeps
  nokia_keeps juniper_keeps arista_keeps openconfig_keeps drivenets_keeps cisco_keeps proxy_keeps

lemma kne_vendors_ok: "registry_ok kne_vendors kne_renaming"
  unfolding registry_ok_def kne_vendors_def
  by (auto simp: kne_renaming_def vendors_keep split: if_splits)

section \<open>Constructing a node again\<close>

definition restartable :: "new_node_fn \<Rightarrow> bool" where
  "restartable fn \<longleftrightarrow> (\<forall>n n'. fn n = Ok n' \<longrightarrow> fn n' = Ok n')"

context vendor_defaults
begin

lemma constructor_restartable: "restartable (\<lambda>n. Ok (defaults n))"
  by (simp add: restartable_def idem)

text \<open>Also if the constructor renames the interface keys, to names that it would keep.\<close>

lemma renaming_restartable:
  assumes "\<And>m. ren (ren m) = ren m"
    and "\<And>n m. defaults (n\<lparr>n_Interfaces := m\<rparr>) = (defaults n)\<lparr>n_Interfaces := m\<rparr>"
  shows "restartable (\<lambda>n. let d = defaults n in Ok (d\<lparr>n_Interfaces := ren (n_Interfaces d)\<rparr>))"
  by (simp add: restartable_def Let_def assms idem keeps_ifcs)

end

lemma rename_loop_keeps:
  assumes "\<forall>(k, v) \<in> set m. \<forall>i. f i k = (k, i)" and "distinct (map fst (intf @ m))"
  shows "rename_loop f idx m intf = intf @ m"
  using assms
proof (induction m arbitrary: intf)
  case (Cons kv m)
  obtain k v where kv: "kv = (k, v)" by (cases kv)
  have "put k v intf = intf @ [(k, v)]" using Cons.prems by (intro put_fresh) (auto simp: kv)
  with Cons show ?case by (simp add: kv)
qed simp

lemma rename_loop_keys:
  "k \<in> fst ` set (rename_loop f idx m intf) \<Longrightarrow> k \<in> fst ` set intf \<or> (\<exists>i k'. k = fst (f i k'))"
proof (induction f idx m intf rule: rename_loop.induct)
  case (2 f idx k' v rest intf)
  obtain name idx' where f: "f idx k' = (name, idx')" by (cases "f idx k'")
  from "2.prems" have "k \<in> fst ` set (rename_loop f idx' rest (put name v intf))" by (simp add: f)
  from "2.IH" [OF f [symmetric] refl this] show ?case
  proof
    assume "k \<in> fst ` set (put name v intf)"
    then have "k = name \<or> k \<in> fst ` set intf" by (simp add: dom_map_of_conv_image_fst [symmetric] dom_update del: dom_map_of_conv_image_fst)
    with f show ?thesis by (metis fst_conv)
  qed blast
qed simp

lemma rename_loop_idem:
  assumes "\<And>i j k. f i (fst (f j k)) = (fst (f j k), i)"
  shows "rename_loop f idx (rename_loop f idx m []) [] = rename_loop f idx m []"
proof -
  let ?m = "rename_loop f idx m []"
  have "\<forall>(k, v) \<in> set ?m. \<forall>i. f i k = (k, i)"
  proof clarify
    fix k v i assume "(k, v) \<in> set ?m"
    then have "k \<in> fst ` set ?m" by force
    with rename_loop_keys [of k f idx m "[]"] obtain j k' where "k = fst (f j k')" by auto
    with assms show "f i k = (k, i)" by simp
  qed
  moreover have "distinct (map fst ([] @ ?m))" using wf_rename_loop [of "[]" f idx m] by (simp add: wf_map_def)
  ultimately show ?thesis using rename_loop_keeps [of ?m f "[]" idx] by simp
qed

lemma renameInterfaces_idem: "renameInterfaces (renameInterfaces m) = renameInterfaces m"
  unfolding renameInterfaces_def
  by (rule rename_loop_idem) (simp add: rename_ethernet_def eth_name_def HasPrefix_def)

lemma ciena_name_idem: "ciena_name (ciena_name k) = ciena_name k"
proof -
  have "\<not> all_digits (''eth'' @ x)" for x by (simp add: all_digits_def digit_char_def)
  moreover have "\<not> three_numbers (''eth'' @ x)" for x
  proof
    assume t: "three_numbers (''eth'' @ x)"
    obtain w ws where w: "Split (CHR ''/'') x = w # ws" using Split_ne by (cases "Split (CHR ''/'') x") blast+
    from t show False by (simp add: three_numbers_def w all_digits_def digit_char_def)
  qed
  ultimately show ?thesis by (simp add: ciena_name_def)
qed

lemma ciena_renameInterfaces_idem: "ciena_renameInterfaces (ciena_renameInterfaces m) = ciena_renameInterfaces m"
  unfolding ciena_renameInterfaces_def
  by (rule rename_loop_idem) (simp add: ciena_name_idem)

lemma vendors_restartable:
  "restartable alpine_New" "restartable sonic_New" "restartable ciena_New" "restartable host_New" "restartable gobgp_New"
  "restartable forward_New" "restartable nokia_New" "restartable juniper_New" "restartable cisco_New"
  "restartable openconfig_New" "restartable drivenets_New" "restartable proxy_New" "restartable keysight_New"
proof -
  show "restartable host_New" "restartable gobgp_New" "restartable forward_New" "restartable nokia_New" "restartable juniper_New"
    using host.constructor_restartable gobgp.constructor_restartable forward.constructor_restartable
      nokia.constructor_restartable juniper.constructor_restartable
    by (simp_all add: host_New_def [abs_def] gobgp_New_def [abs_def] forward_New_def [abs_def] nokia_New_def [abs_def]
        juniper_New_def [abs_def])
  show "restartable alpine_New" unfolding alpine_New_def [abs_def]
    by (rule alpine.renaming_restartable) (simp_all add: renameInterfaces_idem alpine_defaults_def Let_def GetConfig_def)
  show "restartable sonic_New" unfolding sonic_New_def [abs_def]
    by (rule sonic.renaming_restartable) (simp_all add: renameInterfaces_idem sonic_defaults_def Let_def GetConfig_def)
  show "restartable ciena_New" unfolding ciena_New_def [abs_def]
    by (rule ciena.renaming_restartable) (simp_all add: ciena_renameInterfaces_idem ciena_defaults_def Let_def GetConfig_def)
  show "restartable cisco_New" by (simp add: restartable_def cisco_New_def cisco_defaults_stable)
  have "n_Model (lemmingDefaults n) = n_Model n" "n_Model (magnaDefaults n) = n_Model n" "n_Model (cdnosDefaults n) = n_Model n" for n
    by (simp_all add: lemmingDefaults_def magnaDefaults_def cdnosDefaults_def Let_def)
  then show "restartable openconfig_New" "restartable drivenets_New"
    by (auto simp: restartable_def openconfig_New_def drivenets_New_def lemming.idem magna.idem cdnos.idem split: if_splits)
  show "restartable proxy_New" by (auto simp: restartable_def proxy_New_def Let_def proxy.idem)
  show "restartable keysight_New"
    by (auto simp: restartable_def keysight_New_def keysight_FixInterfaces_def keysight_defaults_def comp_def case_prod_unfold)
qed

text \<open>
  C4. Constructing a node from the description that a constructor has filled in changes nothing: for
  every vendor but Arista, whose constructor may refuse an interface name that it has generated itself,
  the constructor gives its own result back.
\<close>

theorem constructors_restartable:
  assumes "map_of kne_vendors v = Some fn" and "v \<noteq> V_ARISTA" and "fn n = Ok n'"
  shows "fn n' = Ok n'"
proof -
  have "restartable fn"
    using assms(1,2) unfolding kne_vendors_def by (auto simp: vendors_restartable split: if_splits)
  with assms(3) show ?thesis by (auto simp: restartable_def)
qed

theorem constructors_restartable_witness:
  "ciena_New (the_Ok (ciena_New (empty_node\<lparr>n_Interfaces := [(''1/1/7'', empty_interface)]\<rparr>))) =
     Ok (the_Ok (ciena_New (empty_node\<lparr>n_Interfaces := [(''1/1/7'', empty_interface)]\<rparr>)))"
proof -
  have "is_Ok (ciena_New (empty_node\<lparr>n_Interfaces := [(''1/1/7'', empty_interface)]\<rparr>))" by code_simp
  then have "ciena_New (empty_node\<lparr>n_Interfaces := [(''1/1/7'', empty_interface)]\<rparr>) =
      Ok (the_Ok (ciena_New (empty_node\<lparr>n_Interfaces := [(''1/1/7'', empty_interface)]\<rparr>)))"
    by (auto simp: is_Ok_iff)
  moreover have "map_of kne_vendors V_CIENA = Some ciena_New" by (simp add: kne_vendors_def)
  ultimately show ?thesis by (intro constructors_restartable [of V_CIENA]) simp_all
qed

text \<open>The exception: an interface key \<open>ethX\<close> is given the name \<open>EthernetX\<close>, which a second construction refuses.\<close>

lemma arista_not_restartable: "\<not> restartable arista_New"
proof -
  let ?n = "empty_node\<lparr>n_Interfaces := [(''ethX'', empty_interface)]\<rparr>"
  have "is_Ok (arista_New ?n) \<and> \<not> is_Ok (arista_New (the_Ok (arista_New ?n)))" by code_simp
  then show ?thesis unfolding restartable_def by (metis is_Ok.simps(1) is_Ok_iff the_Ok.simps)
qed

end
