(* ===== verification/Kube_API.thy ===== *)
theory Kube_API
  imports Topo_Proto
begin

text \<open>
  Effects and the Kubernetes API. An operation with effects takes the world and returns its result and the
  new world. The API server is code outside the repository: its operations are the fields of a record that
  every definition using them takes as an argument, and \<open>api_ok\<close> states what the sources rely on: a
  request that fails changes nothing, a create adds the object under its name, a delete removes it, and
  reads return what is there. An in-memory instance shows that the assumptions can hold.
\<close>

section \<open>Operations with effects\<close>

type_synonym ('w, 'a) act = "'w \<Rightarrow> 'a result \<times> 'w"

definition aret :: "'a \<Rightarrow> ('w, 'a) act" where
  "aret x = (\<lambda>w. (Ok x, w))"

definition aerr :: "err \<Rightarrow> ('w, 'a) act" where
  "aerr e = (\<lambda>w. (Error e, w))"

definition apanic :: "string \<Rightarrow> ('w, 'a) act" where
  "apanic p = (\<lambda>w. (Panic p, w))"

definition alift :: "'a result \<Rightarrow> ('w, 'a) act" where
  "alift r = (\<lambda>w. (r, w))"

definition abind :: "('w, 'a) act \<Rightarrow> ('a \<Rightarrow> ('w, 'b) act) \<Rightarrow> ('w, 'b) act" where
  "abind m f = (\<lambda>w. case m w of
     (Ok x, w') \<Rightarrow> f x w'
   | (Error e, w') \<Rightarrow> (Error e, w')
   | (Panic p, w') \<Rightarrow> (Panic p, w'))"

text \<open>\<open>x, err := m()\<close>: the error is a value, a panic is not.\<close>

definition atry :: "('w, 'a) act \<Rightarrow> ('w, 'a result) act" where
  "atry m = (\<lambda>w. case m w of (Panic p, w') \<Rightarrow> (Panic p, w') | (r, w') \<Rightarrow> (Ok r, w'))"

text \<open>\<open>if err := m(); err != nil { return f(err) }\<close>.\<close>

definition amap_err :: "(err \<Rightarrow> err) \<Rightarrow> ('w, 'a) act \<Rightarrow> ('w, 'a) act" where
  "amap_err f m = (\<lambda>w. case m w of (Error e, w') \<Rightarrow> (Error (f e), w') | (r, w') \<Rightarrow> (r, w'))"

text \<open>A loop that returns at the first error, and one that collects every error.\<close>

fun aiter :: "('a \<Rightarrow> ('w, unit) act) \<Rightarrow> 'a list \<Rightarrow> ('w, unit) act" where
  "aiter f [] = aret ()"
| "aiter f (x # xs) = abind (f x) (\<lambda>_. aiter f xs)"

fun acollect :: "('a \<Rightarrow> ('w, unit) act) \<Rightarrow> 'a list \<Rightarrow> ('w, err list) act" where
  "acollect f [] = aret []"
| "acollect f (x # xs) =
     abind (atry (f x)) (\<lambda>r. abind (acollect f xs) (\<lambda>es.
       aret (case r of Error e \<Rightarrow> e # es | _ \<Rightarrow> es)))"

text \<open>A delete that tolerates a missing object.\<close>

definition ignore_not_found :: "('w, unit) act \<Rightarrow> ('w, unit) act" where
  "ignore_not_found m = (\<lambda>w. case m w of
     (Error e, w') \<Rightarrow> if IsNotFound e then (Ok (), w') else (Error e, w')
   | (r, w') \<Rightarrow> (r, w'))"

lemma aret_apply [simp]: "aret x w = (Ok x, w)"
  by (simp add: aret_def)

lemma aerr_apply [simp]: "aerr e w = (Error e, w)"
  by (simp add: aerr_def)

lemma apanic_apply [simp]: "apanic p w = (Panic p, w)"
  by (simp add: apanic_def)

lemma alift_apply [simp]: "alift r w = (r, w)"
  by (simp add: alift_def)

lemma abind_Ok [simp]: "m w = (Ok x, w') \<Longrightarrow> abind m f w = f x w'"
  by (simp add: abind_def)

lemma abind_Error [simp]: "m w = (Error e, w') \<Longrightarrow> abind m f w = (Error e, w')"
  by (simp add: abind_def)

lemma abind_Panic [simp]: "m w = (Panic p, w') \<Longrightarrow> abind m f w = (Panic p, w')"
  by (simp add: abind_def)

lemma abind_OkD:
  assumes "abind m f w = (Ok y, w2)"
  obtains x w1 where "m w = (Ok x, w1)" "f x w1 = (Ok y, w2)"
  using assms by (auto simp: abind_def split: prod.splits result.splits)

lemma abind_cases:
  assumes "abind m f w = (r, w2)"
  obtains (Ok) x w1 where "m w = (Ok x, w1)" "f x w1 = (r, w2)"
  | (Error) e where "m w = (Error e, w2)" "r = Error e"
  | (Panic) p where "m w = (Panic p, w2)" "r = Panic p"
  using assms by (auto simp: abind_def split: prod.splits result.splits)

lemma abind_aret [simp]: "abind (aret x) f = f x"
  by (simp add: abind_def aret_def)

text \<open>A view of the world that every operation in a sequence keeps is kept by the sequence.\<close>

definition keeps :: "('w \<Rightarrow> 'v) \<Rightarrow> ('w, 'a) act \<Rightarrow> bool" where
  "keeps view m \<longleftrightarrow> (\<forall>w. view (snd (m w)) = view w)"

lemma keepsD: "keeps view m \<Longrightarrow> m w = (r, w') \<Longrightarrow> view w' = view w"
  unfolding keeps_def by (metis snd_conv)

lemma keepsI: "(\<And>w r w'. m w = (r, w') \<Longrightarrow> view w' = view w) \<Longrightarrow> keeps view m"
  unfolding keeps_def by (metis prod.collapse)

named_theorems keeps_intros

lemma keeps_aret [keeps_intros]: "keeps view (aret x)"
  by (simp add: keeps_def)

lemma keeps_aerr [keeps_intros]: "keeps view (aerr x)"
  by (simp add: keeps_def)

lemma keeps_apanic [keeps_intros]: "keeps view (apanic x)"
  by (simp add: keeps_def)

lemma keeps_alift [keeps_intros]: "keeps view (alift x)"
  by (simp add: keeps_def)

lemma keeps_abind [keeps_intros]: "keeps view m \<Longrightarrow> (\<And>x. keeps view (f x)) \<Longrightarrow> keeps view (abind m f)"
  by (auto simp: keeps_def abind_def split: prod.splits result.splits) (metis snd_conv)+

lemma keeps_atry [keeps_intros]: "keeps view m \<Longrightarrow> keeps view (atry m)"
  by (auto simp: keeps_def atry_def split: prod.splits result.splits) (metis snd_conv)+

lemma keeps_amap_err [keeps_intros]: "keeps view m \<Longrightarrow> keeps view (amap_err g m)"
  by (auto simp: keeps_def amap_err_def split: prod.splits result.splits) (metis snd_conv)+

lemma keeps_aiter [keeps_intros]: "(\<And>x. keeps view (f x)) \<Longrightarrow> keeps view (aiter f xs)"
  by (induction xs) (auto intro!: keeps_intros)

lemma keeps_acollect [keeps_intros]: "(\<And>x. keeps view (f x)) \<Longrightarrow> keeps view (acollect f xs)"
  by (induction xs) (auto intro!: keeps_intros)

lemma keeps_ignore_not_found [keeps_intros]: "keeps view m \<Longrightarrow> keeps view (ignore_not_found m)"
  by (auto simp: keeps_def ignore_not_found_def split: prod.splits result.splits) (metis snd_conv)+

section \<open>Objects\<close>

datatype service_kind = ST_LoadBalancer | ST_NodePort | ST_ClusterIP | ST_Other string

record svc_port =
  sp_Port :: int
  sp_NodePort :: int
  sp_TargetPort :: int
  sp_Name :: string

record ingress =
  ing_IP :: string
  ing_Hostname :: string

record k8s_service =
  sv_Name :: string
  sv_UID :: string
  sv_Labels :: "(string, string) gomap"
  sv_Ports :: "svc_port list"
  sv_Selector :: "(string, string) gomap"
  sv_Type :: service_kind
  sv_AllocNodePorts :: "bool option"
  sv_ClusterIP :: string
  sv_Ingress :: "ingress list"

record sec_context =
  sc_Privileged :: "bool option"
  sc_AllowEscalation :: "bool option"
  sc_AddCaps :: "string list"
  sc_DropCaps :: "string list"
  sc_NonRoot :: "bool option"
  sc_User :: "int option"
  sc_Group :: "int option"

definition privileged :: sec_context where
  "privileged = \<lparr>sc_Privileged = Some True, sc_AllowEscalation = None, sc_AddCaps = [], sc_DropCaps = [],
     sc_NonRoot = None, sc_User = None, sc_Group = None\<rparr>"

record probe =
  pr_Port :: int
  pr_InitialDelaySeconds :: int
  pr_PeriodSeconds :: int
  pr_FailureThreshold :: int

record volume_mount =
  vm_Name :: string
  vm_MountPath :: string
  vm_SubPath :: string
  vm_ReadOnly :: bool

text \<open>A volume has one source; the argument of \<open>VS_EmptyDir\<close> is the medium.\<close>

datatype volume_source = VS_ConfigMap string | VS_HostPath string | VS_EmptyDir string

record volume =
  vol_Name :: string
  vol_Source :: volume_source

record container =
  ct_Name :: string
  ct_Image :: string
  ct_Command :: "string list"
  ct_Args :: "string list"
  ct_Env :: "(string \<times> string) list"
  ct_Requests :: "(string, string) gomap"
  ct_Limits :: "(string, string) gomap"
  ct_Security :: "sec_context option"
  ct_Probe :: "probe option"
  ct_Mounts :: "volume_mount list"
  ct_TTY :: bool
  ct_Stdin :: bool

definition empty_container :: container where
  "empty_container = \<lparr>ct_Name = [], ct_Image = [], ct_Command = [], ct_Args = [], ct_Env = [], ct_Requests = [],
     ct_Limits = [], ct_Security = None, ct_Probe = None, ct_Mounts = [], ct_TTY = False, ct_Stdin = False\<rparr>"

datatype pod_phase = PodPending | PodRunning | PodSucceeded | PodFailed | PodUnknown

text \<open>Conditions are pairs of type and status, as strings.\<close>

type_synonym condition = "string \<times> string"

record pod =
  pd_Name :: string
  pd_Labels :: "(string, string) gomap"
  pd_InitContainers :: "container list"
  pd_Containers :: "container list"
  pd_Volumes :: "volume list"
  pd_GracePeriod :: "int option"
  pd_ServiceLinks :: "bool option"
  pd_AntiAffinity :: "string list"
  pd_Phase :: pod_phase
  pd_Conditions :: "condition list"
  pd_PodIP :: string

record config_map =
  cm_Name :: string
  cm_Data :: "(string, string) gomap"

record daemon_set =
  ds_Name :: string
  ds_Labels :: "(string, string) gomap"
  ds_Owner :: "(string \<times> string) option"
  ds_Containers :: "container list"

record namespace =
  ns_Name :: string
  ns_Labels :: "(string, string) gomap"

section \<open>The API\<close>

text \<open>The operations on one kind of object; the first string is the namespace, the pair a label selector.\<close>

record ('w, 'o) api =
  api_Create :: "string \<Rightarrow> 'o \<Rightarrow> ('w, 'o) act"
  api_Get :: "string \<Rightarrow> string \<Rightarrow> ('w, 'o) act"
  api_List :: "string \<Rightarrow> (string \<times> string) option \<Rightarrow> ('w, 'o list) act"
  api_Delete :: "string \<Rightarrow> string \<Rightarrow> ('w, unit) act"

record 'w kube =
  k_Pods :: "('w, pod) api"
  k_Services :: "('w, k8s_service) api"
  k_ConfigMaps :: "('w, config_map) api"
  k_DaemonSets :: "('w, daemon_set) api"
  k_Namespaces :: "('w, namespace) api"

text \<open>The objects of one kind that exist, by namespace and name.\<close>

type_synonym ('w, 'o) view = "'w \<Rightarrow> string \<times> string \<Rightarrow> 'o option"

definition create_ok :: "('o \<Rightarrow> string) \<Rightarrow> ('o \<Rightarrow> 'o \<Rightarrow> bool) \<Rightarrow> ('w, 'o) view \<Rightarrow> ('w, 'o) api \<Rightarrow> bool" where
  "create_ok nm same view api \<longleftrightarrow> (\<forall>ns x w. case api_Create api ns x w of
     (Ok x', w') \<Rightarrow> view w (ns, nm x) = None \<and> nm x' = nm x \<and> same x x' \<and> view w' = (view w)((ns, nm x) \<mapsto> x')
   | (Error _, w') \<Rightarrow> view w' = view w
   | (Panic _, _) \<Rightarrow> False)"

definition delete_ok :: "('w, 'o) view \<Rightarrow> ('w, 'o) api \<Rightarrow> bool" where
  "delete_ok view api \<longleftrightarrow> (\<forall>ns n w. case api_Delete api ns n w of
     (Ok _, w') \<Rightarrow> view w (ns, n) \<noteq> None \<and> view w' = (view w)((ns, n) := None)
   | (Error e, w') \<Rightarrow> view w' = view w \<and> (IsNotFound e \<longleftrightarrow> view w (ns, n) = None)
   | (Panic _, _) \<Rightarrow> False)"

definition get_ok :: "('w, 'o) view \<Rightarrow> ('w, 'o) api \<Rightarrow> bool" where
  "get_ok view api \<longleftrightarrow> (\<forall>ns n w. case api_Get api ns n w of
     (Ok x, w') \<Rightarrow> view w (ns, n) = Some x \<and> view w' = view w
   | (Error e, w') \<Rightarrow> view w' = view w \<and> (IsNotFound e \<longleftrightarrow> view w (ns, n) = None)
   | (Panic _, _) \<Rightarrow> False)"

text \<open>A list returns every object of the namespace that the selector matches, once.\<close>

definition selected :: "('o \<Rightarrow> (string, string) gomap) \<Rightarrow> (string \<times> string) option \<Rightarrow> 'o \<Rightarrow> bool" where
  "selected lbl sel x \<longleftrightarrow> (case sel of None \<Rightarrow> True | Some (k, v) \<Rightarrow> map_of (lbl x) k = Some v)"

definition list_ok ::
  "('o \<Rightarrow> string) \<Rightarrow> ('o \<Rightarrow> (string, string) gomap) \<Rightarrow> ('w, 'o) view \<Rightarrow> ('w, 'o) api \<Rightarrow> bool" where
  "list_ok nm lbl view api \<longleftrightarrow> (\<forall>ns sel w. case api_List api ns sel w of
     (Ok xs, w') \<Rightarrow> view w' = view w \<and> distinct (map nm xs) \<and>
        set xs = {x. view w (ns, nm x) = Some x \<and> selected lbl sel x}
   | (Error e, w') \<Rightarrow> view w' = view w
   | (Panic _, _) \<Rightarrow> False)"

definition api_ok ::
  "('o \<Rightarrow> string) \<Rightarrow> ('o \<Rightarrow> (string, string) gomap) \<Rightarrow> ('o \<Rightarrow> 'o \<Rightarrow> bool) \<Rightarrow> ('w, 'o) view \<Rightarrow> ('w, 'o) api \<Rightarrow> bool" where
  "api_ok nm lbl same view api \<longleftrightarrow>
     create_ok nm same view api \<and> delete_ok view api \<and> get_ok view api \<and> list_ok nm lbl view api"

text \<open>That the requests of one kind of object do not change another kind, and return.\<close>

definition never_panics :: "('w, 'a) act \<Rightarrow> bool" where
  "never_panics m \<longleftrightarrow> (\<forall>w p. fst (m w) \<noteq> Panic p)"

lemma never_panicsD: "never_panics m \<Longrightarrow> m w \<noteq> (Panic p, w')"
  by (metis fst_conv never_panics_def)

definition api_frame :: "('w \<Rightarrow> 'v) \<Rightarrow> ('w, 'o) api \<Rightarrow> bool" where
  "api_frame view api \<longleftrightarrow>
     (\<forall>ns x. keeps view (api_Create api ns x) \<and> never_panics (api_Create api ns x)) \<and>
     (\<forall>ns n. keeps view (api_Get api ns n) \<and> never_panics (api_Get api ns n)) \<and>
     (\<forall>ns sel. keeps view (api_List api ns sel) \<and> never_panics (api_List api ns sel)) \<and>
     (\<forall>ns n. keeps view (api_Delete api ns n) \<and> never_panics (api_Delete api ns n))"

lemma api_frameD [keeps_intros]:
  assumes "api_frame view api"
  shows "keeps view (api_Create api ns x)" "keeps view (api_Get api ns n)" "keeps view (api_List api ns sel)"
    "keeps view (api_Delete api ns n)"
  using assms by (simp_all add: api_frame_def)

lemma api_frame_returns:
  assumes "api_frame view api"
  shows "never_panics (api_Create api ns x)" "never_panics (api_Get api ns n)" "never_panics (api_List api ns sel)"
    "never_panics (api_Delete api ns n)"
  using assms by (simp_all add: api_frame_def)

section \<open>Rules for the operations\<close>

lemma create_cases:
  assumes "create_ok nm same view api" "api_Create api ns x w = (r, w')"
  obtains (created) x' where "r = Ok x'" "view w (ns, nm x) = None" "nm x' = nm x" "same x x'"
      "view w' = (view w)((ns, nm x) \<mapsto> x')"
  | (failed) e where "r = Error e" "view w' = view w"
proof -
  note ok = assms(1) [unfolded create_ok_def, THEN spec [of _ ns], THEN spec [of _ x], THEN spec [of _ w]]
  show thesis
    using ok [unfolded assms(2)] that by (cases r) force+
qed

lemma delete_cases:
  assumes "delete_ok view api" "api_Delete api ns n w = (r, w')"
  obtains (deleted) "r = Ok ()" "view w (ns, n) \<noteq> None" "view w' = (view w)((ns, n) := None)"
  | (failed) e where "r = Error e" "view w' = view w" "IsNotFound e \<longleftrightarrow> view w (ns, n) = None"
proof -
  note ok = assms(1) [unfolded delete_ok_def, THEN spec [of _ ns], THEN spec [of _ n], THEN spec [of _ w]]
  show thesis
  proof (cases r)
    case (Ok u)
    then show thesis using ok [unfolded assms(2)] by (intro deleted) simp_all
  next
    case (Error e)
    then show thesis using ok [unfolded assms(2)] by (intro failed [of e]) simp_all
  next
    case (Panic p)
    then show thesis using ok [unfolded assms(2)] by simp
  qed
qed

lemma get_cases:
  assumes "get_ok view api" "api_Get api ns n w = (r, w')"
  obtains (found) x where "r = Ok x" "view w (ns, n) = Some x" "view w' = view w"
  | (failed) e where "r = Error e" "view w' = view w" "IsNotFound e \<longleftrightarrow> view w (ns, n) = None"
proof -
  note ok = assms(1) [unfolded get_ok_def, THEN spec [of _ ns], THEN spec [of _ n], THEN spec [of _ w]]
  show thesis
    using ok [unfolded assms(2)] that by (cases r) force+
qed

lemma list_cases:
  assumes "list_ok nm lbl view api" "api_List api ns sel w = (r, w')"
  obtains (listed) xs where "r = Ok xs" "view w' = view w" "distinct (map nm xs)"
      "set xs = {x. view w (ns, nm x) = Some x \<and> selected lbl sel x}"
  | (failed) e where "r = Error e" "view w' = view w"
proof -
  note ok = assms(1) [unfolded list_ok_def, THEN spec [of _ ns], THEN spec [of _ sel], THEN spec [of _ w]]
  show thesis
    using ok [unfolded assms(2)] that by (cases r) force+
qed

section \<open>An in-memory API server\<close>

text \<open>
  The objects of a kind are a list of namespace and object in the world, read and written through a
  lens; the first entry with a name counts.
\<close>

type_synonym 'o table = "(string \<times> 'o) list"

definition table_view :: "('o \<Rightarrow> string) \<Rightarrow> 'o table \<Rightarrow> string \<times> string \<Rightarrow> 'o option" where
  "table_view nm t = map_of (map (\<lambda>(ns, x). ((ns, nm x), x)) t)"

definition table_names :: "('o \<Rightarrow> string) \<Rightarrow> 'o table \<Rightarrow> string \<Rightarrow> string list" where
  "table_names nm t ns = remdups (map (\<lambda>(_, x). nm x) (filter (\<lambda>(ns', _). ns' = ns) t))"

definition mem_api ::
  "('o \<Rightarrow> string) \<Rightarrow> ('o \<Rightarrow> (string, string) gomap) \<Rightarrow> ('o \<Rightarrow> 'o) \<Rightarrow>
   ('w \<Rightarrow> 'o table) \<Rightarrow> ('o table \<Rightarrow> 'w \<Rightarrow> 'w) \<Rightarrow> ('w, 'o) api" where
  "mem_api nm lbl fill get_t set_t =
     \<lparr>api_Create = (\<lambda>ns x w. case table_view nm (get_t w) (ns, nm x) of
          Some _ \<Rightarrow> (Error (StatusErr AlreadyExists [] [nm x]), w)
        | None \<Rightarrow> (Ok (fill x), set_t (get_t w @ [(ns, fill x)]) w)),
      api_Get = (\<lambda>ns n w. case table_view nm (get_t w) (ns, n) of
          Some x \<Rightarrow> (Ok x, w) | None \<Rightarrow> (Error (APINotFound n), w)),
      api_List = (\<lambda>ns sel w.
          (Ok (filter (selected lbl sel)
                 (map (\<lambda>n. the (table_view nm (get_t w) (ns, n))) (table_names nm (get_t w) ns))), w)),
      api_Delete = (\<lambda>ns n w. case table_view nm (get_t w) (ns, n) of
          Some _ \<Rightarrow> (Ok (), set_t (filter (\<lambda>(ns', x). ns' = ns \<longrightarrow> nm x \<noteq> n) (get_t w)) w)
        | None \<Rightarrow> (Error (APINotFound n), w))\<rparr>"

lemma table_view_name: "table_view nm t (ns, n) = Some x \<Longrightarrow> nm x = n"
  unfolding table_view_def by (drule map_of_SomeD) auto

lemma table_view_append: "table_view nm (t @ [(ns, x)]) k = (case table_view nm t k of None \<Rightarrow> if k = (ns, nm x) then Some x else None | Some y \<Rightarrow> Some y)"
  by (simp add: table_view_def map_add_def split: option.splits)

lemma table_view_filter:
  "table_view nm (filter (\<lambda>(ns', x). ns' = ns \<longrightarrow> nm x \<noteq> n) t) = (table_view nm t)((ns, n) := None)"
  by (induction t) (auto simp: table_view_def fun_eq_iff)

lemma table_names_iff: "n \<in> set (table_names nm t ns) \<longleftrightarrow> table_view nm t (ns, n) \<noteq> None"
  by (force simp: table_names_def table_view_def map_of_eq_None_iff)

lemma mem_api_ok:
  assumes get_set: "\<And>t w. get_t (set_t t w) = t"
    and fill: "\<And>x. nm (fill x) = nm x \<and> same x (fill x)"
  shows "api_ok nm lbl same (\<lambda>w. table_view nm (get_t w)) (mem_api nm lbl fill get_t set_t)"
proof -
  let ?v = "\<lambda>w. table_view nm (get_t w)" and ?api = "mem_api nm lbl fill get_t set_t"
  have "create_ok nm same ?v ?api"
    unfolding create_ok_def mem_api_def
    by (simp add: get_set fill fun_eq_iff table_view_append split: option.split)
  moreover have "delete_ok ?v ?api"
    unfolding delete_ok_def mem_api_def by (simp add: get_set table_view_filter split: option.split)
  moreover have "get_ok ?v ?api"
    unfolding get_ok_def mem_api_def by (simp split: option.split)
  moreover have "list_ok nm lbl ?v ?api"
  proof -
    have nms: "map nm (map (\<lambda>n. the (?v w (ns, n))) (table_names nm (get_t w) ns)) = table_names nm (get_t w) ns" for w ns
      by (rule map_idI [THEN trans [OF map_map]]) (auto simp: table_names_iff table_view_name)
    have d: "distinct (map nm (filter P (map (\<lambda>n. the (?v w (ns, n))) (table_names nm (get_t w) ns))))" for P w ns
      by (rule distinct_map_filter) (simp only: nms, simp add: table_names_def)
    have "x \<in> set (map (\<lambda>n. the (?v w (ns, n))) (table_names nm (get_t w) ns)) \<longleftrightarrow> ?v w (ns, nm x) = Some x" for x w ns
      using table_names_iff [of _ nm "get_t w" ns] table_view_name [of nm "get_t w" ns] by force
    then show ?thesis unfolding list_ok_def mem_api_def using d by simp
  qed
  ultimately show ?thesis by (simp add: api_ok_def)
qed

lemma mem_api_frame:
  assumes "\<And>t w. view (set_t t w) = view w"
  shows "api_frame view (mem_api nm lbl fill get_t set_t)"
  unfolding api_frame_def mem_api_def by (simp add: keeps_def never_panics_def assms split: option.split)

text \<open>The delete of an existing object succeeds, as it does while the API server can be reached.\<close>

definition reliable_delete :: "('w, 'o) view \<Rightarrow> ('w, 'o) api \<Rightarrow> bool" where
  "reliable_delete view api \<longleftrightarrow> (\<forall>ns n w. view w (ns, n) \<noteq> None \<longrightarrow> is_Ok (fst (api_Delete api ns n w)))"

lemma mem_api_reliable: "reliable_delete (\<lambda>w. table_view nm (get_t w)) (mem_api nm lbl fill get_t set_t)"
  unfolding reliable_delete_def mem_api_def by auto

record mem_world =
  mw_Pods :: "pod table"
  mw_Services :: "k8s_service table"
  mw_ConfigMaps :: "config_map table"
  mw_DaemonSets :: "daemon_set table"
  mw_Namespaces :: "namespace table"

definition mem_kube :: "'a mem_world_scheme kube" where
  "mem_kube =
     \<lparr>k_Pods = mem_api pd_Name pd_Labels id mw_Pods (\<lambda>t. mw_Pods_update (\<lambda>_. t)),
      k_Services = mem_api sv_Name sv_Labels id mw_Services (\<lambda>t. mw_Services_update (\<lambda>_. t)),
      k_ConfigMaps = mem_api cm_Name (\<lambda>_. []) id mw_ConfigMaps (\<lambda>t. mw_ConfigMaps_update (\<lambda>_. t)),
      k_DaemonSets = mem_api ds_Name ds_Labels id mw_DaemonSets (\<lambda>t. mw_DaemonSets_update (\<lambda>_. t)),
      k_Namespaces = mem_api ns_Name ns_Labels id mw_Namespaces (\<lambda>t. mw_Namespaces_update (\<lambda>_. t))\<rparr>"

definition mem_empty :: mem_world where
  "mem_empty = \<lparr>mw_Pods = [], mw_Services = [], mw_ConfigMaps = [], mw_DaemonSets = [], mw_Namespaces = []\<rparr>"

definition mem_services :: "('a mem_world_scheme, k8s_service) view" where
  "mem_services = (\<lambda>w. table_view sv_Name (mw_Services w))"

definition mem_pods :: "('a mem_world_scheme, pod) view" where
  "mem_pods = (\<lambda>w. table_view pd_Name (mw_Pods w))"

definition mem_config_maps :: "('a mem_world_scheme, config_map) view" where
  "mem_config_maps = (\<lambda>w. table_view cm_Name (mw_ConfigMaps w))"

definition mem_namespaces :: "('a mem_world_scheme, namespace) view" where
  "mem_namespaces = (\<lambda>w. table_view ns_Name (mw_Namespaces w))"

lemma mem_kube_ok:
  "(\<And>x. same x x) \<Longrightarrow> api_ok sv_Name sv_Labels same mem_services (k_Services mem_kube)"
  "(\<And>x. same' x x) \<Longrightarrow> api_ok pd_Name pd_Labels same' mem_pods (k_Pods mem_kube)"
  "(\<And>x. same'' x x) \<Longrightarrow> api_ok cm_Name (\<lambda>_. []) same'' mem_config_maps (k_ConfigMaps mem_kube)"
  "(\<And>x. same3 x x) \<Longrightarrow> api_ok ns_Name ns_Labels same3 mem_namespaces (k_Namespaces mem_kube)"
  unfolding mem_kube_def mem_services_def mem_pods_def mem_config_maps_def mem_namespaces_def by (auto intro!: mem_api_ok)

lemma mem_kube_reliable:
  "reliable_delete mem_services (k_Services mem_kube)" "reliable_delete mem_pods (k_Pods mem_kube)"
  "reliable_delete mem_config_maps (k_ConfigMaps mem_kube)" "reliable_delete mem_namespaces (k_Namespaces mem_kube)"
  unfolding mem_kube_def mem_services_def mem_pods_def mem_config_maps_def mem_namespaces_def by (auto intro!: mem_api_reliable)

lemma mem_kube_frames:
  "api_frame mem_services (k_DaemonSets mem_kube)" "api_frame mem_services (k_Pods mem_kube)"
  "api_frame mem_services (k_ConfigMaps mem_kube)" "api_frame mem_pods (k_DaemonSets mem_kube)"
  "api_frame mem_pods (k_Services mem_kube)" "api_frame mem_pods (k_ConfigMaps mem_kube)"
  "api_frame mem_config_maps (k_DaemonSets mem_kube)" "api_frame mem_config_maps (k_Services mem_kube)"
  "api_frame mem_config_maps (k_Pods mem_kube)"
  "api_frame mem_namespaces (k_Pods mem_kube)" "api_frame mem_namespaces (k_Services mem_kube)"
  "api_frame mem_namespaces (k_ConfigMaps mem_kube)" "api_frame mem_namespaces (k_DaemonSets mem_kube)"
  unfolding mem_kube_def mem_services_def mem_pods_def mem_config_maps_def mem_namespaces_def by (auto intro!: mem_api_frame)

end
