(* ===== verification/Node_Service.thy ===== *)
theory Node_Service
  imports Kube_API
begin

text \<open>
  The Kubernetes services of a node (\<open>CreateService\<close>, \<open>DeleteService\<close> and \<open>Services\<close> of
  \<open>topo/node/node.go\<close>) and what the topology manager reads from them (\<open>isServiceReady\<close>,
  \<open>nodeServicesReady\<close>, \<open>populateServiceMap\<close> of \<open>topo/topo.go\<close>).
\<close>

section \<open>Ports by service type\<close>

fun k8sServiceType :: "service_type \<Rightarrow> service_kind" where
  "k8sServiceType Service_NODE_PORT = ST_NodePort"
| "k8sServiceType Service_CLUSTER_IP = ST_ClusterIP"
| "k8sServiceType _ = ST_LoadBalancer"

fun serviceNameForType :: "string \<Rightarrow> service_kind \<Rightarrow> string" where
  "serviceNameForType nodeName ST_NodePort = ''service-'' @ nodeName @ ''-nodeport''"
| "serviceNameForType nodeName ST_ClusterIP = ''service-'' @ nodeName @ ''-clusterip''"
| "serviceNameForType nodeName _ = ''service-'' @ nodeName"

definition MaxUint16 :: u32 where
  "MaxUint16 = 65535"

text \<open>\<open>intstr.FromInt\<close> keeps the low 32 bits.\<close>

definition service_port :: "u32 \<Rightarrow> service \<Rightarrow> svc_port" where
  "service_port k v =
     \<lparr>sp_Port = uint k, sp_NodePort = uint (svc_NodePort v), sp_TargetPort = wrap32 (uint (svc_Inside v)),
      sp_Name = svc_Name v\<rparr>"

type_synonym port_groups = "(service_kind, svc_port list) gomap"

definition group_ports :: "port_groups \<Rightarrow> service_kind \<Rightarrow> svc_port list" where
  "group_ports groups st = (case map_of groups st of None \<Rightarrow> [] | Some ps \<Rightarrow> ps)"

definition add_port :: "(u32, service) gomap \<Rightarrow> port_groups \<Rightarrow> u32 \<Rightarrow> port_groups result" where
  "add_port svcs groups k =
     (case map_of svcs k of
        None \<Rightarrow> Panic ''nil service''
      | Some v \<Rightarrow>
          if svc_NodePort v > MaxUint16 then
            Error (Errorf ''node port %d out of range (max: %d)'' [itoa (uint k), itoa 65535])
          else if k > MaxUint16 then
            Error (Errorf ''service port %d out of range (max: %d)'' [itoa (uint k), itoa 65535])
          else (let st = k8sServiceType (svc_Type v) in
                Ok (put st (group_ports groups st @ [service_port k v]) groups)))"

definition node_services :: "node \<Rightarrow> (u32, service) gomap" where
  "node_services pb = items (n_Services pb)"

definition sorted_ports :: "node \<Rightarrow> u32 list" where
  "sorted_ports pb = sort (keys (node_services pb))"

definition service_groups :: "node \<Rightarrow> port_groups result" where
  "service_groups pb = foldM (add_port (node_services pb)) [] (sorted_ports pb)"

section \<open>Creating the services\<close>

definition service_object :: "node \<Rightarrow> service_kind \<Rightarrow> svc_port list \<Rightarrow> k8s_service" where
  "service_object pb st ports =
     \<lparr>sv_Name = serviceNameForType (n_Name pb) st, sv_UID = [], sv_Labels = [(''pod'', n_Name pb)],
      sv_Ports = ports, sv_Selector = [(''app'', n_Name pb)], sv_Type = st,
      sv_AllocNodePorts = (if st = ST_LoadBalancer then Some False else None),
      sv_ClusterIP = [], sv_Ingress = []\<rparr>"

definition typeOrder :: "service_kind list" where
  "typeOrder = [ST_LoadBalancer, ST_NodePort, ST_ClusterIP]"

text \<open>The loop over the types; its value is the services created so far and the error that ended it.\<close>

fun create_loop ::
  "'w kube \<Rightarrow> string \<Rightarrow> node \<Rightarrow> port_groups \<Rightarrow> service_kind list \<Rightarrow> k8s_service list \<Rightarrow>
   ('w, k8s_service list \<times> err option) act" where
  "create_loop K ns pb groups [] created = aret (created, None)"
| "create_loop K ns pb groups (st # sts) created =
     (if group_ports groups st = [] then create_loop K ns pb groups sts created
      else abind (atry (api_Create (k_Services K) ns (service_object pb st (group_ports groups st)))) (\<lambda>r.
        case r of
          Ok sS \<Rightarrow> create_loop K ns pb groups sts (created @ [sS])
        | Error e \<Rightarrow> aret (created, Some e)
        | Panic p \<Rightarrow> apanic p))"

text \<open>The deferred clean-up: the errors of the deletes are dropped.\<close>

definition rollback :: "'w kube \<Rightarrow> string \<Rightarrow> k8s_service list \<Rightarrow> ('w, unit) act" where
  "rollback K ns created =
     aiter (\<lambda>sS. abind (atry (api_Delete (k_Services K) ns (sv_Name sS))) (\<lambda>_. aret ())) created"

definition DefaultV6ProxyImage :: string where
  "DefaultV6ProxyImage = ''us-west1-docker.pkg.dev/kne-external/kne/alpine/socat:1.8.1.3''"

definition v6_container :: "int \<Rightarrow> container" where
  "v6_container nodePort =
     empty_container\<lparr>ct_Name := ''socat-'' @ itoa nodePort, ct_Image := DefaultV6ProxyImage,
       ct_Args := [''TCP6-LISTEN:'' @ itoa nodePort @ '',fork,reuseaddr,max-children=64'',
                   ''TCP4:127.0.0.1:'' @ itoa nodePort],
       ct_Security := Some \<lparr>sc_Privileged = None, sc_AllowEscalation = Some False, sc_AddCaps = [],
          sc_DropCaps = [''ALL''], sc_NonRoot = Some True, sc_User = Some 65532, sc_Group = Some 65532\<rparr>,
       ct_Requests := [(''cpu'', ''50m''), (''memory'', ''32Mi'')],
       ct_Limits := [(''cpu'', ''100m''), (''memory'', ''64Mi'')]\<rparr>"

definition proxy_containers :: "node \<Rightarrow> k8s_service list \<Rightarrow> container list" where
  "proxy_containers pb created =
     concat (map (\<lambda>sS. concat (map (\<lambda>sp.
       case map_of (node_services pb) (word_of_int (sp_Port sp)) of
         Some svc \<Rightarrow> if svc_ExternalIpv6 svc \<and> sp_NodePort sp > 0 then [v6_container (sp_NodePort sp)] else []
       | None \<Rightarrow> []) (sv_Ports sS))) created)"

text \<open>The service that owns the daemon set: the node port service if there is one, else the first.\<close>

definition owner_service :: "k8s_service list \<Rightarrow> k8s_service option" where
  "owner_service created =
     (case filter (\<lambda>s. sv_Type s = ST_NodePort) created of
        s # _ \<Rightarrow> Some s
      | [] \<Rightarrow> (case created of s # _ \<Rightarrow> Some s | [] \<Rightarrow> None))"

definition v6proxy_name :: "node \<Rightarrow> string" where
  "v6proxy_name pb = ''v6proxy-'' @ n_Name pb"

definition proxy_daemonset :: "string \<Rightarrow> node \<Rightarrow> k8s_service list \<Rightarrow> daemon_set" where
  "proxy_daemonset ns pb created =
     \<lparr>ds_Name = v6proxy_name pb,
      ds_Labels = [(''app'', v6proxy_name pb), (''pod'', n_Name pb), (''topo'', ns)],
      ds_Owner = map_option (\<lambda>s. (sv_Name s, sv_UID s)) (owner_service created),
      ds_Containers = proxy_containers pb created\<rparr>"

definition CreateService :: "'w kube \<Rightarrow> string \<Rightarrow> node \<Rightarrow> ('w, unit) act" where
  "CreateService K ns pb =
     (if node_services pb = [] then aret ()
      else abind (alift (service_groups pb)) (\<lambda>groups.
        abind (create_loop K ns pb groups typeOrder []) (\<lambda>(created, failure).
          case failure of
            Some e \<Rightarrow> abind (rollback K ns created) (\<lambda>_. aerr e)
          | None \<Rightarrow>
              if proxy_containers pb created = [] then aret ()
              else abind (atry (api_Create (k_DaemonSets K) ns (proxy_daemonset ns pb created))) (\<lambda>r.
                case r of
                  Ok _ \<Rightarrow> aret ()
                | Error e \<Rightarrow> abind (rollback K ns created) (\<lambda>_.
                    aerr (Errorw ''failed to create host v6proxy daemonset: %w'' [] e))
                | Panic p \<Rightarrow> apanic p))))"

section \<open>Deleting and listing the services\<close>

definition list_services :: "'w kube \<Rightarrow> string \<Rightarrow> node \<Rightarrow> ('w, k8s_service list) act" where
  "list_services K ns pb = api_List (k_Services K) ns (Some (''pod'', n_Name pb))"

definition delete_service :: "'w kube \<Rightarrow> string \<Rightarrow> string \<Rightarrow> ('w, unit) act" where
  "delete_service K ns n = ignore_not_found (api_Delete (k_Services K) ns n)"

definition delete_daemonset :: "'w kube \<Rightarrow> string \<Rightarrow> node \<Rightarrow> ('w, err list) act" where
  "delete_daemonset K ns pb =
     abind (atry (ignore_not_found (api_Delete (k_DaemonSets K) ns (v6proxy_name pb)))) (\<lambda>r.
       aret (case r of Error e \<Rightarrow> [Errorw ''failed to delete v6proxy daemonset %q: %w'' [v6proxy_name pb] e] | _ \<Rightarrow> []))"

definition default_names :: "node \<Rightarrow> string list" where
  "default_names pb = map (serviceNameForType (n_Name pb)) typeOrder"

definition DeleteService :: "'w kube \<Rightarrow> string \<Rightarrow> node \<Rightarrow> ('w, unit) act" where
  "DeleteService K ns pb =
     abind (delete_daemonset K ns pb) (\<lambda>errs.
       abind (atry (list_services K ns pb)) (\<lambda>r.
         abind (case r of
                  Error e \<Rightarrow>
                    if IsNotFound e then acollect (delete_service K ns) (default_names pb)
                    else aret [Errorw ''failed to list services for node %q: %w'' [n_Name pb] e]
                | Panic p \<Rightarrow> apanic p
                | Ok svcs \<Rightarrow>
                    acollect (delete_service K ns)
                      (if svcs \<noteq> [] then map sv_Name svcs else default_names pb))
           (\<lambda>errs'. alift (join_errs (errs @ errs')))))"

definition Services :: "'w kube \<Rightarrow> string \<Rightarrow> node \<Rightarrow> ('w, k8s_service list) act" where
  "Services K ns pb =
     (if node_services pb = [] then aret []
      else abind (list_services K ns pb) (\<lambda>svcs.
        if svcs = [] then
          abind (api_Get (k_Services K) ns (''service-'' @ n_Name pb)) (\<lambda>s. aret [s])
        else aret (sort_key sv_Name svcs)))"

section \<open>What the manager reads\<close>

text \<open>An empty type counts as a cluster IP service.\<close>

definition service_type_of :: "k8s_service \<Rightarrow> service_kind" where
  "service_type_of s = (if sv_Type s = ST_Other [] then ST_ClusterIP else sv_Type s)"

definition isServiceReady :: "k8s_service option \<Rightarrow> bool" where
  "isServiceReady so =
     (case so of
        None \<Rightarrow> False
      | Some s \<Rightarrow>
          if service_type_of s = ST_LoadBalancer then
            (case sv_Ingress s of [] \<Rightarrow> False | ing # _ \<Rightarrow> ing_IP ing \<noteq> [] \<or> ing_Hostname ing \<noteq> [])
          else True)"

definition nodeServicesReady :: "('w, k8s_service list) act \<Rightarrow> ('w, bool) act" where
  "nodeServicesReady services =
     abind (atry services) (\<lambda>r. case r of
       Error e \<Rightarrow> if IsNotFound e then aret False else aerr e
     | Panic p \<Rightarrow> apanic p
     | Ok svcs \<Rightarrow> aret (svcs \<noteq> [] \<and> list_all (\<lambda>s. isServiceReady (Some s)) svcs))"

text \<open>The body of the loop over the ports, one assignment after the other.\<close>

definition set_name :: "svc_port \<Rightarrow> service \<Rightarrow> service" where
  "set_name p v = (if svc_Name v = [] then v\<lparr>svc_Name := sp_Name p\<rparr> else v)"

definition set_ports :: "k8s_service \<Rightarrow> svc_port \<Rightarrow> service \<Rightarrow> service" where
  "set_ports s p v = v\<lparr>svc_Outside := word_of_int (sp_Port p), svc_Inside := word_of_int (sp_TargetPort p),
     svc_NodePort := word_of_int (sp_NodePort p), svc_InsideIp := sv_ClusterIP s\<rparr>"

definition set_out_ip :: "k8s_service \<Rightarrow> service \<Rightarrow> service" where
  "set_out_ip s v = (case sv_Ingress s of [] \<Rightarrow> v | ing # _ \<Rightarrow> v\<lparr>svc_OutsideIp := ing_IP ing\<rparr>)"

definition set_type :: "k8s_service \<Rightarrow> service \<Rightarrow> service" where
  "set_type s v =
     (case service_type_of s of
        ST_NodePort \<Rightarrow> v\<lparr>svc_Type := Service_NODE_PORT\<rparr>
      | ST_LoadBalancer \<Rightarrow> v\<lparr>svc_Type := Service_LOAD_BALANCER\<rparr>
      | ST_ClusterIP \<Rightarrow> v\<lparr>svc_Type := Service_CLUSTER_IP\<rparr>
      | ST_Other _ \<Rightarrow> v)"

definition populate_port :: "k8s_service \<Rightarrow> (u32, service) gomap \<Rightarrow> svc_port \<Rightarrow> (u32, service) gomap" where
  "populate_port s m p =
     (let k = word_of_int (sp_Port p);
          v = (case map_of m k of None \<Rightarrow> empty_service\<lparr>svc_Name := sp_Name p\<rparr> | Some v \<Rightarrow> v)
      in put k (set_type s (set_out_ip s (set_ports s p (set_name p v)))) m)"

definition populateServiceMap ::
  "k8s_service option \<Rightarrow> (u32, service) gomap option \<Rightarrow> (u32, service) gomap result" where
  "populateServiceMap so mo =
     (case (so, mo) of
        (Some s, Some m) \<Rightarrow>
          if service_type_of s = ST_LoadBalancer \<and> sv_Ingress s = [] then
            Error (Errorf ''service %s has no external loadbalancer configured'' [sv_Name s])
          else Ok (foldl (populate_port s) m (sv_Ports s))
      | _ \<Rightarrow> Error (Errorf ''service and map must not be nil'' []))"

section \<open>The groups\<close>

lemma group_ports_put [simp]:
  "group_ports (put st ps g) st' = (if st' = st then ps else group_ports g st')"
  by (simp add: group_ports_def)

definition kind_of :: "(u32, service) gomap \<Rightarrow> u32 \<Rightarrow> service_kind" where
  "kind_of svcs k = k8sServiceType (svc_Type (the (map_of svcs k)))"

definition port_of :: "(u32, service) gomap \<Rightarrow> u32 \<Rightarrow> svc_port" where
  "port_of svcs k = service_port k (the (map_of svcs k))"

definition in_range :: "(u32, service) gomap \<Rightarrow> u32 \<Rightarrow> bool" where
  "in_range svcs k \<longleftrightarrow> k \<le> MaxUint16 \<and> svc_NodePort (the (map_of svcs k)) \<le> MaxUint16"

lemma add_ports_Ok:
  "foldM (add_port svcs) g ks = Ok g' \<Longrightarrow>
     group_ports g' st = group_ports g st @ map (port_of svcs) (filter (\<lambda>k. kind_of svcs k = st) ks)"
proof (induction ks arbitrary: g)
  case (Cons k ks)
  from Cons.prems obtain g1 where g1: "add_port svcs g k = Ok g1" and rest: "foldM (add_port svcs) g1 ks = Ok g'"
    by auto
  from g1 have "group_ports g1 st = group_ports g st @ (if kind_of svcs k = st then [port_of svcs k] else [])"
    by (auto simp: add_port_def kind_of_def port_of_def Let_def split: option.splits if_splits)
  with Cons.IH [OF rest] show ?case by simp
qed simp

lemma add_ports_iff:
  "\<forall>k \<in> set ks. map_of svcs k \<noteq> None \<Longrightarrow>
     (\<exists>g'. foldM (add_port svcs) g ks = Ok g') \<longleftrightarrow> (\<forall>k \<in> set ks. in_range svcs k)"
proof (induction ks arbitrary: g)
  case (Cons k ks)
  show ?case
  proof (cases "in_range svcs k")
    case True
    then obtain g1 where "add_port svcs g k = Ok g1"
      using Cons.prems by (auto simp: add_port_def in_range_def not_less Let_def)
    with True Cons show ?thesis by simp
  next
    case False
    then have "\<not> is_Ok (add_port svcs g k)"
      using Cons.prems by (auto simp: add_port_def in_range_def not_le split: if_splits)
    with False show ?thesis by (auto simp: is_Ok_iff)
  qed
qed simp

lemma sorted_ports_set: "set (sorted_ports pb) = fst ` set (node_services pb)"
  by (simp add: sorted_ports_def keys_def)

lemma service_groups_iff: "(\<exists>g. service_groups pb = Ok g) \<longleftrightarrow> (\<forall>k \<in> fst ` set (node_services pb). in_range (node_services pb) k)"
  unfolding service_groups_def
  using add_ports_iff [of "sorted_ports pb" "node_services pb" "[]"] by (auto simp: sorted_ports_set map_of_eq_None_iff)

lemma service_groups_Ok:
  "service_groups pb = Ok g \<Longrightarrow>
     group_ports g st = map (port_of (node_services pb)) (filter (\<lambda>k. kind_of (node_services pb) k = st) (sorted_ports pb))"
  unfolding service_groups_def by (drule add_ports_Ok [of _ _ _ _ st]) (simp add: group_ports_def)

section \<open>The services a create leaves behind\<close>

text \<open>
  What the server keeps of a service it creates: labels, type and the ports with their targets and names.
  It fills in the UID, the cluster IP and node ports.
\<close>

definition same_ports :: "svc_port list \<Rightarrow> svc_port list \<Rightarrow> bool" where
  "same_ports ps qs \<longleftrightarrow>
     map (\<lambda>p. (sp_Port p, sp_TargetPort p, sp_Name p)) ps = map (\<lambda>p. (sp_Port p, sp_TargetPort p, sp_Name p)) qs"

definition svc_same :: "k8s_service \<Rightarrow> k8s_service \<Rightarrow> bool" where
  "svc_same s s' \<longleftrightarrow> sv_Labels s' = sv_Labels s \<and> same_ports (sv_Ports s) (sv_Ports s') \<and>
     (sv_Type s \<noteq> ST_Other [] \<longrightarrow> sv_Type s' = sv_Type s)"

abbreviation services_ok :: "('w, k8s_service) view \<Rightarrow> 'w kube \<Rightarrow> bool" where
  "services_ok view K \<equiv> api_ok sv_Name sv_Labels svc_same view (k_Services K)"

abbreviation svc_key :: "string \<Rightarrow> k8s_service \<Rightarrow> string \<times> string" where
  "svc_key ns s \<equiv> (ns, sv_Name s)"

definition objects :: "string \<Rightarrow> k8s_service list \<Rightarrow> string \<times> string \<Rightarrow> k8s_service option" where
  "objects ns cs = map_of (map (\<lambda>s. (svc_key ns s, s)) cs)"

lemma dom_objects [simp]: "dom (objects ns cs) = svc_key ns ` set cs"
  by (simp add: objects_def dom_map_of_conv_image_fst image_image)

definition added :: "string \<Rightarrow> k8s_service list \<Rightarrow> (string \<times> string \<Rightarrow> k8s_service option) \<Rightarrow>
    (string \<times> string \<Rightarrow> k8s_service option) \<Rightarrow> bool" where
  "added ns cs v v' \<longleftrightarrow> distinct (map sv_Name cs) \<and> dom v \<inter> svc_key ns ` set cs = {} \<and> v' = v ++ objects ns cs"

lemma added_Nil [simp]: "added ns [] v v' \<longleftrightarrow> v' = v"
  by (simp add: added_def objects_def)

lemma added_Cons:
  assumes "v (svc_key ns s) = None" and "added ns cs (v(svc_key ns s \<mapsto> s)) v'"
  shows "added ns (s # cs) v v'"
proof -
  have "sv_Name s \<notin> sv_Name ` set cs" "dom v \<inter> svc_key ns ` set cs = {}"
    using assms(2) by (auto simp: added_def)
  moreover have "v' = v ++ objects ns (s # cs)"
  proof -
    have "svc_key ns s \<notin> dom (objects ns cs)" using calculation(1) by auto
    then show ?thesis using assms(2) by (auto simp: added_def objects_def map_add_def fun_eq_iff split: option.splits)
  qed
  ultimately show ?thesis using assms by (auto simp: added_def)
qed

lemma added_undo:
  assumes "added ns cs v v'"
  shows "v' |` (- svc_key ns ` set cs) = v"
proof
  fix k
  show "(v' |` (- svc_key ns ` set cs)) k = v k"
  proof (cases "k \<in> svc_key ns ` set cs")
    case True
    then have "k \<notin> dom v" using assms unfolding added_def by blast
    with True show ?thesis by (simp add: restrict_map_def domIff)
  next
    case False
    then have "k \<notin> dom (objects ns cs)" by simp
    then show ?thesis using assms False by (simp add: added_def restrict_map_def map_add_dom_app_simps(3))
  qed
qed

lemma create_loop_spec:
  assumes ok: "create_ok sv_Name svc_same view (k_Services K)"
    and run: "create_loop K ns pb groups sts created w = (r, w')"
  obtains cs failure where "r = Ok (created @ cs, failure)" "added ns cs (view w) (view w')"
    "failure = None \<Longrightarrow> list_all2 (\<lambda>st s. sv_Name s = serviceNameForType (n_Name pb) st \<and>
        svc_same (service_object pb st (group_ports groups st)) s)
      (filter (\<lambda>st. group_ports groups st \<noteq> []) sts) cs"
  using run
proof (induction sts arbitrary: created w thesis)
  case Nil
  then show ?case by (intro Nil(1) [of "[]" None]) simp_all
next
  case (Cons st sts)
  show ?case
  proof (cases "group_ports groups st = []")
    case True
    with Cons.prems(2) have "create_loop K ns pb groups sts created w = (r, w')" by simp
    then show ?thesis by (rule Cons.IH [rotated]) (use True Cons.prems(1) in auto)
  next
    case False
    let ?o = "service_object pb st (group_ports groups st)"
    obtain q w1 where c: "api_Create (k_Services K) ns ?o w = (q, w1)" by fastforce
    from ok c show ?thesis
    proof (cases rule: create_cases)
      case (created s)
      note c1 = created(1) and c2 = created(2) and c3 = created(3) and c4 = created(4) and c5 = created(5)
      have rest: "create_loop K ns pb groups sts (created @ [s]) w1 = (r, w')"
        using Cons.prems(2) False c c1 by (simp add: atry_def abind_def)
      obtain cs failure where r: "r = Ok ((created @ [s]) @ cs, failure)" and a: "added ns cs (view w1) (view w')"
        and l: "failure = None \<Longrightarrow> list_all2 (\<lambda>st s. sv_Name s = serviceNameForType (n_Name pb) st \<and>
            svc_same (service_object pb st (group_ports groups st)) s)
          (filter (\<lambda>st. group_ports groups st \<noteq> []) sts) cs"
        using Cons.IH [OF _ rest] by blast
      have nm: "sv_Name s = sv_Name ?o" by (rule c3)
      have "added ns (s # cs) (view w) (view w')"
        by (rule added_Cons) (use c2 a nm in \<open>simp_all add: c5\<close>)
      moreover have "sv_Name ?o = serviceNameForType (n_Name pb) st" by (simp add: service_object_def)
      ultimately show ?thesis
        by (intro Cons.prems(1) [of "s # cs" failure]) (use r l False c4 nm in auto)
    next
      case (failed e)
      then have "r = Ok (created, Some e)" "w' = w1"
        using Cons.prems(2) False c by (simp_all add: atry_def abind_def)
      with failed show ?thesis by (intro Cons.prems(1) [of "[]" "Some e"]) simp_all
    qed
  qed
qed

section \<open>Undoing a create\<close>

lemma rollback_view:
  assumes ok: "delete_ok view (k_Services K)" and rel: "reliable_delete view (k_Services K)"
    and "distinct (map sv_Name cs)" and "\<forall>s \<in> set cs. view w (svc_key ns s) \<noteq> None"
  shows "\<exists>w'. rollback K ns cs w = (Ok (), w') \<and> view w' = view w |` (- svc_key ns ` set cs)"
  using assms(3,4)
proof (induction cs arbitrary: w)
  case Nil
  then show ?case by (simp add: rollback_def restrict_map_def)
next
  case (Cons s cs)
  obtain q w1 where d: "api_Delete (k_Services K) ns (sv_Name s) w = (q, w1)" by fastforce
  then have "is_Ok q" using rel Cons.prems(2) unfolding reliable_delete_def by (metis fst_conv list.set_intros(1))
  then have q: "q = Ok ()" and v: "view w1 = (view w)(svc_key ns s := None)"
    using d by (auto elim!: delete_cases [OF ok])
  have "sv_Name s' \<noteq> sv_Name s" if "s' \<in> set cs" for s' using Cons.prems(1) that by (metis distinct.simps(2) image_eqI list.simps(9) set_map)
  then have "\<forall>s' \<in> set cs. view w1 (svc_key ns s') \<noteq> None" using Cons.prems(2) by (simp add: v)
  then obtain w' where w': "rollback K ns cs w1 = (Ok (), w')" "view w' = view w1 |` (- svc_key ns ` set cs)"
    using Cons.IH [of w1] Cons.prems(1) by auto
  have "rollback K ns (s # cs) w = (Ok (), w')"
    using w'(1) d q by (simp add: rollback_def atry_def abind_def)
  moreover have "view w' = view w |` (- svc_key ns ` set (s # cs))"
    by (auto simp: w'(2) v restrict_map_def)
  ultimately show ?case by blast
qed

lemma added_present: "added ns cs v v' \<Longrightarrow> \<forall>s \<in> set cs. v' (svc_key ns s) \<noteq> None"
proof
  fix s assume a: "added ns cs v v'" and "s \<in> set cs"
  then obtain y where "objects ns cs (svc_key ns s) = Some y"
    using dom_objects [of ns cs] by (metis domD image_eqI)
  then show "v' (svc_key ns s) \<noteq> None" using a by (simp add: added_def)
qed

lemma rollback_added:
  assumes "delete_ok view (k_Services K)" "reliable_delete view (k_Services K)" "added ns cs v (view w)"
  shows "\<exists>w'. rollback K ns cs w = (Ok (), w') \<and> view w' = v"
  using rollback_view [OF assms(1,2), of cs w ns] assms(3) added_undo [OF assms(3)] added_present [OF assms(3)]
  by (auto simp: added_def)

text \<open>The services that exist when the proxy cannot be created are taken back.\<close>

lemma proxy_step:
  assumes ok: "delete_ok view (k_Services K)" and rel: "reliable_delete view (k_Services K)"
    and frame: "api_frame view (k_DaemonSets K)" and a: "added ns cs v (view w1)"
    and run: "abind (atry (api_Create (k_DaemonSets K) ns d)) (\<lambda>r. case r of
        Ok _ \<Rightarrow> aret ()
      | Error e \<Rightarrow> abind (rollback K ns cs) (\<lambda>_. aerr (f e))
      | Panic p \<Rightarrow> apanic p) w1 = (r, w')"
  shows "r = Ok () \<and> view w' = view w1 \<or> \<not> is_Ok r \<and> view w' = v"
proof -
  obtain q w2 where q: "api_Create (k_DaemonSets K) ns d w1 = (q, w2)" by fastforce
  have v2: "view w2 = view w1" using frame q by (meson api_frameD(1) keepsD)
  show ?thesis
  proof (cases q)
    case (Ok x)
    then show ?thesis using run q v2 by (simp add: atry_def)
  next
    case (Error e)
    obtain w3 where w3: "rollback K ns cs w2 = (Ok (), w3)" "view w3 = v"
      using rollback_added [OF ok rel, of ns cs v w2] a v2 by auto
    then show ?thesis using run q Error by (auto simp: atry_def)
  next
    case (Panic p)
    then show ?thesis using never_panicsD [OF api_frame_returns(1) [OF frame]] q by blast
  qed
qed

text \<open>
  What a run of \<open>CreateService\<close> does: either every group has its service, or nothing has changed.
\<close>

lemma CreateService_cases:
  assumes ok: "services_ok view K" and rel: "reliable_delete view (k_Services K)"
    and frame: "api_frame view (k_DaemonSets K)" and run: "CreateService K ns pb w = (r, w')"
  obtains (created) cs g where "r = Ok ()" "node_services pb \<noteq> []" "service_groups pb = Ok g" "added ns cs (view w) (view w')"
      "list_all2 (\<lambda>st s. sv_Name s = serviceNameForType (n_Name pb) st \<and>
          svc_same (service_object pb st (group_ports g st)) s)
        (filter (\<lambda>st. group_ports g st \<noteq> []) typeOrder) cs"
  | (none) "r = Ok ()" "node_services pb = []" "view w' = view w"
  | (failed) "\<not> is_Ok r" "view w' = view w"
proof (cases "node_services pb = []")
  case True
  with run none show thesis by (simp add: CreateService_def)
next
  case ne: False
  have oks: "create_ok sv_Name svc_same view (k_Services K)" "delete_ok view (k_Services K)"
    using ok by (simp_all add: api_ok_def)
  show thesis
  proof (cases "service_groups pb")
    case (Ok g)
    obtain q w1 where loop: "create_loop K ns pb g typeOrder [] w = (q, w1)" by fastforce
    obtain cs failure where q: "q = Ok (cs, failure)" and a: "added ns cs (view w) (view w1)"
      and l: "failure = None \<Longrightarrow> list_all2 (\<lambda>st s. sv_Name s = serviceNameForType (n_Name pb) st \<and>
          svc_same (service_object pb st (group_ports g st)) s) (filter (\<lambda>st. group_ports g st \<noteq> []) typeOrder) cs"
      using create_loop_spec [OF oks(1) loop] by auto
    note start = run [unfolded CreateService_def] ne Ok loop q
    show thesis
    proof (cases failure)
      case None
      show thesis
      proof (cases "proxy_containers pb cs = []")
        case True
        then have "r = Ok ()" "w' = w1" using start None by simp_all
        with created [OF _ ne Ok] a l None show thesis by simp
      next
        case False
        have "r = Ok () \<and> view w' = view w1 \<or> \<not> is_Ok r \<and> view w' = view w"
          by (rule proxy_step [OF oks(2) rel frame a]) (use start None False in simp)
        then show thesis using created [OF _ ne Ok] failed a l None by (elim disjE) simp_all
      qed
    next
      case (Some e)
      obtain w3 where w3: "rollback K ns cs w1 = (Ok (), w3)" "view w3 = view w"
        using rollback_added [OF oks(2) rel a] by auto
      have "\<not> is_Ok r" "w' = w3" using start Some w3 by auto
      with failed w3 show thesis by simp
    qed
  next
    case (Error e)
    then have "r = Error e" "w' = w" using run ne by (simp_all add: CreateService_def)
    then show thesis by (intro failed) simp_all
  next
    case (Panic p)
    then have "r = Panic p" "w' = w" using run ne by (simp_all add: CreateService_def)
    then show thesis by (intro failed) simp_all
  qed
qed

lemma kind_in_typeOrder [simp]: "k8sServiceType t \<in> set typeOrder"
  by (cases t) (simp_all add: typeOrder_def)

lemma serviceNameForType_inj: "inj_on (serviceNameForType n) (set typeOrder)"
  by (auto simp: inj_on_def typeOrder_def)

text \<open>The service that a created group becomes.\<close>

lemma created_service:
  assumes wf: "wf_map (node_services pb)" and g: "service_groups pb = Ok g"
    and cs: "list_all2 (\<lambda>st s. sv_Name s = serviceNameForType (n_Name pb) st \<and>
          svc_same (service_object pb st (group_ports g st)) s) (filter (\<lambda>st. group_ports g st \<noteq> []) typeOrder) cs"
    and kv: "(k, v) \<in> set (node_services pb)"
  obtains s p where "s \<in> set cs" "sv_Name s = serviceNameForType (n_Name pb) (k8sServiceType (svc_Type v))"
    "sv_Type s = k8sServiceType (svc_Type v)" "p \<in> set (sv_Ports s)" "sp_Port p = uint k"
    "sp_TargetPort p = wrap32 (uint (svc_Inside v))" "sp_Name p = svc_Name v"
proof -
  let ?st = "k8sServiceType (svc_Type v)"
  have m: "map_of (node_services pb) k = Some v" using wf kv by (simp add: map_of_eq_iff_mem)
  have "k \<in> set (sorted_ports pb)" using kv by (force simp: sorted_ports_set)
  then have p0: "service_port k v \<in> set (group_ports g ?st)"
    by (auto simp: service_groups_Ok [OF g] kind_of_def port_of_def m image_iff intro!: exI [of _ k])
  then have "?st \<in> set (filter (\<lambda>st. group_ports g st \<noteq> []) typeOrder)" by auto
  then obtain s where s: "s \<in> set cs" "sv_Name s = serviceNameForType (n_Name pb) ?st"
      "svc_same (service_object pb ?st (group_ports g ?st)) s"
    using cs unfolding list_all2_conv_all_nth in_set_conv_nth by metis
  from s(3) have ty: "sv_Type s = ?st" and ps: "same_ports (group_ports g ?st) (sv_Ports s)"
    by (cases "svc_Type v"; simp add: svc_same_def service_object_def)+
  from p0 have "(\<lambda>p. (sp_Port p, sp_TargetPort p, sp_Name p)) (service_port k v) \<in>
      set (map (\<lambda>p. (sp_Port p, sp_TargetPort p, sp_Name p)) (group_ports g ?st))" by simp
  then obtain p where "p \<in> set (sv_Ports s)" "(sp_Port p, sp_TargetPort p, sp_Name p) =
      (sp_Port (service_port k v), sp_TargetPort (service_port k v), sp_Name (service_port k v))"
    unfolding ps [unfolded same_ports_def] by auto
  then have "p \<in> set (sv_Ports s)" "sp_Port p = uint k" "sp_TargetPort p = wrap32 (uint (svc_Inside v))" "sp_Name p = svc_Name v"
    by (simp_all add: service_port_def)
  with s ty show thesis by (intro that)
qed

lemma list_all2_memD: "list_all2 P xs ys \<Longrightarrow> y \<in> set ys \<Longrightarrow> \<exists>x \<in> set xs. P x y"
  by (induction rule: list_all2_induct) auto

lemma created_names:
  assumes "list_all2 (\<lambda>st s. sv_Name s = serviceNameForType (n_Name pb) st \<and>
          svc_same (service_object pb st (group_ports g st)) s) (filter (\<lambda>st. group_ports g st \<noteq> []) typeOrder) cs"
  shows "\<forall>s \<in> set cs. sv_Name s \<in> set (default_names pb) \<and> sv_Labels s = [(''pod'', n_Name pb)]"
proof
  fix s assume "s \<in> set cs"
  from list_all2_memD [OF assms this] show "sv_Name s \<in> set (default_names pb) \<and> sv_Labels s = [(''pod'', n_Name pb)]"
    by (auto simp: default_names_def svc_same_def service_object_def)
qed

section \<open>An example node\<close>

definition ex_services :: node where
  "ex_services = empty_node\<lparr>n_Name := ''r1'', n_Services := Some
     [(22, empty_service\<lparr>svc_Name := ''ssh'', svc_Inside := 22\<rparr>),
      (9339, empty_service\<lparr>svc_Name := ''gnmi'', svc_Inside := 57400, svc_Type := Service_NODE_PORT\<rparr>)]\<rparr>"

definition ex_run :: "unit result \<times> mem_world" where
  "ex_run = CreateService mem_kube ''topo'' ex_services mem_empty"

lemma svc_same_refl [simp]: "svc_same s s"
  by (simp add: svc_same_def same_ports_def)

lemma ex_services_wf: "wf_map (node_services ex_services)"
  by (simp add: ex_services_def node_services_def wf_map_def)

lemma ex_run_Ok: "ex_run = (Ok (), snd ex_run)"
proof -
  have "is_Ok (fst ex_run)" by code_simp
  then show ?thesis by (auto simp: is_Ok_iff prod_eq_iff)
qed

lemmas mem_services_hyps = mem_kube_ok(1) [of svc_same, OF svc_same_refl] mem_kube_reliable(1) mem_kube_frames(1)



section \<open>Deleting what was created\<close>

definition fresh_node :: "(string \<times> string \<Rightarrow> k8s_service option) \<Rightarrow> string \<Rightarrow> node \<Rightarrow> bool" where
  "fresh_node v ns pb \<longleftrightarrow>
     (\<forall>n s. v (ns, n) = Some s \<longrightarrow> n \<notin> set (default_names pb) \<and> map_of (sv_Labels s) ''pod'' \<noteq> Some (n_Name pb))"

lemma delete_service_Ok:
  assumes "delete_ok view (k_Services K)" "delete_service K ns n w = (Ok (), w')"
  shows "view w' = (view w)((ns, n) := None)"
proof -
  obtain q w1 where d: "api_Delete (k_Services K) ns n w = (q, w1)" by fastforce
  from assms(1) d show ?thesis
  proof (cases rule: delete_cases)
    case deleted
    with assms(2) d show ?thesis by (simp add: delete_service_def ignore_not_found_def)
  next
    case (failed e)
    with assms(2) d have "w' = w1" "view w (ns, n) = None"
      by (auto simp: delete_service_def ignore_not_found_def split: if_splits)
    with failed show ?thesis by (metis fun_upd_triv)
  qed
qed

lemma acollect_delete:
  assumes ok: "delete_ok view (k_Services K)"
  shows "acollect (delete_service K ns) names w = (Ok [], w') \<Longrightarrow> view w' = view w |` (- Pair ns ` set names)"
proof (induction names arbitrary: w)
  case Nil
  then show ?case by (simp add: restrict_map_def)
next
  case (Cons n names)
  from Cons.prems obtain w1 where d: "delete_service K ns n w = (Ok (), w1)"
    and rest: "acollect (delete_service K ns) names w1 = (Ok [], w')"
    by (auto simp: atry_def abind_def split: prod.splits result.splits)
  have "view w' = view w1 |` (- Pair ns ` set names)" by (rule Cons.IH [OF rest])
  then show ?case unfolding delete_service_Ok [OF ok d] by (auto simp: restrict_map_def fun_eq_iff)
qed

lemma delete_daemonset_keeps: "api_frame view (k_DaemonSets K) \<Longrightarrow> keeps view (delete_daemonset K ns pb)"
  unfolding delete_daemonset_def by (intro keeps_intros)

lemma DeleteService_Ok:
  assumes ok: "services_ok view K" and frame: "api_frame view (k_DaemonSets K)"
    and run: "DeleteService K ns pb w = (Ok (), w')"
  obtains names where "view w' = view w |` (- Pair ns ` set names)"
    "names = default_names pb \<or>
     set names = sv_Name ` {s. view w (ns, sv_Name s) = Some s \<and> map_of (sv_Labels s) ''pod'' = Some (n_Name pb)}"
proof -
  have oks: "delete_ok view (k_Services K)" "list_ok sv_Name sv_Labels view (k_Services K)"
    using ok by (simp_all add: api_ok_def)
  from run [unfolded DeleteService_def] obtain errs w1 where d: "delete_daemonset K ns pb w = (Ok errs, w1)"
    by (rule abind_OkD)
  then have v1: "view w1 = view w" using delete_daemonset_keeps [OF frame] by (rule keepsD [rotated])
  note result = that
  obtain q w2 where l: "list_services K ns pb w1 = (q, w2)" by fastforce
  from run d l have rest: "abind (case q of
        Error e \<Rightarrow> if IsNotFound e then acollect (delete_service K ns) (default_names pb)
                  else aret [Errorw ''failed to list services for node %q: %w'' [n_Name pb] e]
      | Panic p \<Rightarrow> apanic p
      | Ok svcs \<Rightarrow> acollect (delete_service K ns) (if svcs \<noteq> [] then map sv_Name svcs else default_names pb))
      (\<lambda>errs'. alift (join_errs (errs @ errs'))) w2 = (Ok (), w')"
    by (cases q) (simp_all add: DeleteService_def atry_def)
  have del: thesis if a: "acollect (delete_service K ns) names w2 = (Ok errs', w3)"
      and j: "alift (join_errs (errs @ errs')) w3 = (Ok (), w')" and v2: "view w2 = view w1"
      and n: "names = default_names pb \<or>
         set names = sv_Name ` {s. view w1 (ns, sv_Name s) = Some s \<and> map_of (sv_Labels s) ''pod'' = Some (n_Name pb)}"
    for names errs' w3
  proof -
    from j have "errs' = []" "w' = w3" by (simp_all)
    with a have "view w' = view w |` (- Pair ns ` set names)" using acollect_delete [OF oks(1)] v1 v2 by metis
    with n v1 show thesis by (intro result) simp_all
  qed
  from oks(2) l [unfolded list_services_def] show thesis
  proof (cases rule: list_cases)
    case (listed svcs)
    from rest listed(1) obtain errs' w3 where
      "acollect (delete_service K ns) (if svcs \<noteq> [] then map sv_Name svcs else default_names pb) w2 = (Ok errs', w3)"
      "alift (join_errs (errs @ errs')) w3 = (Ok (), w')" by (auto elim: abind_OkD)
    then show thesis by (rule del) (use listed in \<open>auto simp: selected_def\<close>)
  next
    case (failed e)
    show thesis
    proof (cases "IsNotFound e")
      case True
      with rest failed(1) obtain errs' w3 where
        "acollect (delete_service K ns) (default_names pb) w2 = (Ok errs', w3)"
        "alift (join_errs (errs @ errs')) w3 = (Ok (), w')" by (auto elim: abind_OkD)
      then show thesis by (rule del) (use failed in simp_all)
    next
      case False
      with rest failed(1) show thesis by simp
    qed
  qed
qed

lemma added_removed:
  assumes "added ns cs v v'" "svc_key ns ` set cs \<subseteq> N" "N \<inter> dom v = {}"
  shows "v' |` (- N) = v"
proof
  fix k
  show "(v' |` (- N)) k = v k"
  proof (cases "k \<in> N")
    case True
    then have "v k = None" using assms(3) by auto
    with True show ?thesis by (simp add: restrict_map_def)
  next
    case False
    then have "k \<notin> dom (objects ns cs)" using assms(2) by auto
    with False assms(1) show ?thesis by (simp add: added_def restrict_map_def map_add_dom_app_simps(3))
  qed
qed

lemma DeleteService_undoes:
  assumes "services_ok view K" and "reliable_delete view (k_Services K)" and "api_frame view (k_DaemonSets K)"
    and "fresh_node (view w) ns pb"
    and "CreateService K ns pb w = (Ok (), w1)" and "DeleteService K ns pb w1 = (Ok (), w2)"
  shows "view w2 = view w"
proof -
  obtain cs where a: "added ns cs (view w) (view w1)"
    and cs: "\<forall>s \<in> set cs. sv_Name s \<in> set (default_names pb) \<and> sv_Labels s = [(''pod'', n_Name pb)]"
    using assms(1-3,5)
  proof (cases rule: CreateService_cases)
    case (created cs g)
    then show thesis using created_names [OF created(5)] by (intro that)
  next
    case none
    then show thesis by (intro that [of "[]"]) simp_all
  next
    case failed
    then show thesis by simp
  qed
  obtain names where v2: "view w2 = view w1 |` (- Pair ns ` set names)"
    and names: "names = default_names pb \<or>
      set names = sv_Name ` {s. view w1 (ns, sv_Name s) = Some s \<and> map_of (sv_Labels s) ''pod'' = Some (n_Name pb)}"
    using DeleteService_Ok [OF assms(1,3,6)] .
  have obj: "objects ns cs (svc_key ns s) = Some s" if "s \<in> set cs" for s
    using a that unfolding objects_def added_def
    by (intro map_of_is_SomeI) (auto simp: distinct_map inj_on_def comp_def)
  from names show ?thesis
  proof
    assume n: "names = default_names pb"
    have "Pair ns ` set names \<inter> dom (view w) = {}" using assms(4) by (auto simp: n fresh_node_def)
    moreover have "svc_key ns ` set cs \<subseteq> Pair ns ` set names" using cs by (auto simp: n)
    ultimately show ?thesis using v2 added_removed [OF a] by simp
  next
    assume n: "set names = sv_Name ` {s. view w1 (ns, sv_Name s) = Some s \<and> map_of (sv_Labels s) ''pod'' = Some (n_Name pb)}"
    have "svc_key ns ` set cs \<subseteq> Pair ns ` set names"
    proof clarify
      fix s assume s: "s \<in> set cs"
      then have "view w1 (svc_key ns s) = Some s" using a obj by (simp add: added_def)
      with s cs show "svc_key ns s \<in> Pair ns ` set names" unfolding n by auto
    qed
    moreover have "Pair ns ` set names \<inter> dom (view w) = {}"
    proof -
      { fix s assume s: "view w1 (ns, sv_Name s) = Some s" "map_of (sv_Labels s) ''pod'' = Some (n_Name pb)"
          and d: "(ns, sv_Name s) \<in> dom (view w)"
        then have "(ns, sv_Name s) \<notin> dom (objects ns cs)" using a by (auto simp: added_def)
        with s(1) a have "view w (ns, sv_Name s) = Some s" by (simp add: added_def map_add_dom_app_simps(3))
        with s(2) assms(4) have False by (auto simp: fresh_node_def) }
      then show ?thesis unfolding n by auto
    qed
    ultimately show ?thesis using v2 added_removed [OF a] by simp
  qed
qed

text \<open>
  Deleting undoes creating: on a cluster with no service of the node, \<open>CreateService\<close> followed by a
  \<open>DeleteService\<close> that reports no error leaves exactly the services that were there before.
\<close>

theorem DeleteService_undoes_create:
  assumes "services_ok view K" and "reliable_delete view (k_Services K)" and "api_frame view (k_DaemonSets K)"
    and "fresh_node (view w) ns pb"
    and "CreateService K ns pb w = (Ok (), w1)" and "DeleteService K ns pb w1 = (Ok (), w2)"
  shows "view w2 = view w"
  using assms by (rule DeleteService_undoes)

definition ex_undo :: "unit result \<times> mem_world" where
  "ex_undo = DeleteService mem_kube ''topo'' ex_services (snd ex_run)"

theorem DeleteService_undoes_create_witness:
  "mem_services (snd ex_undo) = mem_services mem_empty \<and> mem_services (snd ex_run) \<noteq> mem_services mem_empty"
proof -
  have "is_Ok (fst ex_undo)" by code_simp
  then have d: "DeleteService mem_kube ''topo'' ex_services (snd ex_run) = (Ok (), snd ex_undo)"
    by (auto simp: is_Ok_iff prod_eq_iff ex_undo_def)
  have c: "CreateService mem_kube ''topo'' ex_services mem_empty = (Ok (), snd ex_run)"
    using ex_run_Ok by (simp add: ex_run_def)
  have f: "fresh_node (mem_services mem_empty) ''topo'' ex_services"
    by (simp add: fresh_node_def mem_services_def mem_empty_def table_view_def)
  have "\<not> Option.is_none (mem_services (snd ex_run) (''topo'', ''service-r1''))" by code_simp
  moreover have "mem_services mem_empty (''topo'', ''service-r1'') = None" by code_simp
  ultimately have "mem_services (snd ex_run) \<noteq> mem_services mem_empty" by (auto simp: Option.is_none_def)
  with DeleteService_undoes_create [OF mem_services_hyps f c d] show ?thesis by blast
qed

section \<open>The service map after a create\<close>

lemma uint_wrap32 [simp]: "(word_of_int (wrap32 (uint x)) :: u32) = x"
proof -
  have "(word_of_int (wrap32 i) :: u32) = word_of_int i" for i
  proof -
    have "(word_of_int (wrap32 i) :: u32) = word_of_int ((i + 2 ^ 31) mod 2 ^ 32) - word_of_int (2 ^ 31)"
      by (simp add: wrap32_def wi_hom_sub)
    also have "(word_of_int ((i + 2 ^ 31) mod 2 ^ 32) :: u32) = word_of_int (i + 2 ^ 31)"
      by (rule word_of_int_eq_iff [THEN iffD2]) (simp add: take_bit_eq_mod)
    finally show ?thesis by (simp add: wi_hom_sub [symmetric])
  qed
  then show ?thesis by simp
qed

text \<open>
  What the map holds for a port of the node: the entry \<open>v'\<close> that the loop has reached from \<open>v\<close>. The flag says
  that the port has been filled in.
\<close>

definition filled :: "u32 \<Rightarrow> service \<Rightarrow> bool \<Rightarrow> service \<Rightarrow> bool" where
  "filled k v done v' \<longleftrightarrow> svc_Inside v' = svc_Inside v \<and> k8sServiceType (svc_Type v') = k8sServiceType (svc_Type v) \<and>
     (svc_Name v \<noteq> [] \<longrightarrow> svc_Name v' = svc_Name v) \<and> svc_ExternalIpv6 v' = svc_ExternalIpv6 v \<and>
     (done \<longrightarrow> svc_Outside v' = k \<and> svc_Type v' \<noteq> Service_UNKNOWN)"

definition map_filled :: "(u32, service) gomap \<Rightarrow> u32 set \<Rightarrow> (u32, service) gomap \<Rightarrow> bool" where
  "map_filled m0 D m \<longleftrightarrow> map fst m = map fst m0 \<and>
     (\<forall>k v. map_of m0 k = Some v \<longrightarrow> (\<exists>v'. map_of m k = Some v' \<and> filled k v (k \<in> D) v'))"

lemma uint_eq_iff: "uint (x :: u32) = uint y \<longleftrightarrow> x = y"
  by (simp add: word_uint_eq_iff)

lemma map_fst_put_mem: "k \<in> fst ` set m \<Longrightarrow> map fst (put k v m) = map fst m"
  by (induction m) auto

lemma set_name_simps [simp]:
  "svc_Inside (set_name p v) = svc_Inside v" "svc_Type (set_name p v) = svc_Type v"
  "svc_ExternalIpv6 (set_name p v) = svc_ExternalIpv6 v"
  "svc_Name (set_name p v) = (if svc_Name v = [] then sp_Name p else svc_Name v)"
  by (simp_all add: set_name_def)

lemma set_out_ip_simps [simp]:
  "svc_Inside (set_out_ip s v) = svc_Inside v" "svc_Type (set_out_ip s v) = svc_Type v"
  "svc_ExternalIpv6 (set_out_ip s v) = svc_ExternalIpv6 v" "svc_Name (set_out_ip s v) = svc_Name v"
  "svc_Outside (set_out_ip s v) = svc_Outside v"
  by (simp_all add: set_out_ip_def split: list.split)

lemma set_type_simps [simp]:
  "svc_Inside (set_type s v) = svc_Inside v" "svc_ExternalIpv6 (set_type s v) = svc_ExternalIpv6 v"
  "svc_Name (set_type s v) = svc_Name v" "svc_Outside (set_type s v) = svc_Outside v"
  by (simp_all add: set_type_def split: service_kind.split)

lemma set_type_type:
  "sv_Type s = k8sServiceType t \<Longrightarrow>
     k8sServiceType (svc_Type (set_type s v)) = k8sServiceType t \<and> svc_Type (set_type s v) \<noteq> Service_UNKNOWN"
  by (cases t) (simp_all add: set_type_def service_type_of_def)

lemma populate_port_filled:
  assumes m: "map_filled m0 D m" and k: "map_of m0 k = Some v"
    and p: "sp_Port p = uint k" "sp_TargetPort p = wrap32 (uint (svc_Inside v))" "sp_Name p = svc_Name v"
    and st: "sv_Type s = k8sServiceType (svc_Type v)"
  shows "map_filled m0 (insert k D) (populate_port s m p)"
proof -
  obtain v' where v': "map_of m k = Some v'" "filled k v (k \<in> D) v'" using m k by (auto simp: map_filled_def)
  define v4 where "v4 = set_type s (set_out_ip s (set_ports s p (set_name p v')))"
  have "populate_port s m p = put k v4 m" using v'(1) by (simp add: populate_port_def p(1) v4_def)
  moreover have "filled k v True v4"
    using v'(2) set_type_type [OF st] by (simp add: filled_def v4_def set_ports_def p)
  ultimately have v4: "populate_port s m p = put k v4 m" "filled k v True v4" by blast+
  have "k \<in> fst ` set m" using v'(1) by (force dest: map_of_SomeD)
  then show ?thesis using m v4 k unfolding map_filled_def v4(1) by (auto simp: map_fst_put_mem)
qed

lemma populate_ports_filled:
  assumes "map_filled m0 D m" "\<forall>p \<in> set ps. \<exists>k v. map_of m0 k = Some v \<and> sp_Port p = uint k \<and>
      sp_TargetPort p = wrap32 (uint (svc_Inside v)) \<and> sp_Name p = svc_Name v \<and> sv_Type s = k8sServiceType (svc_Type v)"
  shows "map_filled m0 (D \<union> {k. uint k \<in> sp_Port ` set ps}) (foldl (populate_port s) m ps)"
  using assms
proof (induction ps arbitrary: D m)
  case (Cons p ps)
  then obtain k v where kv: "map_of m0 k = Some v" "sp_Port p = uint k"
    "sp_TargetPort p = wrap32 (uint (svc_Inside v))" "sp_Name p = svc_Name v" "sv_Type s = k8sServiceType (svc_Type v)"
    by auto
  have "map_filled m0 (insert k D) (populate_port s m p)"
    using Cons.prems(1) kv by (rule populate_port_filled)
  from Cons.IH [OF this] Cons.prems(2)
  have "map_filled m0 (insert k D \<union> {k. uint k \<in> sp_Port ` set ps}) (foldl (populate_port s) (populate_port s m p) ps)"
    by simp
  moreover have "insert k D \<union> {k. uint k \<in> sp_Port ` set ps} = D \<union> {k. uint k \<in> sp_Port ` set (p # ps)}"
    by (auto simp: kv(2) uint_eq_iff)
  ultimately show ?case by simp
qed simp

text \<open>A service as the cluster reports it for the node: the ports of its type, and an address if it needs one.\<close>

definition reported :: "node \<Rightarrow> k8s_service \<Rightarrow> bool" where
  "reported pb s \<longleftrightarrow> sv_Type s \<in> set typeOrder \<and>
     same_ports (map (port_of (node_services pb)) (filter (\<lambda>k. kind_of (node_services pb) k = sv_Type s) (sorted_ports pb)))
       (sv_Ports s) \<and>
     (sv_Type s = ST_LoadBalancer \<longrightarrow> sv_Ingress s \<noteq> [])"

definition populate_all :: "k8s_service list \<Rightarrow> (u32, service) gomap \<Rightarrow> (u32, service) gomap result" where
  "populate_all svcs m = foldM (\<lambda>m s. populateServiceMap (Some s) (Some m)) m svcs"

lemma same_ports_memD:
  assumes "same_ports ps qs" "q \<in> set qs"
  obtains p where "p \<in> set ps" "sp_Port q = sp_Port p" "sp_TargetPort q = sp_TargetPort p" "sp_Name q = sp_Name p"
proof -
  have "(sp_Port q, sp_TargetPort q, sp_Name q) \<in> set (map (\<lambda>p. (sp_Port p, sp_TargetPort p, sp_Name p)) ps)"
    unfolding assms(1) [unfolded same_ports_def] using assms(2) by auto
  with that show thesis by auto
qed

lemma same_ports_sym: "same_ports ps qs \<Longrightarrow> same_ports qs ps"
  by (simp add: same_ports_def)

lemma populate_reported:
  assumes m: "map_filled (node_services pb) D m" and r: "reported pb s"
  obtains m' where "populateServiceMap (Some s) (Some m) = Ok m'"
    "map_filled (node_services pb) (D \<union> {k \<in> fst ` set (node_services pb). kind_of (node_services pb) k = sv_Type s}) m'"
proof -
  let ?svcs = "node_services pb" and ?ks = "filter (\<lambda>k. kind_of (node_services pb) k = sv_Type s) (sorted_ports pb)"
  have same: "same_ports (map (port_of ?svcs) ?ks) (sv_Ports s)" using r by (simp add: reported_def)
  have some: "map_of ?svcs k = Some (the (map_of ?svcs k))" if "k \<in> set ?ks" for k
    using that by (auto simp: sorted_ports_set) (metis (no_types, lifting) image_eqI map_of_eq_None_iff option.collapse fst_conv)
  have ports: "\<forall>p \<in> set (sv_Ports s). \<exists>k v. map_of ?svcs k = Some v \<and> sp_Port p = uint k \<and>
      sp_TargetPort p = wrap32 (uint (svc_Inside v)) \<and> sp_Name p = svc_Name v \<and> sv_Type s = k8sServiceType (svc_Type v)"
  proof
    fix p assume "p \<in> set (sv_Ports s)"
    with same obtain p0 where p0: "p0 \<in> set (map (port_of ?svcs) ?ks)" "sp_Port p = sp_Port p0"
      "sp_TargetPort p = sp_TargetPort p0" "sp_Name p = sp_Name p0" by (rule same_ports_memD)
    then obtain k where k: "k \<in> set ?ks" "p0 = port_of ?svcs k" by auto
    show "\<exists>k v. map_of ?svcs k = Some v \<and> sp_Port p = uint k \<and>
      sp_TargetPort p = wrap32 (uint (svc_Inside v)) \<and> sp_Name p = svc_Name v \<and> sv_Type s = k8sServiceType (svc_Type v)"
      using some [OF k(1)] p0 k by (intro exI [of _ k] exI [of _ "the (map_of ?svcs k)"])
        (simp add: port_of_def service_port_def kind_of_def)
  qed
  have "{k. uint k \<in> sp_Port ` set (sv_Ports s)} = set ?ks"
  proof -
    have "sp_Port ` set (sv_Ports s) = sp_Port ` set (map (port_of ?svcs) ?ks)"
      using same_ports_memD [OF same] same_ports_memD [OF same_ports_sym [OF same]] by (auto simp: image_iff) metis+
    also have "\<dots> = uint ` set ?ks" by (auto simp: port_of_def service_port_def image_image)
    finally show ?thesis by (auto simp: image_iff uint_eq_iff)
  qed
  then have "{k. uint k \<in> sp_Port ` set (sv_Ports s)} = {k \<in> fst ` set ?svcs. kind_of ?svcs k = sv_Type s}"
    by (auto simp: sorted_ports_set)
  with populate_ports_filled [OF m ports]
  have "map_filled ?svcs (D \<union> {k \<in> fst ` set ?svcs. kind_of ?svcs k = sv_Type s}) (foldl (populate_port s) m (sv_Ports s))"
    by simp
  moreover have "populateServiceMap (Some s) (Some m) = Ok (foldl (populate_port s) m (sv_Ports s))"
    using r by (auto simp: populateServiceMap_def reported_def service_type_of_def typeOrder_def)
  ultimately show thesis by (intro that)
qed

lemma populate_all_filled:
  assumes "map_filled (node_services pb) D m" "\<forall>s \<in> set svcs. reported pb s"
  shows "\<exists>m'. populate_all svcs m = Ok m' \<and> map_filled (node_services pb)
    (D \<union> {k \<in> fst ` set (node_services pb). kind_of (node_services pb) k \<in> sv_Type ` set svcs}) m'"
  using assms
proof (induction svcs arbitrary: D m)
  case Nil
  then show ?case by (auto simp: populate_all_def)
next
  case (Cons s svcs)
  obtain m1 where m1: "populateServiceMap (Some s) (Some m) = Ok m1"
    "map_filled (node_services pb) (D \<union> {k \<in> fst ` set (node_services pb). kind_of (node_services pb) k = sv_Type s}) m1"
    using populate_reported [of pb D m s] Cons.prems by auto
  from Cons.IH [OF m1(2)] Cons.prems(2) obtain m' where m': "populate_all svcs m1 = Ok m'"
    "map_filled (node_services pb) (D \<union> {k \<in> fst ` set (node_services pb). kind_of (node_services pb) k = sv_Type s} \<union>
      {k \<in> fst ` set (node_services pb). kind_of (node_services pb) k \<in> sv_Type ` set svcs}) m'"
    by auto
  moreover have "D \<union> {k \<in> fst ` set (node_services pb). kind_of (node_services pb) k = sv_Type s} \<union>
      {k \<in> fst ` set (node_services pb). kind_of (node_services pb) k \<in> sv_Type ` set svcs} =
      D \<union> {k \<in> fst ` set (node_services pb). kind_of (node_services pb) k \<in> sv_Type ` set (s # svcs)}" by auto
  ultimately show ?case using m1(1) by (auto simp: populate_all_def)
qed

lemma map_filled_refl: "map_filled m {} m"
  by (simp add: map_filled_def filled_def)

text \<open>
  C7. Reading the services back gives the node's service map again: if the cluster reports a service for
  every type the node uses, with its ports, \<open>populateServiceMap\<close> accepts them all in any order, adds and
  drops no port, keeps every inside port, name and type, and sets every outside port to the key.
\<close>

theorem populate_roundtrip:
  assumes "wf_map (node_services pb)" and "\<forall>s \<in> set svcs. reported pb s"
    and "\<forall>(k, v) \<in> set (node_services pb). k8sServiceType (svc_Type v) \<in> sv_Type ` set svcs"
  shows "\<exists>m'. populate_all svcs (node_services pb) = Ok m' \<and> map fst m' = map fst (node_services pb) \<and>
    (\<forall>(k, v) \<in> set (node_services pb). \<exists>v'. map_of m' k = Some v' \<and> svc_Inside v' = svc_Inside v \<and> svc_Outside v' = k \<and>
       k8sServiceType (svc_Type v') = k8sServiceType (svc_Type v) \<and> (svc_Name v \<noteq> [] \<longrightarrow> svc_Name v' = svc_Name v))"
proof -
  let ?svcs = "node_services pb"
  obtain m' where m': "populate_all svcs ?svcs = Ok m'"
    "map_filled ?svcs ({} \<union> {k \<in> fst ` set ?svcs. kind_of ?svcs k \<in> sv_Type ` set svcs}) m'"
    using populate_all_filled [OF map_filled_refl assms(2)] by blast
  have "\<exists>v'. map_of m' k = Some v' \<and> filled k v True v'" if kv: "(k, v) \<in> set ?svcs" for k v
  proof -
    have m: "map_of ?svcs k = Some v" using assms(1) kv by (simp add: map_of_eq_iff_mem)
    have "k \<in> {k \<in> fst ` set ?svcs. kind_of ?svcs k \<in> sv_Type ` set svcs}"
      using assms(3) kv by (force simp: kind_of_def m)
    moreover obtain v' where "map_of m' k = Some v'"
      "filled k v (k \<in> {} \<union> {k \<in> fst ` set ?svcs. kind_of ?svcs k \<in> sv_Type ` set svcs}) v'"
      using m'(2) m unfolding map_filled_def by blast
    ultimately show ?thesis by simp
  qed
  then show ?thesis using m' by (fastforce simp: map_filled_def filled_def)
qed

definition ex_reported :: "k8s_service list" where
  "ex_reported =
     [service_object ex_services ST_NodePort [service_port 9339 (empty_service\<lparr>svc_Name := ''gnmi'', svc_Inside := 57400, svc_NodePort := 30001\<rparr>)],
      (service_object ex_services ST_LoadBalancer [service_port 22 (empty_service\<lparr>svc_Name := ''ssh'', svc_Inside := 22\<rparr>)])
        \<lparr>sv_Ingress := [\<lparr>ing_IP = ''192.168.18.50'', ing_Hostname = []\<rparr>]\<rparr>]"

theorem populate_roundtrip_witness:
  "\<exists>m'. populate_all ex_reported (node_services ex_services) = Ok m' \<and> map fst m' = [22, 9339] \<and>
     (\<exists>v'. map_of m' 9339 = Some v' \<and> svc_Inside v' = 57400 \<and> svc_Outside v' = 9339 \<and> svc_Name v' = ''gnmi'')"
proof -
  have "list_all (reported ex_services) ex_reported" by code_simp
  then have r: "\<forall>s \<in> set ex_reported. reported ex_services s" by (simp add: list_all_iff)
  have t: "\<forall>(k, v) \<in> set (node_services ex_services). k8sServiceType (svc_Type v) \<in> sv_Type ` set ex_reported"
    by (simp add: node_services_def ex_services_def ex_reported_def service_object_def empty_service_def)
  have m: "(9339, empty_service\<lparr>svc_Name := ''gnmi'', svc_Inside := 57400, svc_Type := Service_NODE_PORT\<rparr>) \<in> set (node_services ex_services)"
    by (simp add: node_services_def ex_services_def)
  have k: "map fst (node_services ex_services) = [22, 9339]" by (simp add: node_services_def ex_services_def)
  from populate_roundtrip [OF ex_services_wf r t] m show ?thesis by (fastforce simp: k)
qed

end
