(* ===== verification/Node_Pod.thy ===== *)
theory Node_Pod
  imports Node_Service Vendor_Base
begin

text \<open>
  The pod of a node (\<open>topo/node/node.go\<close>): environment, resources and readiness probe, the boot
  configuration as a config map or a file, creating and deleting the node, its status, and the validation
  of the host against the node's constraints. Files and the parser of resource quantities are arguments.
\<close>

section \<open>The operating system\<close>

record 'w os =
  os_ReadFile :: "string \<Rightarrow> ('w, string) act"
  os_MkdirAll :: "string \<Rightarrow> ('w, unit) act"
  os_CreateTemp :: "string \<Rightarrow> string \<Rightarrow> ('w, string) act"
  os_Write :: "string \<Rightarrow> string \<Rightarrow> ('w, unit) act"
  os_Chmod :: "string \<Rightarrow> nat \<Rightarrow> ('w, unit) act"
  os_Close :: "string \<Rightarrow> ('w, unit) act"
  os_Remove :: "string \<Rightarrow> ('w, unit) act"
  os_IsNotExist :: "err \<Rightarrow> bool"

section \<open>Parts of a pod\<close>

definition ToEnvVar :: "(string, string) gomap option \<Rightarrow> (string \<times> string) list" where
  "ToEnvVar kv = items kv"

text \<open>\<open>resource.MustParse\<close> panics on a string that is not a quantity.\<close>

definition MustParse :: "(string \<Rightarrow> bool) \<Rightarrow> string \<Rightarrow> string result" where
  "MustParse quantity s = (if quantity s then Ok s else Panic ''cannot parse quantity'')"

definition add_request ::
  "(string \<Rightarrow> bool) \<Rightarrow> (string, string) gomap \<Rightarrow> string \<Rightarrow> (string, string) gomap \<Rightarrow> (string, string) gomap result" where
  "add_request quantity kv k reqs =
     (case map_of kv k of None \<Rightarrow> Ok reqs | Some v \<Rightarrow> rbind (MustParse quantity v) (\<lambda>q. Ok (put k q reqs)))"

definition ToResourceRequirements ::
  "(string \<Rightarrow> bool) \<Rightarrow> (string, string) gomap option \<Rightarrow> (string, string) gomap result" where
  "ToResourceRequirements quantity kv =
     rbind (add_request quantity (items kv) ''cpu'' []) (add_request quantity (items kv) ''memory'')"

definition matches_name :: "string \<Rightarrow> service \<Rightarrow> bool" where
  "matches_name pref svc \<longleftrightarrow> EqualFold (svc_Name svc) pref \<or> list_ex (\<lambda>name. EqualFold name pref) (svc_Names svc)"

definition probe_port :: "u32 \<Rightarrow> service \<Rightarrow> int" where
  "probe_port k svc = (if svc_Inside svc = 0 then uint k else uint (svc_Inside svc))"

definition tcp_probe :: "int \<Rightarrow> probe" where
  "tcp_probe port = \<lparr>pr_Port = port, pr_InitialDelaySeconds = 10, pr_PeriodSeconds = 10, pr_FailureThreshold = 60\<rparr>"

text \<open>The inner loop over the sorted keys for one preferred name.\<close>

fun probe_for :: "(u32, service) gomap \<Rightarrow> string \<Rightarrow> u32 list \<Rightarrow> probe option" where
  "probe_for svcs pref [] = None"
| "probe_for svcs pref (k # ks) =
     (case map_of svcs k of
        None \<Rightarrow> probe_for svcs pref ks
      | Some svc \<Rightarrow>
          if matches_name pref svc \<and> probe_port k svc > 0 then Some (tcp_probe (probe_port k svc))
          else probe_for svcs pref ks)"

definition ServiceReadinessProbe :: "node \<Rightarrow> probe option" where
  "ServiceReadinessProbe pb =
     (case probe_for (node_services pb) ''ssh'' (sorted_ports pb) of
        Some p \<Rightarrow> Some p
      | None \<Rightarrow> probe_for (node_services pb) ''gnmi'' (sorted_ports pb))"

section \<open>The boot configuration\<close>

definition ConfigVolumeName :: string where
  "ConfigVolumeName = ''startup-config-volume''"

definition tempCfgDir :: string where
  "tempCfgDir = ''/tmp/kne''"

definition readConfig :: "'w os \<Rightarrow> string \<Rightarrow> node \<Rightarrow> ('w, string) act" where
  "readConfig F bp pb =
     (case n_Config pb of
        None \<Rightarrow> aret []
      | Some cfg \<Rightarrow>
          (case cfg_ConfigData cfg of
             Some (Config_File file) \<Rightarrow> os_ReadFile F (filepath_Join [bp, file])
           | Some (Config_Data data) \<Rightarrow> aret data
           | None \<Rightarrow> aret []))"

definition config_map_name :: "node \<Rightarrow> string" where
  "config_map_name pb = n_Name pb @ ''-config''"

text \<open>\<open>if err := m(); err != nil { os.Remove(path); return nil, err }\<close>.\<close>

definition or_remove :: "'w os \<Rightarrow> string \<Rightarrow> ('w, unit) act \<Rightarrow> ('w, unit) act" where
  "or_remove F path m =
     abind (atry m) (\<lambda>r. case r of
       Error e \<Rightarrow> abind (atry (os_Remove F path)) (\<lambda>_. aerr e)
     | _ \<Rightarrow> aret ())"

definition write_config_file :: "'w os \<Rightarrow> node \<Rightarrow> string \<Rightarrow> ('w, string) act" where
  "write_config_file F pb data =
     abind (os_MkdirAll F tempCfgDir) (\<lambda>_.
     abind (os_CreateTemp F tempCfgDir (''kne-'' @ n_Name pb @ ''-config-*.cfg'')) (\<lambda>path.
     abind (or_remove F path (os_Write F path data)) (\<lambda>_.
     abind (or_remove F path (os_Chmod F path 292)) (\<lambda>_.
     abind (or_remove F path (os_Close F path)) (\<lambda>_. aret path)))))"

definition config_source :: "'w kube \<Rightarrow> 'w os \<Rightarrow> string \<Rightarrow> node \<Rightarrow> string \<Rightarrow> ('w, volume_source option) act" where
  "config_source K F ns pb data =
     (if data = [] then aret None
      else if int (length data) < 1048576 then
        abind (api_Create (k_ConfigMaps K) ns
                 \<lparr>cm_Name = config_map_name pb, cm_Data = [(cfg_ConfigFile (GetConfig pb), data)]\<rparr>) (\<lambda>_.
          aret (Some (VS_ConfigMap (config_map_name pb))))
      else abind (write_config_file F pb data) (\<lambda>path. aret (Some (VS_HostPath path))))"

definition CreateConfig :: "'w kube \<Rightarrow> 'w os \<Rightarrow> string \<Rightarrow> string \<Rightarrow> node \<Rightarrow> ('w, volume option) act" where
  "CreateConfig K F ns bp pb =
     abind (readConfig F bp pb) (\<lambda>data.
     abind (config_source K F ns pb data) (\<lambda>vs.
       aret (map_option (\<lambda>src. \<lparr>vol_Name = ConfigVolumeName, vol_Source = src\<rparr>) vs)))"

section \<open>Creating the pod\<close>

definition init_image :: "config \<Rightarrow> string" where
  "init_image cfg = dflt DefaultInitContainerImage (cfg_InitImage cfg)"

definition init_container :: "node \<Rightarrow> config \<Rightarrow> nat \<Rightarrow> string list \<Rightarrow> container" where
  "init_container pb cfg nlinks extra =
     empty_container\<lparr>ct_Name := ''init-'' @ n_Name pb, ct_Image := init_image cfg,
       ct_Args := [nat_to_str (nlinks + 1), itoa (uint (cfg_Sleep cfg))] @ extra\<rparr>"

definition node_container :: "node \<Rightarrow> config \<Rightarrow> (string, string) gomap \<Rightarrow> container" where
  "node_container pb cfg reqs =
     empty_container\<lparr>ct_Name := n_Name pb, ct_Image := cfg_Image cfg, ct_Command := cfg_Command cfg,
       ct_Args := cfg_Args cfg, ct_Env := ToEnvVar (cfg_Env cfg), ct_Requests := reqs,
       ct_Security := Some privileged\<rparr>"

text \<open>The parts of the pod that every node type writes the same way.\<close>

definition node_pod :: "string \<Rightarrow> node \<Rightarrow> container list \<Rightarrow> container list \<Rightarrow> pod" where
  "node_pod ns pb inits containers =
     \<lparr>pd_Name = n_Name pb, pd_Labels = [(''app'', n_Name pb), (''topo'', ns)],
      pd_InitContainers = inits, pd_Containers = containers, pd_Volumes = [],
      pd_GracePeriod = Some 0, pd_ServiceLinks = Some False, pd_AntiAffinity = [ns],
      pd_Phase = PodPending, pd_Conditions = [], pd_PodIP = []\<rparr>"

definition add_labels :: "node \<Rightarrow> pod \<Rightarrow> pod" where
  "add_labels pb p = p\<lparr>pd_Labels := foldl (\<lambda>m (k, v). put k v m) (pd_Labels p) (items (n_Labels pb))\<rparr>"

definition config_mount :: "config \<Rightarrow> volume \<Rightarrow> volume_mount" where
  "config_mount cfg vol =
     \<lparr>vm_Name = ConfigVolumeName, vm_MountPath = cfg_ConfigPath cfg @ ''/'' @ cfg_ConfigFile cfg,
      vm_SubPath = (case vol_Source vol of VS_ConfigMap _ \<Rightarrow> cfg_ConfigFile cfg | _ \<Rightarrow> []), vm_ReadOnly = True\<rparr>"

definition mount_all :: "volume_mount \<Rightarrow> container list \<Rightarrow> container list" where
  "mount_all vm cs = map (\<lambda>c. c\<lparr>ct_Mounts := ct_Mounts c @ [vm]\<rparr>) cs"

text \<open>\<open>if pb.Config.ConfigData != nil\<close>: the volume is dereferenced without a check for \<open>nil\<close>.\<close>

definition attach_config ::
  "'w kube \<Rightarrow> 'w os \<Rightarrow> string \<Rightarrow> string \<Rightarrow> node \<Rightarrow> config \<Rightarrow> pod \<Rightarrow> ('w, pod) act" where
  "attach_config K F ns bp pb cfg p =
     (if cfg_ConfigData cfg = None then aret p
      else abind (CreateConfig K F ns bp pb) (\<lambda>vo. case vo of
        None \<Rightarrow> apanic ''nil volume''
      | Some vol \<Rightarrow> aret (p\<lparr>pd_Volumes := pd_Volumes p @ [vol],
                            pd_Containers := mount_all (config_mount cfg vol) (pd_Containers p)\<rparr>)))"

definition impl_pod :: "string \<Rightarrow> node \<Rightarrow> config \<Rightarrow> nat \<Rightarrow> (string, string) gomap \<Rightarrow> pod" where
  "impl_pod ns pb cfg nlinks reqs =
     add_labels pb (node_pod ns pb [init_container pb cfg nlinks []]
       [(node_container pb cfg reqs)\<lparr>ct_Probe := ServiceReadinessProbe pb\<rparr>])"

definition CreatePod ::
  "'w kube \<Rightarrow> 'w os \<Rightarrow> (string \<Rightarrow> bool) \<Rightarrow> string \<Rightarrow> string \<Rightarrow> node \<Rightarrow> ('w, unit) act" where
  "CreatePod K F quantity ns bp pb =
     abind (alift (GetNodeLinks pb)) (\<lambda>links.
     case n_Config pb of
       None \<Rightarrow> apanic ''nil config''
     | Some cfg \<Rightarrow>
         abind (alift (ToResourceRequirements quantity (n_Constraints pb))) (\<lambda>reqs.
         abind (attach_config K F ns bp pb cfg (impl_pod ns pb cfg (length links) reqs)) (\<lambda>p.
         abind (api_Create (k_Pods K) ns p) (\<lambda>_. aret ()))))"

definition Create ::
  "'w kube \<Rightarrow> 'w os \<Rightarrow> (string \<Rightarrow> bool) \<Rightarrow> string \<Rightarrow> string \<Rightarrow> node \<Rightarrow> ('w, unit) act" where
  "Create K F quantity ns bp pb =
     abind (amap_err (Errorw ''node %s failed to create pod %w'' [n_Name pb]) (CreatePod K F quantity ns bp pb)) (\<lambda>_.
       amap_err (Errorw ''node %s failed to create service %w'' [n_Name pb]) (CreateService K ns pb))"

section \<open>Deleting the node\<close>

definition delete_volume :: "'w kube \<Rightarrow> 'w os \<Rightarrow> string \<Rightarrow> volume \<Rightarrow> ('w, unit) act" where
  "delete_volume K F ns vol =
     (if vol_Name vol \<noteq> ConfigVolumeName then aret ()
      else case vol_Source vol of
        VS_HostPath path \<Rightarrow>
          abind (atry (os_Remove F path)) (\<lambda>r. case r of
            Error e \<Rightarrow> if os_IsNotExist F e then aret () else aerr e
          | _ \<Rightarrow> aret ())
      | VS_ConfigMap name \<Rightarrow> ignore_not_found (api_Delete (k_ConfigMaps K) ns name)
      | VS_EmptyDir _ \<Rightarrow> aret ())"

definition DeleteConfig :: "'w kube \<Rightarrow> 'w os \<Rightarrow> string \<Rightarrow> node \<Rightarrow> ('w, unit) act" where
  "DeleteConfig K F ns pb =
     abind (atry (api_Get (k_Pods K) ns (n_Name pb))) (\<lambda>r. case r of
       Error e \<Rightarrow> if IsNotFound e then aret () else aerr e
     | Panic p \<Rightarrow> apanic p
     | Ok pod \<Rightarrow> aiter (delete_volume K F ns) (pd_Volumes pod))"

definition DeleteResource :: "'w kube \<Rightarrow> 'w os \<Rightarrow> string \<Rightarrow> node \<Rightarrow> ('w, unit) act" where
  "DeleteResource K F ns pb =
     abind (ignore_not_found (DeleteConfig K F ns pb)) (\<lambda>_.
       ignore_not_found (api_Delete (k_Pods K) ns (n_Name pb)))"

definition Delete :: "'w kube \<Rightarrow> 'w os \<Rightarrow> string \<Rightarrow> node \<Rightarrow> ('w, unit) act" where
  "Delete K F ns pb =
     abind (atry (DeleteService K ns pb)) (\<lambda>r1.
     abind (atry (DeleteResource K F ns pb)) (\<lambda>r2.
       alift (join_errs
         ((case r1 of Error e \<Rightarrow> [Errorw ''error deleting service %q: %w'' [n_Name pb] e] | _ \<Rightarrow> []) @
          (case r2 of Error e \<Rightarrow> [Errorw ''error deleting resource %q: %w'' [n_Name pb] e] | _ \<Rightarrow> [])))))"

section \<open>Status\<close>

datatype node_status = StatusPending | StatusRunning | StatusFailed | StatusUnknown

definition Pods :: "'w kube \<Rightarrow> string \<Rightarrow> node \<Rightarrow> ('w, pod list) act" where
  "Pods K ns pb = abind (api_Get (k_Pods K) ns (n_Name pb)) (\<lambda>p. aret [p])"

definition pod_status :: "pod \<Rightarrow> node_status" where
  "pod_status p =
     (case pd_Phase p of
        PodFailed \<Rightarrow> StatusFailed
      | PodRunning \<Rightarrow> if (''Ready'', ''True'') \<in> set (pd_Conditions p) then StatusRunning else StatusPending
      | _ \<Rightarrow> StatusPending)"

text \<open>The status comes with an error in the cases where Go returns both.\<close>

definition Status :: "'w kube \<Rightarrow> string \<Rightarrow> node \<Rightarrow> ('w, node_status) act" where
  "Status K ns pb =
     abind (Pods K ns pb) (\<lambda>ps. case ps of
       [p] \<Rightarrow> aret (pod_status p)
     | _ \<Rightarrow> aerr (Errorf ''expected exactly one pod for node %s'' [n_Name pb]))"

section \<open>Host constraints\<close>

definition MaxInt64 :: int where
  "MaxInt64 = 2 ^ 63 - 1"

text \<open>The upper bound is written back into the constraint.\<close>

definition validateBoundedInteger :: "bounded_integer \<Rightarrow> int \<Rightarrow> bounded_integer \<times> unit result" where
  "validateBoundedInteger b hostCons =
     (let b' = (if bi_MaxValue b = 0 then b\<lparr>bi_MaxValue := MaxInt64\<rparr> else b) in
      (b',
       if bi_MinValue b' > bi_MaxValue b' then
         Error (Errorf ''invalid bounds. Max value %d is less than min value %d'' [itoa (bi_MaxValue b'), itoa (bi_MinValue b')])
       else if \<not> (bi_MinValue b' \<le> hostCons \<and> hostCons \<le> bi_MaxValue b') then
         Error (Errorf ''invalid bounded integer constraint. min: %d max %d constraint data %d''
           [itoa (bi_MinValue b'), itoa (bi_MaxValue b'), itoa hostCons])
       else Ok ()))"

text \<open>The parts of the name, joined by slashes.\<close>

definition convertSysctlNameToProcSysPath :: "string \<Rightarrow> string" where
  "convertSysctlNameToProcSysPath sysctlName = ''/proc/sys/'' @ StrJoin ''/'' (Split (CHR ''.'') sysctlName)"

definition kernelConstraintValueImpl :: "'w os \<Rightarrow> string \<Rightarrow> ('w, int) act" where
  "kernelConstraintValueImpl F constraint =
     abind (os_ReadFile F (convertSysctlNameToProcSysPath constraint)) (\<lambda>data.
       amap_err (Errorw ''failed to convert kernel constraint data: %s error: %w'' [data]) (alift (Atoi (TrimSpace data))))"

text \<open>
  The loop over the constraints: the constraints as they are afterwards, and the collected errors, or none
  at all if a constraint of no known kind has ended the function.
\<close>

fun validate_loop ::
  "(string \<Rightarrow> ('w, int) act) \<Rightarrow> host_constraint list \<Rightarrow> err list \<Rightarrow> ('w, host_constraint list \<times> err list) act" where
  "validate_loop kval [] errs = aret ([], errs)"
| "validate_loop kval (UnsetConstraint # hcs) errs = aret (UnsetConstraint # hcs, [])"
| "validate_loop kval (KernelConstraint kp # hcs) errs =
     abind (atry (kval (kp_Name kp))) (\<lambda>r.
       let (kp', errs') =
         (case r of
            Error e \<Rightarrow> (kp, errs @ [e])
          | Panic _ \<Rightarrow> (kp, errs)
          | Ok v \<Rightarrow>
              (case kp_BoundedInteger kp of
                 None \<Rightarrow> (kp, errs)
               | Some b \<Rightarrow>
                   (let (b', res) = validateBoundedInteger b v in
                    (kp\<lparr>kp_BoundedInteger := Some b'\<rparr>,
                     case res of Error e \<Rightarrow> errs @ [Errorw ''failed to validate kernel constraint error: %w'' [] e] | _ \<Rightarrow> errs))))
       in abind (validate_loop kval hcs errs') (\<lambda>(hcs', es). aret (KernelConstraint kp' # hcs', es)))"

definition ValidateConstraints :: "(string \<Rightarrow> ('w, int) act) \<Rightarrow> node \<Rightarrow> ('w, node \<times> unit result) act" where
  "ValidateConstraints kval pb =
     abind (validate_loop kval (n_HostConstraints pb) []) (\<lambda>(hcs, errs).
       aret (pb\<lparr>n_HostConstraints := hcs\<rparr>, join_errs errs))"

section \<open>The host is validated\<close>

text \<open>The meaning of a constraint: no upper bound if the maximum is zero.\<close>

definition within :: "bounded_integer \<Rightarrow> int \<Rightarrow> bool" where
  "within b v \<longleftrightarrow> bi_MinValue b \<le> v \<and> v \<le> (if bi_MaxValue b = 0 then MaxInt64 else bi_MaxValue b)"

lemma validateBoundedInteger_iff: "snd (validateBoundedInteger b v) = Ok () \<longleftrightarrow> within b v"
  by (auto simp: validateBoundedInteger_def within_def Let_def)

lemma validateBoundedInteger_result: "is_Ok (snd (validateBoundedInteger b v)) \<longleftrightarrow> within b v"
  by (auto simp: validateBoundedInteger_def within_def Let_def)

lemma within_validated: "within (fst (validateBoundedInteger b v)) u \<longleftrightarrow> within b u"
  by (simp add: validateBoundedInteger_def within_def Let_def MaxInt64_def)

fun satisfied :: "(string \<Rightarrow> int result) \<Rightarrow> host_constraint \<Rightarrow> bool" where
  "satisfied f UnsetConstraint = True"
| "satisfied f (KernelConstraint kp) =
     (case f (kp_Name kp) of
        Ok v \<Rightarrow> (case kp_BoundedInteger kp of None \<Rightarrow> True | Some b \<Rightarrow> within b v)
      | _ \<Rightarrow> False)"

lemma validate_loop_errors:
  assumes "\<forall>hc \<in> set hcs. hc \<noteq> UnsetConstraint" and "\<And>n p. f n \<noteq> Panic p"
    and kval: "\<And>n w. kval n w = (f n, w)"
  shows "\<exists>hcs' es. validate_loop kval hcs errs w = (Ok (hcs', errs @ es), w) \<and>
    (es = [] \<longleftrightarrow> list_all (satisfied f) hcs) \<and> list_all2 (\<lambda>hc hc'. satisfied f hc' = satisfied f hc) hcs hcs'"
  using assms(1)
proof (induction hcs arbitrary: errs)
  case Nil
  then show ?case by simp
next
  case (Cons hc hcs)
  then obtain kp where hc: "hc = KernelConstraint kp" by (cases hc) auto
  have k: "kval (kp_Name kp) w = (f (kp_Name kp), w)" by (rule kval)
  have ih: "\<exists>hcs' es. validate_loop kval hcs errs w = (Ok (hcs', errs @ es), w) \<and>
    (es = [] \<longleftrightarrow> list_all (satisfied f) hcs) \<and> list_all2 (\<lambda>hc hc'. satisfied f hc' = satisfied f hc) hcs hcs'" for errs
    using Cons.IH Cons.prems by auto
  show ?case
  proof (cases "f (kp_Name kp)")
    case (Ok v)
    show ?thesis
    proof (cases "kp_BoundedInteger kp")
      case None
      from ih [of errs] Ok None show ?thesis by (auto simp: hc k atry_def abind_def)
    next
      case (Some b)
      obtain b' res where r: "validateBoundedInteger b v = (b', res)" by fastforce
      have b': "within b' v = within b v" using within_validated [of b v v] r by simp
      have res: "is_Ok res \<longleftrightarrow> within b v" using validateBoundedInteger_result [of b v] r by simp
      have nopanic: "res \<noteq> Panic p" for p using r by (auto simp: validateBoundedInteger_def Let_def split: if_splits)
      show ?thesis
      proof (cases res)
        case (Error e)
        from ih [of "errs @ [Errorw ''failed to validate kernel constraint error: %w'' [] e]"] Ok Some r res Error b' show ?thesis
          by (fastforce simp: hc k atry_def abind_def)
      qed (use ih [of errs] Ok Some r res b' nopanic in \<open>auto simp: hc k atry_def abind_def\<close>)
    qed
  next
    case (Error e)
    from ih [of "errs @ [e]"] Error show ?thesis by (fastforce simp: hc k atry_def abind_def)
  qed (use assms(2) in blast)
qed



text \<open>
  A constraint of no known kind ends the validation without an error, also after a constraint that the host
  does not meet.
\<close>

lemma ValidateConstraints_drops_errors:
  "\<exists>pb'. ValidateConstraints kval (pb\<lparr>n_HostConstraints := [UnsetConstraint]\<rparr>) w = (Ok (pb', Ok ()), w)"
  "\<exists>pb'. ValidateConstraints (\<lambda>_. alift (Error e)) (pb\<lparr>n_HostConstraints := [KernelConstraint kp, UnsetConstraint]\<rparr>) w =
     (Ok (pb', Ok ()), w)"
  by (auto simp: ValidateConstraints_def atry_def abind_def join_errs_def)

section \<open>The readiness probe\<close>

lemma probe_for_None: "probe_for svcs pref ks = None \<longleftrightarrow>
    (\<forall>k \<in> set ks. \<forall>svc. map_of svcs k = Some svc \<longrightarrow> \<not> (matches_name pref svc \<and> probe_port k svc > 0))"
  by (induction ks) (auto split: option.splits)

lemma probe_for_Some:
  "probe_for svcs pref ks = Some p \<Longrightarrow> sorted ks \<Longrightarrow>
     \<exists>k svc. k \<in> set ks \<and> map_of svcs k = Some svc \<and> matches_name pref svc \<and> p = tcp_probe (probe_port k svc) \<and>
       probe_port k svc > 0 \<and>
       (\<forall>k' \<in> set ks. \<forall>svc'. k' < k \<longrightarrow> map_of svcs k' = Some svc' \<longrightarrow> \<not> (matches_name pref svc' \<and> probe_port k' svc' > 0))"
proof (induction ks)
  case (Cons k ks)
  show ?case
  proof (cases "\<exists>svc. map_of svcs k = Some svc \<and> matches_name pref svc \<and> probe_port k svc > 0")
    case True
    then obtain svc where svc: "map_of svcs k = Some svc" "matches_name pref svc" "probe_port k svc > 0" by blast
    then have p: "p = tcp_probe (probe_port k svc)" using Cons.prems(1) by simp
    have "\<not> k' < k" if "k' \<in> set (k # ks)" for k'
      using Cons.prems(2) that by (auto simp: not_less)
    with svc p show ?thesis by (intro exI [of _ k] exI [of _ svc]) auto
  next
    case False
    then have "probe_for svcs pref ks = Some p" using Cons.prems(1) by (auto split: option.splits if_splits)
    then obtain k1 svc1 where k1: "k1 \<in> set ks" "map_of svcs k1 = Some svc1" "matches_name pref svc1"
        "p = tcp_probe (probe_port k1 svc1)" "probe_port k1 svc1 > 0"
      and low: "\<forall>k' \<in> set ks. \<forall>svc'. k' < k1 \<longrightarrow> map_of svcs k' = Some svc' \<longrightarrow> \<not> (matches_name pref svc' \<and> probe_port k' svc' > 0)"
      using Cons.IH Cons.prems(2) by auto
    have "\<forall>k' \<in> set (k # ks). \<forall>svc'. k' < k1 \<longrightarrow> map_of svcs k' = Some svc' \<longrightarrow> \<not> (matches_name pref svc' \<and> probe_port k' svc' > 0)"
      using low False by simp
    with k1 show ?thesis by (intro exI [of _ k1] exI [of _ svc1]) simp
  qed
qed simp

text \<open>
  The readiness probe of a node goes to an ssh service if the node has one, and else to a gNMI service;
  among several it takes the one with the lowest external port. The port it probes is the service's inside
  port and never zero. A node with neither has no probe.
\<close>

theorem ServiceReadinessProbe_choice:
  shows "case ServiceReadinessProbe pb of
      None \<Rightarrow> \<forall>(k, svc) \<in> set (node_services pb). map_of (node_services pb) k = Some svc \<longrightarrow>
        probe_port k svc > 0 \<longrightarrow> \<not> matches_name ''ssh'' svc \<and> \<not> matches_name ''gnmi'' svc
    | Some p \<Rightarrow> \<exists>pref k svc. pref \<in> {''ssh'', ''gnmi''} \<and> map_of (node_services pb) k = Some svc \<and> matches_name pref svc \<and>
        p = tcp_probe (probe_port k svc) \<and> probe_port k svc > 0 \<and>
        (\<forall>k' svc'. map_of (node_services pb) k' = Some svc' \<longrightarrow> probe_port k' svc' > 0 \<longrightarrow>
           (matches_name pref svc' \<longrightarrow> k \<le> k') \<and> (pref = ''gnmi'' \<longrightarrow> \<not> matches_name ''ssh'' svc'))"
proof -
  let ?svcs = "node_services pb" and ?ks = "sorted_ports pb"
  have s: "sorted ?ks" by (simp add: sorted_ports_def)
  have mem: "k \<in> set ?ks" if "map_of ?svcs k = Some svc" for k svc
    using map_of_SomeD [OF that] by (force simp: sorted_ports_set)
  show ?thesis
  proof (cases "probe_for ?svcs ''ssh'' ?ks")
    case (Some p)
    from probe_for_Some [OF this s] obtain k svc where k: "map_of ?svcs k = Some svc" "matches_name ''ssh'' svc"
      "p = tcp_probe (probe_port k svc)" "probe_port k svc > 0"
      and low: "\<forall>k' \<in> set ?ks. \<forall>svc'. k' < k \<longrightarrow> map_of ?svcs k' = Some svc' \<longrightarrow> \<not> (matches_name ''ssh'' svc' \<and> probe_port k' svc' > 0)"
      by blast
    have "\<forall>k' svc'. map_of ?svcs k' = Some svc' \<longrightarrow> probe_port k' svc' > 0 \<longrightarrow> matches_name ''ssh'' svc' \<longrightarrow> k \<le> k'"
      using low mem by (meson not_le)
    with k Some show ?thesis
      by (auto simp: ServiceReadinessProbe_def intro!: exI [of _ "''ssh''"] exI [of _ k] exI [of _ svc])
  next
    case None
    then have no: "\<forall>k svc. map_of ?svcs k = Some svc \<longrightarrow> \<not> (matches_name ''ssh'' svc \<and> probe_port k svc > 0)"
      unfolding probe_for_None using mem by blast
    show ?thesis
    proof (cases "probe_for ?svcs ''gnmi'' ?ks")
      case gn: None
      then have "\<forall>k svc. map_of ?svcs k = Some svc \<longrightarrow> \<not> (matches_name ''gnmi'' svc \<and> probe_port k svc > 0)"
        unfolding probe_for_None using mem by blast
      with no None gn show ?thesis by (auto simp: ServiceReadinessProbe_def)
    next
      case (Some p)
      from probe_for_Some [OF this s] obtain k svc where k: "map_of ?svcs k = Some svc" "matches_name ''gnmi'' svc"
        "p = tcp_probe (probe_port k svc)" "probe_port k svc > 0"
        and low: "\<forall>k' \<in> set ?ks. \<forall>svc'. k' < k \<longrightarrow> map_of ?svcs k' = Some svc' \<longrightarrow> \<not> (matches_name ''gnmi'' svc' \<and> probe_port k' svc' > 0)"
        by blast
      have "\<forall>k' svc'. map_of ?svcs k' = Some svc' \<longrightarrow> probe_port k' svc' > 0 \<longrightarrow> matches_name ''gnmi'' svc' \<longrightarrow> k \<le> k'"
        using low mem by (meson not_le)
      with k no None Some show ?thesis
        by (auto simp: ServiceReadinessProbe_def intro!: exI [of _ "''gnmi''"] exI [of _ k] exI [of _ svc])
    qed
  qed
qed

theorem ServiceReadinessProbe_choice_witness:
  "ServiceReadinessProbe ex_services = Some (tcp_probe 22) \<and>
   (\<exists>pref k svc. pref \<in> {''ssh'', ''gnmi''} \<and> map_of (node_services ex_services) k = Some svc \<and> matches_name pref svc \<and>
      tcp_probe 22 = tcp_probe (probe_port k svc))"
proof -
  have "ServiceReadinessProbe ex_services = Some (tcp_probe 22)" by code_simp
  with ServiceReadinessProbe_choice [of ex_services] show ?thesis by auto
qed

section \<open>Creating and deleting a node\<close>

definition os_frame :: "('w \<Rightarrow> 'v) \<Rightarrow> 'w os \<Rightarrow> bool" where
  "os_frame view F \<longleftrightarrow>
     (\<forall>p. keeps view (os_ReadFile F p)) \<and> (\<forall>p. keeps view (os_MkdirAll F p)) \<and> (\<forall>d p. keeps view (os_CreateTemp F d p)) \<and>
     (\<forall>p d. keeps view (os_Write F p d)) \<and> (\<forall>p m. keeps view (os_Chmod F p m)) \<and> (\<forall>p. keeps view (os_Close F p)) \<and>
     (\<forall>p. keeps view (os_Remove F p))"

lemma os_frameD [keeps_intros]:
  assumes "os_frame view F"
  shows "keeps view (os_ReadFile F p)" "keeps view (os_MkdirAll F p)" "keeps view (os_CreateTemp F d p)"
    "keeps view (os_Write F p d)" "keeps view (os_Chmod F p m)" "keeps view (os_Close F p)" "keeps view (os_Remove F p)"
  using assms by (simp_all add: os_frame_def)

text \<open>What every operation on services keeps.\<close>

lemma keeps_Pair [keeps_intros]: "keeps view (Pair r)"
  by (simp add: keeps_def)

lemma keeps_case_result [keeps_intros]:
  "(\<And>x. keeps view (f x)) \<Longrightarrow> (\<And>e. keeps view (g e)) \<Longrightarrow> (\<And>p. keeps view (h p)) \<Longrightarrow>
     keeps view (case r of Ok x \<Rightarrow> f x | Error e \<Rightarrow> g e | Panic p \<Rightarrow> h p)"
  by (cases r) simp_all

lemma keeps_case_option [keeps_intros]:
  "keeps view f \<Longrightarrow> (\<And>x. keeps view (g x)) \<Longrightarrow> keeps view (case r of None \<Rightarrow> f | Some x \<Rightarrow> g x)"
  by (cases r) simp_all

lemma keeps_case_prod [keeps_intros]: "(\<And>x y. keeps view (f x y)) \<Longrightarrow> keeps view (case p of (x, y) \<Rightarrow> f x y)"
  by (cases p) simp

lemma keeps_if [keeps_intros]: "keeps view f \<Longrightarrow> keeps view g \<Longrightarrow> keeps view (if b then f else g)"
  by simp

lemma create_loop_keeps [keeps_intros]:
  "api_frame view (k_Services K) \<Longrightarrow> keeps view (create_loop K ns pb groups sts created)"
  by (induction sts arbitrary: created) (simp_all add: keeps_intros)

lemma CreateService_keeps:
  "api_frame view (k_Services K) \<Longrightarrow> api_frame view (k_DaemonSets K) \<Longrightarrow> keeps view (CreateService K ns pb)"
  unfolding CreateService_def rollback_def by (intro keeps_intros)

lemma DeleteService_keeps:
  "api_frame view (k_Services K) \<Longrightarrow> api_frame view (k_DaemonSets K) \<Longrightarrow> keeps view (DeleteService K ns pb)"
  unfolding DeleteService_def delete_daemonset_def list_services_def delete_service_def by (intro keeps_intros)

lemma CreateConfig_keeps:
  "api_frame view (k_ConfigMaps K) \<Longrightarrow> os_frame view F \<Longrightarrow> keeps view (CreateConfig K F ns bp pb)"
  unfolding CreateConfig_def readConfig_def config_source_def write_config_file_def or_remove_def
  by (auto intro!: keeps_intros split: option.split config_data.split)

lemma delete_volume_keeps [keeps_intros]:
  "api_frame view (k_ConfigMaps K) \<Longrightarrow> os_frame view F \<Longrightarrow> keeps view (delete_volume K F ns vol)"
  unfolding delete_volume_def by (auto intro!: keeps_intros split: volume_source.split)

lemma DeleteConfig_keeps:
  "api_frame view (k_ConfigMaps K) \<Longrightarrow> api_frame view (k_Pods K) \<Longrightarrow> os_frame view F \<Longrightarrow> keeps view (DeleteConfig K F ns pb)"
  unfolding DeleteConfig_def by (intro keeps_intros)

text \<open>The server may add volumes of its own to a pod, such as the one with the service account.\<close>

definition config_volumes :: "pod \<Rightarrow> volume list" where
  "config_volumes p = filter (\<lambda>v. vol_Name v = ConfigVolumeName) (pd_Volumes p)"

definition pod_same :: "pod \<Rightarrow> pod \<Rightarrow> bool" where
  "pod_same p p' \<longleftrightarrow> pd_Labels p' = pd_Labels p \<and> config_volumes p' = config_volumes p"

abbreviation pods_ok :: "('w, pod) view \<Rightarrow> 'w kube \<Rightarrow> bool" where
  "pods_ok view K \<equiv> api_ok pd_Name pd_Labels pod_same view (k_Pods K)"

abbreviation config_maps_ok :: "('w, config_map) view \<Rightarrow> 'w kube \<Rightarrow> bool" where
  "config_maps_ok view K \<equiv> api_ok cm_Name (\<lambda>_. []) (\<lambda>_ _. True) view (k_ConfigMaps K)"

text \<open>
  The cluster as a node sees it: services, pods and config maps that do not interfere. An error of the
  file system is not an API status.
\<close>

definition cluster_ok ::
  "('w, k8s_service) view \<Rightarrow> ('w, pod) view \<Rightarrow> ('w, config_map) view \<Rightarrow> 'w kube \<Rightarrow> 'w os \<Rightarrow> bool" where
  "cluster_ok sv pv cv K F \<longleftrightarrow>
     services_ok sv K \<and> pods_ok pv K \<and> config_maps_ok cv K \<and> reliable_delete sv (k_Services K) \<and>
     api_frame sv (k_Pods K) \<and> api_frame sv (k_ConfigMaps K) \<and> api_frame sv (k_DaemonSets K) \<and> os_frame sv F \<and>
     api_frame pv (k_Services K) \<and> api_frame pv (k_ConfigMaps K) \<and> api_frame pv (k_DaemonSets K) \<and> os_frame pv F \<and>
     api_frame cv (k_Services K) \<and> api_frame cv (k_Pods K) \<and> api_frame cv (k_DaemonSets K) \<and> os_frame cv F \<and>
     (\<forall>p w e w'. os_Remove F p w = (Error e, w') \<longrightarrow> \<not> IsNotFound e)"

definition map_names :: "string \<Rightarrow> volume list \<Rightarrow> (string \<times> string) set" where
  "map_names ns vols = {(ns, n) | n. \<exists>v \<in> set vols. vol_Name v = ConfigVolumeName \<and> vol_Source v = VS_ConfigMap n}"

lemma ignore_delete_Ok:
  assumes "delete_ok view api" "ignore_not_found (api_Delete api ns n) w = (Ok (), w')"
  shows "view w' = (view w)((ns, n) := None)"
proof -
  obtain q w1 where d: "api_Delete api ns n w = (q, w1)" by fastforce
  from assms(1) d show ?thesis
  proof (cases rule: delete_cases)
    case deleted
    with assms(2) d show ?thesis by (simp add: ignore_not_found_def)
  next
    case (failed e)
    with assms(2) d have "w' = w1" "view w (ns, n) = None"
      by (auto simp: ignore_not_found_def split: if_splits)
    with failed show ?thesis by (metis fun_upd_triv)
  qed
qed

lemma delete_volumes_view:
  assumes ok: "delete_ok cv (k_ConfigMaps K)" and fr: "os_frame cv F"
  shows "aiter (delete_volume K F ns) vols w = (Ok (), w') \<Longrightarrow> cv w' = cv w |` (- map_names ns vols)"
proof (induction vols arbitrary: w)
  case Nil
  then show ?case by (simp add: map_names_def restrict_map_def)
next
  case (Cons v vols)
  from Cons.prems obtain w1 where v: "delete_volume K F ns v w = (Ok (), w1)"
    and rest: "aiter (delete_volume K F ns) vols w1 = (Ok (), w')" by (auto elim: abind_OkD)
  have "cv w1 = cv w |` (- map_names ns [v])"
  proof (cases "vol_Name v = ConfigVolumeName \<and> (\<exists>n. vol_Source v = VS_ConfigMap n)")
    case True
    then obtain n where n: "vol_Source v = VS_ConfigMap n" "vol_Name v = ConfigVolumeName" by blast
    then have "cv w1 = (cv w)((ns, n) := None)" using v ignore_delete_Ok [OF ok] by (simp add: delete_volume_def)
    moreover have "map_names ns [v] = {(ns, n)}" using n by (auto simp: map_names_def)
    ultimately show ?thesis by (auto simp: restrict_map_def fun_eq_iff)
  next
    case False
    then have "keeps cv (delete_volume K F ns v)"
      unfolding delete_volume_def using fr by (auto intro!: keeps_intros split: volume_source.split)
    then have "cv w1 = cv w" using v by (rule keepsD)
    moreover have "map_names ns [v] = {}" using False by (auto simp: map_names_def)
    ultimately show ?thesis by (simp add: restrict_map_def)
  qed
  moreover have "map_names ns (v # vols) = map_names ns [v] \<union> map_names ns vols" by (auto simp: map_names_def)
  ultimately show ?case using Cons.IH [OF rest] by (auto simp: restrict_map_def fun_eq_iff)
qed

lemma map_names_config_volumes: "map_names ns (pd_Volumes p) = map_names ns (config_volumes p)"
  by (auto simp: map_names_def config_volumes_def)

text \<open>The config maps after the configuration of a pod has been attached, and the volume it got.\<close>

lemma attach_config_maps:
  assumes cms: "create_ok cm_Name (\<lambda>_ _. True) cv (k_ConfigMaps K)" and fr: "os_frame cv F"
    and p: "pd_Volumes p = []"
    and run: "attach_config K F ns bp pb cfg p w = (Ok p', w1)"
  shows "pd_Name p' = pd_Name p" and "cv w1 |` (- map_names ns (pd_Volumes p')) = cv w"
    and "\<forall>v \<in> set (pd_Volumes p'). vol_Name v = ConfigVolumeName"
proof -
  have "pd_Name p' = pd_Name p \<and> cv w1 |` (- map_names ns (pd_Volumes p')) = cv w \<and>
    (\<forall>v \<in> set (pd_Volumes p'). vol_Name v = ConfigVolumeName)"
  proof (cases "cfg_ConfigData cfg = None")
    case True
    with run p show ?thesis by (auto simp: attach_config_def map_names_def restrict_map_def)
  next
    case False
    from run False obtain vo where c: "CreateConfig K F ns bp pb w = (Ok vo, w1)"
      and p': "\<exists>vol. vo = Some vol \<and> p' = p\<lparr>pd_Volumes := pd_Volumes p @ [vol],
          pd_Containers := mount_all (config_mount cfg vol) (pd_Containers p)\<rparr>"
      by (auto simp: attach_config_def elim!: abind_OkD split: option.splits)
    from c obtain data w2 vs where d: "readConfig F bp pb w = (Ok data, w2)" and s: "config_source K F ns pb data w2 = (Ok vs, w1)"
      and vo: "vo = map_option (\<lambda>src. \<lparr>vol_Name = ConfigVolumeName, vol_Source = src\<rparr>) vs"
      by (auto simp: CreateConfig_def elim!: abind_OkD)
    have v2: "cv w2 = cv w"
    proof -
      have "keeps cv (readConfig F bp pb)"
        unfolding readConfig_def using fr by (auto intro!: keeps_intros split: option.split config_data.split)
      then show ?thesis using d by (rule keepsD)
    qed
    obtain src where src: "vs = Some src" "pd_Volumes p' = [\<lparr>vol_Name = ConfigVolumeName, vol_Source = src\<rparr>]" "pd_Name p' = pd_Name p"
      using p' vo p by (cases vs) auto
    have "cv w1 |` (- map_names ns (pd_Volumes p')) = cv w"
    proof (cases "int (length data) < 1048576")
      case True
      with s src(1) obtain cm w3 where cm: "api_Create (k_ConfigMaps K) ns
          \<lparr>cm_Name = config_map_name pb, cm_Data = [(cfg_ConfigFile (GetConfig pb), data)]\<rparr> w2 = (Ok cm, w3)"
        and "w1 = w3" "src = VS_ConfigMap (config_map_name pb)"
        by (auto simp: config_source_def elim!: abind_OkD split: if_splits)
      from cms cm have "cv w2 (ns, config_map_name pb) = None" "cv w3 = (cv w2)((ns, config_map_name pb) \<mapsto> cm)"
        by (auto elim!: create_cases)
      moreover have "map_names ns (pd_Volumes p') = {(ns, config_map_name pb)}"
        using src \<open>src = _\<close> by (auto simp: map_names_def)
      ultimately show ?thesis using \<open>w1 = w3\<close> v2 by (auto simp: restrict_map_def fun_eq_iff)
    next
      case False
      with s src(1) obtain path where path: "write_config_file F pb data w2 = (Ok path, w1)" "src = VS_HostPath path"
        by (auto simp: config_source_def elim!: abind_OkD split: if_splits)
      have "keeps cv (write_config_file F pb data)"
        unfolding write_config_file_def or_remove_def using fr by (intro keeps_intros)
      then have "cv w1 = cv w2" using path(1) by (rule keepsD)
      moreover have "map_names ns (pd_Volumes p') = {}" using src path by (simp add: map_names_def)
      ultimately show ?thesis using v2 by (simp add: restrict_map_def)
    qed
    with src show ?thesis by simp
  qed
  then show "pd_Name p' = pd_Name p" and "cv w1 |` (- map_names ns (pd_Volumes p')) = cv w"
    and "\<forall>v \<in> set (pd_Volumes p'). vol_Name v = ConfigVolumeName" by blast+
qed

lemma impl_pod_simps [simp]: "pd_Name (impl_pod ns pb cfg n reqs) = n_Name pb" "pd_Volumes (impl_pod ns pb cfg n reqs) = []"
  by (simp_all add: impl_pod_def add_labels_def node_pod_def)

lemma CreatePod_Ok:
  assumes ok: "cluster_ok sv pv cv K F" and run: "CreatePod K F quantity ns bp pb w = (Ok (), w')"
  obtains p where "pv w (ns, n_Name pb) = None" "pv w' = (pv w)((ns, n_Name pb) \<mapsto> p)"
    "cv w' |` (- map_names ns (pd_Volumes p)) = cv w" "sv w' = sv w"
proof -
  from run obtain links where "GetNodeLinks pb = Ok links"
    by (auto simp: CreatePod_def elim!: abind_OkD)
  from run obtain cfg where "n_Config pb = Some cfg"
    by (cases "n_Config pb") (auto simp: CreatePod_def elim!: abind_OkD)
  with run obtain p0 p w1 where a: "attach_config K F ns bp pb cfg p0 w = (Ok p, w1)" "pd_Name p0 = n_Name pb" "pd_Volumes p0 = []"
    and c: "\<exists>x. api_Create (k_Pods K) ns p w1 = (Ok x, w')"
    by (auto simp: CreatePod_def elim!: abind_OkD)
  from ok have oks: "create_ok cm_Name (\<lambda>_ _. True) cv (k_ConfigMaps K)" "os_frame cv F" "create_ok pd_Name pod_same pv (k_Pods K)"
    "api_frame pv (k_ConfigMaps K)" "os_frame pv F" "api_frame cv (k_Pods K)" "api_frame sv (k_Pods K)"
    "api_frame sv (k_ConfigMaps K)" "os_frame sv F"
    by (simp_all add: cluster_ok_def api_ok_def)
  note m = attach_config_maps [OF oks(1,2) a(3,1)]
  have k: "keeps pv (attach_config K F ns bp pb cfg p0)" "keeps sv (attach_config K F ns bp pb cfg p0)"
    unfolding attach_config_def using CreateConfig_keeps oks by (auto intro!: keeps_intros split: option.split)
  have "pv w1 = pv w" "sv w1 = sv w" using keepsD [OF k(1) a(1)] keepsD [OF k(2) a(1)] by simp_all
  obtain x where x: "api_Create (k_Pods K) ns p w1 = (Ok x, w')" using c by blast
  have "sv w' = sv w1" "cv w' = cv w1"
    using keepsD [OF api_frameD(1) [OF oks(7)] x] keepsD [OF api_frameD(1) [OF oks(6)] x] by simp_all
  from oks(3) x have x': "pv w1 (ns, n_Name pb) = None" "pod_same p x" "pv w' = (pv w1)((ns, n_Name pb) \<mapsto> x)"
    by (auto elim!: create_cases simp: m(1) a(2))
  have "map_names ns (pd_Volumes x) = map_names ns (pd_Volumes p)"
    using x'(2) map_names_config_volumes [of ns x] map_names_config_volumes [of ns p] by (simp add: pod_same_def)
  then show thesis
    using that x' m(2) \<open>pv w1 = pv w\<close> \<open>sv w1 = sv w\<close> \<open>sv w' = sv w1\<close> \<open>cv w' = cv w1\<close> by simp
qed

lemma aiter_Error: "aiter f xs w = (Error e, w') \<Longrightarrow> \<exists>x \<in> set xs. \<exists>w1. f x w1 = (Error e, w')"
proof (induction xs arbitrary: w)
  case (Cons x xs)
  from Cons.prems show ?case unfolding aiter.simps
  proof (cases rule: abind_cases)
    case (Ok u w1)
    with Cons.IH show ?thesis by auto
  qed auto
qed simp

lemma DeleteConfig_Error:
  assumes "\<forall>p w e w'. os_Remove F p w = (Error e, w') \<longrightarrow> \<not> IsNotFound e"
    and run: "DeleteConfig K F ns pb w = (Error e, w')"
  shows "\<not> IsNotFound e"
proof -
  have vol: "\<not> IsNotFound e" if "delete_volume K F ns v w1 = (Error e, w')" for v w1
    using that assms(1)
    by (auto simp: delete_volume_def ignore_not_found_def atry_def abind_def
        split: if_splits volume_source.splits prod.splits result.splits)
  show ?thesis
  proof (cases "api_Get (k_Pods K) ns (n_Name pb) w")
    case (Pair q w1)
    show ?thesis
    proof (cases q)
      case (Ok p)
      with run Pair have "aiter (delete_volume K F ns) (pd_Volumes p) w1 = (Error e, w')"
        by (simp add: DeleteConfig_def atry_def)
      from aiter_Error [OF this] show ?thesis using vol by blast
    qed (use run Pair in \<open>auto simp: DeleteConfig_def atry_def split: if_splits\<close>)
  qed
qed

lemma DeleteResource_Ok:
  assumes ok: "cluster_ok sv pv cv K F" and run: "DeleteResource K F ns pb w = (Ok (), w')"
    and p: "pv w (ns, n_Name pb) = Some p"
  shows "pv w' = (pv w)((ns, n_Name pb) := None)" "cv w' = cv w |` (- map_names ns (pd_Volumes p))" "sv w' = sv w"
proof -
  from ok have oks: "get_ok pv (k_Pods K)" "delete_ok pv (k_Pods K)" "delete_ok cv (k_ConfigMaps K)" "os_frame cv F"
    "api_frame pv (k_ConfigMaps K)" "os_frame pv F" "api_frame cv (k_Pods K)" "api_frame sv (k_Pods K)"
    "api_frame sv (k_ConfigMaps K)" "os_frame sv F"
    by (simp_all add: cluster_ok_def api_ok_def)
  have rem: "\<forall>p w e w'. os_Remove F p w = (Error e, w') \<longrightarrow> \<not> IsNotFound e" using ok by (simp add: cluster_ok_def)
  from run obtain w1 where c0: "ignore_not_found (DeleteConfig K F ns pb) w = (Ok (), w1)"
    and d: "ignore_not_found (api_Delete (k_Pods K) ns (n_Name pb)) w1 = (Ok (), w')"
    by (auto simp: DeleteResource_def elim!: abind_OkD)
  have c: "DeleteConfig K F ns pb w = (Ok (), w1)"
    using c0 DeleteConfig_Error [OF rem, of K ns pb w]
    by (auto simp: ignore_not_found_def split: prod.splits result.splits if_splits)
  obtain q w2 where g: "api_Get (k_Pods K) ns (n_Name pb) w = (q, w2)" by fastforce
  have q: "q = Ok p \<and> pv w2 = pv w"
    using oks(1) g
  proof (cases rule: get_cases)
    case (found x)
    with p show ?thesis by simp
  next
    case (failed e)
    with c g p show ?thesis by (simp add: DeleteConfig_def atry_def)
  qed
  then have q: "q = Ok p" "pv w2 = pv w" by simp_all
  with c g have it: "aiter (delete_volume K F ns) (pd_Volumes p) w2 = (Ok (), w1)"
    by (simp add: DeleteConfig_def atry_def)
  have ki: "keeps pv (aiter (delete_volume K F ns) (pd_Volumes p))" "keeps sv (aiter (delete_volume K F ns) (pd_Volumes p))"
    using oks by (auto intro!: keeps_intros)
  have v1: "pv w1 = pv w" "sv w1 = sv w2" using keepsD [OF ki(1) it] keepsD [OF ki(2) it] q(2) by simp_all
  have v2: "cv w2 = cv w" "sv w2 = sv w"
    using keepsD [OF api_frameD(2) [OF oks(7)] g] keepsD [OF api_frameD(2) [OF oks(8)] g] by simp_all
  have kd: "keeps cv (ignore_not_found (api_Delete (k_Pods K) ns (n_Name pb)))"
    "keeps sv (ignore_not_found (api_Delete (k_Pods K) ns (n_Name pb)))"
    using oks by (auto intro!: keeps_intros)
  show "pv w' = (pv w)((ns, n_Name pb) := None)" using ignore_delete_Ok [OF oks(2) d] v1 by simp
  show "cv w' = cv w |` (- map_names ns (pd_Volumes p))"
    using keepsD [OF kd(1) d] delete_volumes_view [OF oks(3,4) it] v2 by simp
  show "sv w' = sv w" using keepsD [OF kd(2) d] v1 v2 by simp
qed

lemma amap_err_Ok: "amap_err f m w = (Ok x, w') \<longleftrightarrow> m w = (Ok x, w')"
  by (auto simp: amap_err_def split: prod.splits result.splits)

lemma Delete_OkE:
  assumes run: "Delete K F ns pb w = (Ok (), w')"
  obtains w1 where "DeleteService K ns pb w = (Ok (), w1)" "DeleteResource K F ns pb w1 = (Ok (), w')"
proof -
  obtain r1 w1 where s: "DeleteService K ns pb w = (r1, w1)" by fastforce
  obtain r2 w2 where r: "DeleteResource K F ns pb w1 = (r2, w2)" by fastforce
  have "r1 = Ok () \<and> r2 = Ok () \<and> w2 = w'"
    using run unfolding Delete_def
    by (cases r1; cases r2) (simp_all add: s r atry_def)
  with s r that show thesis by simp
qed

text \<open>
  C9. Deleting a node undoes its creation: if a node that is not in the cluster is created and then deleted
  without an error, the services, pods and config maps of the cluster are what they were before.
\<close>

theorem Delete_undoes_Create:
  assumes "cluster_ok sv pv cv K F" and "fresh_node (sv w) ns pb"
    and "Create K F quantity ns bp pb w = (Ok (), w1)" and "Delete K F ns pb w1 = (Ok (), w2)"
  shows "sv w2 = sv w \<and> pv w2 = pv w \<and> cv w2 = cv w"
proof -
  from assms(1) have oks: "services_ok sv K" "reliable_delete sv (k_Services K)" "api_frame sv (k_DaemonSets K)"
    "api_frame pv (k_Services K)" "api_frame pv (k_DaemonSets K)" "api_frame cv (k_Services K)" "api_frame cv (k_DaemonSets K)"
    by (simp_all add: cluster_ok_def)
  from assms(3) obtain wa where p: "CreatePod K F quantity ns bp pb w = (Ok (), wa)" and s: "CreateService K ns pb wa = (Ok (), w1)"
    by (auto simp: Create_def amap_err_Ok elim!: abind_OkD)
  obtain wb where ds: "DeleteService K ns pb w1 = (Ok (), wb)" and dr: "DeleteResource K F ns pb wb = (Ok (), w2)"
    using assms(4) by (rule Delete_OkE)
  obtain pod where pod: "pv w (ns, n_Name pb) = None" "pv wa = (pv w)((ns, n_Name pb) \<mapsto> pod)"
    "cv wa |` (- map_names ns (pd_Volumes pod)) = cv w" "sv wa = sv w"
    using assms(1) p by (rule CreatePod_Ok)
  have k: "pv w1 = pv wa" "cv w1 = cv wa" "pv wb = pv w1" "cv wb = cv w1"
    by (rule keepsD [OF CreateService_keeps [OF oks(4,5)] s], rule keepsD [OF CreateService_keeps [OF oks(6,7)] s],
        rule keepsD [OF DeleteService_keeps [OF oks(4,5)] ds], rule keepsD [OF DeleteService_keeps [OF oks(6,7)] ds])
  have "sv wb = sv wa"
  proof (rule DeleteService_undoes [OF oks(1-3) _ s ds])
    show "fresh_node (sv wa) ns pb" using assms(2) pod(4) by simp
  qed
  moreover have "pv wb (ns, n_Name pb) = Some pod" using k pod by simp
  note r = DeleteResource_Ok [OF assms(1) dr this]
  ultimately have "sv w2 = sv w" using pod(4) r(3) by simp
  moreover have "pv w2 = pv w" using r(1) k pod by (auto simp: fun_eq_iff)
  moreover have "cv w2 = cv w" using r(2) k pod(3) by simp
  ultimately show ?thesis by simp
qed

text \<open>A file system for the example: every read gives the same text, every other operation succeeds.\<close>

definition mem_os :: "'w os" where
  "mem_os =
     \<lparr>os_ReadFile = (\<lambda>p. aret ''hostname r1''), os_MkdirAll = (\<lambda>p. aret ()),
      os_CreateTemp = (\<lambda>d p. aret (d @ ''/'' @ p)), os_Write = (\<lambda>p d. aret ()), os_Chmod = (\<lambda>p m. aret ()),
      os_Close = (\<lambda>p. aret ()), os_Remove = (\<lambda>p. aret ()), os_IsNotExist = (\<lambda>e. False)\<rparr>"

lemma mem_os_frame: "os_frame view mem_os"
  unfolding os_frame_def mem_os_def by (simp add: keeps_intros)

lemma mem_cluster_ok: "cluster_ok mem_services mem_pods mem_config_maps mem_kube mem_os"
proof -
  have "pod_same p p" for p by (simp add: pod_same_def)
  moreover have "os_Remove mem_os p w = (Ok (), w)" for p and w :: "'a mem_world_scheme" by (simp add: mem_os_def)
  ultimately show ?thesis
    unfolding cluster_ok_def by (simp add: mem_kube_ok mem_kube_reliable mem_kube_frames mem_os_frame)
qed

definition ex_node_cfg :: node where
  "ex_node_cfg = ex_services\<lparr>n_Config := Some (empty_config\<lparr>cfg_Image := ''ceos'', cfg_ConfigFile := ''startup.cfg'',
     cfg_ConfigData := Some (Config_File ''r1.cfg'')\<rparr>)\<rparr>"

definition ex_created :: "unit result \<times> mem_world" where
  "ex_created = Create mem_kube mem_os (\<lambda>_. True) ''topo'' ''/base'' ex_node_cfg mem_empty"

definition ex_deleted :: "unit result \<times> mem_world" where
  "ex_deleted = Delete mem_kube mem_os ''topo'' ex_node_cfg (snd ex_created)"

theorem Delete_undoes_Create_witness:
  "length (mw_ConfigMaps (snd ex_created)) = 1 \<and> length (mw_Pods (snd ex_created)) = 1 \<and>
   mem_services (snd ex_deleted) = mem_services mem_empty \<and> mem_pods (snd ex_deleted) = mem_pods mem_empty \<and>
   mem_config_maps (snd ex_deleted) = mem_config_maps mem_empty"
proof -
  have "is_Ok (fst ex_created) \<and> is_Ok (fst ex_deleted)" by code_simp
  then have ok: "fst ex_created = Ok ()" "fst ex_deleted = Ok ()" by (auto simp: is_Ok_iff)
  have c: "Create mem_kube mem_os (\<lambda>_. True) ''topo'' ''/base'' ex_node_cfg mem_empty = (Ok (), snd ex_created)"
    unfolding ex_created_def [symmetric] using ok(1) by (simp add: prod_eq_iff)
  have d: "Delete mem_kube mem_os ''topo'' ex_node_cfg (snd ex_created) = (Ok (), snd ex_deleted)"
    unfolding ex_deleted_def [symmetric] using ok(2) by (simp add: prod_eq_iff)
  have f: "fresh_node (mem_services mem_empty) ''topo'' ex_node_cfg"
    by (simp add: fresh_node_def mem_services_def mem_empty_def table_view_def)
  have "length (mw_ConfigMaps (snd ex_created)) = 1 \<and> length (mw_Pods (snd ex_created)) = 1" by code_simp
  with Delete_undoes_Create [OF mem_cluster_ok f c d] show ?thesis by blast
qed

text \<open>A boot configuration that is present but empty makes \<open>CreatePod\<close> dereference a \<open>nil\<close> volume.\<close>

lemma CreatePod_empty_config:
  "fst (CreatePod mem_kube mem_os (\<lambda>_. True) ''topo'' ''/base''
     (ex_services\<lparr>n_Config := Some (empty_config\<lparr>cfg_ConfigData := Some (Config_Data [])\<rparr>)\<rparr>) mem_empty) = Panic ''nil volume''"
  by code_simp

end
