(* ===== verification/Vendor_Forward.thy ===== *)
theory Vendor_Forward
  imports Node_Pod Net_IP
begin

text \<open>
  \<open>topo/node/forward/forward.go\<close>: how the wires of a forward node become bridge processes, each in a
  container of the node's pod, and the headless service by which peers reach the node.
\<close>

section \<open>Wires\<close>

text \<open>The oneof of \<open>proto/forward.proto\<close>; a \<open>nil\<close> endpoint is one with no member set.\<close>

datatype endpoint =
    EP_Interface (ep_name: string)
  | EP_LocalNode (ep_node: string) (ep_ifc: string)
  | EP_RemoteNode (ep_addr: string) (ep_rifc: string)
  | EP_Unset

record fwire =
  wire_A :: endpoint
  wire_Z :: endpoint

fun interface_name :: "endpoint \<Rightarrow> string" where
  "interface_name (EP_Interface n) = n"
| "interface_name _ = []"

record bridge_process =
  bp_nameSuffix :: string
  bp_args :: "string list"

definition wirePort :: int where
  "wirePort = 50058"

fun peerEndpoint :: "endpoint \<Rightarrow> (string \<times> string) result" where
  "peerEndpoint (EP_LocalNode name ifc) =
     (if name = [] then Error (Errorf ''local_node endpoint must set name'' [])
      else Ok (JoinHostPort name (itoa wirePort), ifc))"
| "peerEndpoint (EP_RemoteNode addr ifc) =
     (if addr = [] then Error (Errorf ''remote_node endpoint must set addr'' [])
      else (case SplitHostPort addr of
              Ok _ \<Rightarrow> Ok (addr, ifc)
            | _ \<Rightarrow> Ok (JoinHostPort (Trim ''[]'' addr) (itoa wirePort), ifc)))"
| "peerEndpoint _ = Error (Errorf ''endpoint must be a local_node or a remote_node'' [])"

definition client_process :: "string \<Rightarrow> string \<Rightarrow> string \<Rightarrow> bridge_process" where
  "client_process aIntf addr remote =
     \<lparr>bp_nameSuffix = ''client-'' @ aIntf,
      bp_args = [''client'', ''--peer='' @ addr, ''--interface='' @ aIntf, ''--remote_interface='' @ remote]\<rparr>"

definition server_process :: bridge_process where
  "server_process = \<lparr>bp_nameSuffix = ''server'', bp_args = [''server'']\<rparr>"

text \<open>The loop over the wires, with the served interfaces, the client processes and the interfaces seen.\<close>

fun wire_loop ::
  "fwire list \<Rightarrow> string list \<Rightarrow> bridge_process list \<Rightarrow> string list \<Rightarrow> (string list \<times> bridge_process list) result" where
  "wire_loop [] serves procs seen = Ok (serves, procs)"
| "wire_loop (w # ws) serves procs seen =
     (let aIntf = interface_name (wire_A w); zIntf = interface_name (wire_Z w) in
      if aIntf \<noteq> [] \<and> zIntf \<noteq> [] then Error (Errorf ''endpoints a and z cannot both be interfaces'' [])
      else if aIntf \<noteq> [] then
        (if aIntf \<in> set seen then Error (Errorf ''duplicate wire for local interface %q'' [aIntf])
         else case peerEndpoint (wire_Z w) of
           Ok (addr, remote) \<Rightarrow>
             wire_loop ws serves (procs @ [client_process aIntf addr (dflt aIntf remote)]) (aIntf # seen)
         | Error e \<Rightarrow> Error (Errorw ''wire for local interface %q: %w'' [aIntf] e)
         | Panic p \<Rightarrow> Panic p)
      else if zIntf \<noteq> [] then
        (if zIntf \<in> set seen then Error (Errorf ''duplicate wire for local interface %q'' [zIntf])
         else wire_loop ws (serves @ [zIntf]) procs (zIntf # seen))
      else Error (Errorf ''one of endpoints a and z must be an interface'' []))"

definition wirePlan :: "fwire list \<Rightarrow> bridge_process list result" where
  "wirePlan wires =
     rbind (wire_loop wires [] [] []) (\<lambda>(serves, procs).
       Ok (if serves \<noteq> [] then server_process # procs else procs))"

section \<open>The pod and the services\<close>

text \<open>
  The processes of a node: its own arguments if no wires are declared, else the planned ones with the
  arguments appended. \<open>unmarshal\<close> decodes the vendor data.
\<close>

definition bridge_processes ::
  "(string \<Rightarrow> fwire list result) \<Rightarrow> node \<Rightarrow> config \<Rightarrow> bridge_process list result" where
  "bridge_processes unmarshal pb cfg =
     (let own = [\<lparr>bp_nameSuffix = [], bp_args = cfg_Args cfg\<rparr>] in
      case cfg_VendorData cfg of
        None \<Rightarrow> Ok own
      | Some data \<Rightarrow>
          rbind (unmarshal data) (\<lambda>wires.
            case wirePlan wires of
              Error e \<Rightarrow> Error (Errorw ''node %s: %w'' [n_Name pb] e)
            | Panic p \<Rightarrow> Panic p
            | Ok planned \<Rightarrow>
                Ok (if planned \<noteq> [] then map (\<lambda>p. p\<lparr>bp_args := bp_args p @ cfg_Args cfg\<rparr>) planned else own)))"

text \<open>The first container has the node's name, the others a suffix.\<close>

definition bridge_containers :: "node \<Rightarrow> config \<Rightarrow> (string, string) gomap \<Rightarrow> bridge_process list \<Rightarrow> container list" where
  "bridge_containers pb cfg reqs procs =
     map (\<lambda>(i, p). (node_container pb cfg reqs)\<lparr>
            ct_Name := (if i > 0 then n_Name pb @ ''-'' @ bp_nameSuffix p else n_Name pb), ct_Args := bp_args p\<rparr>)
       (enumerate 0 procs)"

definition forward_CreatePod ::
  "'w kube \<Rightarrow> 'w os \<Rightarrow> (string \<Rightarrow> bool) \<Rightarrow> (string \<Rightarrow> fwire list result) \<Rightarrow> string \<Rightarrow> string \<Rightarrow> node \<Rightarrow> ('w, unit) act" where
  "forward_CreatePod K F quantity unmarshal ns bp pb =
     (case n_Config pb of
        None \<Rightarrow> apanic ''nil config''
      | Some cfg \<Rightarrow>
          abind (alift (bridge_processes unmarshal pb cfg)) (\<lambda>procs.
          abind (alift (ToResourceRequirements quantity (n_Constraints pb))) (\<lambda>reqs.
          abind (attach_config K F ns bp pb cfg
                   (add_labels pb (node_pod ns pb [init_container pb cfg (length (n_Interfaces pb)) []]
                      (bridge_containers pb cfg reqs procs)))) (\<lambda>p.
          abind (api_Create (k_Pods K) ns p) (\<lambda>_. aret ())))))"

definition peer_service :: "node \<Rightarrow> k8s_service" where
  "peer_service pb =
     \<lparr>sv_Name = n_Name pb, sv_UID = [], sv_Labels = [(''pod'', n_Name pb)], sv_Ports = [],
      sv_Selector = [(''app'', n_Name pb)], sv_Type = ST_Other [], sv_AllocNodePorts = None,
      sv_ClusterIP = ''None'', sv_Ingress = []\<rparr>"

definition createPeerService :: "'w kube \<Rightarrow> string \<Rightarrow> node \<Rightarrow> ('w, unit) act" where
  "createPeerService K ns pb =
     abind (amap_err (Errorw ''failed to create peer service for node %s: %w'' [n_Name pb])
              (api_Create (k_Services K) ns (peer_service pb))) (\<lambda>_. aret ())"

definition forward_CreateService :: "'w kube \<Rightarrow> string \<Rightarrow> node \<Rightarrow> ('w, unit) act" where
  "forward_CreateService K ns pb =
     abind (createPeerService K ns pb) (\<lambda>_.
       abind (atry (CreateService K ns pb)) (\<lambda>r. case r of
         Error e \<Rightarrow> abind (atry (api_Delete (k_Services K) ns (n_Name pb))) (\<lambda>_. aerr e)
       | _ \<Rightarrow> aret ()))"

text \<open>The shape of \<open>Create\<close> that several node types share.\<close>

definition create_with ::
  "(string \<Rightarrow> ('w, int) act) \<Rightarrow> (node \<Rightarrow> ('w, unit) act) \<Rightarrow> (node \<Rightarrow> ('w, unit) act) \<Rightarrow> node \<Rightarrow> ('w, unit) act" where
  "create_with kval pod service pb =
     abind (ValidateConstraints kval pb) (\<lambda>(pb', r).
     abind (amap_err (Errorv ''node %s failed to validate node with errors: %s'' [n_Name pb]) (alift r)) (\<lambda>_.
     abind (amap_err (Errorw ''node %s failed to create pod %w'' [n_Name pb]) (pod pb')) (\<lambda>_.
       amap_err (Errorw ''node %s failed to create service %w'' [n_Name pb]) (service pb'))))"

definition forward_Create ::
  "'w kube \<Rightarrow> 'w os \<Rightarrow> (string \<Rightarrow> ('w, int) act) \<Rightarrow> (string \<Rightarrow> bool) \<Rightarrow> (string \<Rightarrow> fwire list result) \<Rightarrow> string \<Rightarrow> string \<Rightarrow> node \<Rightarrow>
   ('w, unit) act" where
  "forward_Create K F kval quantity unmarshal ns bp =
     create_with kval (forward_CreatePod K F quantity unmarshal ns bp) (forward_CreateService K ns)"

section \<open>The plan\<close>

text \<open>The interface of this node that a wire uses, and the process that a client wire becomes.\<close>

definition local_ifc :: "fwire \<Rightarrow> string" where
  "local_ifc w = (if interface_name (wire_A w) \<noteq> [] then interface_name (wire_A w) else interface_name (wire_Z w))"

definition is_client :: "fwire \<Rightarrow> bool" where
  "is_client w \<longleftrightarrow> interface_name (wire_A w) \<noteq> []"

definition wire_process :: "fwire \<Rightarrow> bridge_process" where
  "wire_process w =
     (case the_Ok (peerEndpoint (wire_Z w)) of (addr, remote) \<Rightarrow>
        client_process (local_ifc w) addr (dflt (local_ifc w) remote))"

definition wire_ok :: "fwire \<Rightarrow> bool" where
  "wire_ok w \<longleftrightarrow> local_ifc w \<noteq> [] \<and> \<not> (interface_name (wire_A w) \<noteq> [] \<and> interface_name (wire_Z w) \<noteq> []) \<and>
     (is_client w \<longrightarrow> is_Ok (peerEndpoint (wire_Z w)))"

lemma peerEndpoint_no_panic: "peerEndpoint e \<noteq> Panic p"
  by (cases e) (auto split: result.split)

lemma wire_loop_iff:
  "wire_loop ws serves procs seen = Ok r \<longleftrightarrow>
     (\<forall>w \<in> set ws. wire_ok w) \<and> distinct (map local_ifc ws) \<and> set (map local_ifc ws) \<inter> set seen = {} \<and>
     r = (serves @ map local_ifc (filter (\<lambda>w. \<not> is_client w) ws), procs @ map wire_process (filter is_client ws))"
proof (induction ws arbitrary: serves procs seen)
  case Nil
  then show ?case by auto
next
  case (Cons w ws)
  show ?case
  proof (cases "is_client w")
    case True
    then have l: "local_ifc w = interface_name (wire_A w)" "interface_name (wire_A w) \<noteq> []"
      by (simp_all add: is_client_def local_ifc_def)
    show ?thesis
    proof (cases "peerEndpoint (wire_Z w)")
      case (Ok ar)
      obtain addr remote where ar: "ar = (addr, remote)" by (cases ar)
      show ?thesis
        using True l Ok by (auto simp: Cons.IH Let_def wire_ok_def wire_process_def ar)
    next
      case (Error e)
      with True l show ?thesis by (auto simp: Let_def wire_ok_def)
    qed (simp add: peerEndpoint_no_panic)
  next
    case False
    then have "local_ifc w = interface_name (wire_Z w)" "interface_name (wire_A w) = []"
      by (simp_all add: is_client_def local_ifc_def)
    with False show ?thesis by (auto simp: Cons.IH Let_def wire_ok_def)
  qed
qed

text \<open>
  C10. \<open>wirePlan\<close> accepts the wires of a node exactly if each has one end that is an interface of the node, the
  interfaces are distinct and every client wire names a peer. The plan then is one client process per client
  wire, in order, on the wire's interface, after one server process if any wire is served.
\<close>

theorem wirePlan_exact:
  "wirePlan ws = Ok procs \<longleftrightarrow>
     (\<forall>w \<in> set ws. wire_ok w) \<and> distinct (map local_ifc ws) \<and>
     procs = (if \<exists>w \<in> set ws. \<not> is_client w then [server_process] else []) @ map wire_process (filter is_client ws)"
  unfolding wirePlan_def using wire_loop_iff [of ws "[]" "[]" "[]"]
  by (auto simp: filter_empty_conv)

definition ex_wires :: "fwire list" where
  "ex_wires =
     [\<lparr>wire_A = EP_Interface ''eth1'', wire_Z = EP_RemoteNode ''10.0.0.1'' []\<rparr>,
      \<lparr>wire_A = EP_Unset, wire_Z = EP_Interface ''eth2''\<rparr>]"

theorem wirePlan_exact_witness:
  "wirePlan ex_wires = Ok [server_process, client_process ''eth1'' ''10.0.0.1:50058'' ''eth1''] \<and>
   distinct (map local_ifc ex_wires)"
proof -
  have "(case wirePlan ex_wires of Ok ps \<Rightarrow> ps = [server_process, client_process ''eth1'' ''10.0.0.1:50058'' ''eth1''] | _ \<Rightarrow> False)"
    by code_simp
  then have "wirePlan ex_wires = Ok [server_process, client_process ''eth1'' ''10.0.0.1:50058'' ''eth1'']"
    by (simp split: result.splits)
  with wirePlan_exact [of ex_wires] show ?thesis by blast
qed

section \<open>Container names\<close>

lemma plan_suffixes_distinct:
  assumes "wirePlan ws = Ok procs"
  shows "distinct (map bp_nameSuffix procs)" "[] \<notin> set (map bp_nameSuffix procs)"
proof -
  obtain serves cs where loop: "wire_loop ws [] [] [] = Ok (serves, cs)"
    and procs: "procs = (if serves \<noteq> [] then server_process # cs else cs)"
    using assms by (auto simp: wirePlan_def)
  from loop have d: "distinct (map local_ifc ws)" and cs: "cs = map wire_process (filter is_client ws)"
    by (auto simp: wire_loop_iff)
  have sfx: "bp_nameSuffix (wire_process w) = ''client-'' @ local_ifc w" for w
    by (simp add: wire_process_def client_process_def split: prod.split)
  have m: "map bp_nameSuffix cs = map (\<lambda>w. ''client-'' @ local_ifc w) (filter is_client ws)"
    by (simp add: cs sfx comp_def)
  have "distinct (map local_ifc (filter is_client ws))" using d by (rule distinct_map_filter)
  then have "distinct (map bp_nameSuffix cs)"
    unfolding m by (auto simp: distinct_map inj_on_def)
  moreover have "''server'' \<notin> set (map bp_nameSuffix cs)" "[] \<notin> set (map bp_nameSuffix cs)"
    unfolding m by auto
  ultimately show "distinct (map bp_nameSuffix procs)" "[] \<notin> set (map bp_nameSuffix procs)"
    by (simp_all add: procs server_process_def)
qed

text \<open>The containers of a forward node's pod have distinct names, as Kubernetes requires, and the first is
  named after the node, which commands executed on the node rely on.
\<close>

lemma bridge_container_names:
  assumes "bridge_processes unmarshal pb cfg = Ok procs"
  shows "distinct (map ct_Name (bridge_containers pb cfg reqs procs)) \<and>
    (\<exists>c cs. bridge_containers pb cfg reqs procs = c # cs \<and> ct_Name c = n_Name pb)"
proof -
  have names: "map ct_Name (bridge_containers pb cfg reqs ps) =
      map (\<lambda>(i, p). if i > 0 then n_Name pb @ ''-'' @ bp_nameSuffix p else n_Name pb) (enumerate 0 ps)" for ps
    by (simp add: bridge_containers_def comp_def case_prod_unfold)
  have split: "map ct_Name (bridge_containers pb cfg reqs (p # ps)) = n_Name pb # map (\<lambda>p. n_Name pb @ ''-'' @ bp_nameSuffix p) ps"
    for p and ps :: "bridge_process list"
  proof -
    have "map (\<lambda>(i, p). if i > 0 then n_Name pb @ ''-'' @ bp_nameSuffix p else n_Name pb) (enumerate (Suc k) ps) =
      map (\<lambda>p. n_Name pb @ ''-'' @ bp_nameSuffix p) ps" for k
      by (induction ps arbitrary: k) auto
    from this [of 0] show ?thesis by (simp add: names)
  qed
  have d: "distinct (map ct_Name (bridge_containers pb cfg reqs (p # ps)))" if "distinct (map bp_nameSuffix ps)" for p ps
    unfolding split using that by (auto simp: distinct_map inj_on_def)
  have "\<exists>p ps. procs = p # ps \<and> distinct (map bp_nameSuffix ps)"
  proof (cases "\<exists>data ws planned. cfg_VendorData cfg = Some data \<and> unmarshal data = Ok ws \<and> wirePlan ws = Ok planned \<and> planned \<noteq> []")
    case True
    then obtain ws planned where pl: "wirePlan ws = Ok planned" "planned \<noteq> []"
      and procs: "procs = map (\<lambda>p. p\<lparr>bp_args := bp_args p @ cfg_Args cfg\<rparr>) planned"
      using assms by (auto simp: bridge_processes_def Let_def)
    obtain p ps where "planned = p # ps" using pl(2) by (cases planned) auto
    moreover have "distinct (map bp_nameSuffix planned)" using pl(1) by (rule plan_suffixes_distinct)
    ultimately show ?thesis using procs by (simp add: comp_def)
  next
    case False
    have "procs = [\<lparr>bp_nameSuffix = [], bp_args = cfg_Args cfg\<rparr>]"
    proof (cases "cfg_VendorData cfg")
      case None
      with assms show ?thesis by (simp add: bridge_processes_def)
    next
      case (Some data)
      with assms obtain ws where ws: "unmarshal data = Ok ws" by (auto simp: bridge_processes_def)
      with Some assms obtain planned where "wirePlan ws = Ok planned"
        by (cases "wirePlan ws") (auto simp: bridge_processes_def)
      with Some ws assms False show ?thesis by (auto simp: bridge_processes_def Let_def)
    qed
    then show ?thesis by simp
  qed
  then obtain p ps where procs: "procs = p # ps" "distinct (map bp_nameSuffix ps)" by blast
  have "\<exists>c cs. bridge_containers pb cfg reqs procs = c # cs \<and> ct_Name c = n_Name pb"
    by (simp add: procs(1) bridge_containers_def)
  with d [OF procs(2)] procs(1) show ?thesis by blast
qed

lemma bridge_container_names_example:
  "map ct_Name (bridge_containers ex_services empty_config [] [server_process, client_process ''eth1'' ''10.0.0.1:50058'' ''eth1'']) =
     [''r1'', ''r1-client-eth1''] \<and>
   distinct (map ct_Name (bridge_containers ex_services empty_config [] [server_process, client_process ''eth1'' ''10.0.0.1:50058'' ''eth1'']))"
proof -
  let ?cfg = "empty_config\<lparr>cfg_VendorData := Some ''wires''\<rparr>"
  let ?procs = "[server_process, client_process ''eth1'' ''10.0.0.1:50058'' ''eth1'']"
  have "(case bridge_processes (\<lambda>_. Ok ex_wires) ex_services ?cfg of Ok ps \<Rightarrow> ps = ?procs | _ \<Rightarrow> False)" by code_simp
  then have "bridge_processes (\<lambda>_. Ok ex_wires) ex_services ?cfg = Ok ?procs" by (simp split: result.splits)
  from bridge_container_names [OF this, of "[]"]
  have "distinct (map ct_Name (bridge_containers ex_services ?cfg [] ?procs))" by blast
  moreover have "map ct_Name (bridge_containers ex_services ?cfg [] ?procs) = map ct_Name (bridge_containers ex_services empty_config [] ?procs)"
    by (simp add: bridge_containers_def)
  moreover have "map ct_Name (bridge_containers ex_services empty_config [] ?procs) = [''r1'', ''r1-client-eth1'']" by code_simp
  ultimately show ?thesis by simp
qed

end
