(* ===== verification/Vendor_Pods.thy ===== *)
theory Vendor_Pods
  imports Vendor_Forward Vendor_Cisco Vendor_Proxy
begin

text \<open>
  The pods of the node types that write their own: alpine, sonic, ciena and cisco, and the creation of a proxy.
  Decoding the vendor data is an argument.
\<close>

section \<open>alpine\<close>

datatype file_data = File_Data string | File_File string | File_Unset

record alpine_container =
  ac_Name :: string
  ac_Image :: string
  ac_Command :: "string list"
  ac_Args :: "string list"

record alpine_config =
  al_Containers :: "alpine_container list"
  al_MountDir :: string
  al_Files :: "(string, file_data) gomap"

fun file_contents :: "'w os \<Rightarrow> string \<Rightarrow> file_data \<Rightarrow> ('w, string) act" where
  "file_contents F bp (File_File f) = os_ReadFile F (filepath_Join [bp, f])"
| "file_contents F bp (File_Data d) = aret d"
| "file_contents F bp File_Unset = aret []"

fun files_data :: "'w os \<Rightarrow> string \<Rightarrow> (string, file_data) gomap \<Rightarrow> (string, string) gomap \<Rightarrow> ('w, (string, string) gomap) act" where
  "files_data F bp [] m = aret m"
| "files_data F bp ((name, data) # rest) m =
     abind (file_contents F bp data) (\<lambda>contents. files_data F bp rest (put name contents m))"

definition files_name :: "node \<Rightarrow> string" where
  "files_name pb = n_Name pb @ ''-files''"

text \<open>The config map with the extra files; its value is the mounts and volumes it adds.\<close>

definition alpine_files ::
  "'w kube \<Rightarrow> 'w os \<Rightarrow> string \<Rightarrow> string \<Rightarrow> node \<Rightarrow> alpine_config \<Rightarrow> ('w, volume_mount list \<times> volume list) act" where
  "alpine_files K F ns bp pb acfg =
     (if al_Files acfg = [] then aret ([], [])
      else abind (files_data F bp (al_Files acfg) []) (\<lambda>data.
        abind (api_Create (k_ConfigMaps K) ns \<lparr>cm_Name = files_name pb, cm_Data = data\<rparr>) (\<lambda>_.
          aret ([\<lparr>vm_Name = ''files'', vm_MountPath = al_MountDir acfg, vm_SubPath = [], vm_ReadOnly = False\<rparr>],
                [\<lparr>vol_Name = ''files'', vol_Source = VS_ConfigMap (files_name pb)\<rparr>]))))"

definition custom_container ::
  "node \<Rightarrow> config \<Rightarrow> (string, string) gomap \<Rightarrow> volume_mount list \<Rightarrow> alpine_container \<Rightarrow> container" where
  "custom_container pb cfg reqs mounts c =
     (node_container pb cfg reqs)\<lparr>ct_Name := ac_Name c, ct_Image := ac_Image c, ct_Command := ac_Command c,
       ct_Args := ac_Args c, ct_Mounts := mounts\<rparr>"

definition alpine_extras ::
  "'w kube \<Rightarrow> 'w os \<Rightarrow> (string \<Rightarrow> alpine_config result) \<Rightarrow> string \<Rightarrow> string \<Rightarrow> node \<Rightarrow> config \<Rightarrow> (string, string) gomap \<Rightarrow>
   ('w, container list \<times> volume list) act" where
  "alpine_extras K F unmarshal ns bp pb cfg reqs =
     (case cfg_VendorData cfg of
        None \<Rightarrow> aret ([], [])
      | Some data \<Rightarrow>
          abind (alift (unmarshal data)) (\<lambda>acfg.
          abind (alpine_files K F ns bp pb acfg) (\<lambda>(mounts, vols).
            aret (map (custom_container pb cfg reqs mounts) (al_Containers acfg), vols))))"

text \<open>The flag that alpine and sonic add to every container if there is a configuration.\<close>

definition config_flag :: "config \<Rightarrow> pod \<Rightarrow> pod" where
  "config_flag cfg p =
     (if cfg_ConfigData cfg = None then p
      else p\<lparr>pd_Containers := map (\<lambda>c. c\<lparr>ct_Args := ct_Args c @
               [''--config_file='' @ cfg_ConfigPath cfg @ ''/'' @ cfg_ConfigFile cfg]\<rparr>) (pd_Containers p)\<rparr>)"

definition privileged_init :: "node \<Rightarrow> config \<Rightarrow> container" where
  "privileged_init pb cfg = (init_container pb cfg (length (n_Interfaces pb)) [''1''])\<lparr>ct_Security := Some privileged\<rparr>"

definition alpine_CreatePod ::
  "'w kube \<Rightarrow> 'w os \<Rightarrow> (string \<Rightarrow> bool) \<Rightarrow> (string \<Rightarrow> alpine_config result) \<Rightarrow> string \<Rightarrow> string \<Rightarrow> node \<Rightarrow> ('w, unit) act" where
  "alpine_CreatePod K F quantity unmarshal ns bp pb =
     (case n_Config pb of
        None \<Rightarrow> apanic ''nil config''
      | Some cfg \<Rightarrow>
          abind (alift (ToResourceRequirements quantity (n_Constraints pb))) (\<lambda>reqs.
          abind (alpine_extras K F unmarshal ns bp pb cfg reqs) (\<lambda>(extra, vols).
          abind (attach_config K F ns bp pb cfg
                   (node_pod ns pb [privileged_init pb cfg] (node_container pb cfg reqs # extra))) (\<lambda>p.
          let p' = config_flag cfg p in
          abind (api_Create (k_Pods K) ns (p'\<lparr>pd_Volumes := pd_Volumes p' @ vols\<rparr>)) (\<lambda>_. aret ())))))"

definition alpine_Create ::
  "'w kube \<Rightarrow> 'w os \<Rightarrow> (string \<Rightarrow> ('w, int) act) \<Rightarrow> (string \<Rightarrow> bool) \<Rightarrow> (string \<Rightarrow> alpine_config result) \<Rightarrow> string \<Rightarrow> string \<Rightarrow>
   node \<Rightarrow> ('w, unit) act" where
  "alpine_Create K F kval quantity unmarshal ns bp =
     create_with kval (alpine_CreatePod K F quantity unmarshal ns bp) (CreateService K ns)"

section \<open>sonic\<close>

definition sonic_CreatePod ::
  "'w kube \<Rightarrow> 'w os \<Rightarrow> (string \<Rightarrow> bool) \<Rightarrow> string \<Rightarrow> string \<Rightarrow> node \<Rightarrow> ('w, unit) act" where
  "sonic_CreatePod K F quantity ns bp pb =
     (case n_Config pb of
        None \<Rightarrow> apanic ''nil config''
      | Some cfg \<Rightarrow>
          abind (alift (ToResourceRequirements quantity (n_Constraints pb))) (\<lambda>reqs.
          abind (attach_config K F ns bp pb cfg
                   (node_pod ns pb [privileged_init pb cfg]
                      [(node_container pb cfg reqs)\<lparr>ct_Probe := ServiceReadinessProbe pb\<rparr>])) (\<lambda>p.
          abind (api_Create (k_Pods K) ns (config_flag cfg p)) (\<lambda>_. aret ()))))"

definition sonic_Create ::
  "'w kube \<Rightarrow> 'w os \<Rightarrow> (string \<Rightarrow> ('w, int) act) \<Rightarrow> (string \<Rightarrow> bool) \<Rightarrow> string \<Rightarrow> string \<Rightarrow> node \<Rightarrow> ('w, unit) act" where
  "sonic_Create K F kval quantity ns bp = create_with kval (sonic_CreatePod K F quantity ns bp) (CreateService K ns)"

section \<open>ciena\<close>

record ciena_config =
  ci_MountDir :: string
  ci_EquipmentJson :: string

definition equipment_name :: "node \<Rightarrow> string" where
  "equipment_name pb = n_Name pb @ ''-file''"

definition ciena_equipment ::
  "'w kube \<Rightarrow> 'w os \<Rightarrow> (string \<Rightarrow> ciena_config result) \<Rightarrow> string \<Rightarrow> string \<Rightarrow> node \<Rightarrow> config \<Rightarrow>
   ('w, volume_mount list \<times> volume list) act" where
  "ciena_equipment K F unmarshal ns bp pb cfg =
     (case cfg_VendorData cfg of
        None \<Rightarrow> aret ([], [])
      | Some data \<Rightarrow>
          abind (alift (unmarshal data)) (\<lambda>ccfg.
          abind (os_ReadFile F (filepath_Join [bp, ci_EquipmentJson ccfg])) (\<lambda>contents.
          abind (api_Create (k_ConfigMaps K) ns \<lparr>cm_Name = equipment_name pb, cm_Data = [(''setup.json'', contents)]\<rparr>) (\<lambda>_.
            aret ([\<lparr>vm_Name = ''equipment-file'', vm_MountPath = dflt ''/'' (ci_MountDir ccfg) @ ''/setup.json'',
                    vm_SubPath = ''setup.json'', vm_ReadOnly = True\<rparr>],
                  [\<lparr>vol_Name = ''equipment-file'', vol_Source = VS_ConfigMap (equipment_name pb)\<rparr>])))))"

definition ciena_CreatePod ::
  "'w kube \<Rightarrow> 'w os \<Rightarrow> (string \<Rightarrow> bool) \<Rightarrow> (string \<Rightarrow> ciena_config result) \<Rightarrow> string \<Rightarrow> string \<Rightarrow> node \<Rightarrow> ('w, unit) act" where
  "ciena_CreatePod K F quantity unmarshal ns bp pb =
     (case n_Config pb of
        None \<Rightarrow> apanic ''nil config''
      | Some cfg \<Rightarrow>
          abind (ciena_equipment K F unmarshal ns bp pb cfg) (\<lambda>(mounts, vols).
          abind (alift (ToResourceRequirements quantity (n_Constraints pb))) (\<lambda>reqs.
          abind (attach_config K F ns bp pb cfg
                   (add_labels pb ((node_pod ns pb []
                      [(node_container pb cfg reqs)\<lparr>ct_Probe := ServiceReadinessProbe pb, ct_Mounts := mounts\<rparr>])
                        \<lparr>pd_Volumes := vols\<rparr>))) (\<lambda>p.
            abind (amap_err (Errorw ''failed to create pod for %q: %w'' [n_Name pb]) (api_Create (k_Pods K) ns p))
              (\<lambda>_. aret ())))))"

definition ciena_Create ::
  "'w kube \<Rightarrow> 'w os \<Rightarrow> (string \<Rightarrow> ('w, int) act) \<Rightarrow> (string \<Rightarrow> bool) \<Rightarrow> (string \<Rightarrow> ciena_config result) \<Rightarrow> string \<Rightarrow> string \<Rightarrow>
   node \<Rightarrow> ('w, unit) act" where
  "ciena_Create K F kval quantity unmarshal ns bp pb =
     abind (ValidateConstraints kval pb) (\<lambda>(pb', r).
     abind (amap_err (Errorw ''node %s failed to validate node with errors: %w'' [n_Name pb]) (alift r)) (\<lambda>_.
     abind (amap_err (Errorw ''node %s failed to create pod %w'' [n_Name pb])
              (ciena_CreatePod K F quantity unmarshal ns bp pb')) (\<lambda>_.
       amap_err (Errorw ''node %s failed to create service %w'' [n_Name pb]) (CreateService K ns pb'))))"

text \<open>The equipment file's config map is deleted first; an error there is only logged.\<close>

definition ciena_Delete :: "'w kube \<Rightarrow> 'w os \<Rightarrow> string \<Rightarrow> node \<Rightarrow> ('w, unit) act" where
  "ciena_Delete K F ns pb =
     abind (atry (api_Delete (k_ConfigMaps K) ns (equipment_name pb))) (\<lambda>_. Delete K F ns pb)"

section \<open>cisco\<close>

definition validateHostConstraints :: "(string \<Rightarrow> ('w, int) act) \<Rightarrow> node \<Rightarrow> bool \<Rightarrow> ('w, node) act" where
  "validateHostConstraints kval pb skipValidation =
     (if skipValidation then aret pb
      else abind (ValidateConstraints kval pb) (\<lambda>(pb', r).
        abind (amap_err (Errorv ''host constraints validation failed for node %s with error %s'' [n_Name pb]) (alift r))
          (\<lambda>_. aret pb')))"

definition xrd_security :: sec_context where
  "xrd_security = privileged\<lparr>sc_User := Some 0, sc_AddCaps := [''SYS_ADMIN'']\<rparr>"

definition run_mount_name :: "node \<Rightarrow> string" where
  "run_mount_name pb = n_Name pb @ ''-run-mount''"

definition cisco_pod :: "string \<Rightarrow> node \<Rightarrow> config \<Rightarrow> (string, string) gomap \<Rightarrow> pod" where
  "cisco_pod ns pb cfg reqs =
     (let xrd = (n_Model pb = ''xrd'') in
      add_labels pb ((node_pod ns pb []
        [(node_container pb cfg reqs)\<lparr>
           ct_TTY := xrd, ct_Stdin := xrd, ct_Security := Some (if xrd then xrd_security else privileged),
           ct_Probe := ServiceReadinessProbe pb,
           ct_Mounts := [\<lparr>vm_Name = run_mount_name pb, vm_MountPath = ''/run'', vm_SubPath = [], vm_ReadOnly = False\<rparr>]\<rparr>])
        \<lparr>pd_Volumes := [\<lparr>vol_Name = run_mount_name pb, vol_Source = VS_EmptyDir ''Memory''\<rparr>]\<rparr>))"

text \<open>The script of the init container, with the paths filled in.\<close>

definition gateway_lines :: "string \<Rightarrow> string \<Rightarrow> string \<Rightarrow> string list" where
  \<open>gateway_lines v target file =
     (let esc = [CHR 0x5C] @ ''n'' in
      [''GW'' @ v @ ''=$(ip -'' @ v @ '' route show default 2>/dev/null | awk '{print $3}' | head -n1)'',
       ''if [ -n "$GW'' @ v @ ''" ]; then'',
       ''  printf '' @ [CHR 0x27] @ esc @ ''router static'' @ esc @ '' address-family ipv'' @ v @ '' unicast'' @ esc @
         ''  '' @ target @ '' %s'' @ esc @ '' !'' @ esc @ ''!'' @ esc @ [CHR 0x27] @ '' "$GW'' @ v @ ''" >> '' @ file,
       ''fi''])\<close>

definition initScript :: "string \<Rightarrow> string \<Rightarrow> string \<Rightarrow> string" where
  \<open>initScript dst src configFile =
     concat (map (\<lambda>l. l @ newline)
       ([[], ''/entrypoint.sh "$1" "$2"'', ''mkdir -p '' @ dst,
         ''if [ -f '' @ src @ ''/'' @ configFile @ '' ]; then'',
         ''  cp '' @ src @ ''/'' @ configFile @ '' '' @ dst @ ''/'' @ configFile,
         ''else'',
         ''  touch '' @ dst @ ''/'' @ configFile,
         ''fi''] @
        gateway_lines ''4'' ''0.0.0.0/0'' (dst @ ''/'' @ configFile) @
        gateway_lines ''6'' ''::/0'' (dst @ ''/'' @ configFile)))\<close>

definition xrd_source_volume :: string where
  "xrd_source_volume = ''startup-config-src-volume''"

text \<open>
  XRd and Junos: the configuration volume is an empty directory that the init container fills with a script; the
  config map or file that \<open>CreateConfig\<close> returns is mounted for the init container under another volume name.
\<close>

definition script_volumes ::
  "(string \<Rightarrow> string \<Rightarrow> string \<Rightarrow> string) \<Rightarrow> string \<Rightarrow> 'w kube \<Rightarrow> 'w os \<Rightarrow> string \<Rightarrow> string \<Rightarrow> node \<Rightarrow> config \<Rightarrow> pod \<Rightarrow> ('w, pod) act" where
  "script_volumes script dflt_file K F ns bp pb cfg p =
     (let configFile = dflt dflt_file (cfg_ConfigFile cfg);
          vm = \<lparr>vm_Name = ConfigVolumeName, vm_MountPath = cfg_ConfigPath cfg @ ''/'' @ configFile,
                vm_SubPath = configFile, vm_ReadOnly = True\<rparr>;
          dst = \<lparr>vm_Name = ConfigVolumeName, vm_MountPath = ''/config-dst'', vm_SubPath = [], vm_ReadOnly = False\<rparr>;
          src = \<lparr>vm_Name = xrd_source_volume, vm_MountPath = ''/config-src'', vm_SubPath = [], vm_ReadOnly = True\<rparr>
      in abind (CreateConfig K F ns bp pb) (\<lambda>vo.
        let vols = (case vo of None \<Rightarrow> [] | Some vol \<Rightarrow> [vol\<lparr>vol_Name := xrd_source_volume\<rparr>]);
            mounts = dst # (case vo of None \<Rightarrow> [] | Some _ \<Rightarrow> [src])
        in aret (p\<lparr>
             pd_Volumes := pd_Volumes p @ \<lparr>vol_Name = ConfigVolumeName, vol_Source = VS_EmptyDir []\<rparr> # vols,
             pd_Containers := mount_all vm (pd_Containers p),
             pd_InitContainers := [empty_container\<lparr>ct_Name := ''init-'' @ n_Name pb, ct_Image := init_image cfg,
               ct_Command := [''/bin/sh'', ''-c''],
               ct_Args := [script ''/config-dst'' ''/config-src'' configFile, ''init'',
                  nat_to_str (length (n_Interfaces pb) + 1), itoa (uint (cfg_Sleep cfg))],
               ct_Mounts := mounts\<rparr>]\<rparr>)))"

definition xrd_volumes ::
  "'w kube \<Rightarrow> 'w os \<Rightarrow> string \<Rightarrow> string \<Rightarrow> node \<Rightarrow> config \<Rightarrow> pod \<Rightarrow> ('w, pod) act" where
  "xrd_volumes = script_volumes initScript ''startup.cfg''"

definition cisco_Create ::
  "'w kube \<Rightarrow> 'w os \<Rightarrow> (string \<Rightarrow> ('w, int) act) \<Rightarrow> bool \<Rightarrow> (string \<Rightarrow> bool) \<Rightarrow> string \<Rightarrow> string \<Rightarrow> node \<Rightarrow> ('w, unit) act" where
  "cisco_Create K F kval skipValidation quantity ns bp pb0 =
     abind (validateHostConstraints kval pb0 skipValidation) (\<lambda>pb.
     case n_Config pb of
       None \<Rightarrow> apanic ''nil config''
     | Some cfg \<Rightarrow>
         abind (alift (ToResourceRequirements quantity (n_Constraints pb))) (\<lambda>reqs.
         abind (let p = cisco_pod ns pb cfg reqs in
                if n_Model pb = ''xrd'' then xrd_volumes K F ns bp pb cfg p
                else attach_config K F ns bp pb cfg
                       (p\<lparr>pd_InitContainers := [init_container pb cfg (length (n_Interfaces pb)) []]\<rparr>)) (\<lambda>p.
         abind (amap_err (Errorw ''failed to create pod for %q: %w'' [n_Name pb]) (api_Create (k_Pods K) ns p)) (\<lambda>_.
           CreateService K ns pb))))"

section \<open>inclusterproxy\<close>

definition proxy_Create ::
  "'w kube \<Rightarrow> 'w os \<Rightarrow> (string \<Rightarrow> bool) \<Rightarrow> string \<Rightarrow> string \<Rightarrow> node \<Rightarrow> ('w, unit) act" where
  "proxy_Create K F quantity ns bp pb = abind (alift (validate pb)) (\<lambda>_. Create K F quantity ns bp pb)"

section \<open>The configuration of an XRd node stays behind\<close>

definition ex_xrd :: node where
  "ex_xrd = empty_node\<lparr>n_Name := ''r1'', n_Model := ''xrd'', n_Vendor := V_CISCO, n_Config := Some (empty_config\<lparr>
     cfg_ConfigFile := ''startup.cfg'', cfg_ConfigPath := ''/'', cfg_ConfigData := Some (Config_Data ''hostname r1'')\<rparr>)\<rparr>"

definition ex_xrd_deleted :: "unit result \<times> mem_world" where
  "ex_xrd_deleted =
     Delete mem_kube mem_os ''topo'' ex_xrd
       (snd (cisco_Create mem_kube mem_os (\<lambda>_. aret 0) False (\<lambda>_. True) ''topo'' ''/base'' ex_xrd mem_empty))"

text \<open>
  \<open>DeleteConfig\<close> looks for the volume by its name, which XRd gives to the empty directory: the config map
  that holds the boot configuration survives the node's deletion, which reports no error.
\<close>

lemma xrd_config_left_behind:
  "fst ex_xrd_deleted = Ok () \<and> mem_pods (snd ex_xrd_deleted) (''topo'', ''r1'') = None \<and>
   mem_config_maps (snd ex_xrd_deleted) (''topo'', ''r1-config'') =
     Some \<lparr>cm_Name = ''r1-config'', cm_Data = [(''startup.cfg'', ''hostname r1'')]\<rparr>"
proof -
  have "is_Ok (fst ex_xrd_deleted) \<and> Option.is_none (mem_pods (snd ex_xrd_deleted) (''topo'', ''r1'')) \<and>
    (case mem_config_maps (snd ex_xrd_deleted) (''topo'', ''r1-config'') of
       Some c \<Rightarrow> cm_Name c = ''r1-config'' \<and> cm_Data c = [(''startup.cfg'', ''hostname r1'')] | None \<Rightarrow> False)"
    by code_simp
  then show ?thesis by (auto simp: is_Ok_iff Option.is_none_def split: option.splits)
qed

end
