(* ===== verification/Topo_Status.thy ===== *)
theory Topo_Status
  imports Node_Pod
begin

text \<open>
  How \<open>topo/topo.go\<close> waits for a topology: the readiness of the cluster's nodes, the polling loops over node
  status and services with their timeouts, and the state that \<open>Show\<close> reports. Time, sleeping and the
  cancellation of the context are operations of the environment. A polling loop takes fuel; with a timeout
  and a clock that advances while the loop sleeps, it needs only as much as the timeout allows rounds.
\<close>

section \<open>Readiness of cluster nodes\<close>

record cluster_node =
  cn_Name :: string
  cn_Conditions :: "condition list"
  cn_Taints :: "string list"

definition fatal_taints :: "string list" where
  "fatal_taints = [''node.kubernetes.io/not-ready'', ''node.kubernetes.io/network-unavailable'', ''node.kubernetes.io/unreachable'']"

definition isNodeReady :: "cluster_node \<Rightarrow> bool" where
  "isNodeReady n \<longleftrightarrow> (''Ready'', ''True'') \<in> set (cn_Conditions n) \<and> list_all (\<lambda>t. t \<notin> set fatal_taints) (cn_Taints n)"

text \<open>The environment of a waiting loop: the clock in nanoseconds, and waiting for a duration or the context.\<close>

record 'w clock =
  ck_Now :: "('w, int) act"
  ck_Sleep :: "int \<Rightarrow> ('w, unit) act"
  ck_CtxErr :: "('w, err option) act"
  ck_Wait :: "int \<Rightarrow> ('w, err option) act"

definition Second :: int where "Second = 1000000000"
definition Minute :: int where "Minute = 60 * Second"
definition pollInterval :: int where "pollInterval = 500000000"

fun wait_ready_loop :: "nat \<Rightarrow> 'w clock \<Rightarrow> ('w, cluster_node list) act \<Rightarrow> 'w \<Rightarrow> (unit result \<times> 'w) option" where
  "wait_ready_loop 0 ck list_nodes w = None"
| "wait_ready_loop (Suc fuel) ck list_nodes w =
     (case list_nodes w of
        (Error e, w1) \<Rightarrow> Some (Error (Errorw ''failed to list cluster nodes: %w'' [] e), w1)
      | (Panic p, w1) \<Rightarrow> Some (Panic p, w1)
      | (Ok ns, w1) \<Rightarrow>
          (let unready = map cn_Name (filter (\<lambda>n. \<not> isNodeReady n) ns) in
           if ns = [] then Some (Ok (), w1)
           else if unready = [] then Some (Ok (), w1)
           else (case ck_Wait ck Second w1 of
                   (Ok None, w2) \<Rightarrow> wait_ready_loop fuel ck list_nodes w2
                 | (Ok (Some e), w2) \<Rightarrow>
                     Some (Error (Errorw ''context canceled waiting for cluster nodes to be ready (%v not ready): %w'' unready e), w2)
                 | (Error e, w2) \<Rightarrow> Some (Error e, w2)
                 | (Panic p, w2) \<Rightarrow> Some (Panic p, w2))))"

text \<open>A manager without a client (\<open>None\<close>) has nothing to wait for.\<close>

definition waitClusterReady ::
  "nat \<Rightarrow> 'w clock \<Rightarrow> ('w, cluster_node list) act option \<Rightarrow> 'w \<Rightarrow> (unit result \<times> 'w) option" where
  "waitClusterReady fuel ck kClient w =
     (case kClient of None \<Rightarrow> Some (Ok (), w) | Some list_nodes \<Rightarrow> wait_ready_loop fuel ck list_nodes w)"

section \<open>Polling\<close>

text \<open>
  \<open>for (timeout == 0 || time.Since(start) < timeout) && !foundAll\<close>: a round gives the new state and whether
  everything was found; between two rounds the loop pauses.
\<close>

fun poll ::
  "nat \<Rightarrow> 'w clock \<Rightarrow> int \<Rightarrow> int \<Rightarrow> ('s \<Rightarrow> ('w, 's \<times> bool) act) \<Rightarrow> ('w, unit) act \<Rightarrow> 's \<Rightarrow> 'w \<Rightarrow>
   (('s \<times> bool) result \<times> 'w) option" where
  "poll 0 ck start timeout round pause s w = None"
| "poll (Suc fuel) ck start timeout round pause s w =
     (case (if timeout = 0 then aret True else abind (ck_Now ck) (\<lambda>t. aret (t - start < timeout))) w of
        (Error e, w1) \<Rightarrow> Some (Error e, w1)
      | (Panic p, w1) \<Rightarrow> Some (Panic p, w1)
      | (Ok False, w1) \<Rightarrow> Some (Ok (s, False), w1)
      | (Ok True, w1) \<Rightarrow>
          (case round s w1 of
             (Error e, w2) \<Rightarrow> Some (Error e, w2)
           | (Panic p, w2) \<Rightarrow> Some (Panic p, w2)
           | (Ok (s', True), w2) \<Rightarrow> Some (Ok (s', True), w2)
           | (Ok (s', False), w2) \<Rightarrow>
               (case pause w2 of
                  (Error e, w3) \<Rightarrow> Some (Error e, w3)
                | (Panic p, w3) \<Rightarrow> Some (Panic p, w3)
                | (Ok _, w3) \<Rightarrow> poll fuel ck start timeout round pause s' w3)))"

text \<open>The results of one round of goroutines, in the order in which they arrive.\<close>

fun gather :: "(string \<Rightarrow> ('w, 'a) act) \<Rightarrow> string list \<Rightarrow> ('w, (string \<times> 'a result) list) act" where
  "gather f [] = aret []"
| "gather f (n # ns) = abind (atry (f n)) (\<lambda>r. abind (gather f ns) (\<lambda>rs. aret ((n, r) # rs)))"

section \<open>Node status\<close>

fun status_String :: "node_status \<Rightarrow> string" where
  "status_String StatusPending = ''PENDING''"
| "status_String StatusRunning = ''RUNNING''"
| "status_String StatusFailed = ''FAILED''"
| "status_String StatusUnknown = ''UNKNOWN''"

text \<open>One result: an error or a failed node ends the check, a running node is processed, any other is not.\<close>

definition note_status :: "string list \<times> bool \<Rightarrow> string \<times> node_status result \<Rightarrow> (string list \<times> bool) result" where
  "note_status acc res =
     (case (acc, res) of ((processed, foundAll), (name, r)) \<Rightarrow>
        (case r of
           Error e \<Rightarrow> Error (Errorv ''node %s: status %s reason %v'' [name] e)
         | Panic p \<Rightarrow> Panic p
         | Ok phase \<Rightarrow>
             if phase = StatusFailed then Error (Errorf ''node %s: status %s reason %v'' [name, status_String phase])
             else if phase = StatusRunning then Ok (name # processed, foundAll)
             else Ok (processed, False)))"

definition status_round ::
  "(string \<Rightarrow> ('w, node_status) act) \<Rightarrow> string list \<Rightarrow> string list \<Rightarrow> ('w, string list \<times> bool) act" where
  "status_round status names processed =
     abind (gather status (filter (\<lambda>n. n \<notin> set processed) names)) (\<lambda>rs.
       alift (foldM note_status (processed, True) rs))"

text \<open>The value is the list of the nodes that were not found, which the code logs.\<close>

definition pending :: "string list \<Rightarrow> string list \<times> bool \<Rightarrow> string list" where
  "pending names res = (if snd res then [] else sort (filter (\<lambda>n. n \<notin> set (fst res)) names))"

definition checkNodeStatus ::
  "nat \<Rightarrow> 'w clock \<Rightarrow> (string \<Rightarrow> ('w, node_status) act) \<Rightarrow> string list \<Rightarrow> int \<Rightarrow> 'w \<Rightarrow> (string list result \<times> 'w) option" where
  "checkNodeStatus fuel ck status names timeout w =
     (case ck_Now ck w of
        (Error e, w1) \<Rightarrow> Some (Error e, w1)
      | (Panic p, w1) \<Rightarrow> Some (Panic p, w1)
      | (Ok start, w1) \<Rightarrow>
          map_option (\<lambda>(r, w'). (rbind r (\<lambda>res. Ok (pending names res)), w'))
            (poll fuel ck start timeout (status_round status names) (ck_Sleep ck pollInterval) [] w1))"

section \<open>Service status\<close>

definition defaultServiceTimeout :: int where
  "defaultServiceTimeout = 2 * Minute"

definition minServiceTimeout :: int where
  "minServiceTimeout = 30 * Second"

definition calculateServiceTimeout :: "int \<Rightarrow> int \<Rightarrow> int" where
  "calculateServiceTimeout timeout elapsed =
     (if timeout = 0 then defaultServiceTimeout
      else (let floor = (if timeout < minServiceTimeout then timeout else minServiceTimeout);
                rem = wrap64 (timeout - elapsed) in
            if rem < floor then floor else rem))"

definition note_ready :: "string list \<times> bool \<Rightarrow> string \<times> bool result \<Rightarrow> (string list \<times> bool) result" where
  "note_ready acc res =
     (case (acc, res) of ((processed, foundAll), (name, r)) \<Rightarrow>
        (case r of
           Error e \<Rightarrow> Error (Errorw ''node %s: service check failed: %w'' [name] e)
         | Panic p \<Rightarrow> Panic p
         | Ok True \<Rightarrow> Ok (name # processed, foundAll)
         | Ok False \<Rightarrow> Ok (processed, False)))"

text \<open>A node without services counts as processed.\<close>

definition service_round ::
  "'w clock \<Rightarrow> (string \<Rightarrow> bool) \<Rightarrow> (string \<Rightarrow> ('w, bool) act) \<Rightarrow> string list \<Rightarrow> string list \<Rightarrow> ('w, string list \<times> bool) act" where
  "service_round ck has_services ready names processed =
     abind (ck_CtxErr ck) (\<lambda>eo. case eo of
       Some e \<Rightarrow> aerr e
     | None \<Rightarrow>
         (let open_names = filter (\<lambda>n. n \<notin> set processed) names;
              processed' = filter (\<lambda>n. \<not> has_services n) open_names @ processed in
          abind (gather ready (filter has_services open_names)) (\<lambda>rs.
            alift (foldM note_ready (processed', True) rs))))"

definition service_pause :: "'w clock \<Rightarrow> ('w, unit) act" where
  "service_pause ck =
     abind (ck_Wait ck pollInterval) (\<lambda>eo. case eo of
       Some e \<Rightarrow> aerr (Errorw ''context canceled waiting for services: %w'' [] e)
     | None \<Rightarrow> aret ())"

definition checkServiceStatus ::
  "nat \<Rightarrow> 'w clock \<Rightarrow> (string \<Rightarrow> bool) \<Rightarrow> (string \<Rightarrow> ('w, bool) act) \<Rightarrow> string list \<Rightarrow> int \<Rightarrow> 'w \<Rightarrow>
   (string list result \<times> 'w) option" where
  "checkServiceStatus fuel ck has_services ready names timeout w =
     (case ck_Now ck w of
        (Error e, w1) \<Rightarrow> Some (Error e, w1)
      | (Panic p, w1) \<Rightarrow> Some (Panic p, w1)
      | (Ok start, w1) \<Rightarrow>
          map_option (\<lambda>(r, w'). (rbind r (\<lambda>res. Ok (pending names res)), w'))
            (poll fuel ck start timeout (service_round ck has_services ready names) (service_pause ck) [] w1))"

section \<open>The reported state\<close>

type_synonym state_map = "(string, node_status) gomap"

definition setNodeState :: "state_map \<Rightarrow> string \<Rightarrow> node_status \<Rightarrow> state_map" where
  "setNodeState m name state = put name state m"

datatype topology_state = TS_UNSPECIFIED | TS_CREATING | TS_RUNNING | TS_ERROR

definition count_state :: "state_map \<Rightarrow> node_status \<Rightarrow> nat" where
  "count_state m st = length (filter (\<lambda>(_, s). s = st) m)"

definition topologyState :: "state_map \<Rightarrow> topology_state" where
  "topologyState m =
     (if m = [] then TS_UNSPECIFIED
      else if count_state m StatusRunning = length m then TS_RUNNING
      else if count_state m StatusFailed > 0 then TS_ERROR
      else if count_state m StatusPending > 0 then TS_CREATING
      else TS_UNSPECIFIED)"

definition updateServicePortName :: "service \<Rightarrow> u32 \<Rightarrow> service" where
  "updateServicePortName s port =
     (let names = filter (\<lambda>n. n \<noteq> []) (svc_Names s); s' = s\<lparr>svc_Names := names\<rparr> in
      if svc_Name s = [] \<and> names \<noteq> [] then s'\<lparr>svc_Name := hd names\<rparr>
      else if svc_Name s = [] then s'\<lparr>svc_Name := ''port-'' @ itoa (uint port)\<rparr>
      else s')"

section \<open>Rules for the polling loop\<close>

text \<open>
  A predicate on worlds that an operation establishes and keeps; \<open>stable\<close> says that the operation, if it
  returns normally, keeps it.
\<close>

definition stable :: "('w \<Rightarrow> bool) \<Rightarrow> ('w, 'a) act \<Rightarrow> bool" where
  "stable P m \<longleftrightarrow> (\<forall>w r w'. P w \<longrightarrow> m w = (r, w') \<longrightarrow> P w')"

lemma stableD: "stable P m \<Longrightarrow> P w \<Longrightarrow> m w = (r, w') \<Longrightarrow> P w'"
  by (auto simp: stable_def)

lemma stableI: "(\<And>w r w'. P w \<Longrightarrow> m w = (r, w') \<Longrightarrow> P w') \<Longrightarrow> stable P m"
  by (auto simp: stable_def)

lemma stable_abind: "stable P m \<Longrightarrow> (\<And>x. stable P (f x)) \<Longrightarrow> stable P (abind m f)"
proof (rule stableI)
  fix w r w' assume m: "stable P m" and f: "\<And>x. stable P (f x)" and P: "P w" and run: "abind m f w = (r, w')"
  from run show "P w'"
  proof (cases rule: abind_cases)
    case (Ok x w1)
    then show ?thesis using stableD [OF m P] stableD [OF f] by blast
  qed (use stableD [OF m P] in blast)+
qed

lemma stable_atry: "stable P m \<Longrightarrow> stable P (atry m)"
proof (rule stableI)
  fix w r w' assume m: "stable P m" and P: "P w" and run: "atry m w = (r, w')"
  obtain q w1 where q: "m w = (q, w1)" by fastforce
  with run have "w1 = w'" by (cases q) (simp_all add: atry_def)
  with stableD [OF m P q] show "P w'" by simp
qed

lemma stable_aret: "stable P (aret x)" "stable P (alift r)" "stable P (aerr e)" "stable P (apanic p)"
  by (simp_all add: stable_def)

lemma stable_Ball: "(\<And>x. stable (P x) m) \<Longrightarrow> stable (\<lambda>w. \<forall>x \<in> S. P x w) m"
  by (fastforce simp: stable_def)

lemma stable_gather: "(\<And>n. stable P (f n)) \<Longrightarrow> stable P (gather f ns)"
  by (induction ns) (auto intro!: stable_abind stable_atry stable_aret)

lemma poll_sound:
  assumes now: "\<And>s. stable (I s) (ck_Now ck)"
    and round: "\<And>s w s' b w'. I s w \<Longrightarrow> round s w = (Ok (s', b), w') \<Longrightarrow> I s' w' \<and> (b \<longrightarrow> P s' w')"
    and pause: "\<And>s. stable (I s) pause"
  shows "poll fuel ck start timeout round pause s w = Some (Ok (s', b), w') \<Longrightarrow> I s w \<Longrightarrow> I s' w' \<and> (b \<longrightarrow> P s' w')"
proof (induction fuel arbitrary: s w)
  case (Suc fuel)
  let ?cond = "if timeout = 0 then aret True else abind (ck_Now ck) (\<lambda>t. aret (t - start < timeout))"
  obtain c w1 where c: "?cond w = (c, w1)" by fastforce
  have "stable (I s) ?cond" using now by (auto intro!: stable_abind stable_aret)
  then have i1: "I s w1" using Suc.prems(2) c by (rule stableD)
  obtain b1 where b1: "c = Ok b1" using Suc.prems(1) c by (cases c) simp_all
  show ?case
  proof (cases b1)
    case False
    with Suc.prems(1) c b1 have "s' = s" "b = False" "w' = w1" by simp_all
    with i1 show ?thesis by simp
  next
    case True
    obtain q w2 where q: "round s w1 = (q, w2)" by fastforce
    obtain s2 b2 where q2: "q = Ok (s2, b2)" using Suc.prems(1) c b1 True q by (cases q) (simp_all, fastforce)
    note r = round [OF i1 q [unfolded q2]]
    show ?thesis
    proof (cases b2)
      case True
      with Suc.prems(1) c b1 \<open>b1\<close> q q2 have "s' = s2" "b = True" "w' = w2" by simp_all
      with r True show ?thesis by simp
    next
      case False
      obtain d w3 where d: "pause w2 = (d, w3)" by fastforce
      have i3: "I s2 w3" using pause r d by (blast intro: stableD)
      from Suc.prems(1) c b1 \<open>b1\<close> q q2 False d have "poll fuel ck start timeout round pause s2 w3 = Some (Ok (s', b), w')"
        by (cases d) simp_all
      then show ?thesis using i3 by (rule Suc.IH)
    qed
  qed
qed simp

text \<open>With a timeout, a clock that can be read and pauses that take their time, the loop ends.\<close>

definition clock_ok :: "('w \<Rightarrow> int) \<Rightarrow> 'w clock \<Rightarrow> bool" where
  "clock_ok time ck \<longleftrightarrow>
     (\<forall>w. ck_Now ck w = (Ok (time w), w)) \<and>
     (\<forall>d w r w'. ck_Sleep ck d w = (r, w') \<longrightarrow> time w + d \<le> time w') \<and>
     (\<forall>d w w'. ck_Wait ck d w = (Ok None, w') \<longrightarrow> time w + d \<le> time w') \<and>
     (\<forall>w r w'. ck_CtxErr ck w = (r, w') \<longrightarrow> time w \<le> time w')"

lemma poll_returns:
  assumes now: "\<And>w. ck_Now ck w = (Ok (time w), w)" and t: "timeout \<noteq> 0"
    and round: "\<And>s w r w'. round s w = (r, w') \<Longrightarrow> time w \<le> time w'"
    and pause: "\<And>w u w'. pause w = (Ok u, w') \<Longrightarrow> time w + step \<le> time w'"
  shows "timeout - (time w - start) \<le> int fuel * step \<Longrightarrow>
    poll (Suc fuel) ck start timeout round pause s w \<noteq> None"
proof (induction fuel arbitrary: s w)
  case 0
  then show ?case using t by (simp add: now abind_def)
next
  case (Suc fuel)
  show ?case
  proof (cases "time w - start < timeout")
    case False
    then show ?thesis using t by (simp add: now abind_def)
  next
    case True
    obtain q w2 where q: "round s w = (q, w2)" by fastforce
    obtain d w3 where d: "pause w2 = (d, w3)" by fastforce
    have "poll (Suc fuel) ck start timeout round pause s' w3 \<noteq> None" if "d = Ok u" for s' u
    proof (rule Suc.IH)
      have "time w + step \<le> time w3" using round [OF q] pause d that by fastforce
      then show "timeout - (time w3 - start) \<le> int fuel * step" using Suc.prems by (simp add: algebra_simps)
    qed
    then show ?thesis
      unfolding poll.simps(2) [of "Suc fuel"] using True t
      by (auto simp: now abind_def q d simp del: poll.simps split: result.splits bool.splits)
  qed
qed

section \<open>Checking the nodes\<close>

text \<open>A stable fact about every node: what a status or a readiness check that succeeds tells.\<close>

lemma gather_results:
  assumes st: "\<And>m n. stable (Run m) (f n)" and est: "\<And>n w x w'. f n w = (Ok x, w') \<Longrightarrow> good x \<Longrightarrow> Run n w'"
  shows "gather f ns w = (Ok rs, w') \<Longrightarrow> map fst rs = ns \<and> (\<forall>(n, r) \<in> set rs. \<forall>x. r = Ok x \<longrightarrow> good x \<longrightarrow> Run n w')"
proof (induction ns arbitrary: w rs)
  case (Cons n ns)
  from Cons.prems obtain r w1 where r: "atry (f n) w = (Ok r, w1)"
    and "abind (gather f ns) (\<lambda>rs. aret ((n, r) # rs)) w1 = (Ok rs, w')" by (auto elim: abind_OkD)
  then obtain rs' where rs: "rs = (n, r) # rs'" and g: "gather f ns w1 = (Ok rs', w')"
    by (auto elim!: abind_OkD)
  have "Run n w'" if "r = Ok x" "good x" for x
  proof -
    have "f n w = (Ok x, w1)" using r that(1) by (auto simp: atry_def split: prod.splits result.splits)
    then have "Run n w1" using that(2) by (rule est)
    then show ?thesis using stable_gather [of "Run n" f ns] st g by (blast intro: stableD)
  qed
  with Cons.IH [OF g] show ?case by (auto simp: rs)
qed simp

lemma note_fold:
  assumes step: "\<And>ps b n r ps' b'. nt (ps, b) (n, r) = Ok (ps', b') \<Longrightarrow>
    set ps' = set ps \<union> {m. m = n \<and> good r} \<and> (b' \<longrightarrow> b \<and> good r)"
  shows "foldM nt (ps, b) rs = Ok (ps', b') \<Longrightarrow>
     set ps' = set ps \<union> {n. \<exists>r. (n, r) \<in> set rs \<and> good r} \<and> (b' \<longrightarrow> b \<and> (\<forall>(n, r) \<in> set rs. good r))"
proof (induction rs arbitrary: ps b)
  case (Cons nr rs)
  obtain n r where nr: "nr = (n, r)" by (cases nr)
  from Cons.prems obtain acc where a: "nt (ps, b) (n, r) = Ok acc" and rest: "foldM nt acc rs = Ok (ps', b')"
    by (auto simp: nr)
  obtain ps1 b1 where acc: "acc = (ps1, b1)" by (cases acc)
  from step [OF a [unfolded acc]] Cons.IH [OF rest [unfolded acc]] show ?case by (auto simp: nr)
qed simp

lemma note_status_step:
  "note_status (ps, b) (n, r) = Ok (ps', b') \<Longrightarrow>
     set ps' = set ps \<union> {m. m = n \<and> r = Ok StatusRunning} \<and> (b' \<longrightarrow> b \<and> r = Ok StatusRunning)"
  by (auto simp: note_status_def split: result.splits if_splits)

lemma note_ready_step:
  "note_ready (ps, b) (n, r) = Ok (ps', b') \<Longrightarrow>
     set ps' = set ps \<union> {m. m = n \<and> r = Ok True} \<and> (b' \<longrightarrow> b \<and> r = Ok True)"
  by (auto simp: note_ready_def split: result.splits if_splits bool.splits)

text \<open>One round over the names that are not processed yet, with either of the two steps.\<close>

lemma round_sound:
  assumes st: "\<And>m n. stable (Run m) (f n)"
    and est: "\<And>n w w'. f n w = (Ok v, w') \<Longrightarrow> Run n w'"
    and step: "\<And>ps b n r ps' b'. nt (ps, b) (n, r) = Ok (ps', b') \<Longrightarrow>
      set ps' = set ps \<union> {m. m = n \<and> r = Ok v} \<and> (b' \<longrightarrow> b \<and> r = Ok v)"
    and inv: "\<forall>n \<in> set ps. Run n w"
    and run: "abind (gather f ns) (\<lambda>rs. alift (foldM nt (ps, True) rs)) w = (Ok (ps', b), w')"
  shows "(\<forall>n \<in> set ps'. Run n w') \<and> set ps \<subseteq> set ps' \<and> (b \<longrightarrow> set ns \<subseteq> set ps')"
proof -
  from run obtain rs w1 where g: "gather f ns w = (Ok rs, w1)"
    and "alift (foldM nt (ps, True) rs) w1 = (Ok (ps', b), w')" by (rule abind_OkD)
  then have f: "foldM nt (ps, True) rs = Ok (ps', b)" and w: "w1 = w'" by simp_all
  from gather_results [where good = "\<lambda>x. x = v" and Run = Run, OF st _ g] est
  have rs: "map fst rs = ns" "\<forall>(n, r) \<in> set rs. r = Ok v \<longrightarrow> Run n w'" using w by auto
  have keep: "Run n w'" if "n \<in> set ps" for n
    using stable_gather [of "Run n" f] st g inv that w by (blast intro: stableD)
  note n = note_fold [where good = "\<lambda>r. r = Ok v", OF step f]
  have "\<forall>n \<in> set ps'. Run n w'" using n rs(2) keep by fastforce
  moreover have "set ns \<subseteq> set ps'" if b
    using n that by (force simp: rs(1) [symmetric])
  ultimately show ?thesis using n by blast
qed

lemma status_round_sound:
  assumes "\<And>m n. stable (Run m) (status n)" "\<And>n w w'. status n w = (Ok StatusRunning, w') \<Longrightarrow> Run n w'"
    and "\<forall>n \<in> set ps. Run n w" and "status_round status names ps w = (Ok (ps', b), w')"
  shows "(\<forall>n \<in> set ps'. Run n w') \<and> (b \<longrightarrow> set names \<subseteq> set ps')"
proof -
  have "(\<forall>n \<in> set ps'. Run n w') \<and> set ps \<subseteq> set ps' \<and> (b \<longrightarrow> set (filter (\<lambda>n. n \<notin> set ps) names) \<subseteq> set ps')"
    by (rule round_sound [where nt = note_status and Run = Run, OF _ _ _ assms(3) assms(4) [unfolded status_round_def]])
      (rule assms(1), erule assms(2), erule note_status_step)
  then show ?thesis by auto
qed

lemma service_round_sound:
  assumes st: "\<And>m n. stable (Run m) (ready n)" "\<And>m. stable (Run m) (ck_CtxErr ck)"
    and est: "\<And>n w w'. ready n w = (Ok True, w') \<Longrightarrow> Run n w'"
    and inv: "\<forall>n \<in> set ps. has_services n \<longrightarrow> Run n w"
    and run: "service_round ck has_services ready names ps w = (Ok (ps', b), w')"
  shows "(\<forall>n \<in> set ps'. has_services n \<longrightarrow> Run n w') \<and> (b \<longrightarrow> set names \<subseteq> set ps')"
proof -
  let ?open = "filter (\<lambda>n. n \<notin> set ps) names"
  let ?Run = "\<lambda>n w. has_services n \<longrightarrow> Run n w"
  from run obtain eo w1 where c: "ck_CtxErr ck w = (Ok eo, w1)"
    and k: "(case eo of Some e \<Rightarrow> aerr e | None \<Rightarrow> abind (gather ready (filter has_services ?open)) (\<lambda>rs.
        alift (foldM note_ready (filter (\<lambda>n. \<not> has_services n) ?open @ ps, True) rs))) w1 = (Ok (ps', b), w')"
    unfolding service_round_def Let_def by (rule abind_OkD)
  have eo: "eo = None" using k by (cases eo) simp_all
  have st': "stable (?Run m) (ready n)" for m n using st(1) [of m n] by (auto simp: stable_def)
  have inv': "\<forall>n \<in> set (filter (\<lambda>n. \<not> has_services n) ?open @ ps). ?Run n w1"
    using inv st(2) c by (auto intro: stableD)
  have "(\<forall>n \<in> set ps'. ?Run n w') \<and> set (filter (\<lambda>n. \<not> has_services n) ?open @ ps) \<subseteq> set ps' \<and>
      (b \<longrightarrow> set (filter has_services ?open) \<subseteq> set ps')"
    by (rule round_sound [where nt = note_ready and Run = ?Run, OF st' _ _ inv' k [unfolded eo option.case]])
      (use est in blast, erule note_ready_step)
  then show ?thesis by auto
qed

lemma pending_mem: "n \<in> set names \<Longrightarrow> n \<notin> set (pending names (ps, b)) \<Longrightarrow> b \<or> n \<in> set ps"
  by (auto simp: pending_def split: if_splits)

text \<open>The two checks are the same loop around different rounds and pauses.\<close>

lemma polled_check:
  assumes now: "\<And>w. ck_Now ck w = (Ok (time w), w)" and t: "timeout \<noteq> 0"
    and mono: "\<And>ps u r u'. round ps u = (r, u') \<Longrightarrow> time u \<le> time u'"
    and pause: "\<And>u v u'. pause u = (Ok v, u') \<Longrightarrow> time u + pollInterval \<le> time u'" "\<And>m. stable (Run m) pause"
    and round: "\<And>ps u ps' b u'. \<forall>n \<in> set ps. Run n u \<Longrightarrow> round ps u = (Ok (ps', b), u') \<Longrightarrow>
      (\<forall>n \<in> set ps'. Run n u') \<and> (b \<longrightarrow> set names \<subseteq> set ps')"
    and fuel: "timeout \<le> int fuel * pollInterval"
  shows "\<exists>r w'. map_option (\<lambda>(r, w'). (rbind r (\<lambda>res. Ok (pending names res)), w'))
      (poll (Suc fuel) ck (time w) timeout round pause [] w) = Some (r, w') \<and>
    (\<forall>pend. r = Ok pend \<longrightarrow> (\<forall>n \<in> set names. n \<in> set pend \<or> Run n w'))"
proof -
  let ?poll = "poll (Suc fuel) ck (time w) timeout round pause [] w"
  have "?poll \<noteq> None" by (rule poll_returns [OF now t mono pause(1)]) (use fuel in simp_all)
  then obtain r w' where p: "?poll = Some (r, w')" by auto
  have "n \<in> set (pending names res) \<or> Run n w'" if "r = Ok res" "n \<in> set names" for res n
  proof -
    obtain ps b where res: "res = (ps, b)" by (cases res)
    have "(\<forall>n \<in> set ps. Run n w') \<and> (b \<longrightarrow> set names \<subseteq> set ps)"
    proof (rule poll_sound [where I = "\<lambda>ps w. \<forall>n \<in> set ps. Run n w" and P = "\<lambda>ps w. set names \<subseteq> set ps"])
      show "?poll = Some (Ok (ps, b), w')" using p that(1) res by simp
      show "stable (\<lambda>w. \<forall>n \<in> set ps. Run n w) (ck_Now ck)" for ps by (simp add: stable_def now)
      show "stable (\<lambda>w. \<forall>n \<in> set ps. Run n w) pause" for ps by (rule stable_Ball [OF pause(2)])
    qed (use round in simp_all)
    then show ?thesis using pending_mem [of n names ps b] that(2) res by auto
  qed
  with p show ?thesis by (auto simp del: poll.simps)
qed

text \<open>
  C11. \<open>checkNodeStatus\<close> with a timeout returns, and a node that it does not report as pending has run. The
  number of rounds is bounded by the timeout divided by the polling interval. \<open>Run\<close> is any fact that a
  running status establishes and that nothing undoes, such as that the node has been seen running.
\<close>

theorem checkNodeStatus_sound:
  assumes clock: "clock_ok time ck" and t: "timeout \<noteq> 0"
    and mono: "\<And>n w r w'. status n w = (r, w') \<Longrightarrow> time w \<le> time w'"
    and st: "\<And>m n. stable (Run m) (status n)" "\<And>m. stable (Run m) (ck_Sleep ck pollInterval)"
    and est: "\<And>n w w'. status n w = (Ok StatusRunning, w') \<Longrightarrow> Run n w'"
    and fuel: "timeout \<le> int fuel * pollInterval"
  shows "\<exists>r w'. checkNodeStatus (Suc fuel) ck status names timeout w = Some (r, w') \<and>
    (\<forall>pend. r = Ok pend \<longrightarrow> (\<forall>n \<in> set names. n \<in> set pend \<or> Run n w'))"
proof -
  have now: "ck_Now ck w = (Ok (time w), w)" for w using clock by (simp add: clock_ok_def)
  have gm: "stable (\<lambda>w'. time w0 \<le> time w') (status_round status names ps)" for w0 ps
    unfolding status_round_def by (intro stable_abind stable_gather stable_aret, rule stableI, erule order_trans, erule mono)
  show ?thesis
    unfolding checkNodeStatus_def now prod.case result.case
  proof (rule polled_check [OF now t])
    show "time u \<le> time u'" if "status_round status names ps u = (r, u')" for ps u r u'
      using stableD [OF gm order_refl that] .
    show "time u + pollInterval \<le> time u'" if "ck_Sleep ck pollInterval u = (Ok v, u')" for u v u'
      using clock that unfolding clock_ok_def by blast
    show "(\<forall>n \<in> set ps'. Run n u') \<and> (b \<longrightarrow> set names \<subseteq> set ps')"
      if "\<forall>n \<in> set ps. Run n u" "status_round status names ps u = (Ok (ps', b), u')" for ps u ps' b u'
      by (rule status_round_sound [OF st(1) _ that]) (rule est)
  qed (rule st(2), rule fuel)
qed

text \<open>
  C12. \<open>checkServiceStatus\<close> with a timeout returns, and a node with services that it does not report as pending
  had all of them ready. A cancelled context ends the check with its error.
\<close>

theorem checkServiceStatus_sound:
  assumes clock: "clock_ok time ck" and t: "timeout \<noteq> 0"
    and mono: "\<And>n w r w'. ready n w = (r, w') \<Longrightarrow> time w \<le> time w'"
    and st: "\<And>m n. stable (Rdy m) (ready n)" "\<And>m. stable (Rdy m) (ck_CtxErr ck)" "\<And>m. stable (Rdy m) (ck_Wait ck pollInterval)"
    and est: "\<And>n w w'. ready n w = (Ok True, w') \<Longrightarrow> Rdy n w'"
    and fuel: "timeout \<le> int fuel * pollInterval"
  shows "\<exists>r w'. checkServiceStatus (Suc fuel) ck has_services ready names timeout w = Some (r, w') \<and>
    (\<forall>pend. r = Ok pend \<longrightarrow> (\<forall>n \<in> set names. n \<in> set pend \<or> (has_services n \<longrightarrow> Rdy n w')))"
proof -
  have now: "ck_Now ck w = (Ok (time w), w)" for w using clock by (simp add: clock_ok_def)
  have "stable (\<lambda>w'. time w0 \<le> time w') (ready n)" for w0 n by (rule stableI, erule order_trans, erule mono)
  moreover have "stable (\<lambda>w'. time w0 \<le> time w') (ck_CtxErr ck)" for w0
    using clock unfolding clock_ok_def by (intro stableI) (meson order_trans)
  ultimately have gm: "stable (\<lambda>w'. time w0 \<le> time w') (service_round ck has_services ready names ps)" for w0 ps
    unfolding service_round_def Let_def
    by (intro stable_abind) (auto intro!: stable_abind stable_gather stable_aret split: option.split)
  show ?thesis
    unfolding checkServiceStatus_def now prod.case result.case
  proof (rule polled_check [OF now t, where Run = "\<lambda>n w. has_services n \<longrightarrow> Rdy n w"])
    show "time u \<le> time u'" if "service_round ck has_services ready names ps u = (r, u')" for ps u r u'
      using stableD [OF gm order_refl that] .
    show "time u + pollInterval \<le> time u'" if "service_pause ck u = (Ok v, u')" for u v u'
      using clock that unfolding clock_ok_def service_pause_def
      by (auto elim!: abind_OkD split: option.splits)
    show "stable (\<lambda>w. has_services m \<longrightarrow> Rdy m w) (service_pause ck)" for m
    proof -
      have "stable (Rdy m) (service_pause ck)" unfolding service_pause_def
        by (intro stable_abind st(3)) (auto intro: stable_aret split: option.split)
      then show ?thesis by (auto simp: stable_def)
    qed
    show "(\<forall>n \<in> set ps'. has_services n \<longrightarrow> Rdy n u') \<and> (b \<longrightarrow> set names \<subseteq> set ps')"
      if "\<forall>n \<in> set ps. has_services n \<longrightarrow> Rdy n u" "service_round ck has_services ready names ps u = (Ok (ps', b), u')"
      for ps u ps' b u'
      by (rule service_round_sound [OF st(1,2) _ that]) (rule est)
  qed (rule fuel)
qed

text \<open>A clock that only moves when somebody waits, and nodes that come up after a second.\<close>

definition mem_clock :: "int clock" where
  "mem_clock = \<lparr>ck_Now = (\<lambda>t. (Ok t, t)), ck_Sleep = (\<lambda>d t. (Ok (), t + d)), ck_CtxErr = (\<lambda>t. (Ok None, t)),
     ck_Wait = (\<lambda>d t. (Ok None, t + d))\<rparr>"

definition slow_status :: "string \<Rightarrow> (int, node_status) act" where
  "slow_status n t = (Ok (if t < Second then StatusPending else StatusRunning), t)"

definition slow_ready :: "string \<Rightarrow> (int, bool) act" where
  "slow_ready n t = (Ok (t \<ge> Second), t)"

definition slow_nodes :: "(int, cluster_node list) act" where
  "slow_nodes t = (Ok [\<lparr>cn_Name = ''n'', cn_Conditions = [(''Ready'', ''True'')],
     cn_Taints = (if t < 2 * Second then [''node.kubernetes.io/not-ready''] else [])\<rparr>], t)"

lemma mem_clock_ok: "clock_ok (\<lambda>t. t) mem_clock"
  by (simp add: clock_ok_def mem_clock_def)

theorem checkNodeStatus_sound_witness:
  "\<exists>r w'. checkNodeStatus (Suc 10) mem_clock slow_status [''r1'', ''r2''] (5 * Second) 0 = Some (r, w') \<and>
    (\<forall>pend. r = Ok pend \<longrightarrow> (\<forall>n \<in> set [''r1'', ''r2'']. n \<in> set pend \<or> Second \<le> w')) \<and> r = Ok []"
proof -
  have "checkNodeStatus (Suc 10) mem_clock slow_status [''r1'', ''r2''] (5 * Second) 0 = Some (Ok [], Second)"
    by code_simp
  moreover have "\<exists>r w'. checkNodeStatus (Suc 10) mem_clock slow_status [''r1'', ''r2''] (5 * Second) 0 = Some (r, w') \<and>
    (\<forall>pend. r = Ok pend \<longrightarrow> (\<forall>n \<in> set [''r1'', ''r2'']. n \<in> set pend \<or> Second \<le> w'))"
    by (rule checkNodeStatus_sound [where Run = "\<lambda>n t. Second \<le> t", OF mem_clock_ok])
      (auto simp: slow_status_def mem_clock_def stable_def Second_def pollInterval_def split: if_splits)
  ultimately show ?thesis by force
qed

theorem checkServiceStatus_sound_witness:
  "\<exists>r w'. checkServiceStatus (Suc 10) mem_clock (\<lambda>n. n \<noteq> ''r2'') slow_ready [''r1'', ''r2''] (5 * Second) 0 = Some (r, w') \<and>
    (\<forall>pend. r = Ok pend \<longrightarrow> (\<forall>n \<in> set [''r1'', ''r2'']. n \<in> set pend \<or> (n \<noteq> ''r2'' \<longrightarrow> Second \<le> w'))) \<and> r = Ok []"
proof -
  have "checkServiceStatus (Suc 10) mem_clock (\<lambda>n. n \<noteq> ''r2'') slow_ready [''r1'', ''r2''] (5 * Second) 0 = Some (Ok [], Second)"
    by code_simp
  moreover have "\<exists>r w'. checkServiceStatus (Suc 10) mem_clock (\<lambda>n. n \<noteq> ''r2'') slow_ready [''r1'', ''r2''] (5 * Second) 0 = Some (r, w') \<and>
    (\<forall>pend. r = Ok pend \<longrightarrow> (\<forall>n \<in> set [''r1'', ''r2'']. n \<in> set pend \<or> (n \<noteq> ''r2'' \<longrightarrow> Second \<le> w')))"
    by (rule checkServiceStatus_sound [where Rdy = "\<lambda>n t. Second \<le> t", OF mem_clock_ok])
      (auto simp: slow_ready_def mem_clock_def stable_def Second_def pollInterval_def split: if_splits)
  ultimately show ?thesis by force
qed

section \<open>The remaining checks\<close>

text \<open>
  C13. While the context is not cancelled, \<open>waitClusterReady\<close> returns at the first second at which every listed
  cluster node is ready, and not before.
\<close>

theorem waitClusterReady_first:
  assumes "\<And>w. list_nodes w = (Ok (nodes w), w)" and "\<And>w. ck_Wait ck Second w = (Ok None, tick w)"
    and "\<forall>i < k. \<exists>n \<in> set (nodes ((tick ^^ i) w)). \<not> isNodeReady n" and "\<forall>n \<in> set (nodes ((tick ^^ k) w)). isNodeReady n"
  shows "waitClusterReady fuel ck (Some list_nodes) w = (if k < fuel then Some (Ok (), (tick ^^ k) w) else None)"
  using assms(3,4)
proof (induction fuel arbitrary: w k)
  case (Suc fuel)
  show ?case
  proof (cases k)
    case 0
    then have "filter (\<lambda>n. \<not> isNodeReady n) (nodes w) = []" using Suc.prems(2) by (simp add: filter_empty_conv)
    then show ?thesis by (simp add: waitClusterReady_def assms(1) 0)
  next
    case (Suc j)
    have "waitClusterReady fuel ck (Some list_nodes) (tick w) = (if j < fuel then Some (Ok (), (tick ^^ j) (tick w)) else None)"
    proof (rule Suc.IH)
      show "\<forall>i<j. \<exists>n\<in>set (nodes ((tick ^^ i) (tick w))). \<not> isNodeReady n"
        using Suc.prems(1) Suc by (metis Suc_less_eq funpow_swap1 o_apply funpow.simps(2))
      show "\<forall>n\<in>set (nodes ((tick ^^ j) (tick w))). isNodeReady n"
        using Suc.prems(2) Suc by (simp add: funpow_swap1)
    qed
    moreover have "filter (\<lambda>n. \<not> isNodeReady n) (nodes w) \<noteq> []" "nodes w \<noteq> []"
      using Suc.prems(1) [rule_format, of 0] Suc by (auto simp: filter_empty_conv)
    ultimately show ?thesis by (simp add: waitClusterReady_def assms(1) [of w] assms(2) [of w] Suc funpow_swap1)
  qed
qed (simp add: waitClusterReady_def)

theorem waitClusterReady_first_witness:
  "waitClusterReady 5 mem_clock (Some slow_nodes) 0 = (if (2::nat) < 5 then Some (Ok (), ((\<lambda>t. t + Second) ^^ 2) 0) else None)"
  by (rule waitClusterReady_first [where nodes = "\<lambda>t. [\<lparr>cn_Name = ''n'', cn_Conditions = [(''Ready'', ''True'')],
     cn_Taints = (if t < 2 * Second then [''node.kubernetes.io/not-ready''] else [])\<rparr>]"])
    (auto simp: slow_nodes_def mem_clock_def isNodeReady_def fatal_taints_def Second_def numeral_2_eq_2 dest: less_2_cases [unfolded numeral_2_eq_2])

text \<open>
  The time that \<open>Create\<close> leaves to the services, for every timeout that is not negative: it is never zero,
  which would wait for ever. With a timeout it is the rest of it, but at least thirty seconds or the whole of a
  shorter timeout, and never more than the timeout.
\<close>

theorem calculateServiceTimeout_bounds:
  assumes "0 \<le> timeout" "timeout < 2 ^ 63" "0 \<le> elapsed" "elapsed < 2 ^ 63"
  shows "0 < calculateServiceTimeout timeout elapsed \<and>
    (timeout = 0 \<or> calculateServiceTimeout timeout elapsed = max (timeout - elapsed) (min timeout minServiceTimeout) \<and>
       calculateServiceTimeout timeout elapsed \<le> timeout)"
proof -
  have "wrap64 (timeout - elapsed) = timeout - elapsed"
    using assms by (intro wrap64_id) auto
  then show ?thesis
    using assms by (auto simp: calculateServiceTimeout_def Let_def defaultServiceTimeout_def minServiceTimeout_def Minute_def Second_def)
qed

theorem calculateServiceTimeout_bounds_witness:
  "calculateServiceTimeout (60 * Second) (50 * Second) = 30 * Second \<and> calculateServiceTimeout (60 * Second) (50 * Second) \<le> 60 * Second"
  using calculateServiceTimeout_bounds [of "60 * Second" "50 * Second"]
  by (simp add: Second_def minServiceTimeout_def)

text \<open>
  The state that \<open>Show\<close> reports is decided by the nodes' states: an error exactly if a node has failed, running
  exactly if there are nodes and all of them run, and creating exactly if none has failed and one is pending.
\<close>

lemma topologyState_cases:
  "(topologyState m = TS_ERROR \<longleftrightarrow> StatusFailed \<in> snd ` set m) \<and>
   (topologyState m = TS_RUNNING \<longleftrightarrow> snd ` set m = {StatusRunning}) \<and>
   (topologyState m = TS_CREATING \<longleftrightarrow> StatusFailed \<notin> snd ` set m \<and> StatusPending \<in> snd ` set m)"
proof -
  have pos: "0 < count_state m st \<longleftrightarrow> st \<in> snd ` set m" for st
    by (force simp: count_state_def filter_empty_conv)
  have "count_state m StatusRunning = length m \<longleftrightarrow> (\<forall>p \<in> set m. snd p = StatusRunning)"
  proof -
    have "length (filter P m) = length m \<longleftrightarrow> (\<forall>p \<in> set m. P p)" for P
      by (metis filter_True filter_id_conv length_filter_less less_irrefl)
    then show ?thesis by (auto simp: count_state_def split: prod.splits)
  qed
  then show ?thesis unfolding topologyState_def pos by (cases m) (auto simp: image_iff)
qed

lemma updateServicePortName_names:
  "svc_Name (updateServicePortName s port) \<noteq> []" "[] \<notin> set (svc_Names (updateServicePortName s port))"
  "updateServicePortName (updateServicePortName s port) port = updateServicePortName s port"
proof -
  have "filter (\<lambda>n. n \<noteq> []) (svc_Names s) \<noteq> [] \<Longrightarrow> hd (filter (\<lambda>n. n \<noteq> []) (svc_Names s)) \<noteq> []"
    using hd_in_set [of "filter (\<lambda>n. n \<noteq> []) (svc_Names s)"] by simp
  then show "svc_Name (updateServicePortName s port) \<noteq> []" "[] \<notin> set (svc_Names (updateServicePortName s port))"
    "updateServicePortName (updateServicePortName s port) port = updateServicePortName s port"
    by (auto simp: updateServicePortName_def Let_def)
qed

end
