(* ===== verification/Vendor_CRD.thy ===== *)
theory Vendor_CRD
  imports Vendor_NOS Topo_Status
begin

text \<open>
  The node types whose pods are made by an operator in the cluster: \<open>arista\<close>, \<open>nokia\<close>, \<open>openconfig\<close> (lemming),
  \<open>drivenets\<close> (cdnos) and \<open>keysight\<close>. Creating such a node means creating a custom resource. The clients for
  these resources are operations of the environment, as are the decoders of vendor data.
\<close>

section \<open>What they share\<close>

text \<open>
  The range checks on the ports of a service. The loop over the services ends at the first port out of range; two
  services with one name share an entry.
\<close>

definition MaxUint16 :: int where "MaxUint16 = 65535"
definition MaxInt32 :: int where "MaxInt32 = 2147483647"

definition port_pair :: "u32 \<Rightarrow> u32 \<Rightarrow> (int \<times> int) result" where
  "port_pair inside outside =
     (if uint inside > MaxUint16 then Error (Errorf ''inside port %d out of range (max: %d)'' [itoa (uint inside), itoa MaxUint16])
      else if uint outside > MaxUint16 then Error (Errorf ''outside port %d out of range (max: %d)'' [itoa (uint outside), itoa MaxUint16])
      else Ok (uint inside, uint outside))"

fun crd_ports :: "(u32 \<times> service \<Rightarrow> u32) \<Rightarrow> (u32, service) gomap \<Rightarrow> (string, int \<times> int) gomap \<Rightarrow> (string, int \<times> int) gomap result" where
  "crd_ports outside [] ports = Ok ports"
| "crd_ports outside ((k, v) # svcs) ports =
     rbind (port_pair (svc_Inside v) (outside (k, v))) (\<lambda>p. crd_ports outside svcs (put (svc_Name v) p ports))"

text \<open>
  \<open>CreateConfig\<close> of these types. Data that is present is never \<open>nil\<close>, and so an empty configuration makes a
  config map too.
\<close>

definition crd_config :: "'w kube \<Rightarrow> 'w os \<Rightarrow> string \<Rightarrow> string \<Rightarrow> node \<Rightarrow> ('w, config_map option) act" where
  "crd_config K F ns bp pb =
     (case cfg_ConfigData (GetConfig pb) of
        None \<Rightarrow> aret None
      | Some src \<Rightarrow>
          abind (case src of Config_File file \<Rightarrow> os_ReadFile F (filepath_Join [bp, file]) | Config_Data data \<Rightarrow> aret data) (\<lambda>data.
          abind (api_Create (k_ConfigMaps K) ns
                   \<lparr>cm_Name = config_map_name pb, cm_Data = [(cfg_ConfigFile (GetConfig pb), data)]\<rparr>) (\<lambda>cm. aret (Some cm))))"

section \<open>arista\<close>

record ceos_config =
  cc_ToggleOverrides :: "(string, bool) gomap option"
  cc_WaitForAgents :: "string list option"

record ceos_device =
  ceos_Name :: string
  ceos_Namespace :: string
  ceos_Labels :: "(string, string) gomap"
  ceos_EnvVar :: "(string, string) gomap option"
  ceos_Image :: string
  ceos_InitContainerImage :: string
  ceos_Args :: "string list"
  ceos_Resources :: "(string, string) gomap option"
  ceos_NumInterfaces :: int
  ceos_Sleep :: int
  ceos_Services :: "(string, int \<times> int) gomap"
  ceos_CertConfig :: "(string \<times> string \<times> int \<times> string) option"
  ceos_IntfMapping :: "(string, string) gomap"
  ceos_ToggleOverrides :: "(string, bool) gomap option"
  ceos_WaitForAgents :: "string list option"

record 'w ceos_env =
  ceos_Unmarshal :: "string \<Rightarrow> ceos_config result"
  ceos_NewClient :: "('w, unit) act"
  ceos_Devices :: "('w, ceos_device) api"

definition arista_CreateConfig :: "'w kube \<Rightarrow> 'w os \<Rightarrow> string \<Rightarrow> string \<Rightarrow> node \<Rightarrow> ('w, volume option) act" where
  "arista_CreateConfig K F ns bp pb = abind (crd_config K F ns bp pb) (\<lambda>_. aret None)"

definition ceos_cert :: "node \<Rightarrow> (string \<times> string \<times> int \<times> string) option result" where
  "ceos_cert pb =
     (case GetSelfSigned pb of
        None \<Rightarrow> Ok None
      | Some c \<Rightarrow>
          if uint (ss_KeySize c) > MaxInt32 then Error (Errorf ''ssCert.KeySize %d out of valid range'' [itoa (uint (ss_KeySize c))])
          else Ok (Some (ss_CertName c, ss_KeyName c, uint (ss_KeySize c), ss_CommonName c)))"

definition ceos_vendor :: "'w ceos_env \<Rightarrow> node \<Rightarrow> ceos_config result" where
  "ceos_vendor E pb =
     (case cfg_VendorData (GetConfig pb) of
        None \<Rightarrow> Ok \<lparr>cc_ToggleOverrides = None, cc_WaitForAgents = None\<rparr>
      | Some d \<Rightarrow> ceos_Unmarshal E d)"

definition ceos_spec :: "'w ceos_env \<Rightarrow> string \<Rightarrow> node \<Rightarrow> ceos_device result" where
  "ceos_spec E ns pb =
     (let cfg = GetConfig pb in
      rbind (GetNodeLinks pb) (\<lambda>links.
      if uint (cfg_Sleep cfg) > MaxInt32 then
        Error (Errorf ''sleep time %d out of range (max: %d)'' [itoa (uint (cfg_Sleep cfg)), itoa MaxInt32])
      else if int (length links) > MaxInt32 then
        Error (Errorf ''links count %d out of range (max: %d)'' [itoa (int (length links)), itoa MaxInt32])
      else
        rbind (crd_ports (\<lambda>(_, v). svc_Outside v) (items (n_Services pb)) []) (\<lambda>ports.
        rbind (ceos_cert pb) (\<lambda>cert.
        rbind (ceos_vendor E pb) (\<lambda>vendor.
          Ok \<lparr>ceos_Name = n_Name pb, ceos_Namespace = ns,
              ceos_Labels = foldl (\<lambda>m (k, v). put k v m) [(''app'', n_Name pb), (''topo'', ns)] (items (n_Labels pb)),
              ceos_EnvVar = cfg_Env cfg, ceos_Image = cfg_Image cfg, ceos_InitContainerImage = cfg_InitImage cfg, ceos_Args = cfg_Args cfg,
              ceos_Resources = n_Constraints pb, ceos_NumInterfaces = int (length links), ceos_Sleep = uint (cfg_Sleep cfg),
              ceos_Services = ports, ceos_CertConfig = cert, ceos_IntfMapping = map (\<lambda>(k, i). (k, ifc_Name i)) (n_Interfaces pb),
              ceos_ToggleOverrides = cc_ToggleOverrides vendor, ceos_WaitForAgents = cc_WaitForAgents vendor\<rparr>)))))"

definition CreateCRD :: "'w ceos_env \<Rightarrow> string \<Rightarrow> node \<Rightarrow> ('w, unit) act" where
  "CreateCRD E ns pb =
     abind (alift (ceos_spec E ns pb)) (\<lambda>device.
     abind (ceos_NewClient E) (\<lambda>_.
     abind (api_Create (ceos_Devices E) ns device) (\<lambda>_. aret ())))"

definition arista_Create :: "'w ceos_env \<Rightarrow> 'w kube \<Rightarrow> 'w os \<Rightarrow> string \<Rightarrow> string \<Rightarrow> node \<Rightarrow> ('w, unit) act" where
  "arista_Create E K F ns bp pb =
     abind (amap_err (Errorw ''node %s failed to create config-map %w'' [n_Name pb]) (arista_CreateConfig K F ns bp pb)) (\<lambda>_.
       amap_err (Errorw ''node %s failed to create custom resource definition %w'' [n_Name pb]) (CreateCRD E ns pb))"

text \<open>The status comes with an error in the cases where Go returns both. \<open>not_found\<close> looks at the text of an error.\<close>

definition arista_pod_status :: "pod \<Rightarrow> node_status" where
  "arista_pod_status p =
     (case pd_Phase p of
        PodPending \<Rightarrow> StatusPending
      | PodRunning \<Rightarrow> if (''Ready'', ''True'') \<in> set (pd_Conditions p) then StatusRunning else StatusPending
      | PodFailed \<Rightarrow> StatusFailed
      | _ \<Rightarrow> StatusUnknown)"

definition arista_Status :: "(err \<Rightarrow> bool) \<Rightarrow> 'w kube \<Rightarrow> string \<Rightarrow> node \<Rightarrow> ('w, node_status \<times> err option) act" where
  "arista_Status not_found K ns pb =
     abind (atry (Pods K ns pb)) (\<lambda>r. case r of
       Error e \<Rightarrow> if not_found e then aret (StatusUnknown, None) else aret (StatusFailed, Some e)
     | Panic p \<Rightarrow> apanic p
     | Ok [p] \<Rightarrow> aret (arista_pod_status p, None)
     | Ok _ \<Rightarrow> aret (StatusUnknown, None))"

definition arista_Delete :: "'w ceos_env \<Rightarrow> 'w kube \<Rightarrow> 'w os \<Rightarrow> string \<Rightarrow> node \<Rightarrow> ('w, unit) act" where
  "arista_Delete E K F ns pb =
     abind (ceos_NewClient E) (\<lambda>_.
     abind (api_Delete (ceos_Devices E) ns (n_Name pb)) (\<lambda>_.
       DeleteConfig K F ns pb))"

section \<open>nokia\<close>

text \<open>A line card: its slot and its type, which may be empty.\<close>

type_synonym line_card = "int \<times> string"

definition modularModels :: "(string, int) gomap" where
  "modularModels = [(''ixr6'', 4), (''ixr6e'', 4), (''ixr10'', 8), (''ixr10e'', 8)]"

text \<open>\<open>^e(\d+)-\d+(?:-\d+)?$\<close>, of which the first group is the slot.\<close>

definition digits :: "string \<Rightarrow> (string \<times> string) option" where
  "digits s = (if takeWhile digit_char s = [] then None else Some (takeWhile digit_char s, dropWhile digit_char s))"

definition dash_digits :: "string \<Rightarrow> string option" where
  "dash_digits s = (case s of c # s' \<Rightarrow> if c = CHR ''-'' then map_option snd (digits s') else None | [] \<Rightarrow> None)"

definition ifaceSlotRE :: "string \<Rightarrow> string option" where
  "ifaceSlotRE name =
     (case name of
        c # s \<Rightarrow>
          if c \<noteq> CHR ''e'' then None
          else (case digits s of
            None \<Rightarrow> None
          | Some (slot, s1) \<Rightarrow>
              (case dash_digits s1 of
                 None \<Rightarrow> None
               | Some s2 \<Rightarrow> if s2 = [] \<or> dash_digits s2 = Some [] then Some slot else None))
      | [] \<Rightarrow> None)"

text \<open>\<open>strconv.ParseInt(s, 10, 32)\<close> on digits.\<close>

definition iface_slot :: "string \<Rightarrow> int option" where
  "iface_slot name =
     (case ifaceSlotRE name of
        None \<Rightarrow> None
      | Some ds \<Rightarrow> let slot = int (str_to_nat ds) in if slot > MaxInt32 \<or> slot < 1 then None else Some slot)"

definition add_slot :: "int \<Rightarrow> int list \<Rightarrow> string \<Rightarrow> int list" where
  "add_slot maxSlot slots name =
     (case iface_slot name of
        None \<Rightarrow> slots
      | Some slot \<Rightarrow> if slot > maxSlot \<or> slot \<in> set slots then slots else slots @ [slot])"

definition lineCards :: "(string \<Rightarrow> line_card list result) \<Rightarrow> node \<Rightarrow> line_card list result" where
  "lineCards unmarshal pb =
     rbind (case cfg_VendorData (GetConfig pb) of
              None \<Rightarrow> Ok []
            | Some d \<Rightarrow> rmap_err (Errorw ''failed to unmarshal vendor data: %w'' []) (unmarshal d)) (\<lambda>components.
       if components \<noteq> [] then Ok components
       else case map_of modularModels (n_Model pb) of
         None \<Rightarrow> Ok []
       | Some maxSlot \<Rightarrow>
           (let slots = foldl (add_slot maxSlot) [] (keys (n_Interfaces pb)) in
            if slots = [] \<or> slots = [1] then Ok [] else Ok (map (\<lambda>s. (s, [])) (sort slots))))"

definition isConfigDataPresent :: "node \<Rightarrow> bool" where
  "isConfigDataPresent pb =
     (case cfg_ConfigData (GetConfig pb) of Some (Config_Data _) \<Rightarrow> True | _ \<Rightarrow> GetFile (GetConfig pb) \<noteq> [])"

record srlinux =
  srl_Name :: string
  srl_Namespace :: string
  srl_Labels :: "(string, string) gomap"
  srl_NumInterfaces :: nat
  srl_Command :: "string list"
  srl_Args :: "string list"
  srl_Image :: string
  srl_InitImage :: string
  srl_Env :: "(string, string) gomap option"
  srl_EntryCommand :: string
  srl_ConfigPath :: string
  srl_ConfigFile :: string
  srl_ConfigDataPresent :: bool
  srl_Cert :: self_signed
  srl_Sleep :: u32
  srl_Constraints :: "(string, string) gomap option"
  srl_Model :: string
  srl_Version :: string
  srl_Components :: "line_card list"

definition srl_spec :: "string \<Rightarrow> node \<Rightarrow> srlinux" where
  "srl_spec ns pb =
     (let cfg = GetConfig pb in
      \<lparr>srl_Name = n_Name pb, srl_Namespace = ns, srl_Labels = [(''app'', n_Name pb), (''topo'', ns)],
       srl_NumInterfaces = length (n_Interfaces pb), srl_Command = cfg_Command cfg, srl_Args = cfg_Args cfg, srl_Image = cfg_Image cfg,
       srl_InitImage = cfg_InitImage cfg, srl_Env = cfg_Env cfg, srl_EntryCommand = cfg_EntryCommand cfg,
       srl_ConfigPath = cfg_ConfigPath cfg, srl_ConfigFile = cfg_ConfigFile cfg, srl_ConfigDataPresent = isConfigDataPresent pb,
       srl_Cert = (case GetSelfSigned pb of Some c \<Rightarrow> c | None \<Rightarrow> \<lparr>ss_CertName = [], ss_KeyName = [], ss_KeySize = 0, ss_CommonName = []\<rparr>),
       srl_Sleep = cfg_Sleep cfg, srl_Constraints = n_Constraints pb, srl_Model = n_Model pb, srl_Version = n_Version pb,
       srl_Components = []\<rparr>)"

text \<open>
  A watch of pods is the phases that it delivers (nothing for other objects) and whether its channel is closed
  after them. The loop ends at the first pending pod or with the channel; otherwise the call does not return.
\<close>

record 'w srl_env =
  srl_Unmarshal :: "string \<Rightarrow> line_card list result"
  srl_ToUnstructured :: "srlinux \<Rightarrow> srlinux result"
  srl_SetNestedSlice :: "srlinux \<Rightarrow> line_card list \<Rightarrow> srlinux result"
  srl_NewDynamic :: "('w, unit) act"
  srl_Nodes :: "('w, srlinux) api"
  srl_WatchPods :: "string \<Rightarrow> string \<Rightarrow> ('w, pod_phase option list \<times> bool) act"

definition watch_ends :: "pod_phase option list \<times> bool \<Rightarrow> bool" where
  "watch_ends x = (Some PodPending \<in> set (fst x) \<or> snd x)"

definition nokia_resource :: "'w srl_env \<Rightarrow> 'w kube \<Rightarrow> 'w os \<Rightarrow> string \<Rightarrow> string \<Rightarrow> node \<Rightarrow> ('w, pod_phase option list \<times> bool) act" where
  "nokia_resource E K F ns bp pb =
     abind (amap_err (Errorw ''node %s: %w'' [n_Name pb]) (alift (lineCards (srl_Unmarshal E) pb))) (\<lambda>components.
     abind (amap_err (Errorw ''node %s failed to create config-map %w'' [n_Name pb]) (crd_config K F ns bp pb)) (\<lambda>_.
     abind (alift (srl_ToUnstructured E (srl_spec ns pb))) (\<lambda>srlMap.
     abind (if components = [] then aret srlMap
            else amap_err (Errorw ''node %s failed to set line cards: %w'' [n_Name pb]) (alift (srl_SetNestedSlice E srlMap components))) (\<lambda>srl.
     abind (srl_NewDynamic E) (\<lambda>_.
     abind (api_Create (srl_Nodes E) ns srl) (\<lambda>_.
       srl_WatchPods E ns (n_Name pb)))))))"

definition nokia_Create ::
  "'w srl_env \<Rightarrow> 'w kube \<Rightarrow> 'w os \<Rightarrow> string \<Rightarrow> string \<Rightarrow> node \<Rightarrow> 'w \<Rightarrow> (unit result \<times> 'w) option" where
  "nokia_Create E K F ns bp pb w =
     (case nokia_resource E K F ns bp pb w of
        (Ok x, w1) \<Rightarrow> if watch_ends x then Some (CreateService K ns pb w1) else None
      | (Error e, w1) \<Rightarrow> Some (Error e, w1)
      | (Panic p, w1) \<Rightarrow> Some (Panic p, w1))"

definition nokia_Delete :: "'w srl_env \<Rightarrow> 'w kube \<Rightarrow> 'w os \<Rightarrow> string \<Rightarrow> node \<Rightarrow> ('w, unit) act" where
  "nokia_Delete E K F ns pb =
     abind (srl_NewDynamic E) (\<lambda>_.
     abind (api_Delete (srl_Nodes E) ns (n_Name pb)) (\<lambda>_.
     abind (DeleteService K ns pb) (\<lambda>_.
       DeleteConfig K F ns pb)))"

section \<open>openconfig and drivenets\<close>

record dut =
  dut_Name :: string
  dut_Namespace :: string
  dut_Labels :: "(string, string) gomap option"
  dut_Image :: string
  dut_Command :: string
  dut_Args :: "string list"
  dut_Env :: "(string \<times> string) list"
  dut_ConfigPath :: string
  dut_ConfigFile :: string
  dut_InitImage :: string
  dut_Ports :: "(string, int \<times> int) gomap"
  dut_InterfaceCount :: nat
  dut_InitSleep :: int
  dut_Resources :: "(string, string) gomap"
  dut_TLS :: "(string \<times> int) option"

datatype dut_phase = Dut_Running | Dut_Failed | Dut_Pending | Dut_other string

text \<open>The command is indexed without a look at its length, and the configuration is dereferenced.\<close>

definition dut_of :: "(string \<Rightarrow> bool) \<Rightarrow> string \<Rightarrow> node \<Rightarrow> dut result" where
  "dut_of quantity ns pb =
     rbind (crd_ports fst (items (n_Services pb)) []) (\<lambda>ports.
     case n_Config pb of
       None \<Rightarrow> Panic ''invalid memory address or nil pointer dereference''
     | Some cfg \<Rightarrow>
         (case cfg_Command cfg of
            [] \<Rightarrow> Panic ''index out of range [0] with length 0''
          | cmd # _ \<Rightarrow>
              rbind (ToResourceRequirements quantity (n_Constraints pb)) (\<lambda>reqs.
                Ok \<lparr>dut_Name = n_Name pb, dut_Namespace = ns, dut_Labels = n_Labels pb, dut_Image = cfg_Image cfg, dut_Command = cmd,
                    dut_Args = cfg_Args cfg, dut_Env = ToEnvVar (cfg_Env cfg), dut_ConfigPath = cfg_ConfigPath cfg,
                    dut_ConfigFile = cfg_ConfigFile cfg, dut_InitImage = cfg_InitImage cfg, dut_Ports = ports,
                    dut_InterfaceCount = length (n_Interfaces pb) + 1, dut_InitSleep = uint (cfg_Sleep cfg), dut_Resources = reqs,
                    dut_TLS = map_option (\<lambda>c. (ss_CommonName c, uint (ss_KeySize c))) (GetSelfSigned pb)\<rparr>)))"

definition dut_status :: "dut_phase \<Rightarrow> node_status" where
  "dut_status ph =
     (case ph of Dut_Running \<Rightarrow> StatusRunning | Dut_Failed \<Rightarrow> StatusFailed | Dut_Pending \<Rightarrow> StatusPending | Dut_other _ \<Rightarrow> StatusUnknown)"

text \<open>The errors of a status come with \<open>StatusUnknown\<close>.\<close>

definition status_or_unknown :: "('w, node_status) act \<Rightarrow> ('w, node_status \<times> err option) act" where
  "status_or_unknown m =
     abind (atry m) (\<lambda>r. case r of Ok s \<Rightarrow> aret (s, None) | Error e \<Rightarrow> aret (StatusUnknown, Some e) | Panic p \<Rightarrow> apanic p)"

text \<open>Lemming resources are posted and read in the generic form of the dynamic client.\<close>

record ('w, 'o) dut_env =
  du_NewClient :: "('w, unit) act"
  du_ToUnstructured :: "dut \<Rightarrow> 'o result"
  du_Resources :: "('w, 'o) api"
  du_Phase :: "'o \<Rightarrow> dut_phase result"

definition lemmingCreate :: "('w, 'o) dut_env \<Rightarrow> (string \<Rightarrow> bool) \<Rightarrow> string \<Rightarrow> node \<Rightarrow> ('w, unit) act" where
  "lemmingCreate E quantity ns pb =
     abind (alift (dut_of quantity ns pb)) (\<lambda>dut.
     abind (amap_err (Errorv ''failed to get kubernetes client: %v'' []) (du_NewClient E)) (\<lambda>_.
     abind (amap_err (Errorw ''failed to convert lemming to unstructured: %w'' []) (alift (du_ToUnstructured E dut))) (\<lambda>u.
     abind (amap_err (Errorv ''failed to create lemming: %v'' []) (api_Create (du_Resources E) ns u)) (\<lambda>_. aret ()))))"

definition lemming_phase :: "('w, 'o) dut_env \<Rightarrow> string \<Rightarrow> node \<Rightarrow> ('w, node_status) act" where
  "lemming_phase E ns pb =
     abind (du_NewClient E) (\<lambda>_.
     abind (api_Get (du_Resources E) ns (n_Name pb)) (\<lambda>x.
     abind (alift (du_Phase E x)) (\<lambda>ph. aret (dut_status ph))))"

definition lemmingDelete :: "('w, 'o) dut_env \<Rightarrow> string \<Rightarrow> node \<Rightarrow> ('w, unit) act" where
  "lemmingDelete E ns pb = abind (du_NewClient E) (\<lambda>_. api_Delete (du_Resources E) ns (n_Name pb))"

text \<open>Magna nodes are made as hosts are.\<close>

definition openconfig_Create ::
  "('w, 'o) dut_env \<Rightarrow> 'w kube \<Rightarrow> 'w os \<Rightarrow> (string \<Rightarrow> bool) \<Rightarrow> string \<Rightarrow> string \<Rightarrow> node \<Rightarrow> ('w, unit) act" where
  "openconfig_Create E K F quantity ns bp pb =
     (if n_Model pb = ''LEMMING'' then lemmingCreate E quantity ns pb
      else if n_Model pb = ''MAGNA'' then Create K F quantity ns bp pb
      else aerr (Errorf ''cannot create an instance of an unknown model'' []))"

definition openconfig_Status :: "('w, 'o) dut_env \<Rightarrow> 'w kube \<Rightarrow> string \<Rightarrow> node \<Rightarrow> ('w, node_status \<times> err option) act" where
  "openconfig_Status E K ns pb =
     (if n_Model pb = ''MAGNA'' then status_or_unknown (Status K ns pb)
      else if n_Model pb = ''LEMMING'' then status_or_unknown (lemming_phase E ns pb)
      else aret (StatusUnknown, Some (Errorf ''invalid model specified'' [])))"

definition openconfig_Delete :: "('w, 'o) dut_env \<Rightarrow> 'w kube \<Rightarrow> 'w os \<Rightarrow> string \<Rightarrow> node \<Rightarrow> ('w, unit) act" where
  "openconfig_Delete E K F ns pb =
     (if n_Model pb = ''MAGNA'' then Delete K F ns pb
      else if n_Model pb = ''LEMMING'' then lemmingDelete E ns pb
      else aerr (Errorf ''unknown model'' []))"

text \<open>A cdnos resource has the labels of the node in its spec too; its phase is set by the operator.\<close>

record cdnos = dut +
  cdnos_SpecLabels :: "(string, string) gomap option"
  cdnos_Phase :: dut_phase

record 'w cdnos_env =
  cn_NewClient :: "('w, unit) act"
  cn_Cdnoss :: "('w, cdnos) api"

definition cdnos_of :: "node \<Rightarrow> dut \<Rightarrow> cdnos" where
  "cdnos_of pb d = dut.extend d \<lparr>cdnos_SpecLabels = n_Labels pb, cdnos_Phase = Dut_other []\<rparr>"

definition drivenets_CreateConfig :: "'w kube \<Rightarrow> 'w os \<Rightarrow> string \<Rightarrow> string \<Rightarrow> node \<Rightarrow> ('w, volume option) act" where
  "drivenets_CreateConfig K F ns bp pb =
     abind (crd_config K F ns bp pb) (\<lambda>cm.
       aret (map_option (\<lambda>c. \<lparr>vol_Name = n_Name pb @ ''-config-volume'', vol_Source = VS_ConfigMap (cm_Name c)\<rparr>) cm))"

definition cdnosCreate ::
  "'w cdnos_env \<Rightarrow> 'w kube \<Rightarrow> 'w os \<Rightarrow> (string \<Rightarrow> bool) \<Rightarrow> string \<Rightarrow> string \<Rightarrow> node \<Rightarrow> ('w, unit) act" where
  "cdnosCreate E K F quantity ns bp pb =
     abind (amap_err (Errorw ''node %s failed to create config-map %w'' [n_Name pb]) (drivenets_CreateConfig K F ns bp pb)) (\<lambda>_.
     abind (alift (dut_of quantity ns pb)) (\<lambda>d.
     abind (amap_err (Errorv ''failed to get kubernetes client: %v'' []) (cn_NewClient E)) (\<lambda>_.
     abind (amap_err (Errorv ''failed to create cdnos: %v'' []) (api_Create (cn_Cdnoss E) ns (cdnos_of pb d))) (\<lambda>_. aret ()))))"

definition drivenets_Create ::
  "'w cdnos_env \<Rightarrow> 'w kube \<Rightarrow> 'w os \<Rightarrow> (string \<Rightarrow> bool) \<Rightarrow> string \<Rightarrow> string \<Rightarrow> node \<Rightarrow> ('w, unit) act" where
  "drivenets_Create E K F quantity ns bp pb =
     (if n_Model pb \<noteq> ''CDNOS'' then aerr (Errorf ''cannot create an instance of an unknown model'' [])
      else cdnosCreate E K F quantity ns bp pb)"

definition cdnosStatus :: "'w cdnos_env \<Rightarrow> string \<Rightarrow> node \<Rightarrow> ('w, node_status) act" where
  "cdnosStatus E ns pb =
     abind (cn_NewClient E) (\<lambda>_.
     abind (api_Get (cn_Cdnoss E) ns (n_Name pb)) (\<lambda>got. aret (dut_status (cdnos_Phase got))))"

definition drivenets_Status :: "'w cdnos_env \<Rightarrow> string \<Rightarrow> node \<Rightarrow> ('w, node_status \<times> err option) act" where
  "drivenets_Status E ns pb =
     (if n_Model pb \<noteq> ''CDNOS'' then aret (StatusUnknown, Some (Errorf ''invalid model specified'' []))
      else status_or_unknown (cdnosStatus E ns pb))"

definition drivenets_Delete :: "'w cdnos_env \<Rightarrow> string \<Rightarrow> node \<Rightarrow> ('w, unit) act" where
  "drivenets_Delete E ns pb =
     (if n_Model pb \<noteq> ''CDNOS'' then aerr (Errorf ''unknown model'' [])
      else abind (cn_NewClient E) (\<lambda>_. api_Delete (cn_Cdnoss E) ns (n_Name pb)))"

section \<open>keysight\<close>

record ixia_crd =
  ixc_Name :: string
  ixc_Namespace :: string
  ixc_Release :: string
  ixc_DesiredState :: string
  ixc_ApiEndPoint :: "(string, int \<times> int) gomap"
  ixc_Interfaces :: "(string \<times> string) list"
  ixc_InitImage :: string
  ixc_InitSleep :: u32

text \<open>An interface in the status: its name in the topology, its pod, and its name in the pod.\<close>

record ixia_intf =
  ixi_Name :: string
  ixi_PodName :: string
  ixi_Intf :: string

record ixia_status =
  ixs_State :: string
  ixs_Reason :: string
  ixs_Interfaces :: "ixia_intf list"
  ixs_PodName :: string
  ixs_ServiceName :: "string list"

text \<open>The raw form of a resource keeps its spec as a map, which may be missing.\<close>

record 'w ixia_env =
  ix_NewClient :: "('w, unit) act"
  ix_Create :: "string \<Rightarrow> ixia_crd \<Rightarrow> ('w, unit) act"
  ix_Get :: "string \<Rightarrow> string \<Rightarrow> ('w, ixia_crd \<times> ixia_status) act"
  ix_Unstructured :: "string \<Rightarrow> string \<Rightarrow> ('w, (string, string) gomap option) act"
  ix_Update :: "string \<Rightarrow> (string, string) gomap \<Rightarrow> ('w, unit) act"
  ix_Delete :: "string \<Rightarrow> string \<Rightarrow> ('w, unit) act"

definition newCRD :: "string \<Rightarrow> node \<Rightarrow> ixia_crd result" where
  "newCRD ns pb =
     rbind (crd_ports (\<lambda>(_, v). svc_Outside v) (items (n_Services pb)) []) (\<lambda>ports.
       Ok \<lparr>ixc_Name = n_Name pb, ixc_Namespace = ns, ixc_Release = n_Version pb, ixc_DesiredState = ''INITIATED'', ixc_ApiEndPoint = ports,
           ixc_Interfaces = map (\<lambda>(name, ifc). (name, ifc_Group ifc)) (n_Interfaces pb),
           ixc_InitImage = (case n_Config pb of None \<Rightarrow> DefaultInitContainerImage | Some cfg \<Rightarrow> cfg_InitImage cfg),
           ixc_InitSleep = (case n_Config pb of None \<Rightarrow> 0 | Some cfg \<Rightarrow> cfg_Sleep cfg)\<rparr>)"

definition getCRD :: "'w ixia_env \<Rightarrow> string \<Rightarrow> node \<Rightarrow> ('w, ixia_crd \<times> ixia_status) act" where
  "getCRD E ns pb = abind (ix_NewClient E) (\<lambda>_. ix_Get E ns (n_Name pb))"

definition getStatus :: "'w ixia_env \<Rightarrow> string \<Rightarrow> node \<Rightarrow> ('w, ixia_status) act" where
  "getStatus E ns pb = abind (getCRD E ns pb) (\<lambda>(_, st). aret st)"

definition state_round :: "'w ixia_env \<Rightarrow> string \<Rightarrow> node \<Rightarrow> string \<Rightarrow> ixia_status option \<Rightarrow> ('w, ixia_status option \<times> bool) act" where
  "state_round E ns pb state _ =
     abind (amap_err (Errorv ''could not get ixia CRD: %v'' []) (getStatus E ns pb)) (\<lambda>st.
       if ixs_State st = ''FAILED'' then aerr (Errorf ''got FAILED state for ixia CRD: %s'' [ixs_Reason st])
       else if ixs_State st = state then aret (Some st, True)
       else aret (None, False))"

definition waitInterval :: int where "waitInterval = 50000000"

text \<open>The loop is the polling loop of the manager with another round and another pause; here a timeout of zero is over at once.\<close>

definition waitForState ::
  "nat \<Rightarrow> 'w clock \<Rightarrow> 'w ixia_env \<Rightarrow> string \<Rightarrow> node \<Rightarrow> string \<Rightarrow> int \<Rightarrow> 'w \<Rightarrow> (ixia_status result \<times> 'w) option" where
  "waitForState fuel ck E ns pb state dur w =
     (let timed_out = Error (Errorf ''timed out waiting for ixia CRD state to be %s'' [state]) in
      case ck_Now ck w of
        (Error e, w1) \<Rightarrow> Some (Error e, w1)
      | (Panic p, w1) \<Rightarrow> Some (Panic p, w1)
      | (Ok start, w1) \<Rightarrow>
          if dur = 0 then Some (timed_out, w1)
          else map_option (\<lambda>(r, w'). (rbind r (\<lambda>(st, _). case st of Some s \<Rightarrow> Ok s | None \<Rightarrow> timed_out), w'))
            (poll fuel ck start dur (state_round E ns pb state) (ck_Sleep ck waitInterval) None w1))"

text \<open>The interfaces of the status become links of the pods that carry them.\<close>

definition ixia_link :: "ixia_intf \<Rightarrow> interface \<Rightarrow> mlink" where
  "ixia_link i ifc =
     \<lparr>ml_UID = ifc_Uid ifc, ml_LocalIntf = ixi_Intf i, ml_PeerIntf = ifc_PeerIntName ifc, ml_PeerPod = ifc_PeerName ifc,
      ml_LocalIP = [], ml_PeerIP = [], ml_MTU = uint (ifc_Mtu ifc)\<rparr>"

definition add_ixia :: "node \<Rightarrow> (string, mtopo) gomap \<Rightarrow> ixia_intf \<Rightarrow> (string, mtopo) gomap result" where
  "add_ixia pb m i =
     (case map_of (n_Interfaces pb) (ixi_Name i) of
        None \<Rightarrow> Error (Errorf ''could not find '%s' in interface map of node %s'' [ixi_Name i, n_Name pb])
      | Some ifc \<Rightarrow>
          (let topo = (case map_of m (ixi_PodName i) of Some t \<Rightarrow> t | None \<Rightarrow> \<lparr>mt_Name = ixi_PodName i, mt_Links = []\<rparr>) in
           Ok (put (ixi_PodName i) (topo\<lparr>mt_Links := mt_Links topo @ [ixia_link i ifc]\<rparr>) m)))"

definition ixia_specs :: "((string, mtopo) gomap \<Rightarrow> (string, mtopo) gomap) \<Rightarrow> node \<Rightarrow> ixia_intf list \<Rightarrow> mtopo list result" where
  "ixia_specs ord pb is = rbind (foldM (add_ixia pb) [] is) (\<lambda>m. Ok (map snd (ord m)))"

definition keysight_TopologySpecs ::
  "nat \<Rightarrow> 'w clock \<Rightarrow> 'w ixia_env \<Rightarrow> ((string, mtopo) gomap \<Rightarrow> (string, mtopo) gomap) \<Rightarrow> string \<Rightarrow> node \<Rightarrow> 'w \<Rightarrow>
   (mtopo list result \<times> 'w) option" where
  "keysight_TopologySpecs fuel ck E ord ns pb w =
     (case abind (alift (newCRD ns pb)) (\<lambda>crd. abind (ix_NewClient E) (\<lambda>_. ix_Create E ns crd)) w of
        (Error e, w1) \<Rightarrow> Some (Error e, w1)
      | (Panic p, w1) \<Rightarrow> Some (Panic p, w1)
      | (Ok _, w1) \<Rightarrow>
          map_option (\<lambda>(r, w2).
            (rbind (rmap_err (Errorv ''could not wait for state of custom resource for ixia: %v'' []) r) (\<lambda>st. ixia_specs ord pb (ixs_Interfaces st)), w2))
            (waitForState fuel ck E ns pb ''INITIATED'' (30 * Second) w1))"

definition keysight_Create :: "'w ixia_env \<Rightarrow> string \<Rightarrow> node \<Rightarrow> ('w, unit) act" where
  "keysight_Create E ns pb =
     abind (ix_NewClient E) (\<lambda>_.
     abind (ix_Unstructured E ns (n_Name pb)) (\<lambda>spec.
       case spec of
         None \<Rightarrow> apanic ''interface conversion: interface {} is nil, not map[string]interface {}''
       | Some sp \<Rightarrow> amap_err (Errorv ''could not update ixia CRD: %v'' []) (ix_Update E ns (put ''desired_state'' ''DEPLOYED'' sp))))"

text \<open>Pods and services that are not found stay \<open>nil\<close> in the result, and services are stored by index without a check.\<close>

definition keysight_Pods :: "'w ixia_env \<Rightarrow> 'w kube \<Rightarrow> string \<Rightarrow> node \<Rightarrow> ('w, pod option list) act" where
  "keysight_Pods E K ns pb =
     abind (getCRD E ns pb) (\<lambda>(_, st).
     abind (api_List (k_Pods K) ns None) (\<lambda>pods.
       let at = (\<lambda>name. find (\<lambda>p. pd_Name p = name) pods);
           rest = map (\<lambda>i. at (ixi_PodName i)) (ixs_Interfaces st) in
       aret (case at (ixs_PodName st) of Some p \<Rightarrow> Some p # rest | None \<Rightarrow> rest)))"

fun store_services :: "k8s_service list \<Rightarrow> nat \<Rightarrow> string list \<Rightarrow> k8s_service option list \<Rightarrow> k8s_service option list result" where
  "store_services svcs i [] out = Ok out"
| "store_services svcs i (name # names) out =
     (case find (\<lambda>s. sv_Name s = name) svcs of
        None \<Rightarrow> store_services svcs (Suc i) names out
      | Some s \<Rightarrow>
          if i < length out then store_services svcs (Suc i) names (out[i := Some s])
          else Panic ''index out of range'')"

definition keysight_Services :: "'w ixia_env \<Rightarrow> 'w kube \<Rightarrow> string \<Rightarrow> node \<Rightarrow> ('w, k8s_service option list) act" where
  "keysight_Services E K ns pb =
     abind (getCRD E ns pb) (\<lambda>(crd, st).
     abind (api_List (k_Services K) ns None) (\<lambda>svcs.
       alift (store_services svcs 0 (ixs_ServiceName st) (replicate (length (ixc_ApiEndPoint crd)) None))))"

definition keysight_Status :: "'w ixia_env \<Rightarrow> string \<Rightarrow> node \<Rightarrow> ('w, node_status \<times> err option) act" where
  "keysight_Status E ns pb =
     abind (atry (getStatus E ns pb)) (\<lambda>r. case r of
       Error e \<Rightarrow> aret (StatusFailed, Some (Errorv ''could not get ixia CRD: %v'' [] e))
     | Panic p \<Rightarrow> apanic p
     | Ok st \<Rightarrow>
         aret (if ixs_State st = ''DEPLOYED'' then (StatusRunning, None)
               else if ixs_State st = ''INITIATED'' then (StatusPending, None)
               else if ixs_State st = ''FAILED'' then (StatusFailed, Some (Errorf ''got failure in ixia CRD status: %s'' [ixs_Reason st]))
               else (StatusFailed, None)))"

definition keysight_Delete :: "'w ixia_env \<Rightarrow> string \<Rightarrow> node \<Rightarrow> ('w, unit) act" where
  "keysight_Delete E ns pb = abind (ix_NewClient E) (\<lambda>_. ix_Delete E ns (n_Name pb))"

section \<open>Line cards\<close>

text \<open>The slots inside the chassis that the interfaces of a node name.\<close>

definition named_slots :: "int \<Rightarrow> string list \<Rightarrow> int set" where
  "named_slots maxSlot names = {s. s \<le> maxSlot \<and> (\<exists>name \<in> set names. iface_slot name = Some s)}"

lemma add_slots:
  "distinct slots \<Longrightarrow>
   distinct (foldl (add_slot maxSlot) slots names) \<and> set (foldl (add_slot maxSlot) slots names) = set slots \<union> named_slots maxSlot names"
proof (induction names arbitrary: slots)
  case (Cons n names)
  have "distinct (add_slot maxSlot slots n)" "set (add_slot maxSlot slots n) \<union> named_slots maxSlot names = set slots \<union> named_slots maxSlot (n # names)"
    using Cons.prems by (auto simp: add_slot_def named_slots_def split: option.splits if_splits)
  then show ?case using Cons.IH by simp
qed (simp add: named_slots_def)

lemma finite_named_slots: "finite (named_slots maxSlot names)"
  using add_slots [of "[]" maxSlot names] by (metis List.finite_set distinct.simps(1) list.set(1) sup_bot.left_neutral)

lemma digits_append:
  assumes "ds \<noteq> []" "list_all digit_char ds" "rest = [] \<or> \<not> digit_char (hd rest)"
  shows "digits (ds @ rest) = Some (ds, rest)"
proof -
  have "takeWhile digit_char (ds @ rest) = ds" "dropWhile digit_char (ds @ rest) = rest"
    using assms(2,3) by (induction ds) (cases rest; auto)+
  then show ?thesis using assms(1) by (simp add: digits_def)
qed

lemma digits_number: "rest = [] \<or> \<not> digit_char (hd rest) \<Longrightarrow> digits (nat_to_str n @ rest) = Some (nat_to_str n, rest)"
  by (rule digits_append) (simp_all add: nat_to_str_ne nat_to_str_digits)

lemma iface_slot_name:
  assumes "1 \<le> x" "int x \<le> MaxInt32"
  shows "iface_slot (''e'' @ nat_to_str x @ ''-'' @ nat_to_str y) = Some (int x)"
    and "iface_slot (''e'' @ nat_to_str x @ ''-'' @ nat_to_str y @ ''-'' @ nat_to_str z) = Some (int x)"
proof -
  have m: "\<not> digit_char (CHR ''-'')" by code_simp
  have d: "digits (nat_to_str x @ CHR ''-'' # r) = Some (nat_to_str x, CHR ''-'' # r)" for x r
    using digits_number [of "CHR ''-'' # r" x] m by simp
  have e: "digits (nat_to_str y) = Some (nat_to_str y, [])" for y using digits_number [of "[]" y] by simp
  show "iface_slot (''e'' @ nat_to_str x @ ''-'' @ nat_to_str y) = Some (int x)"
    "iface_slot (''e'' @ nat_to_str x @ ''-'' @ nat_to_str y @ ''-'' @ nat_to_str z) = Some (int x)"
    using assms by (simp_all add: iface_slot_def ifaceSlotRE_def dash_digits_def d e Let_def str_to_nat_to_str)
qed

text \<open>
  C37. The line cards of a modular SR Linux node whose vendor data name none: one card of the default type for each
  slot of the chassis that an interface name refers to, in ascending order, whatever the order of the interface
  map. There are none if no slot but the first is referred to. An interface called e<slot>-<port>, with or without
  a breakout, refers to its slot.
\<close>

theorem lineCards_exact:
  assumes "cfg_VendorData (GetConfig pb) = None \<or> (\<exists>d. cfg_VendorData (GetConfig pb) = Some d \<and> unmarshal d = Ok [])"
    and "map_of modularModels (n_Model pb) = Some maxSlot"
  shows "\<exists>cards. lineCards unmarshal pb = Ok cards \<and> sorted (map fst cards) \<and> distinct (map fst cards) \<and> list_all (\<lambda>c. snd c = []) cards \<and>
    set (map fst cards) = (if named_slots maxSlot (keys (n_Interfaces pb)) \<subseteq> {1} then {} else named_slots maxSlot (keys (n_Interfaces pb)))"
proof -
  define slots where "slots = foldl (add_slot maxSlot) [] (keys (n_Interfaces pb))"
  have s: "distinct slots" "set slots = named_slots maxSlot (keys (n_Interfaces pb))"
    using add_slots [of "[]" maxSlot "keys (n_Interfaces pb)"] by (simp_all add: slots_def)
  have "lineCards unmarshal pb = (if slots = [] \<or> slots = [1] then Ok [] else Ok (map (\<lambda>s. (s, [])) (sort slots)))"
  proof -
    have "(case cfg_VendorData (GetConfig pb) of None \<Rightarrow> Ok []
        | Some d \<Rightarrow> rmap_err (Errorw ''failed to unmarshal vendor data: %w'' []) (unmarshal d)) = Ok []"
      using assms(1) by (elim disjE exE conjE) (simp_all add: rmap_err_def)
    then show ?thesis unfolding lineCards_def by (simp only: assms(2) rbind.simps option.case if_False not_True_eq_False simp_thms Let_def slots_def)
  qed
  moreover have "slots = [] \<or> slots = [1] \<longleftrightarrow> set slots \<subseteq> {1}"
    using s(1) by (cases slots; cases "tl slots") auto
  ultimately show ?thesis
    using s by (auto simp: list_all_iff o_def image_image)
qed

section \<open>The pods of a traffic generator\<close>

text \<open>The links that a pod carries: those of its interfaces, in the order of the status.\<close>

definition pod_links :: "node \<Rightarrow> ixia_intf list \<Rightarrow> string \<Rightarrow> mlink list" where
  "pod_links pb is pod =
     map (\<lambda>i. ixia_link i (the (map_of (n_Interfaces pb) (ixi_Name i)))) (filter (\<lambda>i. ixi_PodName i = pod) is)"

definition ixia_known :: "node \<Rightarrow> ixia_intf list \<Rightarrow> bool" where
  "ixia_known pb is \<longleftrightarrow> list_all (\<lambda>i. map_of (n_Interfaces pb) (ixi_Name i) \<noteq> None) is"

definition extended :: "node \<Rightarrow> ixia_intf list \<Rightarrow> string \<Rightarrow> mtopo option \<Rightarrow> mtopo option" where
  "extended pb is pod t =
     (case t of
        Some t \<Rightarrow> Some (t\<lparr>mt_Links := mt_Links t @ pod_links pb is pod\<rparr>)
      | None \<Rightarrow> if list_ex (\<lambda>i. ixi_PodName i = pod) is then Some \<lparr>mt_Name = pod, mt_Links = pod_links pb is pod\<rparr> else None)"

lemma add_ixia_known:
  assumes "map_of (n_Interfaces pb) (ixi_Name i) \<noteq> None"
  shows "\<exists>m'. add_ixia pb m i = Ok m' \<and> (wf_map m \<longrightarrow> wf_map m') \<and> (\<forall>pod. map_of m' pod = extended pb [i] pod (map_of m pod))"
  using assms by (auto simp: add_ixia_def extended_def pod_links_def Let_def split: option.splits)

lemma extended_Cons: "extended pb is pod (extended pb [i] pod t) = extended pb (i # is) pod t"
  by (cases t) (auto simp: extended_def pod_links_def)

lemma extended_Nil: "extended pb [] pod t = t"
  by (cases t) (auto simp: extended_def pod_links_def)

lemma add_ixia_fold:
  "ixia_known pb is \<Longrightarrow> \<exists>m'. foldM (add_ixia pb) m is = Ok m' \<and> (wf_map m \<longrightarrow> wf_map m') \<and>
     (\<forall>pod. map_of m' pod = extended pb is pod (map_of m pod))"
proof (induction "is" arbitrary: m)
  case (Cons i "is")
  obtain m1 where m1: "add_ixia pb m i = Ok m1" "wf_map m \<longrightarrow> wf_map m1" "\<forall>pod. map_of m1 pod = extended pb [i] pod (map_of m pod)"
    using add_ixia_known [of pb i m] Cons.prems by (auto simp: ixia_known_def)
  obtain m2 where "foldM (add_ixia pb) m1 is = Ok m2" "wf_map m1 \<longrightarrow> wf_map m2" "\<forall>pod. map_of m2 pod = extended pb is pod (map_of m1 pod)"
    using Cons.IH [of m1] Cons.prems by (auto simp: ixia_known_def)
  with m1 show ?case by (simp add: extended_Cons)
qed (simp add: extended_Nil)

lemma add_ixia_unknown: "\<not> ixia_known pb is \<Longrightarrow> \<exists>e. foldM (add_ixia pb) m is = Error e"
proof (induction "is" arbitrary: m)
  case (Cons i "is")
  then show ?case
    using add_ixia_known [of pb i m] by (cases "map_of (n_Interfaces pb) (ixi_Name i)") (auto simp: ixia_known_def add_ixia_def)
qed (simp add: ixia_known_def)

text \<open>
  C38. The meshnet resources of a traffic generator: they exist exactly if every interface that the operator reports
  is one of the node. Then there is one resource for each pod that carries an interface, and its links are those
  of the interfaces that the pod carries, in the order in which they were reported, each with the UID and the peer
  that the topology gives it. The order in which the runtime ranges over the pods does not matter.
\<close>

theorem ixia_specs_grouped:
  assumes "range_order ord"
  shows "(if ixia_known pb is
          then \<exists>topos. ixia_specs ord pb is = Ok topos \<and> distinct (map mt_Name topos) \<and>
            set topos = (\<lambda>pod. \<lparr>mt_Name = pod, mt_Links = pod_links pb is pod\<rparr>) ` set (map ixi_PodName is)
          else \<exists>e. ixia_specs ord pb is = Error e)"
proof (cases "ixia_known pb is")
  case True
  then obtain m where m: "foldM (add_ixia pb) [] is = Ok m" "wf_map m"
    and e: "map_of m pod = extended pb is pod None" for pod
    using add_ixia_fold [of pb "is" "[]"] by auto
  have mem: "(pod, t) \<in> set m \<longleftrightarrow> pod \<in> set (map ixi_PodName is) \<and> t = \<lparr>mt_Name = pod, mt_Links = pod_links pb is pod\<rparr>" for pod t
    using map_of_eq_iff_mem [OF m(2), of pod t] e [of pod] by (auto simp: extended_def list_ex_iff split: if_splits)
  have names: "map (mt_Name \<circ> snd) (ord m) = map fst (ord m)"
    using mem range_order_set [OF assms, of m] by (auto intro!: map_cong)
  have "distinct (map fst (ord m))" using range_order_distinct [OF assms, of fst m] m(2) by (simp add: wf_map_def)
  then have "distinct (map mt_Name (map snd (ord m)))" by (simp only: map_map names)
  moreover have "set (map snd (ord m)) = (\<lambda>pod. \<lparr>mt_Name = pod, mt_Links = pod_links pb is pod\<rparr>) ` set (map ixi_PodName is)"
    (is "_ = ?f ` ?pods")
  proof (intro equalityI subsetI)
    fix t assume "t \<in> set (map snd (ord m))"
    then obtain pod where "(pod, t) \<in> set m" using range_order_set [OF assms, of m] by auto
    then have "pod \<in> ?pods" "t = ?f pod" using mem by blast+
    then show "t \<in> ?f ` ?pods" by (rule rev_image_eqI)
  next
    fix t assume "t \<in> ?f ` ?pods"
    then obtain pod where "pod \<in> ?pods" "t = ?f pod" by (rule imageE)
    then have "(pod, t) \<in> set (ord m)" using mem range_order_set [OF assms, of m] by blast
    then show "t \<in> set (map snd (ord m))" unfolding set_map by (rule rev_image_eqI) simp
  qed
  ultimately show ?thesis using True m(1) by (simp add: ixia_specs_def)
next
  case False
  then show ?thesis using add_ixia_unknown [of pb "is" "[]"] by (auto simp: ixia_specs_def)
qed

section \<open>Waiting for a traffic generator\<close>

text \<open>With a clock that advances the wait returns within the rounds that the timeout allows.\<close>

lemma waitForState_returns:
  assumes clock: "clock_ok time ck" and mono: "\<And>w r w'. getStatus E ns pb w = (r, w') \<Longrightarrow> time w \<le> time w'"
    and fuel: "dur \<le> int fuel * waitInterval"
  shows "waitForState (Suc fuel) ck E ns pb state dur w \<noteq> None"
proof (cases "dur = 0")
  case True
  then show ?thesis using clock by (auto simp: waitForState_def clock_ok_def Let_def)
next
  case False
  have now: "ck_Now ck w = (Ok (time w), w)" for w using clock by (simp add: clock_ok_def)
  have "poll (Suc fuel) ck (time w) dur (state_round E ns pb state) (ck_Sleep ck waitInterval) None w \<noteq> None"
  proof (rule poll_returns [OF now False, where step = waitInterval])
    show "time u \<le> time u'" if "state_round E ns pb state s u = (r, u')" for s u r u'
      using that mono unfolding state_round_def abind_def amap_err_def by (fastforce split: prod.splits result.splits if_splits)
    show "time u + waitInterval \<le> time u'" if "ck_Sleep ck waitInterval u = (Ok x, u')" for u x u'
      using clock that unfolding clock_ok_def by blast
  qed (use fuel in simp)
  then show ?thesis using False by (simp add: waitForState_def now Let_def del: poll.simps)
qed

section \<open>What is left behind\<close>

text \<open>
  Deleting a cdnos node does not touch config maps, so the one that was made with the node stays; the other types
  delete a config map only if the pod has it as its startup volume.
\<close>

lemma crd_config_made:
  assumes "create_ok cm_Name same view (k_ConfigMaps K)" and "cfg_ConfigData (GetConfig pb) \<noteq> None"
    and "crd_config K F ns bp pb w = (Ok cm, w1)"
  shows "view w1 (ns, config_map_name pb) \<noteq> None"
proof -
  obtain data v x where "api_Create (k_ConfigMaps K) ns \<lparr>cm_Name = config_map_name pb, cm_Data = [(cfg_ConfigFile (GetConfig pb), data)]\<rparr> v = (Ok x, w1)"
    using assms(2,3) unfolding crd_config_def by (auto elim!: abind_OkD)
  with assms(1) show ?thesis unfolding create_ok_def by (fastforce split: prod.splits result.splits)
qed

lemma cdnos_config_left_behind:
  assumes "create_ok cm_Name same view (k_ConfigMaps K)" and fr: "api_frame view (cn_Cdnoss E)" "keeps view (cn_NewClient E)"
    and "cfg_ConfigData (GetConfig pb) \<noteq> None"
    and "drivenets_Create E K F quantity ns bp pb w = (Ok (), w1)" and "drivenets_Delete E ns pb w1 = (r, w2)"
  shows "view w2 (ns, config_map_name pb) \<noteq> None"
proof -
  obtain cm v v1 d x where c: "crd_config K F ns bp pb w = (Ok cm, v)" and n: "cn_NewClient E v = (Ok (), v1)"
    and a: "api_Create (cn_Cdnoss E) ns (cdnos_of pb d) v1 = (Ok x, w1)"
    using assms(5) unfolding drivenets_Create_def cdnosCreate_def drivenets_CreateConfig_def
    by (auto simp: amap_err_Ok elim!: abind_OkD split: if_splits)
  have "view w1 = view v" using keepsD [OF fr(2) n] api_frameD(1) [OF fr(1)] a by (metis keepsD)
  moreover have "view w2 = view w1" using assms(6) unfolding drivenets_Delete_def
    by (rule keepsD [rotated]) (intro keeps_intros fr)
  ultimately show ?thesis using crd_config_made [OF assms(1,4) c] by simp
qed

section \<open>Examples\<close>

definition ex_chassis :: node where
  "ex_chassis = empty_node\<lparr>n_Name := ''srl'', n_Model := ''ixr6'',
     n_Interfaces := map (\<lambda>k. (k, empty_interface)) [''e4-1'', ''mgmt0'', ''e2-3-1'', ''e2-1'', ''e9-1'', ''e0-1'']\<rparr>"

theorem lineCards_exact_witness:
  "\<exists>cards. lineCards (\<lambda>_. Ok []) ex_chassis = Ok cards \<and> sorted (map fst cards) \<and> distinct (map fst cards) \<and> set (map fst cards) = {2, 4}"
proof -
  have h: "cfg_VendorData (GetConfig ex_chassis) = None" "map_of modularModels (n_Model ex_chassis) = Some 4"
    by (simp_all add: ex_chassis_def empty_node_def GetConfig_def empty_config_def modularModels_def)
  have i: "map iface_slot (keys (n_Interfaces ex_chassis)) = [Some 4, None, Some 2, Some 2, Some 9, None]" by code_simp
  have "named_slots 4 (keys (n_Interfaces ex_chassis)) = {s. s \<le> 4 \<and> Some s \<in> set (map iface_slot (keys (n_Interfaces ex_chassis)))}"
    by (auto simp: named_slots_def image_iff) metis
  also have "\<dots> = {2, 4}" unfolding i by auto
  finally have n: "named_slots 4 (keys (n_Interfaces ex_chassis)) = {2, 4}" .
  show ?thesis using lineCards_exact [of ex_chassis "\<lambda>_. Ok []" 4] h unfolding n by auto
qed

definition ex_ports :: "ixia_intf list" where
  "ex_ports = map (\<lambda>(n, p). \<lparr>ixi_Name = n, ixi_PodName = p, ixi_Intf = ''eth1''\<rparr>) [(''a'', ''p1''), (''b'', ''p2''), (''c'', ''p1'')]"

definition ex_generator :: node where
  "ex_generator = empty_node\<lparr>n_Name := ''otg'', n_Interfaces := map (\<lambda>k. (k, empty_interface\<lparr>ifc_PeerName := k\<rparr>)) [''a'', ''b'', ''c'']\<rparr>"

theorem ixia_specs_grouped_witness:
  "\<exists>topos. ixia_specs rev ex_generator ex_ports = Ok topos \<and> distinct (map mt_Name topos) \<and>
     set topos = (\<lambda>pod. \<lparr>mt_Name = pod, mt_Links = pod_links ex_generator ex_ports pod\<rparr>) ` set (map ixi_PodName ex_ports)"
proof -
  have "range_order rev" by (simp add: range_order_def)
  moreover have "ixia_known ex_generator ex_ports" by code_simp
  ultimately show ?thesis using ixia_specs_grouped [of rev ex_generator ex_ports] by simp
qed

end
