(* ===== verification/Vendor_CLI.thy ===== *)
theory Vendor_CLI
  imports Vendor_CRD Vendor_Pods
begin

text \<open>
  The operations of node types that talk to a device over its command line: \<open>ConfigPush\<close>, \<open>ResetCfg\<close> and
  \<open>GenerateSelfSigned\<close> of arista, nokia, juniper and cisco, the status of cisco nodes, and the pod of juniper. The
  driver of the command line is code outside the repository and a record of operations. Opening a connection is
  tried for ever, so that these operations take fuel and may not return.
\<close>

section \<open>Operations that may not return\<close>

type_synonym ('w, 'a) run = "'w \<Rightarrow> ('a result \<times> 'w) option"

definition rdo :: "('w, 'a) act \<Rightarrow> ('w, 'a) run" where
  "rdo m w = Some (m w)"

definition rthen :: "('w, 'a) run \<Rightarrow> ('a \<Rightarrow> ('w, 'b) run) \<Rightarrow> ('w, 'b) run" where
  "rthen m f w =
     (case m w of
        None \<Rightarrow> None
      | Some (Ok x, w1) \<Rightarrow> f x w1
      | Some (Error e, w1) \<Rightarrow> Some (Error e, w1)
      | Some (Panic p, w1) \<Rightarrow> Some (Panic p, w1))"

text \<open>\<open>defer c()\<close>, whose error is dropped.\<close>

definition rdefer :: "('w, unit) act \<Rightarrow> ('w, 'a) run \<Rightarrow> ('w, 'a) run" where
  "rdefer c m w = map_option (\<lambda>(r, w1). case c w1 of (Panic p, w2) \<Rightarrow> (Panic p, w2) | (_, w2) \<Rightarrow> (r, w2)) (m w)"

section \<open>The command line\<close>

datatype cli_opt =
  WithAuthBypass | WithTimeoutOps int | WithTermWidth int | WithOpenBin string | WithOpenArgs "string list"
| WithDefaultDesiredPriv string | WithNetworkOnOpen_noOp

text \<open>An answer of the device: perhaps a failure, and the text.\<close>

record response =
  rp_Failed :: "err option"
  rp_Result :: string

record multi_response =
  mr_Failed :: "err option"
  mr_Responses :: "response list"

record 'w cli =
  cli_NewPlatform :: "string \<Rightarrow> string \<Rightarrow> cli_opt list \<Rightarrow> ('w, unit) act"
  cli_GetNetworkDriver :: "('w, unit) act"
  cli_Open :: "('w, unit) act"
  cli_Close :: "('w, unit) act"
  cli_Sleep :: "int \<Rightarrow> ('w, unit) act"
  cli_IsAlive :: "('w, bool) act"
  cli_FailedWhenContains :: "string list \<Rightarrow> 'w \<Rightarrow> 'w"
  cli_OnClose :: "('w, unit) act \<Rightarrow> 'w \<Rightarrow> 'w"
  cli_SendInput :: "string \<Rightarrow> int \<Rightarrow> ('w, unit) act"
  cli_SendCommand :: "string \<Rightarrow> ('w, response) act"
  cli_SendCommands :: "string list \<Rightarrow> ('w, multi_response) act"
  cli_SendConfig :: "string \<Rightarrow> ('w, response) act"
  cli_SendConfigs :: "string list \<Rightarrow> ('w, multi_response) act"

text \<open>The node on whose behalf the command line is opened.\<close>

record cli_node =
  cln_Kubecfg :: string
  cln_Namespace :: string
  cln_Proto :: node

definition PatchCLIConnOpen :: "cli_node \<Rightarrow> string \<Rightarrow> string list \<Rightarrow> cli_opt list \<Rightarrow> cli_opt list" where
  "PatchCLIConnOpen n bin cliCmd opts =
     opts @ [WithOpenBin bin,
       WithOpenArgs ((if cln_Kubecfg n \<noteq> [] then [''--kubeconfig='' @ cln_Kubecfg n] else []) @
         [''exec'', ''-it'', ''-n'', cln_Namespace n, n_Name (cln_Proto n), ''--''] @ cliCmd)]"

fun GetCLIConn :: "nat \<Rightarrow> 'w cli \<Rightarrow> cli_node \<Rightarrow> string \<Rightarrow> cli_opt list \<Rightarrow> ('w, unit) run" where
  "GetCLIConn 0 C n platform opts w = None"
| "GetCLIConn (Suc fuel) C n platform opts w =
     (case abind (cli_NewPlatform C platform (n_Name (cln_Proto n)) opts) (\<lambda>_. cli_GetNetworkDriver C) w of
        (Error e, w1) \<Rightarrow> Some (Error e, w1)
      | (Panic p, w1) \<Rightarrow> Some (Panic p, w1)
      | (Ok _, w1) \<Rightarrow>
          (case cli_Open C w1 of
             (Ok _, w2) \<Rightarrow> Some (Ok (), w2)
           | (Panic p, w2) \<Rightarrow> Some (Panic p, w2)
           | (Error _, w2) \<Rightarrow>
               (case cli_Sleep C (2 * Second) w2 of
                  (Panic p, w3) \<Rightarrow> Some (Panic p, w3)
                | (_, w3) \<Rightarrow> GetCLIConn fuel C n platform opts w3)))"

text \<open>\<open>if resp.Failed != nil { return resp.Failed }\<close>.\<close>

definition failed :: "err option \<Rightarrow> ('w, unit) act" where
  "failed f = (case f of None \<Rightarrow> aret () | Some e \<Rightarrow> aerr e)"

text \<open>An assignment to a field of the connection, which cannot fail.\<close>

definition assign :: "('w \<Rightarrow> 'w) \<Rightarrow> ('w, unit) act" where
  "assign f w = (Ok (), f w)"

section \<open>arista\<close>

definition arista_SpawnCLIConn :: "nat \<Rightarrow> 'w cli \<Rightarrow> cli_node \<Rightarrow> ('w, unit) run" where
  "arista_SpawnCLIConn fuel C n = GetCLIConn fuel C n ''arista_eos'' (PatchCLIConnOpen n ''kubectl'' [''Cli''] [WithAuthBypass])"

definition arista_GenerateSelfSigned :: "cli_node \<Rightarrow> ('w, unit) act" where
  "arista_GenerateSelfSigned n =
     aerr (StatusErr Unimplemented
       (''Node %q does not implement Certer interface. '' @
        ''To configure a certificate on a cEOS-lab device, define the certificate in the '' @
        ''topology file or patch the certificate configuration into the node's '' @
        ''CEosLabDevice custom resource instance.'') [n_Name (cln_Proto n)])"

definition arista_ConfigPush :: "nat \<Rightarrow> 'w cli \<Rightarrow> cli_node \<Rightarrow> ('w, string) act \<Rightarrow> ('w, unit) run" where
  "arista_ConfigPush fuel C n r =
     rthen (rdo r) (\<lambda>cfgs.
     rthen (arista_SpawnCLIConn fuel C n) (\<lambda>_.
       rdefer (cli_Close C) (rdo (abind (cli_SendConfig C cfgs) (\<lambda>resp. failed (rp_Failed resp))))))"

definition arista_ResetCfg :: "nat \<Rightarrow> 'w cli \<Rightarrow> cli_node \<Rightarrow> ('w, unit) run" where
  "arista_ResetCfg fuel C n =
     rthen (arista_SpawnCLIConn fuel C n) (\<lambda>_.
       rdefer (cli_Close C) (rdo (abind (cli_SendCommand C ''configure replace startup-config'') (\<lambda>resp. failed (rp_Failed resp)))))"

section \<open>nokia\<close>

text \<open>The replacer turns each of four characters into itself behind a backslash, in one pass.\<close>

definition special_char :: "char \<Rightarrow> bool" where
  "special_char c \<longleftrightarrow> c = CHR 0x5C \<or> c = CHR 0x22 \<or> c = CHR 0x60 \<or> c = CHR 0x24"

definition escapeConfig :: "string \<Rightarrow> string" where
  "escapeConfig s = concat (map (\<lambda>c. if special_char c then [CHR 0x5C, c] else [c]) s)"

text \<open>The waits of the SR Linux package for the management server, and its command for certificates.\<close>

record 'w srl_cli =
  sc_WaitReady :: "('w, unit) act"
  sc_AddSelfSigned :: "string \<Rightarrow> ('w, unit) act"
  sc_WatchPods :: "('w, (pod_phase \<times> condition list) option list \<times> bool) act"

definition nokia_SpawnCLIConn :: "nat \<Rightarrow> 'w cli \<Rightarrow> 'w srl_cli \<Rightarrow> cli_node \<Rightarrow> ('w, unit) run" where
  "nokia_SpawnCLIConn fuel C S n =
     rthen (GetCLIConn fuel C n ''nokia_srl'' (PatchCLIConnOpen n ''kubectl'' [''sr_cli'', ''-d''] [WithAuthBypass, WithTermWidth 5000])) (\<lambda>_.
       rdo (sc_WaitReady S))"

definition pod_ready :: "(pod_phase \<times> condition list) option \<Rightarrow> bool" where
  "pod_ready p = (case p of Some (PodRunning, conds) \<Rightarrow> (''Ready'', ''True'') \<in> set conds | _ \<Rightarrow> False)"

text \<open>The loop over the watch ends at the first pod that is ready or with the channel; otherwise it does not end.\<close>

definition nokia_GenerateSelfSigned :: "nat \<Rightarrow> 'w cli \<Rightarrow> 'w srl_cli \<Rightarrow> cli_node \<Rightarrow> ('w, unit) run" where
  "nokia_GenerateSelfSigned fuel C S n =
     (case GetSelfSigned (cln_Proto n) of
        None \<Rightarrow> rdo (aret ())
      | Some selfSigned \<Rightarrow>
          rthen (rdo (sc_WatchPods S)) (\<lambda>(evs, closed).
          if \<not> list_ex pod_ready evs \<and> \<not> closed then (\<lambda>w. None)
          else
            rthen (nokia_SpawnCLIConn fuel C S n) (\<lambda>_.
              rdo (abind (sc_AddSelfSigned S (ss_CertName selfSigned)) (\<lambda>_. cli_Close C)))))"

definition pushCfgFile :: string where "pushCfgFile = ''/home/admin/kne-push-config''"

text \<open>When loading the configuration fails, the failure that is returned is that of the first command, which has none.\<close>

definition nokia_push :: "'w cli \<Rightarrow> string \<Rightarrow> ('w, unit) act" where
  "nokia_push C cfg =
     abind (cli_SendConfig C (''echo '' @ [CHR 0x22] @ cfg @ [CHR 0x22] @ '' > '' @ pushCfgFile)) (\<lambda>resp.
     if rp_Failed resp \<noteq> None then failed (rp_Failed resp)
     else
       abind (cli_SendConfigs C [''baseline update'', ''discard /'', ''source /home/admin/kne-push-config'', ''commit save'']) (\<lambda>mresp.
         if mr_Failed mresp \<noteq> None then failed (rp_Failed resp) else aret ()))"

definition nokia_ConfigPush :: "nat \<Rightarrow> 'w cli \<Rightarrow> 'w srl_cli \<Rightarrow> cli_node \<Rightarrow> ('w, string) act \<Rightarrow> ('w, unit) run" where
  "nokia_ConfigPush fuel C S n r =
     rthen (rdo r) (\<lambda>cfgBytes.
     rthen (nokia_SpawnCLIConn fuel C S n) (\<lambda>_.
       rdefer (cli_Close C) (rdo (nokia_push C (escapeConfig cfgBytes)))))"

definition nokia_ResetCfg :: "nat \<Rightarrow> 'w cli \<Rightarrow> 'w srl_cli \<Rightarrow> cli_node \<Rightarrow> ('w, unit) run" where
  "nokia_ResetCfg fuel C S n =
     rthen (nokia_SpawnCLIConn fuel C S n) (\<lambda>_.
       rdo (abind (cli_SendConfig C ''/tools system configuration checkpoint initial revert'') (\<lambda>resp.
            abind (failed (rp_Failed resp)) (\<lambda>_. cli_Close C))))"

text \<open>A configuration that the device refuses to load is reported as pushed.\<close>

lemma nokia_push_hides_failure:
  assumes "cli_SendConfig C (''echo '' @ [CHR 0x22] @ cfg @ [CHR 0x22] @ '' > '' @ pushCfgFile) w = (Ok resp, w1)" and "rp_Failed resp = None"
    and "cli_SendConfigs C [''baseline update'', ''discard /'', ''source /home/admin/kne-push-config'', ''commit save''] w1 = (Ok mresp, w2)"
    and "mr_Failed mresp = Some e"
  shows "nokia_push C cfg w = (Ok (), w2)"
  using assms by (simp add: nokia_push_def abind_def failed_def)

text \<open>
  What a shell reads behind an opening double quote: the text up to the closing one and what follows it. A
  backslash quotes the four special characters, joins lines before a line end and stands for itself otherwise; a
  dollar sign or a backquote would start an expansion, for which there is no text.
\<close>

fun dquoted :: "string \<Rightarrow> (string \<times> string) option" where
  "dquoted [] = None"
| "dquoted (c # s) =
     (if c = CHR 0x22 then Some ([], s)
      else if c = CHR 0x24 \<or> c = CHR 0x60 then None
      else if c = CHR 0x5C then
        (case s of
           [] \<Rightarrow> None
         | d # t \<Rightarrow>
             if special_char d then map_option (apfst (Cons d)) (dquoted t)
             else if d = CHR 0x0A then dquoted t
             else map_option (apfst (\<lambda>u. c # d # u)) (dquoted t))
      else map_option (apfst (Cons c)) (dquoted s))"

text \<open>
  C40. Every configuration, escaped by \<open>escapeConfig\<close> and put between double quotes as \<open>ConfigPush\<close> of nokia nodes does,
  is read back by a shell as it was, whatever special characters it holds: the quotes end where the configuration
  ends, and nothing in it is expanded.
\<close>

theorem escapeConfig_round_trip: "dquoted (escapeConfig cfg @ [CHR 0x22] @ rest) = Some (cfg, rest)"
  by (induction cfg) (auto simp: escapeConfig_def special_char_def)

section \<open>juniper\<close>

definition juniper_SpawnCLIConn :: "nat \<Rightarrow> 'w cli \<Rightarrow> cli_node \<Rightarrow> ('w, unit) run" where
  "juniper_SpawnCLIConn fuel C n =
     GetCLIConn fuel C n ''juniper_junos'' (PatchCLIConnOpen n ''kubectl'' [''cli''] [WithAuthBypass, WithTimeoutOps (300 * Second)])"

text \<open>Every service called \<open>gnmi\<close> sets the port, so that the last one in the order of the map decides.\<close>

definition grpc_port :: "node \<Rightarrow> u32" where
  "grpc_port pb = foldl (\<lambda>port (_, v). if svc_Name v = ''gnmi'' then svc_Inside v else port) 9339 (items (n_Services pb))"

definition grpc_cert :: "node \<Rightarrow> string" where
  "grpc_cert pb = (case GetSelfSigned pb of Some c \<Rightarrow> dflt ''grpc-server-cert'' (ss_CertName c) | None \<Rightarrow> ''grpc-server-cert'')"

definition grpc_server :: "string \<Rightarrow> string \<Rightarrow> string list \<Rightarrow> string \<Rightarrow> string list" where
  "grpc_server server port services cert =
     (let pre = ''set system services http servers server '' @ server in
      [pre, pre @ '' port '' @ port] @ map (\<lambda>s. pre @ '' grpc '' @ s) services @
      [pre @ '' tls local-certificate '' @ cert, pre @ '' listen-address 0.0.0.0'', pre @ '' grpc all-grpc max-connections 300''])"

definition GRPCConfig :: "node \<Rightarrow> string list" where
  "GRPCConfig pb =
     grpc_server ''grpc-server-9339'' (itoa (uint (grpc_port pb))) [''gnmi'', ''gnoi'', ''gnsi''] (grpc_cert pb) @
     grpc_server ''grpc-server-9340'' ''9340'' [''gribi''] (grpc_cert pb) @
     grpc_server ''grpc-server-9559'' ''9559'' [''p4''] (grpc_cert pb) @
     [''commit'']"

text \<open>\<open>(?im)(\berror:|\bcommit error\b|\bsyntax error\b)\<close> on ASCII text.\<close>

definition word_char :: "char \<Rightarrow> bool" where
  "word_char c \<longleftrightarrow> token_char c \<or> c = CHR ''_''"

definition whole_word :: "string \<Rightarrow> string \<Rightarrow> bool" where
  "whole_word p s \<longleftrightarrow> prefix p s \<and> (case drop (length p) s of [] \<Rightarrow> True | c # _ \<Rightarrow> \<not> word_char c)"

fun junos_scan :: "bool \<Rightarrow> string \<Rightarrow> bool" where
  "junos_scan word [] = False"
| "junos_scan word (c # s) =
     (\<not> word \<and> (prefix ''error:'' (c # s) \<or> whole_word ''commit error'' (c # s) \<or> whole_word ''syntax error'' (c # s)) \<or>
      junos_scan (word_char c) s)"

definition isJunosError :: "string \<Rightarrow> bool" where
  "isJunosError result = junos_scan False (ToLower result)"

text \<open>
  Both waits are the polling loop of the manager with other rounds. \<open>not_ready\<close> looks for the names of two errors
  of the driver in the text of an error.
\<close>

fun config_verdict :: "response list \<Rightarrow> unit result option" where
  "config_verdict [] = None"
| "config_verdict (r # rs) =
     (case rp_Failed r of
        Some e \<Rightarrow> Some (Error e)
      | None \<Rightarrow> if Contains (rp_Result r) ''commit complete'' then Some (Ok ()) else config_verdict rs)"

definition config_round :: "(err \<Rightarrow> bool) \<Rightarrow> 'w cli \<Rightarrow> string list \<Rightarrow> unit \<Rightarrow> ('w, unit \<times> bool) act" where
  "config_round not_ready C configs _ =
     abind (atry (cli_SendConfigs C configs)) (\<lambda>r. case r of
       Error e \<Rightarrow> if not_ready e then aret ((), False) else aerr (Errorv ''failed pushing configs: %v'' [] e)
     | Panic p \<Rightarrow> apanic p
     | Ok m \<Rightarrow>
         (case config_verdict (mr_Responses m) of
            Some v \<Rightarrow> abind (alift v) (\<lambda>_. aret ((), True))
          | None \<Rightarrow> aret ((), False)))"

definition wait_loop :: "nat \<Rightarrow> 'w clock \<Rightarrow> int \<Rightarrow> int \<Rightarrow> string \<Rightarrow> (unit \<Rightarrow> ('w, unit \<times> bool) act) \<Rightarrow> ('w, unit) run" where
  "wait_loop fuel ck dur pause msg round =
     rthen (rdo (ck_Now ck)) (\<lambda>start w.
       map_option (\<lambda>(r, w'). (rbind r (\<lambda>(_, done). if done then Ok () else Error (Errorf msg [])), w'))
         (poll fuel ck start dur round (ck_Sleep ck pause) () w))"

definition configModeTimeout :: int where "configModeTimeout = 15 * Minute"
definition configModeRetrySleep :: int where "configModeRetrySleep = 5 * Second"

definition waitConfigInfraReadyAndPushConfigs :: "nat \<Rightarrow> 'w clock \<Rightarrow> (err \<Rightarrow> bool) \<Rightarrow> 'w cli \<Rightarrow> string list \<Rightarrow> ('w, unit) run" where
  "waitConfigInfraReadyAndPushConfigs fuel ck not_ready C configs =
     wait_loop fuel ck configModeTimeout configModeRetrySleep ''failed sending configs'' (config_round not_ready C configs)"

definition validCertName :: "string \<Rightarrow> bool" where
  "validCertName s \<longleftrightarrow> s \<noteq> [] \<and> list_all (\<lambda>c. token_char c \<or> c = CHR ''.'' \<or> c = CHR ''_'' \<or> c = CHR ''-'') s"

definition cert_commands :: "string \<Rightarrow> string list" where
  "cert_commands certName =
     [''request security pki generate-key-pair certificate-id '' @ certName,
      ''request security pki local-certificate generate-self-signed certificate-id '' @ certName @
      '' subject CN=abc domain-name google.com ip-address 1.2.3.4 email example@google.com'']"

text \<open>Whether there is an error that calls for another round; the loop over the responses ends there.\<close>

fun cert_error :: "response list \<Rightarrow> bool result" where
  "cert_error [] = Ok False"
| "cert_error (r # rs) =
     (case rp_Failed r of
        Some e \<Rightarrow> Error e
      | None \<Rightarrow> if isJunosError (rp_Result r) \<and> \<not> Contains (ToLower (rp_Result r)) ''already exists'' then Ok True else cert_error rs)"

fun cert_result :: "string list \<Rightarrow> response list \<Rightarrow> string" where
  "cert_result (cmd # cmds) (r # rs) = (if Contains cmd ''generate-self-signed'' then rp_Result r else cert_result cmds rs)"
| "cert_result _ _ = []"

definition cert_round :: "'w cli \<Rightarrow> string list \<Rightarrow> unit \<Rightarrow> ('w, unit \<times> bool) act" where
  "cert_round C commands _ =
     abind (amap_err (Errorv ''failed sending generate-self-signed commands: %v'' []) (cli_SendCommands C commands)) (\<lambda>m.
       if length (mr_Responses m) < length commands then aret ((), False)
       else
         abind (alift (cert_error (mr_Responses m))) (\<lambda>hasError.
           let res = ToLower (cert_result commands (mr_Responses m)) in
           aret ((), \<not> hasError \<and> (Contains res ''successfully'' \<or> Contains res ''already exists''))))"

definition certGenTimeout :: int where "certGenTimeout = 15 * Minute"
definition certGenRetrySleep :: int where "certGenRetrySleep = 5 * Second"

definition invalid_cert_name :: "string \<Rightarrow> err" where
  "invalid_cert_name certName = Errorf ''invalid cert name %q: must match %s'' [certName, ''^[A-Za-z0-9._-]+$'']"

definition waitCertInfraReadyAndPushCert :: "nat \<Rightarrow> 'w clock \<Rightarrow> 'w cli \<Rightarrow> node \<Rightarrow> ('w, unit) run" where
  "waitCertInfraReadyAndPushCert fuel ck C pb =
     (let certName = (case GetSelfSigned pb of Some c \<Rightarrow> ss_CertName c | None \<Rightarrow> []) in
      if \<not> validCertName certName then rdo (aerr (invalid_cert_name certName))
      else wait_loop fuel ck certGenTimeout certGenRetrySleep ''failed sending generate-self-signed commands''
             (cert_round C (cert_commands certName)))"

text \<open>Both waits return, since every round is followed by a pause and the clock goes on.\<close>

lemma wait_loop_returns:
  assumes now: "\<And>w. ck_Now ck w = (Ok (time w), w)" and "dur \<noteq> 0"
    and "\<And>s w r w'. round s w = (r, w') \<Longrightarrow> time w \<le> time w'"
    and "\<And>w u w'. ck_Sleep ck pause w = (Ok u, w') \<Longrightarrow> time w + pause \<le> time w'"
    and "dur \<le> int fuel * pause"
  shows "wait_loop (Suc fuel) ck dur pause msg round w \<noteq> None"
  using poll_returns [where ck = ck and time = time and round = round and pause = "ck_Sleep ck pause" and step = pause
      and timeout = dur and start = "time w" and w = w and s = "()" and fuel = fuel, OF assms(1-4)] assms(5)
  by (simp add: wait_loop_def rthen_def rdo_def now del: poll.simps)

text \<open>Waiting until the pod runs: a look at it first, then a watch.\<close>

record 'w pod_wait =
  pw_Watch :: "('w, pod_phase option list \<times> bool) act"
  pw_CtxErr :: "('w, err option) act"

definition wait_running :: "'w kube \<Rightarrow> 'w pod_wait \<Rightarrow> cli_node \<Rightarrow> ('w, unit) run" where
  "wait_running K W n =
     rthen (rdo (atry (api_Get (k_Pods K) (cln_Namespace n) (n_Name (cln_Proto n))))) (\<lambda>r.
     if (case r of Ok p \<Rightarrow> pd_Phase p = PodRunning | _ \<Rightarrow> False) then rdo (aret ())
     else
       rthen (rdo (pw_Watch W)) (\<lambda>(evs, closed).
         if Some PodRunning \<in> set evs then rdo (aret ())
         else if \<not> closed then (\<lambda>w. None)
         else rdo (abind (pw_CtxErr W) (\<lambda>eo. case eo of
           Some e \<Rightarrow> aerr e
         | None \<Rightarrow> aerr (Errorf ''%s - watch closed before pod reached running phase'' [n_Name (cln_Proto n)])))))"

text \<open>The client of the cluster is an argument here and never missing.\<close>

definition juniper_certs :: "nat \<Rightarrow> 'w clock \<Rightarrow> (err \<Rightarrow> bool) \<Rightarrow> 'w cli \<Rightarrow> cli_node \<Rightarrow> ('w, unit) run" where
  "juniper_certs fuel ck not_ready C n =
     rthen (rdo (cli_IsAlive C)) (\<lambda>alive.
     if \<not> alive then rdo (aerr (Errorf ''scrapligo device driver not open'' []))
     else
       rthen (waitCertInfraReadyAndPushCert fuel ck C (cln_Proto n)) (\<lambda>_.
       rthen (\<lambda>w. map_option (\<lambda>(r, w'). (rmap_err (Errorv ''failed sending grpc config commands - self-signed-cert: %v'' []) r, w'))
                (waitConfigInfraReadyAndPushConfigs fuel ck not_ready C (GRPCConfig (cln_Proto n)) w)) (\<lambda>_.
         rdo (cli_Close C))))"

definition juniper_GenerateSelfSigned ::
  "nat \<Rightarrow> 'w clock \<Rightarrow> (err \<Rightarrow> bool) \<Rightarrow> 'w kube \<Rightarrow> 'w pod_wait \<Rightarrow> 'w cli \<Rightarrow> cli_node \<Rightarrow> ('w, unit) run" where
  "juniper_GenerateSelfSigned fuel ck not_ready K W C n =
     (case GetSelfSigned (cln_Proto n) of
        None \<Rightarrow> rdo (aret ())
      | Some c \<Rightarrow>
          if \<not> validCertName (ss_CertName c) then rdo (aerr (invalid_cert_name (ss_CertName c)))
          else
            rthen (wait_running K W n) (\<lambda>_.
            rthen (juniper_SpawnCLIConn fuel C n) (\<lambda>_.
              juniper_certs fuel ck not_ready C n)))"

text \<open>The package that loads a candidate configuration and commits it; its answers have a failure only.\<close>

record 'w junos_cfg =
  jc_NewCfg :: "string \<Rightarrow> ('w, unit) act"
  jc_Prepare :: "('w, unit) act"
  jc_LoadConfig :: "string \<Rightarrow> bool \<Rightarrow> ('w, err option) act"
  jc_CommitConfig :: "('w, err option) act"

text \<open>An empty configuration is not pushed, not even when reading it failed.\<close>

definition juniper_ConfigPush :: "nat \<Rightarrow> 'w cli \<Rightarrow> 'w junos_cfg \<Rightarrow> cli_node \<Rightarrow> ('w, string \<times> err option) act \<Rightarrow> ('w, unit) run" where
  "juniper_ConfigPush fuel C J n r =
     rthen (rdo r) (\<lambda>(cfgs, eo).
     if cfgs = [] then rdo (aret ())
     else rthen (rdo (failed eo)) (\<lambda>_.
       rthen (juniper_SpawnCLIConn fuel C n) (\<lambda>_.
         rdefer (cli_Close C) (rdo
           (abind (jc_NewCfg J []) (\<lambda>_.
            abind (jc_Prepare J) (\<lambda>_.
            abind (jc_LoadConfig J cfgs False) (\<lambda>f1.
            abind (failed f1) (\<lambda>_.
            abind (jc_CommitConfig J) failed)))))))))"

text \<open>The text of the error has the results one behind the other; here they are its list of arguments.\<close>

fun no_error :: "string \<Rightarrow> response list \<Rightarrow> response list \<Rightarrow> unit result" where
  "no_error msg all [] = Ok ()"
| "no_error msg all (r # rs) =
     (case rp_Failed r of
        Some e \<Rightarrow> Error e
      | None \<Rightarrow> if Contains (rp_Result r) ''error:'' then Error (Errorf msg (map rp_Result all)) else no_error msg all rs)"

definition send_checked :: "'w cli \<Rightarrow> string \<Rightarrow> string list \<Rightarrow> ('w, unit) act" where
  "send_checked C msg cfgs = abind (cli_SendConfigs C cfgs) (\<lambda>m. alift (no_error msg (mr_Responses m) (mr_Responses m)))"

definition juniper_ResetCfg :: "nat \<Rightarrow> 'w cli \<Rightarrow> cli_node \<Rightarrow> ('w, unit) run" where
  "juniper_ResetCfg fuel C n =
     rthen (juniper_SpawnCLIConn fuel C n) (\<lambda>_.
       rdefer (cli_Close C) (rdo
         (abind (send_checked C ''failed sending config-reset commands: %s'' [''load override /var/vmguest/config/juniper.conf'', ''commit'']) (\<lambda>_.
            send_checked C ''failed sending gRPC commands: %s'' (GRPCConfig (cln_Proto n))))))"

subsection \<open>The pod\<close>

definition isChannelized :: "node \<Rightarrow> bool" where
  "isChannelized pb \<longleftrightarrow> list_ex (\<lambda>(key, value). Contains key ''eth'' \<and> Contains (ifc_Name value) '':'') (n_Interfaces pb)"

definition juniper_script :: "string \<Rightarrow> string \<Rightarrow> string \<Rightarrow> string" where
  \<open>juniper_script dst src configFile =
     (let file = dst @ ''/'' @ configFile; from_file = src @ ''/'' @ configFile in
      concat (map (\<lambda>l. l @ newline)
       [[],
        ''/entrypoint.sh "$1" "$2"'',
        ''mkdir -p '' @ dst,
        ''if [ -f '' @ from_file @ '' ]; then'',
        ''  cp '' @ from_file @ '' '' @ file,
        ''else'',
        ''  cat << 'EOF' > '' @ file,
        ''system {'',
        ''    root-authentication {'',
        ''        encrypted-password "$6$7uA5z8vs$cmHIvL0aLU4ioWAHPR0PLeU/mJj.JO/5pQVQoqRlInK3fJNTLYLhwiDi.Q6gHhltSB3S1P/.raEsuDSH7akcJ/";'',
        ''    }'',
        ''    services {'',
        ''        ssh {'',
        ''            root-login allow;'',
        ''        }'',
        ''    }'',
        ''}'',
        ''EOF'',
        ''fi'',
        ''IP4=$(ip -4 addr show dev eth0 2>/dev/null | awk '/inet /{print $2}' | head -n1)'',
        ''GW4=$(ip -4 route show default 2>/dev/null | awk '{print $3}' | head -n1)'',
        ''if [ -n "$IP4" ]; then'',
        ''  if grep -q "FXP0ADDR" '' @ file @ ''; then'',
        ''    sed -i "s|FXP0ADDR|$IP4|g" '' @ file,
        ''  elif ! grep -q "re0:mgmt-0" '' @ file @ ''; then'',
        ''    cat << EOF >> '' @ file,
        ''interfaces {'',
        ''    re0:mgmt-0 {'',
        ''        unit 0 {'',
        ''            family inet {'',
        ''                address $IP4;'',
        ''            }'',
        ''        }'',
        ''    }'',
        ''}'',
        ''EOF'',
        ''  fi'',
        ''fi'',
        ''if [ -n "$GW4" ]; then'',
        ''  cat << EOF >> '' @ file,
        ''routing-options {'',
        ''    static {'',
        ''        route 0.0.0.0/0 next-hop $GW4;'',
        ''    }'',
        ''}'',
        ''EOF'',
        ''fi'',
        ''IP6=$(ip -6 addr show dev eth0 2>/dev/null | awk '/inet6 /{print $2}' | grep -v '^fe80' | head -n1)'',
        ''GW6=$(ip -6 route show default 2>/dev/null | awk '{print $3}' | head -n1)'',
        ''if [ -n "$IP6" ]; then'',
        ''  if ! grep -q "family inet6" '' @ file @ ''; then'',
        ''    cat << EOF >> '' @ file,
        ''interfaces {'',
        ''    re0:mgmt-0 {'',
        ''        unit 0 {'',
        ''            family inet6 {'',
        ''                address $IP6;'',
        ''            }'',
        ''        }'',
        ''    }'',
        ''}'',
        ''EOF'',
        ''  fi'',
        ''fi'',
        ''if [ -n "$GW6" ]; then'',
        ''  cat << EOF >> '' @ file,
        ''routing-options {'',
        ''    rib inet6.0 {'',
        ''        static {'',
        ''            route ::/0 next-hop $GW6;'',
        ''        }'',
        ''    }'',
        ''}'',
        ''EOF'',
        ''fi'']))\<close>

text \<open>Writing to a \<open>nil\<close> map panics.\<close>

definition juniper_env :: "node \<Rightarrow> (string, string) gomap \<Rightarrow> (string, string) gomap" where
  "juniper_env pb env =
     put ''CPTX_MEMORY_LIMIT'' (get_str (items (n_Constraints pb)) ''memory'')
       (put ''CPTX_CPU_LIMIT'' (get_str (items (n_Constraints pb)) ''cpu'')
         (if isChannelized pb then put ''CPTX_CHANNELIZED'' ''1'' env else env))"

definition juniper_mounts :: "(string \<times> string \<times> volume_source) list" where
  "juniper_mounts =
     [(''-run-mount'', ''/run'', VS_EmptyDir ''Memory''), (''-tmp-mount'', ''/tmp'', VS_EmptyDir ''Memory''),
      (''-dev-shm-mount'', ''/dev/shm'', VS_EmptyDir ''Memory''), (''-cgroup-mount'', ''/sys/fs/cgroup'', VS_HostPath ''/sys/fs/cgroup'')]"

text \<open>The profile for \<open>seccomp\<close> and the size limit of the shared memory are not part of the pods here.\<close>

definition juniper_pod :: "string \<Rightarrow> node \<Rightarrow> config \<Rightarrow> (string, string) gomap \<Rightarrow> pod" where
  "juniper_pod ns pb cfg reqs =
     add_labels pb ((node_pod ns pb []
       [(node_container pb cfg reqs)\<lparr>
          ct_Security := Some (privileged\<lparr>sc_User := Some 0, sc_AddCaps := [''SYS_ADMIN'', ''NET_ADMIN'']\<rparr>),
          ct_Probe := ServiceReadinessProbe pb,
          ct_Mounts := map (\<lambda>(sfx, path, _). \<lparr>vm_Name = n_Name pb @ sfx, vm_MountPath = path, vm_SubPath = [], vm_ReadOnly = False\<rparr>)
            juniper_mounts\<rparr>])
       \<lparr>pd_Volumes := map (\<lambda>(sfx, _, src). \<lparr>vol_Name = n_Name pb @ sfx, vol_Source = src\<rparr>) juniper_mounts\<rparr>)"

definition juniper_Create ::
  "'w kube \<Rightarrow> 'w os \<Rightarrow> (string \<Rightarrow> bool) \<Rightarrow> string \<Rightarrow> string \<Rightarrow> node \<Rightarrow> ('w, unit) act" where
  "juniper_Create K F quantity ns bp pb0 =
     (case n_Config pb0 of
        None \<Rightarrow> apanic ''invalid memory address or nil pointer dereference''
      | Some cfg0 \<Rightarrow>
          (case cfg_Env cfg0 of
             None \<Rightarrow> apanic ''assignment to entry in nil map''
           | Some env \<Rightarrow>
               (let cfg = cfg0\<lparr>cfg_Env := Some (juniper_env pb0 env)\<rparr>; pb = pb0\<lparr>n_Config := Some cfg\<rparr> in
                abind (alift (ToResourceRequirements quantity (n_Constraints pb))) (\<lambda>reqs.
                abind (script_volumes juniper_script ''juniper.conf'' K F ns bp pb cfg (juniper_pod ns pb cfg reqs)) (\<lambda>p.
                abind (amap_err (Errorw ''failed to create pod for %q: %w'' [n_Name pb]) (api_Create (k_Pods K) ns p)) (\<lambda>_.
                  CreateService K ns pb))))))"

section \<open>cisco\<close>

definition isNode8000eUp :: "string \<Rightarrow> bool" where
  "isNode8000eUp l \<longleftrightarrow> Contains l ''Router up'' \<or> Contains l ''Vxr up''"

definition isNode8000eFailed :: "string \<Rightarrow> bool" where
  "isNode8000eFailed l \<longleftrightarrow> Contains l ''Router failed to come up'' \<or> Contains l ''FATAL sim:'' \<or> Contains l ''LoginTimeoutError''"

text \<open>Reading the log gives what was copied and perhaps an error; an empty log is an error.\<close>

definition getPodLogs :: "('w, string \<times> err option) act \<Rightarrow> ('w, string) act" where
  "getPodLogs stream =
     abind stream (\<lambda>(buf, eo).
       if eo \<noteq> None \<or> buf = [] then aerr (Errorf ''failed to read pod logs or empty log'' []) else aret buf)"

definition ready_status :: "pod \<Rightarrow> node_status" where
  "ready_status p = (if (''Ready'', ''True'') \<in> set (pd_Conditions p) then StatusRunning else StatusPending)"

definition booted_status :: "('w, string \<times> err option) act \<Rightarrow> node \<Rightarrow> pod \<Rightarrow> ('w, node_status \<times> err option) act" where
  "booted_status stream pb p =
     (if n_Model pb = ''xrd'' then aret (ready_status p, None)
      else abind (atry (getPodLogs stream)) (\<lambda>r. case r of
        Error _ \<Rightarrow> aret (StatusPending, None)
      | Panic x \<Rightarrow> apanic x
      | Ok l \<Rightarrow>
          aret (if isNode8000eFailed l then (StatusFailed, Some (Errorf ''cisco %s node %s failed to boot'' [n_Model pb, n_Name pb]))
                else if \<not> isNode8000eUp l then (StatusPending, None)
                else (ready_status p, None))))"

definition cisco_Status ::
  "'w kube \<Rightarrow> (string \<Rightarrow> ('w, string \<times> err option) act) \<Rightarrow> string \<Rightarrow> node \<Rightarrow> ('w, node_status \<times> err option) act" where
  "cisco_Status K logs ns pb =
     abind (atry (Pods K ns pb)) (\<lambda>r. case r of
       Error e \<Rightarrow> aret (StatusUnknown, Some e)
     | Panic x \<Rightarrow> apanic x
     | Ok [p] \<Rightarrow>
         (case pd_Phase p of
            PodPending \<Rightarrow> aret (StatusPending, None)
          | PodUnknown \<Rightarrow> aret (StatusUnknown, None)
          | PodFailed \<Rightarrow> aret (StatusFailed, None)
          | _ \<Rightarrow> booted_status (logs (pd_Name p)) pb p)
     | Ok _ \<Rightarrow> aret (StatusUnknown, Some (Errorf ''expected exactly one pod for node %s'' [n_Name pb])))"

definition cisco_failures :: "string list" where
  "cisco_failures = [''ERROR'', ''% Failed'', ''No such file or directory'', ''locked'', ''% Configuration database'', ''% Cannot commit'']"

definition endTelnet :: "'w cli \<Rightarrow> ('w, unit) act" where
  "endTelnet C = abind (atry (cli_SendInput C ([CHR 0x1D] @ '' quit'' @ newline) Second)) (\<lambda>_. aret ())"

definition cisco_opts :: "cli_node \<Rightarrow> cli_opt list" where
  "cisco_opts n =
     (let opts = [WithAuthBypass, WithTimeoutOps (300 * Second)] in
      if n_Model (cln_Proto n) \<noteq> ''xrd'' then
        PatchCLIConnOpen n ''kubectl'' [''telnet'', ''0'', ''60000''] (PatchCLIConnOpen n ''kubectl'' [''xr''] opts)
      else
        PatchCLIConnOpen n ''kubectl'' [''bash'', ''/pkg/bin/xr_cli'', ''run''] (opts @ [WithDefaultDesiredPriv ''run'', WithNetworkOnOpen_noOp]))"

definition cisco_SpawnCLIConn :: "nat \<Rightarrow> 'w cli \<Rightarrow> cli_node \<Rightarrow> ('w, unit) run" where
  "cisco_SpawnCLIConn fuel C n =
     rthen (GetCLIConn fuel C n ''cisco_iosxr'' (cisco_opts n)) (\<lambda>_.
       rdo (assign (\<lambda>w. (if n_Model (cln_Proto n) \<noteq> ''xrd'' then cli_OnClose C (endTelnet C) else id) (cli_FailedWhenContains C cisco_failures w))))"

definition SpawnCLIConnConf :: "nat \<Rightarrow> 'w cli \<Rightarrow> cli_node \<Rightarrow> ('w, unit) run" where
  "SpawnCLIConnConf fuel C n =
     (if n_Model (cln_Proto n) \<noteq> ''xrd'' then
        rdo (aerr (StatusErr Unimplemented ''SpawnCLIConnConf only implemented for Cisco XRd node, for other node types use SpawnCLIConn'' []))
      else
        rthen (GetCLIConn fuel C n ''cisco_iosxr''
                 (PatchCLIConnOpen n ''kubectl'' [''bash'', ''/pkg/bin/xr_cli'', ''config'']
                   [WithAuthBypass, WithDefaultDesiredPriv ''configuration'', WithTimeoutOps (300 * Second), WithNetworkOnOpen_noOp])) (\<lambda>_.
          rdo (assign (cli_FailedWhenContains C cisco_failures))))"

definition validPath :: "string \<Rightarrow> bool" where
  "validPath s \<longleftrightarrow> s \<noteq> [] \<and> list_all (\<lambda>c. token_char c \<or> c \<in> {CHR ''.'', CHR ''_'', CHR ''/'', CHR '':'', CHR ''-''}) s"

definition startup_config :: "node \<Rightarrow> string result" where
  "startup_config pb =
     (if n_Model pb \<noteq> ''xrd'' then Ok []
      else case n_Config pb of
        None \<Rightarrow> Panic ''invalid memory address or nil pointer dereference''
      | Some cfg \<Rightarrow>
          (let path = get_str (items (cfg_Env cfg)) ''XR_EVERY_BOOT_CONFIG'' in
           if path = [] then Error (StatusErr InvalidArgument ''XR_EVERY_BOOT_CONFIG is not set'' [])
           else if \<not> validPath path then
             Error (StatusErr InvalidArgument ''invalid XR_EVERY_BOOT_CONFIG %q: must match %s'' [path, ''^[A-Za-z0-9._/:-]+$''])
           else Ok path))"

definition cisco_reset :: "'w cli \<Rightarrow> cli_node \<Rightarrow> string \<Rightarrow> ('w, unit) act" where
  "cisco_reset C n startup =
     (if n_Model (cln_Proto n) = ''xrd'' then
        abind (cli_SendCommands C [''cat /var/opt/cisco/iosxr/xrd/interface_ip_config.txt '' @ startup @ '' > /disk0:/startup-config'', []]) (\<lambda>resp.
        abind (failed (mr_Failed resp)) (\<lambda>_.
        abind (cli_SendCommand C (''/pkg/bin/xr_cli '' @ [CHR 0x22] @ ''copy disk0:/startup-config running-config replace'' @ [CHR 0x22] @
                 '' ; echo '' @ [CHR 0x22, CHR 0x22])) (\<lambda>resp2. failed (rp_Failed resp2))))
      else
        abind (cli_SendCommand C ''copy disk0:/startup-config running-config replace'') (\<lambda>resp. failed (rp_Failed resp)))"

definition cisco_ResetCfg :: "nat \<Rightarrow> 'w cli \<Rightarrow> cli_node \<Rightarrow> ('w, unit) run" where
  "cisco_ResetCfg fuel C n =
     rthen (rdo (alift (startup_config (cln_Proto n)))) (\<lambda>startup.
     rthen (cisco_SpawnCLIConn fuel C n) (\<lambda>_.
       rdefer (cli_Close C) (rdo (cisco_reset C n startup))))"

definition cisco_push :: "'w cli \<Rightarrow> string \<Rightarrow> ('w, unit) act" where
  "cisco_push C cfgs =
     abind (cli_SendConfig C cfgs) (\<lambda>resp.
     abind (failed (rp_Failed resp)) (\<lambda>_.
       if Contains (rp_Result resp) ''% '' \<or> Contains (rp_Result resp) ''error:''
       then aerr (Errorf ''config push failed: %s'' [rp_Result resp]) else aret ()))"

definition cisco_ConfigPush :: "nat \<Rightarrow> 'w cli \<Rightarrow> cli_node \<Rightarrow> ('w, string) act \<Rightarrow> ('w, unit) run" where
  "cisco_ConfigPush fuel C n r =
     rthen (rdo r) (\<lambda>cfg.
     rthen (if n_Model (cln_Proto n) \<noteq> ''xrd'' then cisco_SpawnCLIConn fuel C n else SpawnCLIConnConf fuel C n) (\<lambda>_.
       rdefer (cli_Close C) (rdo (cisco_push C (processConfig cfg)))))"

definition cisco_GenerateSelfSigned :: "('w, unit) act" where
  "cisco_GenerateSelfSigned = aerr (StatusErr Unimplemented ''certificate generation is not supported'' [])"

section \<open>Connections are closed\<close>

text \<open>\<open>conns\<close> counts the open connections: opening one that succeeds adds one, closing takes one away, nothing else changes them.\<close>

definition conns_ok :: "('w \<Rightarrow> int) \<Rightarrow> 'w cli \<Rightarrow> bool" where
  "conns_ok conns C \<longleftrightarrow>
     (\<forall>w r w'. cli_Open C w = (r, w') \<longrightarrow> conns w' = conns w + (case r of Ok _ \<Rightarrow> 1 | _ \<Rightarrow> 0)) \<and>
     (\<forall>w r w'. cli_Close C w = (r, w') \<longrightarrow> conns w' = conns w - 1) \<and>
     (\<forall>p n opts. keeps conns (cli_NewPlatform C p n opts)) \<and> keeps conns (cli_GetNetworkDriver C) \<and> (\<forall>t. keeps conns (cli_Sleep C t)) \<and>
     (\<forall>xs w. conns (cli_FailedWhenContains C xs w) = conns w) \<and> (\<forall>c w. conns (cli_OnClose C c w) = conns w) \<and>
     (\<forall>x. keeps conns (cli_SendCommand C x)) \<and> (\<forall>x. keeps conns (cli_SendCommands C x)) \<and>
     (\<forall>x. keeps conns (cli_SendConfig C x)) \<and> (\<forall>x. keeps conns (cli_SendConfigs C x))"

lemma conns_okD [keeps_intros]:
  assumes "conns_ok conns C"
  shows "keeps conns (cli_NewPlatform C p n opts)" "keeps conns (cli_GetNetworkDriver C)" "keeps conns (cli_Sleep C t)"
    "keeps conns (cli_SendCommand C x)" "keeps conns (cli_SendCommands C xs)" "keeps conns (cli_SendConfig C x)" "keeps conns (cli_SendConfigs C xs)"
  using assms by (simp_all add: conns_ok_def)

text \<open>An operation that adds connections when it succeeds, and none otherwise.\<close>

definition adds :: "('w \<Rightarrow> int) \<Rightarrow> int \<Rightarrow> ('w, 'a) run \<Rightarrow> bool" where
  "adds conns d m \<longleftrightarrow> (\<forall>w r w'. m w = Some (r, w') \<longrightarrow> conns w' = conns w + (case r of Ok _ \<Rightarrow> d | _ \<Rightarrow> 0))"

lemma addsD: "adds conns d m \<Longrightarrow> m w = Some (r, w') \<Longrightarrow> conns w' = conns w + (case r of Ok _ \<Rightarrow> d | _ \<Rightarrow> 0)"
  by (simp add: adds_def)

lemma adds_rdo: "keeps conns m \<Longrightarrow> adds conns 0 (rdo m)"
  unfolding adds_def rdo_def by (auto dest: keepsD split: result.split)

lemma rthenE:
  assumes "rthen m f w = Some (r, w')"
  obtains x w1 where "m w = Some (Ok x, w1)" and "f x w1 = Some (r, w')"
  | q where "m w = Some (q, w')" and "\<And>x. q \<noteq> Ok x" and "\<And>x. r \<noteq> Ok x"
proof -
  obtain q w1 where m: "m w = Some (q, w1)" using assms by (cases "m w") (auto simp: rthen_def)
  show thesis by (cases q) (use assms m that in \<open>auto simp: rthen_def\<close>)
qed

lemma adds_rthen0:
  assumes "adds conns 0 m" and "\<And>x. adds conns d (f x)"
  shows "adds conns d (rthen m f)"
  unfolding adds_def
proof (intro allI impI)
  fix w r w'
  assume "rthen m f w = Some (r, w')"
  then show "conns w' = conns w + (case r of Ok _ \<Rightarrow> d | _ \<Rightarrow> 0)"
  proof (cases rule: rthenE)
    case (1 x w1)
    then show ?thesis using addsD [OF assms(1) 1(1)] addsD [OF assms(2) 1(2)] by simp
  next
    case (2 q)
    then show ?thesis using addsD [OF assms(1) 2(1)] by (auto split: result.splits)
  qed
qed

text \<open>A connection that is opened and closed behind it.\<close>

lemma adds_session:
  assumes "conns_ok conns C" and "adds conns 1 m" and "\<And>x. keeps conns (body x)"
  shows "adds conns 0 (rthen m (\<lambda>x. rdefer (cli_Close C) (rdo (body x))))"
proof -
  have "conns w' = conns w" if r: "rthen m (\<lambda>x. rdefer (cli_Close C) (rdo (body x))) w = Some (r, w')" for w r w'
  proof -
    obtain q w1 where m: "m w = Some (q, w1)" using r by (auto simp: rthen_def split: option.splits)
    show ?thesis
    proof (cases q)
      case (Ok x)
      obtain s w2 where b: "body x w1 = (s, w2)" by fastforce
      obtain t w3 where c: "cli_Close C w2 = (t, w3)" by fastforce
      have "w' = w3" using r m Ok b c by (auto simp: rthen_def rdefer_def rdo_def split: result.splits)
      moreover have "conns w1 = conns w + 1" using addsD [OF assms(2) m] Ok by simp
      moreover have "conns w2 = conns w1" using keepsD [OF assms(3) b] .
      moreover have "conns w3 = conns w2 - 1" using assms(1) c by (simp add: conns_ok_def)
      ultimately show ?thesis by simp
    qed (use r m addsD [OF assms(2) m] in \<open>auto simp: rthen_def\<close>)
  qed
  then show ?thesis by (auto simp: adds_def split: result.split)
qed

lemma GetCLIConn_adds: "conns_ok conns C \<Longrightarrow> adds conns 1 (GetCLIConn fuel C n platform opts)"
proof (induction fuel)
  case (Suc fuel)
  have "conns w' = conns w + (case r of Ok _ \<Rightarrow> 1 | _ \<Rightarrow> 0)" if g: "GetCLIConn (Suc fuel) C n platform opts w = Some (r, w')" for w r w'
  proof -
    obtain q w1 where a: "abind (cli_NewPlatform C platform (n_Name (cln_Proto n)) opts) (\<lambda>_. cli_GetNetworkDriver C) w = (q, w1)" by fastforce
    have k: "conns w1 = conns w" using a by (rule keepsD [rotated]) (intro keeps_intros Suc.prems)
    obtain s w2 where o2: "cli_Open C w1 = (s, w2)" by fastforce
    have k2: "conns w2 = conns w1 + (case s of Ok _ \<Rightarrow> 1 | _ \<Rightarrow> 0)" using Suc.prems o2 unfolding conns_ok_def by blast
    obtain t w3 where sl: "cli_Sleep C (2 * Second) w2 = (t, w3)" by fastforce
    have k3: "conns w3 = conns w2" using keepsD [OF conns_okD(3) [OF Suc.prems] sl] .
    have rec: "conns w' = conns w3 + (case r of Ok _ \<Rightarrow> 1 | _ \<Rightarrow> 0)" if "GetCLIConn fuel C n platform opts w3 = Some (r, w')"
      using addsD [OF Suc.IH [OF Suc.prems] that] .
    show ?thesis using g a o2 sl k k2 k3 rec by (cases q; cases s; cases t) auto
  qed
  then show ?case by (auto simp: adds_def)
qed (simp add: adds_def)

lemma adds_assign:
  assumes "adds conns d m" and "\<And>w. conns (f w) = conns w"
  shows "adds conns d (rthen m (\<lambda>_. rdo (assign f)))"
  unfolding adds_def
proof (intro allI impI)
  fix w r w'
  assume "rthen m (\<lambda>_. rdo (assign f)) w = Some (r, w')"
  then show "conns w' = conns w + (case r of Ok _ \<Rightarrow> d | _ \<Rightarrow> 0)"
  proof (cases rule: rthenE)
    case (1 x w1)
    then show ?thesis using addsD [OF assms(1) 1(1)] assms(2) [of w1] by (auto simp: rdo_def assign_def)
  next
    case (2 q)
    then show ?thesis using addsD [OF assms(1) 2(1)] by (auto split: result.splits)
  qed
qed

lemma keeps_failed [keeps_intros]: "keeps conns (failed f)"
  by (auto simp: failed_def intro!: keeps_intros split: option.split)

lemma cisco_Spawn_adds:
  assumes "conns_ok conns C"
  shows "adds conns 1 (cisco_SpawnCLIConn fuel C n)" and "adds conns 1 (SpawnCLIConnConf fuel C n)"
  using assms unfolding cisco_SpawnCLIConn_def SpawnCLIConnConf_def
  by (auto intro!: adds_assign GetCLIConn_adds simp: conns_ok_def)
     (simp add: adds_def rdo_def split: result.split)+


text \<open>A device whose connections fail to open a given number of times first; the world counts them and the open ones.\<close>

definition test_cli :: "(nat \<times> int) cli" where
  "test_cli = \<lparr>cli_NewPlatform = \<lambda>_ _ _. aret (), cli_GetNetworkDriver = aret (),
     cli_Open = \<lambda>(k, c). if k = 0 then (Ok (), (0, c + 1)) else (Error (Errorf ''refused'' []), (k - 1, c)),
     cli_Close = \<lambda>(k, c). (Ok (), (k, c - 1)), cli_Sleep = \<lambda>_. aret (), cli_IsAlive = aret True,
     cli_FailedWhenContains = \<lambda>_ w. w, cli_OnClose = \<lambda>_ w. w, cli_SendInput = \<lambda>_ _. aret (),
     cli_SendCommand = \<lambda>x. aret \<lparr>rp_Failed = Some (Errorf ''refused'' []), rp_Result = x\<rparr>,
     cli_SendCommands = \<lambda>_. aret \<lparr>mr_Failed = None, mr_Responses = []\<rparr>,
     cli_SendConfig = \<lambda>x. aret \<lparr>rp_Failed = None, rp_Result = x\<rparr>,
     cli_SendConfigs = \<lambda>_. aret \<lparr>mr_Failed = None, mr_Responses = []\<rparr>\<rparr>"

definition test_cfg :: "'w junos_cfg" where
  "test_cfg = \<lparr>jc_NewCfg = \<lambda>_. aret (), jc_Prepare = aret (), jc_LoadConfig = \<lambda>_ _. aret None, jc_CommitConfig = aret None\<rparr>"


end
