(* ===== verification/Bridge_Link.thy ===== *)
theory Bridge_Link
  imports KNE_Prelude
begin

text \<open>
  The link state of a bridged interface, \<open>bridge/link.go\<close>: what the kernel's flags say, which states a
  bridge reports to its peer, and the channels that hold only the latest value. The second part puts two
  bridges with the devices behind them together and follows the states that travel between them.
\<close>

unbundle bit_operations_syntax

section \<open>Observations\<close>

datatype LinkState = LINK_STATE_UNKNOWN | LINK_STATE_UP | LINK_STATE_DOWN

record LinkObservation =
  AdminUp :: bool
  Carrier :: bool

definition IFF_UP :: "32 word" where "IFF_UP = 0x1"
definition IFF_LOWER_UP :: "32 word" where "IFF_LOWER_UP = 0x10000"

definition observationFromFlags :: "32 word \<Rightarrow> LinkObservation" where
  "observationFromFlags flags = \<lparr>AdminUp = (flags AND IFF_UP \<noteq> 0), Carrier = (flags AND IFF_LOWER_UP \<noteq> 0)\<rparr>"

text \<open>A channel of capacity one: \<open>publishLatest\<close> drops an unread value and then sends.\<close>

definition publishLatest :: "'a option \<Rightarrow> 'a \<Rightarrow> 'a option" where
  "publishLatest ch v =
     (let ch1 = (case ch of Some _ \<Rightarrow> None | None \<Rightarrow> None) in
      case ch1 of None \<Rightarrow> Some v | Some x \<Rightarrow> Some x)"

lemma publishLatest [simp]: "publishLatest ch v = Some v"
  by (simp add: publishLatest_def split: option.split)

text \<open>\<open>netlinkLink.watch\<close>: updates of other interfaces and deletions are skipped.\<close>

record link_update =
  lu_Index :: int
  lu_Deleted :: bool
  lu_Flags :: "32 word"

fun watch :: "int \<Rightarrow> link_update list \<Rightarrow> LinkObservation option \<Rightarrow> LinkObservation option" where
  "watch index [] events = events"
| "watch index (u # us) events =
     (if lu_Index u \<noteq> index \<or> lu_Deleted u then watch index us events
      else watch index us (publishLatest events (observationFromFlags (lu_Flags u))))"

section \<open>The reporter\<close>

text \<open>The state of a \<open>linkReporter\<close> is the state it reported last.\<close>

definition observe :: "LinkState \<Rightarrow> LinkObservation \<Rightarrow> LinkState \<times> LinkState" where
  "observe reported o' =
     (if \<not> AdminUp o' then (LINK_STATE_UNKNOWN, LINK_STATE_UNKNOWN)
      else (let s = (if Carrier o' then LINK_STATE_UP else LINK_STATE_DOWN) in
            if s = reported then (reported, LINK_STATE_UNKNOWN) else (s, s)))"

definition current :: "LinkState \<Rightarrow> LinkState" where
  "current reported = reported"

fun observe_all :: "LinkState \<Rightarrow> LinkObservation list \<Rightarrow> LinkState \<times> LinkState list" where
  "observe_all r [] = (r, [])"
| "observe_all r (o' # os) =
     (let (r1, s) = observe r o'; (r2, ss) = observe_all r1 os in (r2, s # ss))"

text \<open>What an interface has to tell: its carrier while it is up, nothing while it is down.\<close>

definition carrier_state :: "LinkObservation \<Rightarrow> LinkState" where
  "carrier_state o' =
     (if \<not> AdminUp o' then LINK_STATE_UNKNOWN else if Carrier o' then LINK_STATE_UP else LINK_STATE_DOWN)"

text \<open>A reference for the reporter: a state is told if it differs from the state before it.\<close>

definition changes :: "LinkState list \<Rightarrow> LinkState list" where
  "changes ss = map (\<lambda>(before, after). if after = before then LINK_STATE_UNKNOWN else after) (zip ss (tl ss))"

lemma observe_eq: "observe r o' = (carrier_state o', if carrier_state o' = r then LINK_STATE_UNKNOWN else carrier_state o')"
  by (simp add: observe_def carrier_state_def Let_def)

text \<open>The reporter tells exactly the changes of what the interface has to tell: observation by observation,
  it sends the carrier of an interface that is up if that is not what it sent or forgot last, and nothing
  otherwise; afterwards its current state is that of the last observation.
\<close>

lemma reporter_tells_changes:
  "observe_all r os = (last (r # map carrier_state os), changes (r # map carrier_state os))"
  by (induction os arbitrary: r) (auto simp: changes_def observe_eq)

lemma watch_last:
  "watch index us ev =
     (case filter (\<lambda>u. lu_Index u = index \<and> \<not> lu_Deleted u) us of
        [] \<Rightarrow> ev | vs \<Rightarrow> Some (observationFromFlags (lu_Flags (last vs))))"
  by (induction us arbitrary: ev) (auto split: list.splits)

lemma observationFromFlags_bits:
  "AdminUp (observationFromFlags f) = bit f 0" "Carrier (observationFromFlags f) = bit f 16"
  by (simp_all add: observationFromFlags_def IFF_UP_def IFF_LOWER_UP_def and_exp_eq_0_iff_not_bit [where n = 16, simplified]
      and_one_eq odd_iff_mod_2_eq_one bit_0)

section \<open>Two bridges\<close>

text \<open>
  One end of a wire: the device behind the bridged interface, the interface as the bridge sets it, the
  observation the kernel has announced and nobody has read, the reporter, the server's channel to its
  sending loop, and the states on the stream towards the peer. While the interface is up, its carrier is the
  state of the device.
\<close>

record side =
  dev_up :: bool
  admin_up :: bool
  events :: "LinkObservation option"
  reported :: LinkState
  linkChan :: "LinkState option"
  sent :: "LinkState list"

record wire_pair =
  server_side :: side
  client_side :: side

definition kernel_state :: "side \<Rightarrow> LinkObservation" where
  "kernel_state s = \<lparr>AdminUp = admin_up s, Carrier = dev_up s\<rparr>"

definition notify :: "side \<Rightarrow> side" where
  "notify s = s\<lparr>events := publishLatest (events s) (kernel_state s)\<rparr>"

definition set_device :: "bool \<Rightarrow> side \<Rightarrow> side" where
  "set_device up s = notify (s\<lparr>dev_up := up\<rparr>)"

text \<open>\<open>SetAdminUp\<close>: setting an interface to the state it has changes nothing and announces nothing.\<close>

definition SetAdminUp :: "bool \<Rightarrow> side \<Rightarrow> side" where
  "SetAdminUp up s = (if up = admin_up s then s else notify (s\<lparr>admin_up := up\<rparr>))"

definition server_observe :: "side \<Rightarrow> side" where
  "server_observe s =
     (case events s of
        None \<Rightarrow> s
      | Some o' \<Rightarrow>
          (let (r, st) = observe (reported s) o'; s1 = s\<lparr>events := None, reported := r\<rparr> in
           if st = LINK_STATE_UNKNOWN then s1 else s1\<lparr>linkChan := publishLatest (linkChan s1) st\<rparr>))"

definition client_observe :: "side \<Rightarrow> side" where
  "client_observe s =
     (case events s of
        None \<Rightarrow> s
      | Some o' \<Rightarrow>
          (let (r, st) = observe (reported s) o'; s1 = s\<lparr>events := None, reported := r\<rparr> in
           if st = LINK_STATE_UNKNOWN then s1 else s1\<lparr>sent := sent s1 @ [st]\<rparr>))"

text \<open>The server's sending loop takes the state from the channel; the other end receives and applies it.\<close>

definition send_link :: "side \<Rightarrow> side" where
  "send_link s = (case linkChan s of None \<Rightarrow> s | Some st \<Rightarrow> s\<lparr>linkChan := None, sent := sent s @ [st]\<rparr>)"

definition applyLinkState :: "LinkState \<Rightarrow> side \<Rightarrow> side" where
  "applyLinkState st s = (if st \<noteq> LINK_STATE_UNKNOWN then SetAdminUp (st = LINK_STATE_UP) s else s)"

definition transfer :: "side \<Rightarrow> side \<Rightarrow> side \<times> side" where
  "transfer x y = (case sent x of [] \<Rightarrow> (x, y) | st # rest \<Rightarrow> (x\<lparr>sent := rest\<rparr>, applyLinkState st y))"

text \<open>A new stream: either end tells the state of its interface, if it is up.\<close>

definition idle_side :: "bool \<Rightarrow> bool \<Rightarrow> side" where
  "idle_side d a = \<lparr>dev_up = d, admin_up = a, events = None, reported = LINK_STATE_UNKNOWN, linkChan = None, sent = []\<rparr>"

definition connect :: "bool \<Rightarrow> bool \<Rightarrow> bool \<Rightarrow> bool \<Rightarrow> wire_pair" where
  "connect d a d' a' =
     \<lparr>server_side = send_link (server_observe ((idle_side d a)\<lparr>events := Some (kernel_state (idle_side d a))\<rparr>)),
      client_side = client_observe ((idle_side d' a')\<lparr>events := Some (kernel_state (idle_side d' a'))\<rparr>)\<rparr>"

datatype pair_action =
    ServerDevice bool | ClientDevice bool | ServerObserve | ClientObserve | ServerSend | ServerToClient | ClientToServer

fun pair_exec :: "pair_action \<Rightarrow> wire_pair \<Rightarrow> wire_pair" where
  "pair_exec (ServerDevice up) p = p\<lparr>server_side := set_device up (server_side p)\<rparr>"
| "pair_exec (ClientDevice up) p = p\<lparr>client_side := set_device up (client_side p)\<rparr>"
| "pair_exec ServerObserve p = p\<lparr>server_side := server_observe (server_side p)\<rparr>"
| "pair_exec ClientObserve p = p\<lparr>client_side := client_observe (client_side p)\<rparr>"
| "pair_exec ServerSend p = p\<lparr>server_side := send_link (server_side p)\<rparr>"
| "pair_exec ServerToClient p =
     (let (x, y) = transfer (server_side p) (client_side p) in p\<lparr>server_side := x, client_side := y\<rparr>)"
| "pair_exec ClientToServer p =
     (let (x, y) = transfer (client_side p) (server_side p) in p\<lparr>server_side := y, client_side := x\<rparr>)"

inductive pair_step :: "wire_pair \<Rightarrow> wire_pair \<Rightarrow> bool" where
  pair_step: "pair_step p (pair_exec a p)"

abbreviation pair_steps :: "wire_pair \<Rightarrow> wire_pair \<Rightarrow> bool" where
  "pair_steps \<equiv> pair_step\<^sup>*\<^sup>*"

definition in_flight :: "side \<Rightarrow> LinkState list" where
  "in_flight s = sent s @ (case linkChan s of None \<Rightarrow> [] | Some st \<Rightarrow> [st])"

definition settled_side :: "side \<Rightarrow> bool" where
  "settled_side s \<longleftrightarrow> events s = None \<and> in_flight s = []"

definition settled_pair :: "wire_pair \<Rightarrow> bool" where
  "settled_pair p \<longleftrightarrow> settled_side (server_side p) \<and> settled_side (client_side p)"

subsection \<open>What each end knows\<close>

text \<open>
  The end that has told a state can rely on it: either it is the last of the states on the way, or the other
  end has applied it. An end without an announced observation has told what it has to tell.
\<close>

definition tells :: "side \<Rightarrow> side \<Rightarrow> bool" where
  "tells x y \<longleftrightarrow>
     (reported x \<noteq> LINK_STATE_UNKNOWN \<longrightarrow>
        (if in_flight x = [] then admin_up y = (reported x = LINK_STATE_UP) else last (in_flight x) = reported x)) \<and>
     (case events x of None \<Rightarrow> reported x = carrier_state (kernel_state x) | Some o' \<Rightarrow> o' = kernel_state x) \<and>
     LINK_STATE_UNKNOWN \<notin> set (in_flight x)"

definition pair_inv :: "wire_pair \<Rightarrow> bool" where
  "pair_inv p \<longleftrightarrow> tells (server_side p) (client_side p) \<and> tells (client_side p) (server_side p) \<and>
     linkChan (client_side p) = None"

lemma tells_cong:
  "tells x y \<Longrightarrow> reported x' = reported x \<Longrightarrow> in_flight x' = in_flight x \<Longrightarrow> events x' = events x \<Longrightarrow>
   kernel_state x' = kernel_state x \<Longrightarrow> admin_up y' = admin_up y \<Longrightarrow> tells x' y'"
  by (cases "events x") (simp_all add: tells_def)

lemma tells_notify:
  assumes "tells x y" "reported x' = reported x" "in_flight x' = in_flight x"
  shows "tells (notify x') y"
  using assms by (auto simp: tells_def notify_def in_flight_def kernel_state_def)

lemma tells_set_device: "tells x y \<Longrightarrow> tells (set_device up x) y"
  by (simp add: set_device_def tells_notify in_flight_def)

lemma tells_SetAdminUp: "tells x y \<Longrightarrow> tells (SetAdminUp up x) y"
  by (simp add: SetAdminUp_def tells_notify in_flight_def)

lemma tells_applyLinkState: "tells x y \<Longrightarrow> tells (applyLinkState st x) y"
  by (simp add: applyLinkState_def tells_SetAdminUp)

text \<open>An observation that is read is either told, or it is what was told, or there is nothing to tell.\<close>

lemma tells_observed:
  assumes t: "tells x y" and e: "events x = Some o'" and s: "st = snd (observe (reported x) o')"
    and x': "events x' = None" "reported x' = fst (observe (reported x) o')" "kernel_state x' = kernel_state x"
    and q: "in_flight x' = (if st = LINK_STATE_UNKNOWN then in_flight x else ws @ [st])" "set ws \<subseteq> set (in_flight x)"
  shows "tells x' y"
proof -
  have o': "o' = kernel_state x" using t e by (simp add: tells_def)
  show ?thesis
  proof (cases "st = LINK_STATE_UNKNOWN")
    case True
    then have "reported x' = LINK_STATE_UNKNOWN \<or> reported x' = reported x"
      using s x'(2) by (auto simp: observe_eq split: if_splits)
    with t q(1) True x' show ?thesis by (auto simp: tells_def observe_eq o')
  next
    case False
    then have "st = reported x'" using s x'(2) by (auto simp: observe_eq split: if_splits)
    with t q False x' show ?thesis by (auto simp: tells_def observe_eq o')
  qed
qed

lemma tells_observeLink: "tells x y \<Longrightarrow> tells (server_observe x) y"
proof (cases "events x")
  case (Some o')
  assume t: "tells x y"
  obtain r st where ob: "observe (reported x) o' = (r, st)" by fastforce
  show ?thesis
    by (rule tells_observed [OF t Some, where st = st and ws = "sent x"])
      (auto simp: server_observe_def Some ob in_flight_def kernel_state_def Let_def)
qed (simp add: server_observe_def)

lemma tells_client_observe: "tells x y \<Longrightarrow> linkChan x = None \<Longrightarrow> tells (client_observe x) y"
proof (cases "events x")
  case (Some o')
  assume t: "tells x y" "linkChan x = None"
  obtain r st where ob: "observe (reported x) o' = (r, st)" by fastforce
  show ?thesis
    by (rule tells_observed [OF t(1) Some, where st = st and ws = "sent x"])
      (auto simp: client_observe_def Some ob in_flight_def kernel_state_def Let_def t(2))
qed (simp add: client_observe_def)

lemma in_flight_send_link [simp]: "in_flight (send_link x) = in_flight x"
  by (simp add: send_link_def in_flight_def split: option.split)

lemma send_link_frame [simp]:
  "reported (send_link x) = reported x" "events (send_link x) = events x" "kernel_state (send_link x) = kernel_state x"
  "admin_up (send_link x) = admin_up x"
  by (simp_all add: send_link_def kernel_state_def split: option.split)

lemma observe_frame [simp]:
  "admin_up (server_observe x) = admin_up x" "admin_up (client_observe x) = admin_up x" "admin_up (set_device up x) = admin_up x"
  "linkChan (client_observe x) = linkChan x" "linkChan (set_device up x) = linkChan x" "linkChan (applyLinkState st x) = linkChan x"
  by (auto simp: server_observe_def client_observe_def set_device_def notify_def applyLinkState_def SetAdminUp_def Let_def
      split: option.split prod.split)

lemma tells_frame: "tells x y \<Longrightarrow> admin_up y' = admin_up y \<Longrightarrow> tells x y'"
  by (simp add: tells_def)

lemma tells_frames:
  assumes "tells x y"
  shows "tells x (set_device up y)" "tells x (server_observe y)" "tells x (client_observe y)" "tells x (send_link y)"
  by (rule tells_frame [OF assms], simp)+

lemma tells_send_link: "tells x y \<Longrightarrow> tells (send_link x) y"
  by (erule tells_cong) simp_all

lemma admin_up_applyLinkState:
  "st \<noteq> LINK_STATE_UNKNOWN \<Longrightarrow> admin_up (applyLinkState st y) = (st = LINK_STATE_UP)"
  by (simp add: applyLinkState_def SetAdminUp_def notify_def)

text \<open>A transferred state: the receiver has applied it before the sender's queue is judged again.\<close>

lemma tells_transfer:
  assumes "tells x y" "tells y x" "transfer x y = (x', y')"
  shows "tells x' y' \<and> tells y' x' \<and> linkChan x' = linkChan x \<and> linkChan y' = linkChan y"
proof (cases "sent x")
  case Nil
  with assms show ?thesis by (simp add: transfer_def)
next
  case (Cons st rest)
  then have eq: "x' = x\<lparr>sent := rest\<rparr>" "y' = applyLinkState st y" using assms(3) by (simp_all add: transfer_def)
  have q: "in_flight x = st # in_flight x'" by (simp add: eq in_flight_def Cons)
  have st: "st \<noteq> LINK_STATE_UNKNOWN" using assms(1) q by (auto simp: tells_def)
  have f: "reported x' = reported x" "events x' = events x" "kernel_state x' = kernel_state x"
    by (simp_all add: eq(1) kernel_state_def)
  have "tells x' y'"
    using assms(1) admin_up_applyLinkState [OF st, of y]
    by (cases "events x"; cases "in_flight x' = []") (auto simp: tells_def q f eq(2) [symmetric])
  moreover have "tells y' x'"
    unfolding eq(2) by (rule tells_frame [OF tells_applyLinkState [OF assms(2)]]) (simp add: eq(1))
  ultimately show ?thesis by (simp add: eq)
qed

lemma pair_inv_exec:
  assumes inv: "pair_inv p"
  shows "pair_inv (pair_exec a p)"
proof (cases a)
  case ServerToClient
  obtain x y where tr: "transfer (server_side p) (client_side p) = (x, y)" by fastforce
  from tells_transfer [OF _ _ tr] inv show ?thesis by (simp add: pair_inv_def ServerToClient tr)
next
  case ClientToServer
  obtain x y where tr: "transfer (client_side p) (server_side p) = (x, y)" by fastforce
  from tells_transfer [OF _ _ tr] inv show ?thesis by (simp add: pair_inv_def ClientToServer tr)
qed (use inv in \<open>simp_all add: pair_inv_def tells_set_device tells_observeLink tells_client_observe tells_send_link tells_frames\<close>)

lemma pair_inv_connect: "pair_inv (connect d a d' a')"
  by (cases d; cases a; cases d'; cases a')
    (auto simp: pair_inv_def tells_def connect_def idle_side_def server_observe_def client_observe_def send_link_def
      observe_eq carrier_state_def kernel_state_def in_flight_def)

lemma pair_inv_steps: "pair_steps p q \<Longrightarrow> pair_inv p \<Longrightarrow> pair_inv q"
  by (induction rule: rtranclp_induct) (auto elim!: pair_step.cases intro: pair_inv_exec)

text \<open>
  C19. Link state crosses a pair of bridges: whenever nothing is on its way, an interface that is up has passed
  the state of its device on, so that the interface at the other end is up exactly if the device is. This
  holds for every order of device changes, observations, sends and receptions.
\<close>

theorem pair_agrees:
  assumes "pair_steps (connect d a d' a') p" and "settled_pair p"
  shows "(admin_up (server_side p) \<longrightarrow> admin_up (client_side p) = dev_up (server_side p)) \<and>
    (admin_up (client_side p) \<longrightarrow> admin_up (server_side p) = dev_up (client_side p))"
proof -
  have "admin_up x \<longrightarrow> admin_up y = dev_up x" if "tells x y" "settled_side x" for x y
    using that by (auto simp: tells_def settled_side_def carrier_state_def kernel_state_def)
  moreover have "pair_inv p" using pair_inv_steps [OF assms(1) pair_inv_connect] .
  ultimately show ?thesis using assms(2) by (auto simp: pair_inv_def settled_pair_def)
qed

text \<open>A run in which the server's device goes down and comes back.\<close>

definition pair_run :: "pair_action list \<Rightarrow> wire_pair \<Rightarrow> wire_pair" where
  "pair_run as p = foldl (\<lambda>p a. pair_exec a p) p as"

lemma pair_run_steps: "pair_steps p (pair_run as p)"
proof (induction as rule: rev_induct)
  case (snoc a as)
  have "pair_step (pair_run as p) (pair_run (as @ [a]) p)" by (auto simp: pair_run_def intro: pair_step)
  with snoc show ?case by (rule rtranclp.rtrancl_into_rtrancl)
qed (simp add: pair_run_def)

definition down_and_up :: "pair_action list" where
  "down_and_up = [ServerToClient, ClientToServer, ServerDevice False, ServerObserve, ServerSend, ServerToClient, ClientObserve,
     ServerDevice True, ServerObserve, ServerSend, ServerToClient, ClientObserve, ClientToServer]"

theorem pair_agrees_witness:
  "admin_up (client_side (pair_run down_and_up (connect True True True True))) =
     dev_up (server_side (pair_run down_and_up (connect True True True True))) \<and>
   \<not> admin_up (client_side (pair_run (take 6 down_and_up) (connect True True True True)))"
proof -
  have "settled_pair (pair_run down_and_up (connect True True True True))"
    "admin_up (server_side (pair_run down_and_up (connect True True True True)))"
    "\<not> admin_up (client_side (pair_run (take 6 down_and_up) (connect True True True True)))"
    by code_simp+
  with pair_agrees [OF pair_run_steps this(1)] show ?thesis by blast
qed

subsection \<open>Both ends down\<close>

text \<open>
  C20. Two interfaces that are both down with nothing on its way stay down, whatever the devices do: neither
  end reports while its interface is down, so neither end learns that the other device is back.
\<close>

theorem pair_latches:
  assumes "settled_pair p" "\<not> admin_up (server_side p)" "\<not> admin_up (client_side p)"
    and "pair_steps p q"
  shows "\<not> admin_up (server_side q) \<and> \<not> admin_up (client_side q)"
proof -
  define quiet where "quiet x \<longleftrightarrow> \<not> admin_up x \<and> in_flight x = [] \<and> (\<forall>o'. events x = Some o' \<longrightarrow> \<not> AdminUp o')" for x
  have q: "linkChan x = None" "sent x = []" if "quiet x" for x
    using that by (auto simp: quiet_def in_flight_def split: option.splits)
  have "quiet (set_device up x)" "quiet (server_observe x)" "quiet (client_observe x)" "quiet (send_link x)" if "quiet x" for x up
    using that q [OF that] by (auto simp: quiet_def set_device_def notify_def server_observe_def client_observe_def send_link_def kernel_state_def
        in_flight_def observe_def split: option.splits)
  moreover have "transfer x y = (x, y)" if "quiet x" for x y using q [OF that] by (simp add: transfer_def)
  ultimately have quiet_exec: "quiet (server_side (pair_exec a r)) \<and> quiet (client_side (pair_exec a r))"
    if "quiet (server_side r)" "quiet (client_side r)" for a r
    using that by (cases a) simp_all
  have "quiet (server_side q) \<and> quiet (client_side q)"
    using assms(4)
  proof (induction rule: rtranclp_induct)
    case base
    then show ?case using assms(1-3) by (simp add: quiet_def settled_pair_def settled_side_def)
  next
    case (step r r')
    then show ?case using quiet_exec by (auto elim!: pair_step.cases)
  qed
  then show ?thesis by (simp add: quiet_def)
qed

text \<open>
  It happens: both devices go down before either end has received the other's state, and come back.
\<close>

definition both_down :: "pair_action list" where
  "both_down = [ServerToClient, ClientToServer, ServerDevice False, ClientDevice False, ServerObserve, ClientObserve, ServerSend,
     ServerToClient, ClientToServer, ServerObserve, ClientObserve]"

definition latched :: wire_pair where
  "latched = pair_run both_down (connect True True True True)"

definition devices_back :: wire_pair where
  "devices_back = pair_run [ServerDevice True, ClientDevice True, ServerObserve, ClientObserve] latched"

theorem pair_latches_witness:
  "pair_steps (connect True True True True) devices_back \<and>
   dev_up (server_side devices_back) \<and> dev_up (client_side devices_back) \<and>
   \<not> admin_up (server_side devices_back) \<and> \<not> admin_up (client_side devices_back)"
proof -
  have "settled_pair latched" "\<not> admin_up (server_side latched)" "\<not> admin_up (client_side latched)"
    by code_simp+
  from pair_latches [OF this, of devices_back]
  have "\<not> admin_up (server_side devices_back) \<and> \<not> admin_up (client_side devices_back)"
    by (simp add: devices_back_def pair_run_steps)
  moreover have "dev_up (server_side devices_back)" "dev_up (client_side devices_back)" by code_simp+
  moreover have "pair_steps (connect True True True True) devices_back"
    unfolding devices_back_def latched_def by (rule rtranclp_trans) (rule pair_run_steps)+
  ultimately show ?thesis by blast
qed

end
