(* ===== verification/Bridge_Demux.thy ===== *)
theory Bridge_Demux
  imports Bridge_Link Kube_API
begin

text \<open>
  The demultiplexer of a bridged interface, \<open>InterfaceDemux\<close> of \<open>bridge/bridge.go\<close>: one reader of the raw
  socket, many subscribers with bounded queues, and the link state that goes to all of them. Channels are
  numbered; sending on a closed channel and closing one twice panic, as in Go. The locks of the code make
  each of its critical sections one step here, and a run is any sequence of such steps.
\<close>

section \<open>Frames and channels\<close>

type_synonym frame = string

definition maxFrameSize :: int where "maxFrameSize = 65535"
definition channelBufferCap :: int where "channelBufferCap = 1000"
definition maxSubscribersPerDemux :: int where "maxSubscribersPerDemux = 32"

definition ENETDOWN :: err where "ENETDOWN = Errno 100"

record chan =
  ch_queue :: "frame list"
  ch_open :: bool

record demux =
  ifaceName :: string
  listeners :: "nat list"
  closed :: bool
  droppedFrames :: "64 word"
  droppedWriteFrames :: "64 word"
  ctx_done :: bool
  handler_closed :: bool
  chans :: "chan list"

definition newInterfaceDemux :: "string \<Rightarrow> bool \<Rightarrow> demux" where
  "newInterfaceDemux name parent_done =
     \<lparr>ifaceName = name, listeners = [], closed = False, droppedFrames = 0, droppedWriteFrames = 0, ctx_done = parent_done,
      handler_closed = False, chans = []\<rparr>"

definition close_chan :: "chan list \<Rightarrow> nat \<Rightarrow> chan list result" where
  "close_chan cs ch =
     (if \<not> ch_open (cs ! ch) then Panic ''close of closed channel'' else Ok (cs[ch := (cs ! ch)\<lparr>ch_open := False\<rparr>]))"

section \<open>Subscribers\<close>

definition subscribe :: "demux \<Rightarrow> nat result \<times> demux" where
  "subscribe d =
     (if closed d \<or> ctx_done d then (Error (Errorf ''demux for %s is closed'' [ifaceName d]), d)
      else if int (length (listeners d)) \<ge> maxSubscribersPerDemux then
        (Error (Errorf ''demux for %s reached maximum subscribers limit (%d)'' [ifaceName d, itoa maxSubscribersPerDemux]), d)
      else (let ch = length (chans d) in
            (Ok ch, d\<lparr>chans := chans d @ [\<lparr>ch_queue = [], ch_open = True\<rparr>], listeners := ch # listeners d\<rparr>)))"

definition unsubscribe :: "nat \<Rightarrow> demux \<Rightarrow> demux result" where
  "unsubscribe ch d =
     (if ch \<in> set (listeners d) then
        rbind (close_chan (chans d) ch) (\<lambda>cs. Ok (d\<lparr>listeners := filter (\<lambda>c. c \<noteq> ch) (listeners d), chans := cs\<rparr>))
      else Ok d)"

text \<open>The receiving end of a channel: a frame, the end of a closed channel, or nothing yet.\<close>

datatype 'a received = Got 'a | Closed | Blocks

definition recv_chan :: "nat \<Rightarrow> demux \<Rightarrow> frame received \<times> demux" where
  "recv_chan ch d =
     (if ch < length (chans d) then
        (case ch_queue (chans d ! ch) of
           f # fs \<Rightarrow> (Got f, d\<lparr>chans := (chans d)[ch := (chans d ! ch)\<lparr>ch_queue := fs\<rparr>]\<rparr>)
         | [] \<Rightarrow> (if ch_open (chans d ! ch) then Blocks else Closed, d))
      else (Blocks, d))"

section \<open>The read loop\<close>

text \<open>The fan-out never waits: a frame for a full queue is counted and dropped.\<close>

fun fan_out :: "frame \<Rightarrow> nat list \<Rightarrow> chan list \<Rightarrow> 64 word \<Rightarrow> (chan list \<times> 64 word) result" where
  "fan_out pkt [] cs dropped = Ok (cs, dropped)"
| "fan_out pkt (ch # chs) cs dropped =
     (let c = cs ! ch in
      if \<not> ch_open c then Panic ''send on closed channel''
      else if int (length (ch_queue c)) < channelBufferCap then
        fan_out pkt chs (cs[ch := c\<lparr>ch_queue := ch_queue c @ [pkt]\<rparr>]) dropped
      else fan_out pkt chs cs (dropped + 1))"

definition teardown :: "demux \<Rightarrow> demux result" where
  "teardown d =
     rbind (foldM close_chan (chans d) (listeners d)) (\<lambda>cs.
       Ok (d\<lparr>ctx_done := True, handler_closed := True, closed := True, chans := cs, listeners := []\<rparr>))"

definition read_iter :: "err + frame \<Rightarrow> demux \<Rightarrow> demux result" where
  "read_iter r d =
     (case r of
        Inl e \<Rightarrow>
          if ctx_done d then teardown d
          else if errors_Is e ENETDOWN then Ok d
          else teardown d
      | Inr pkt \<Rightarrow>
          if ctx_done d then teardown d
          else if closed d then teardown d
          else rbind (fan_out pkt (listeners d) (chans d) (droppedFrames d)) (\<lambda>(cs, n).
                 Ok (d\<lparr>chans := cs, droppedFrames := n\<rparr>)))"

definition close_demux :: "demux \<Rightarrow> demux" where
  "close_demux d = d\<lparr>ctx_done := True, handler_closed := True\<rparr>"

text \<open>Writing to the interface; the handler's operation is an argument.\<close>

definition demux_write :: "(frame \<Rightarrow> ('w, unit) act) \<Rightarrow> frame \<Rightarrow> demux \<Rightarrow> 'w \<Rightarrow> unit result \<times> demux \<times> 'w" where
  "demux_write WritePacket pkt d w =
     (if ctx_done d then (Error NetErrClosed, d, w)
      else if pkt = [] then (Ok (), d, w)
      else if int (length pkt) > maxFrameSize then
        (Error (Errorf ''packet size %d exceeds max frame size %d'' [itoa (int (length pkt)), itoa maxFrameSize]),
         d\<lparr>droppedWriteFrames := droppedWriteFrames d + 1\<rparr>, w)
      else (let (r, w') = WritePacket pkt w in (r, d, w')))"

section \<open>Runs\<close>

datatype demux_event = Subscribe | Unsubscribe nat | ReadLoop "err + frame" | CloseDemux | Receive nat

fun demux_exec :: "demux_event \<Rightarrow> demux \<Rightarrow> demux result" where
  "demux_exec Subscribe d = Ok (snd (subscribe d))"
| "demux_exec (Unsubscribe ch) d = unsubscribe ch d"
| "demux_exec (ReadLoop r) d = (if closed d then Ok d else read_iter r d)"
| "demux_exec CloseDemux d = Ok (close_demux d)"
| "demux_exec (Receive ch) d = Ok (snd (recv_chan ch d))"

definition demux_run :: "demux_event list \<Rightarrow> demux \<Rightarrow> demux result" where
  "demux_run es d = foldM (\<lambda>d e. demux_exec e d) d es"

definition demux_inv :: "demux \<Rightarrow> bool" where
  "demux_inv d \<longleftrightarrow>
     distinct (listeners d) \<and> int (length (listeners d)) \<le> maxSubscribersPerDemux \<and>
     (\<forall>ch. ch \<in> set (listeners d) \<longleftrightarrow> ch < length (chans d) \<and> ch_open (chans d ! ch)) \<and>
     (\<forall>c \<in> set (chans d). int (length (ch_queue c)) \<le> channelBufferCap) \<and>
     (closed d \<longrightarrow> listeners d = [] \<and> ctx_done d \<and> handler_closed d)"

text \<open>What the fan-out does to each channel.\<close>

definition offer :: "frame \<Rightarrow> chan \<Rightarrow> chan" where
  "offer f c = (if int (length (ch_queue c)) < channelBufferCap then c\<lparr>ch_queue := ch_queue c @ [f]\<rparr> else c)"

lemma offer_open [simp]: "ch_open (offer f c) = ch_open c"
  by (simp add: offer_def)

definition fulls :: "chan list \<Rightarrow> nat list \<Rightarrow> nat" where
  "fulls cs chs = length (filter (\<lambda>ch. int (length (ch_queue (cs ! ch))) \<ge> channelBufferCap) chs)"

lemma fan_out_offers:
  assumes "distinct chs" "\<forall>ch \<in> set chs. ch < length cs \<and> ch_open (cs ! ch)"
  shows "fan_out f chs cs dropped =
    Ok (map (\<lambda>i. if i \<in> set chs then offer f (cs ! i) else cs ! i) [0..<length cs], dropped + of_nat (fulls cs chs))"
  using assms
proof (induction chs arbitrary: cs dropped)
  case Nil
  then show ?case by (simp add: map_nth fulls_def)
next
  case (Cons ch chs)
  let ?cs = "cs[ch := offer f (cs ! ch)]"
  from Cons.prems have ch: "ch < length cs" "ch_open (cs ! ch)" "ch \<notin> set chs" by auto
  have nth: "?cs ! i = cs ! i" if "i \<in> set chs" for i using that ch by (metis nth_list_update_neq)
  have maps: "map (\<lambda>i. if i \<in> set chs then offer f (?cs ! i) else ?cs ! i) [0..<length ?cs] =
      map (\<lambda>i. if i \<in> set (ch # chs) then offer f (cs ! i) else cs ! i) [0..<length cs]"
    using ch nth by (auto intro!: nth_equalityI simp: nth_list_update)
  have cnt: "fulls ?cs chs = fulls cs chs"
    unfolding fulls_def by (intro arg_cong [where f = length] filter_cong) (simp_all add: nth)
  have ih: "fan_out f chs ?cs n =
      Ok (map (\<lambda>i. if i \<in> set (ch # chs) then offer f (cs ! i) else cs ! i) [0..<length cs], n + of_nat (fulls cs chs))" for n
    unfolding maps [symmetric] cnt [symmetric] by (rule Cons.IH) (use Cons.prems nth in auto)
  show ?case
  proof (cases "int (length (ch_queue (cs ! ch))) < channelBufferCap")
    case True
    then have cs: "?cs = cs[ch := (cs ! ch)\<lparr>ch_queue := ch_queue (cs ! ch) @ [f]\<rparr>]" by (simp add: offer_def)
    show ?thesis using ih True ch unfolding cs by (simp add: Let_def fulls_def)
  next
    case False
    then have cs: "?cs = cs" by (simp add: offer_def)
    show ?thesis using ih False ch unfolding cs by (simp add: Let_def fulls_def add_ac)
  qed
qed

lemma close_chans:
  assumes "distinct chs" "\<forall>ch \<in> set chs. ch < length cs \<and> ch_open (cs ! ch)"
  shows "foldM close_chan cs chs = Ok (map (\<lambda>i. if i \<in> set chs then (cs ! i)\<lparr>ch_open := False\<rparr> else cs ! i) [0..<length cs])"
  using assms
proof (induction chs arbitrary: cs)
  case Nil
  then show ?case by (simp add: map_nth)
next
  case (Cons ch chs)
  let ?cs = "cs[ch := (cs ! ch)\<lparr>ch_open := False\<rparr>]"
  from Cons.prems have ch: "ch < length cs" "ch_open (cs ! ch)" "ch \<notin> set chs" by auto
  have nth: "?cs ! i = cs ! i" if "i \<in> set chs" for i using that ch by (metis nth_list_update_neq)
  have "foldM close_chan ?cs chs = Ok (map (\<lambda>i. if i \<in> set chs then (?cs ! i)\<lparr>ch_open := False\<rparr> else ?cs ! i) [0..<length ?cs])"
    by (rule Cons.IH) (use Cons.prems nth in auto)
  also have "map (\<lambda>i. if i \<in> set chs then (?cs ! i)\<lparr>ch_open := False\<rparr> else ?cs ! i) [0..<length ?cs] =
      map (\<lambda>i. if i \<in> set (ch # chs) then (cs ! i)\<lparr>ch_open := False\<rparr> else cs ! i) [0..<length cs]"
    using ch nth by (auto intro!: nth_equalityI simp: nth_list_update)
  finally show ?case using ch by (simp add: close_chan_def)
qed

text \<open>The state after each event, channel by channel.\<close>

definition close_all :: "demux \<Rightarrow> demux" where
  "close_all d = d\<lparr>ctx_done := True, handler_closed := True, closed := True, listeners := [],
     chans := map (\<lambda>i. if i \<in> set (listeners d) then (chans d ! i)\<lparr>ch_open := False\<rparr> else chans d ! i) [0..<length (chans d)]\<rparr>"

definition offer_all :: "frame \<Rightarrow> demux \<Rightarrow> demux" where
  "offer_all f d = d\<lparr>droppedFrames := droppedFrames d + of_nat (fulls (chans d) (listeners d)),
     chans := map (\<lambda>i. if i \<in> set (listeners d) then offer f (chans d ! i) else chans d ! i) [0..<length (chans d)]\<rparr>"

lemma inv_listeners:
  assumes "demux_inv d"
  shows "distinct (listeners d)" "\<forall>ch \<in> set (listeners d). ch < length (chans d) \<and> ch_open (chans d ! ch)"
  using assms by (auto simp: demux_inv_def)

lemma teardown_inv: "demux_inv d \<Longrightarrow> teardown d = Ok (close_all d)"
  by (simp add: teardown_def close_chans [OF inv_listeners] close_all_def)

lemma read_iter_inv:
  assumes "demux_inv d"
  shows "read_iter r d = Ok (case r of
      Inl e \<Rightarrow> if ctx_done d \<or> \<not> errors_Is e ENETDOWN then close_all d else d
    | Inr f \<Rightarrow> if ctx_done d then close_all d else offer_all f d)"
proof -
  have "closed d \<Longrightarrow> ctx_done d" using assms by (simp add: demux_inv_def)
  then show ?thesis
    by (auto simp: read_iter_def teardown_inv [OF assms] fan_out_offers [OF inv_listeners [OF assms]] offer_all_def split: sum.split)
qed

definition close_one :: "nat \<Rightarrow> demux \<Rightarrow> demux" where
  "close_one ch d = d\<lparr>listeners := filter (\<lambda>c. c \<noteq> ch) (listeners d), chans := (chans d)[ch := (chans d ! ch)\<lparr>ch_open := False\<rparr>]\<rparr>"

lemma unsubscribe_inv: "demux_inv d \<Longrightarrow> unsubscribe ch d = Ok (if ch \<in> set (listeners d) then close_one ch d else d)"
  using inv_listeners(2) by (auto simp: unsubscribe_def close_chan_def close_one_def)

lemma inv_close_all: "demux_inv d \<Longrightarrow> demux_inv (close_all d)"
  by (auto simp: demux_inv_def close_all_def maxSubscribersPerDemux_def set_conv_nth split: if_splits)

lemma offer_bounded: "int (length (ch_queue c)) \<le> channelBufferCap \<Longrightarrow> int (length (ch_queue (offer f c))) \<le> channelBufferCap"
  by (simp add: offer_def)

lemma inv_offer_all:
  assumes "demux_inv d"
  shows "demux_inv (offer_all f d)"
proof -
  have "int (length (ch_queue c)) \<le> channelBufferCap" if "c \<in> set (chans (offer_all f d))" for c
  proof -
    from that obtain i where "i < length (chans d)" "c = (if i \<in> set (listeners d) then offer f (chans d ! i) else chans d ! i)"
      by (auto simp: offer_all_def)
    moreover from this have "int (length (ch_queue (chans d ! i))) \<le> channelBufferCap" using assms by (simp add: demux_inv_def)
    ultimately show ?thesis by (auto intro: offer_bounded)
  qed
  moreover have "ch_open (chans (offer_all f d) ! i) = ch_open (chans d ! i)" if "i < length (chans d)" for i
    using that by (simp add: offer_all_def)
  moreover have "length (chans (offer_all f d)) = length (chans d)" "listeners (offer_all f d) = listeners d"
    "closed (offer_all f d) = closed d" "ctx_done (offer_all f d) = ctx_done d" "handler_closed (offer_all f d) = handler_closed d"
    by (simp_all add: offer_all_def)
  ultimately show ?thesis using assms unfolding demux_inv_def by auto
qed

lemma inv_close_one:
  assumes "demux_inv d" "ch \<in> set (listeners d)"
  shows "demux_inv (close_one ch d)"
proof -
  have ch: "ch < length (chans d)" using assms by (simp add: demux_inv_def)
  have "\<forall>c \<in> set (chans (close_one ch d)). int (length (ch_queue c)) \<le> channelBufferCap"
    using assms(1) ch set_update_subset_insert [of "chans d" ch] by (fastforce simp: close_one_def demux_inv_def)
  moreover have "int (length (filter (\<lambda>c. c \<noteq> ch) (listeners d))) \<le> maxSubscribersPerDemux"
    using assms(1) length_filter_le [of "\<lambda>c. c \<noteq> ch" "listeners d"] unfolding demux_inv_def by linarith
  ultimately show ?thesis using assms ch by (auto simp: demux_inv_def close_one_def nth_list_update)
qed

lemma subscribe_cases:
  obtains (refused) "snd (subscribe d) = d"
  | (added) "snd (subscribe d) = d\<lparr>chans := chans d @ [\<lparr>ch_queue = [], ch_open = True\<rparr>], listeners := length (chans d) # listeners d\<rparr>"
  unfolding subscribe_def Let_def
  by (cases "closed d \<or> ctx_done d"; cases "int (length (listeners d)) \<ge> maxSubscribersPerDemux") simp_all

lemma inv_subscribe:
  assumes "demux_inv d"
  shows "demux_inv (snd (subscribe d))"
  using assms by (auto simp: demux_inv_def subscribe_def Let_def nth_append less_Suc_eq channelBufferCap_def)

lemma inv_recv: "demux_inv d \<Longrightarrow> demux_inv (snd (recv_chan ch d))"
proof (cases "ch < length (chans d) \<and> ch_queue (chans d ! ch) \<noteq> []")
  case True
  assume inv: "demux_inv d"
  from True obtain f fs where q: "ch_queue (chans d ! ch) = f # fs" by (cases "ch_queue (chans d ! ch)") auto
  have b: "\<forall>c \<in> set ((chans d)[ch := (chans d ! ch)\<lparr>ch_queue := fs\<rparr>]). int (length (ch_queue c)) \<le> channelBufferCap"
  proof
    fix c assume "c \<in> set ((chans d)[ch := (chans d ! ch)\<lparr>ch_queue := fs\<rparr>])"
    then have "c \<in> set (chans d) \<or> c = (chans d ! ch)\<lparr>ch_queue := fs\<rparr>" using set_update_subset_insert by fastforce
    moreover have "int (length (f # fs)) \<le> channelBufferCap" using inv True q by (metis demux_inv_def nth_mem)
    ultimately show "int (length (ch_queue c)) \<le> channelBufferCap" using inv by (auto simp: demux_inv_def)
  qed
  show ?thesis using inv True b by (auto simp: demux_inv_def recv_chan_def q nth_list_update)
qed (auto simp: recv_chan_def split: list.split)

lemma demux_exec_inv:
  assumes "demux_inv d"
  shows "\<exists>d'. demux_exec e d = Ok d' \<and> demux_inv d'"
proof (cases e)
  case (ReadLoop r)
  then show ?thesis using assms
    by (cases r) (auto simp: read_iter_inv inv_close_all inv_offer_all)
next
  case (Unsubscribe ch)
  then show ?thesis using assms by (auto simp: unsubscribe_inv inv_close_one)
next
  case CloseDemux
  then show ?thesis using assms by (auto simp: close_demux_def demux_inv_def)
qed (use assms in \<open>auto simp: inv_subscribe inv_recv\<close>)

lemma demux_run_inv: "demux_inv d \<Longrightarrow> \<exists>d'. demux_run es d = Ok d' \<and> demux_inv d'"
proof (induction es arbitrary: d)
  case (Cons e es)
  from demux_exec_inv [OF Cons.prems, of e] obtain d1 where "demux_exec e d = Ok d1" "demux_inv d1" by blast
  with Cons.IH [of d1] show ?case by (simp add: demux_run_def)
qed (simp add: demux_run_def)

lemma inv_new: "demux_inv (newInterfaceDemux name b)"
  by (simp add: demux_inv_def newInterfaceDemux_def maxSubscribersPerDemux_def)

text \<open>
  C21. The demultiplexer never panics: no run of subscriptions, unsubscriptions, captured frames, read errors
  and receptions sends on a closed channel or closes one twice. In every state it reaches, there are at most
  thirty-two subscribers, every queue is within its capacity, exactly the subscribed channels are open, and
  after the read loop has ended there is no subscriber left.
\<close>

theorem demux_safe: "\<exists>d. demux_run es (newInterfaceDemux name b) = Ok d \<and> demux_inv d"
  by (rule demux_run_inv) (rule inv_new)

section \<open>What a subscriber sees\<close>

text \<open>
  The specification of one subscriber: a queue of bounded length that takes a captured frame if there is
  room, loses it otherwise, and ends with the read loop. Nothing in it depends on other subscribers.
\<close>

record subscriber =
  sb_queue :: "frame list"
  sb_open :: bool
  sb_stopping :: bool
  sb_stopped :: bool

definition sub_end :: "subscriber \<Rightarrow> subscriber" where
  "sub_end s = s\<lparr>sb_open := False, sb_stopping := True, sb_stopped := True\<rparr>"

fun sub_step :: "nat \<Rightarrow> demux_event \<Rightarrow> subscriber \<Rightarrow> subscriber" where
  "sub_step ch Subscribe s = s"
| "sub_step ch (Unsubscribe c) s = (if c = ch then s\<lparr>sb_open := False\<rparr> else s)"
| "sub_step ch CloseDemux s = s\<lparr>sb_stopping := True\<rparr>"
| "sub_step ch (Receive c) s = (if c = ch then s\<lparr>sb_queue := tl (sb_queue s)\<rparr> else s)"
| "sub_step ch (ReadLoop (Inl e)) s =
     (if \<not> sb_stopped s \<and> (sb_stopping s \<or> \<not> errors_Is e ENETDOWN) then sub_end s else s)"
| "sub_step ch (ReadLoop (Inr f)) s =
     (if sb_stopped s then s else if sb_stopping s then sub_end s
      else if sb_open s \<and> int (length (sb_queue s)) < channelBufferCap then s\<lparr>sb_queue := sb_queue s @ [f]\<rparr> else s)"

definition view_of :: "nat \<Rightarrow> demux \<Rightarrow> subscriber" where
  "view_of ch d = \<lparr>sb_queue = ch_queue (chans d ! ch), sb_open = ch_open (chans d ! ch), sb_stopping = ctx_done d, sb_stopped = closed d\<rparr>"

lemma view_close_all:
  "demux_inv d \<Longrightarrow> ch < length (chans d) \<Longrightarrow> view_of ch (close_all d) = sub_end (view_of ch d)"
  by (auto simp: view_of_def close_all_def sub_end_def demux_inv_def)

lemma view_offer_all:
  assumes "demux_inv d" "ch < length (chans d)" "\<not> ctx_done d"
  shows "view_of ch (offer_all f d) = sub_step ch (ReadLoop (Inr f)) (view_of ch d)"
proof -
  have "\<not> closed d" using assms by (auto simp: demux_inv_def)
  moreover have "ch \<in> set (listeners d) \<longleftrightarrow> ch_open (chans d ! ch)" using assms by (simp add: demux_inv_def)
  ultimately show ?thesis using assms by (auto simp: view_of_def offer_all_def offer_def)
qed

lemma demux_exec_view:
  assumes inv: "demux_inv d" and ch: "ch < length (chans d)" and run: "demux_exec e d = Ok d'"
  shows "view_of ch d' = sub_step ch e (view_of ch d) \<and> ch < length (chans d')"
proof (cases e)
  case Subscribe
  with run have "d' = snd (subscribe d)" by simp
  then show ?thesis using ch by (cases rule: subscribe_cases [of d]) (simp_all add: Subscribe view_of_def nth_append)
next
  case (Unsubscribe c)
  have "ch \<in> set (listeners d) \<longleftrightarrow> ch_open (chans d ! ch)" using inv ch by (simp add: demux_inv_def)
  with run ch show ?thesis
    by (auto simp: Unsubscribe unsubscribe_inv [OF inv] close_one_def view_of_def nth_list_update split: if_splits)
next
  case (ReadLoop r)
  have "closed d \<Longrightarrow> ctx_done d" using inv by (simp add: demux_inv_def)
  moreover have "length (chans (close_all d)) = length (chans d)" "length (chans (offer_all f d)) = length (chans d)" for f
    by (simp_all add: close_all_def offer_all_def)
  ultimately show ?thesis using run ch view_close_all [OF inv ch] view_offer_all [OF inv ch]
    by (cases r) (auto simp: ReadLoop read_iter_inv [OF inv] view_of_def split: if_splits)
next
  case CloseDemux
  with run ch show ?thesis by (auto simp: close_demux_def view_of_def)
next
  case (Receive c)
  with run ch show ?thesis by (cases "c < length (chans d)"; cases "ch_queue (chans d ! c)")
    (auto simp: recv_chan_def view_of_def nth_list_update)
qed

lemma demux_run_view:
  "demux_inv d \<Longrightarrow> ch < length (chans d) \<Longrightarrow> demux_run es d = Ok d' \<Longrightarrow>
   view_of ch d' = foldl (\<lambda>s e. sub_step ch e s) (view_of ch d) es"
proof (induction es arbitrary: d)
  case (Cons e es)
  from demux_exec_inv [OF Cons.prems(1), of e] obtain d1 where d1: "demux_exec e d = Ok d1" "demux_inv d1" by blast
  from demux_exec_view [OF Cons.prems(1,2) d1(1)]
  have v: "view_of ch d1 = sub_step ch e (view_of ch d)" "ch < length (chans d1)" by simp_all
  have "demux_run es d1 = Ok d'" using Cons.prems(3) d1(1) by (simp add: demux_run_def)
  from Cons.IH [OF d1(2) v(2) this] show ?case by (simp add: v(1))
qed (simp add: demux_run_def)

text \<open>
  C22. The demultiplexer implements the specification of each of its subscribers: whatever the others do,
  however slow they are, a subscriber's channel goes through exactly the states of the specification. A slow
  subscriber can neither delay nor starve another.
\<close>

theorem demux_refines:
  assumes "demux_inv d" and "ch < length (chans d)"
  shows "\<exists>d'. demux_run es d = Ok d' \<and> view_of ch d' = foldl (\<lambda>s e. sub_step ch e s) (view_of ch d) es"
  using demux_run_inv [OF assms(1), of es] demux_run_view [OF assms] by blast

subsection \<open>Order and loss\<close>

text \<open>The frames that an event and a run deliver to a subscriber, capture for it, and drop.\<close>

fun delivered :: "nat \<Rightarrow> demux_event \<Rightarrow> demux \<Rightarrow> frame list" where
  "delivered ch (Receive c) d = (if c = ch then (case fst (recv_chan ch d) of Got f \<Rightarrow> [f] | _ \<Rightarrow> []) else [])"
| "delivered ch _ d = []"

fun captured :: "nat \<Rightarrow> demux_event \<Rightarrow> demux \<Rightarrow> frame list" where
  "captured ch (ReadLoop (Inr f)) d = (if ch \<in> set (listeners d) \<and> \<not> ctx_done d then [f] else [])"
| "captured ch _ d = []"

fun dropped :: "demux_event \<Rightarrow> demux \<Rightarrow> nat" where
  "dropped (ReadLoop (Inr f)) d = (if closed d \<or> ctx_done d then 0 else fulls (chans d) (listeners d))"
| "dropped _ d = 0"

fun over_run :: "(demux_event \<Rightarrow> demux \<Rightarrow> 'a list) \<Rightarrow> demux_event list \<Rightarrow> demux \<Rightarrow> 'a list" where
  "over_run f [] d = []"
| "over_run f (e # es) d = f e d @ (case demux_exec e d of Ok d' \<Rightarrow> over_run f es d' | _ \<Rightarrow> [])"

definition deliveries :: "nat \<Rightarrow> demux_event list \<Rightarrow> demux \<Rightarrow> frame list" where
  "deliveries ch = over_run (delivered ch)"

definition captures :: "nat \<Rightarrow> demux_event list \<Rightarrow> demux \<Rightarrow> frame list" where
  "captures ch = over_run (captured ch)"

definition drops :: "demux_event list \<Rightarrow> demux \<Rightarrow> nat" where
  "drops es d = sum_list (over_run (\<lambda>e d. [dropped e d]) es d)"

definition queue_of :: "nat \<Rightarrow> demux \<Rightarrow> frame list" where
  "queue_of ch d = ch_queue (chans d ! ch)"

lemma demux_exec_queue:
  assumes inv: "demux_inv d" and ch: "ch < length (chans d)" and run: "demux_exec e d = Ok d'"
  shows "subseq (delivered ch e d @ queue_of ch d') (queue_of ch d @ captured ch e d) \<and>
    (dropped e d = 0 \<longrightarrow> delivered ch e d @ queue_of ch d' = queue_of ch d @ captured ch e d)"
proof -
  have q: "queue_of ch d = sb_queue (view_of ch d)" for d by (simp add: queue_of_def view_of_def)
  have v: "queue_of ch d' = sb_queue (sub_step ch e (view_of ch d))"
    using demux_exec_view [OF assms] by (simp add: q)
  have l: "ch \<in> set (listeners d) \<longleftrightarrow> sb_open (view_of ch d)" using inv ch by (simp add: demux_inv_def view_of_def)
  have stop: "sb_stopped (view_of ch d) = closed d" "sb_stopping (view_of ch d) = ctx_done d" "closed d \<Longrightarrow> ctx_done d"
    using inv by (simp_all add: demux_inv_def view_of_def)
  have full: "int (length (sb_queue (view_of ch d))) < channelBufferCap"
    if "fulls (chans d) (listeners d) = 0" "sb_open (view_of ch d)"
    using that l by (auto simp: fulls_def filter_empty_conv not_le view_of_def)
  have "subseq (delivered ch e d @ sb_queue (sub_step ch e (view_of ch d))) (sb_queue (view_of ch d) @ captured ch e d) \<and>
      (dropped e d = 0 \<longrightarrow> delivered ch e d @ sb_queue (sub_step ch e (view_of ch d)) = sb_queue (view_of ch d) @ captured ch e d)"
  proof (cases e)
    case (Receive c)
    have "fst (recv_chan ch d) = (case sb_queue (view_of ch d) of f # fs \<Rightarrow> Got f | [] \<Rightarrow> if ch_open (chans d ! ch) then Blocks else Closed)"
      using ch by (simp add: recv_chan_def view_of_def split: list.split)
    then show ?thesis
      by (cases "sb_queue (view_of ch d)") (simp_all add: Receive)
  next
    case (ReadLoop r)
    then show ?thesis
      using full stop(3) by (cases r) (auto simp: l stop(1,2) sub_end_def)
  qed simp_all
  then show ?thesis unfolding v [symmetric] q [of d, symmetric] .
qed

lemma demux_exec_dropped:
  assumes inv: "demux_inv d" and run: "demux_exec e d = Ok d'"
  shows "droppedFrames d' = droppedFrames d + of_nat (dropped e d)"
proof (cases e)
  case (ReadLoop r)
  then show ?thesis using run
    by (cases r) (auto simp: read_iter_inv [OF inv] close_all_def offer_all_def split: if_splits)
next
  case (Unsubscribe c)
  then show ?thesis using run by (auto simp: unsubscribe_inv [OF inv] close_one_def split: if_splits)
next
  case (Receive c)
  then show ?thesis using run by (cases "ch_queue (chans d ! c)") (auto simp: recv_chan_def split: if_splits)
next
  case Subscribe
  then show ?thesis using run by (cases rule: subscribe_cases [of d]) auto
qed (use run in \<open>auto simp: close_demux_def\<close>)

text \<open>
  C23. No frame is reordered, duplicated or lost in silence: in every run, what a subscriber receives and what
  is left in its queue is a subsequence, in order, of what was queued and captured for it; it is all of it if
  nothing was dropped, and the drop counter grows by exactly the number of frames dropped, modulo its width.
\<close>

theorem subscriber_fifo:
  assumes "demux_inv d" and "ch < length (chans d)" and "demux_run es d = Ok d'"
  shows "subseq (deliveries ch es d @ queue_of ch d') (queue_of ch d @ captures ch es d) \<and>
    (drops es d = 0 \<longrightarrow> deliveries ch es d @ queue_of ch d' = queue_of ch d @ captures ch es d) \<and>
    droppedFrames d' = droppedFrames d + of_nat (drops es d)"
  using assms
proof (induction es arbitrary: d)
  case (Cons e es)
  from demux_exec_inv [OF Cons.prems(1), of e] obtain d1 where d1: "demux_exec e d = Ok d1" "demux_inv d1" by blast
  have len: "ch < length (chans d1)" using demux_exec_view [OF Cons.prems(1,2) d1(1)] by simp
  have run: "demux_run es d1 = Ok d'" using Cons.prems(3) d1(1) by (simp add: demux_run_def)
  have del: "deliveries ch (e # es) d = delivered ch e d @ deliveries ch es d1"
    and cap: "captures ch (e # es) d = captured ch e d @ captures ch es d1"
    and drp: "drops (e # es) d = dropped e d + drops es d1"
    by (simp_all add: d1(1) deliveries_def captures_def drops_def)
  note ih = Cons.IH [OF d1(2) len run] and st = demux_exec_queue [OF Cons.prems(1,2) d1(1)]
  have "subseq (delivered ch e d @ (deliveries ch es d1 @ queue_of ch d')) (delivered ch e d @ (queue_of ch d1 @ captures ch es d1))"
    using ih by (simp add: subseq_append')
  moreover have "subseq ((delivered ch e d @ queue_of ch d1) @ captures ch es d1) ((queue_of ch d @ captured ch e d) @ captures ch es d1)"
    using st by (simp only: subseq_append)
  ultimately have "subseq (deliveries ch (e # es) d @ queue_of ch d') (queue_of ch d @ captures ch (e # es) d)"
    unfolding del cap append.assoc by (rule subseq_order.order_trans)
  moreover have "deliveries ch (e # es) d @ queue_of ch d' = queue_of ch d @ captures ch (e # es) d" if "drops (e # es) d = 0"
  proof -
    have "delivered ch e d @ queue_of ch d1 = queue_of ch d @ captured ch e d" "deliveries ch es d1 @ queue_of ch d' = queue_of ch d1 @ captures ch es d1"
      using ih st that drp by simp_all
    then show ?thesis unfolding del cap by (metis append.assoc)
  qed
  ultimately show ?case using ih demux_exec_dropped [OF Cons.prems(1) d1(1)] by (simp only: drp of_nat_add) (simp add: add.assoc)
qed (simp add: demux_run_def deliveries_def captures_def drops_def)

text \<open>A demultiplexer with two subscribers, the second of which never reads.\<close>

definition ex_demux :: demux where
  "ex_demux = snd (subscribe (snd (subscribe (newInterfaceDemux ''eth1'' False))))"

definition ex_events :: "demux_event list" where
  "ex_events = [ReadLoop (Inr ''ab''), ReadLoop (Inl ENETDOWN), Receive 0, ReadLoop (Inr ''cd''), Unsubscribe 1, CloseDemux,
     ReadLoop (Inr ''ef''), Receive 0]"

definition ex_end :: demux where
  "ex_end = the_Ok (demux_run ex_events ex_demux)"

lemma ex_demux_inv: "demux_inv ex_demux"
  unfolding ex_demux_def by (intro inv_subscribe inv_new)

lemma ex_demux_run: "demux_run ex_events ex_demux = Ok ex_end"
proof -
  have "is_Ok (demux_run ex_events ex_demux)" by code_simp
  then show ?thesis by (auto simp: ex_end_def is_Ok_iff)
qed

lemma ex_demux_chans: "length (chans ex_demux) = 2"
  by code_simp

theorem demux_refines_witness:
  "\<exists>d'. demux_run ex_events ex_demux = Ok d' \<and> view_of 0 d' = \<lparr>sb_queue = [], sb_open = False, sb_stopping = True, sb_stopped = True\<rparr>"
proof -
  have "foldl (\<lambda>s e. sub_step 0 e s) (view_of 0 ex_demux) ex_events =
      \<lparr>sb_queue = [], sb_open = False, sb_stopping = True, sb_stopped = True\<rparr>" by code_simp
  with demux_refines [OF ex_demux_inv, of 0 ex_events] show ?thesis by (simp add: ex_demux_chans)
qed

theorem subscriber_fifo_witness:
  "deliveries 0 ex_events ex_demux = [''ab'', ''cd''] \<and> captures 0 ex_events ex_demux = [''ab'', ''cd''] \<and>
   deliveries 0 ex_events ex_demux @ queue_of 0 ex_end = queue_of 0 ex_demux @ captures 0 ex_events ex_demux"
proof -
  have "deliveries 0 ex_events ex_demux = [''ab'', ''cd'']" "captures 0 ex_events ex_demux = [''ab'', ''cd'']" "drops ex_events ex_demux = 0"
    by code_simp+
  moreover from this have "deliveries 0 ex_events ex_demux @ queue_of 0 ex_end = queue_of 0 ex_demux @ captures 0 ex_events ex_demux"
    using subscriber_fifo [OF ex_demux_inv _ ex_demux_run, of 0] by (simp add: ex_demux_chans)
  ultimately show ?thesis by simp
qed

end
