(* ===== verification/Bridge_Server.thy ===== *)
theory Bridge_Server
  imports Bridge_Demux
begin

text \<open>
  The bridge's wire service and client, the rest of \<open>bridge/bridge.go\<close> and \<open>bridge/client.go\<close>: raw sockets,
  the link state of a demultiplexer, the server's table of demultiplexers, the two loops of \<open>Transmit\<close>, and
  the client that keeps a stream to a peer. Sockets, links and streams are operations of the environment.
\<close>

section \<open>Errors of the kernel\<close>

definition EINTR :: nat where "EINTR = 4"
definition EBADF :: nat where "EBADF = 9"
definition EAGAIN :: nat where "EAGAIN = 11"
definition ENODEV :: nat where "ENODEV = 19"
definition EINVAL :: nat where "EINVAL = 22"
definition ESHUTDOWN :: nat where "ESHUTDOWN = 108"

text \<open>\<open>errors.As\<close> for an \<open>Errno\<close>: the first one in the tree of wrapped errors.\<close>

fun As_Errno :: "err \<Rightarrow> nat option" where
  "As_Errno (Errno n) = Some n"
| "As_Errno (Errorw f as e) = As_Errno e"
| "As_Errno (Join es) = (case List.find (\<lambda>o'. o' \<noteq> None) (map As_Errno es) of Some o' \<Rightarrow> o' | None \<Rightarrow> None)"
| "As_Errno _ = None"

definition isFatalWriteError :: "err \<Rightarrow> bool" where
  "isFatalWriteError e =
     (if errors_Is e NetErrClosed \<or> errors_Is e EOF \<or> errors_Is e OsErrClosed \<or>
         errors_Is e (Errno EBADF) \<or> errors_Is e (Errno ENODEV) \<or> errors_Is e (Errno ESHUTDOWN) then True
      else (case As_Errno e of
              Some n \<Rightarrow> n \<in> {EBADF, ENODEV, ESHUTDOWN, EINVAL}
            | None \<Rightarrow> False))"

section \<open>Raw sockets\<close>

text \<open>
  What the poller and the kernel answer to one attempt at a read: an error of the poller, which ends the
  call, an error number, or a frame with the packet type of its address, if that is a link-layer address.
\<close>

datatype recv_outcome = PollErr err | RecvErr nat | RecvPkt "nat option" frame

definition PACKET_OUTGOING :: nat where "PACKET_OUTGOING = 4"

fun ReadPacket :: "recv_outcome list \<Rightarrow> (frame result \<times> recv_outcome list) option" where
  "ReadPacket [] = None"
| "ReadPacket (PollErr e # rs) = Some (Error e, rs)"
| "ReadPacket (RecvErr n # rs) =
     (if n = EINTR then ReadPacket rs
      else if n = EAGAIN then ReadPacket rs
      else Some (Error (Errno n), rs))"
| "ReadPacket (RecvPkt pkttype pkt # rs) =
     (if pkttype = Some PACKET_OUTGOING then ReadPacket rs else Some (Ok pkt, rs))"

datatype write_outcome = WPollErr err | WErr nat | Written

fun write_loop :: "write_outcome list \<Rightarrow> (unit result \<times> write_outcome list) option" where
  "write_loop [] = None"
| "write_loop (WPollErr e # rs) = Some (Error e, rs)"
| "write_loop (WErr n # rs) = (if n = EINTR \<or> n = EAGAIN then write_loop rs else Some (Error (Errno n), rs))"
| "write_loop (Written # rs) = Some (Ok (), rs)"

definition WritePacket :: "frame \<Rightarrow> write_outcome list \<Rightarrow> (unit result \<times> write_outcome list) option" where
  "WritePacket pkt rs =
     (if pkt = [] then Some (Ok (), rs)
      else if int (length pkt) > maxFrameSize then
        Some (Error (Errorf ''packet size %d exceeds max frame size %d'' [itoa (int (length pkt)), itoa maxFrameSize]), rs)
      else write_loop rs)"

text \<open>Only frames that the interface received are returned, in order, and none of them is skipped.\<close>

definition ready_outcome :: "recv_outcome \<Rightarrow> bool" where
  "ready_outcome r =
     (case r of PollErr _ \<Rightarrow> True | RecvErr n \<Rightarrow> n \<notin> {EINTR, EAGAIN} | RecvPkt t _ \<Rightarrow> t \<noteq> Some PACKET_OUTGOING)"

lemma ReadPacket_first:
  "ReadPacket rs =
     (case dropWhile (\<lambda>r. \<not> ready_outcome r) rs of
        [] \<Rightarrow> None
      | r # rest \<Rightarrow> Some (case r of PollErr e \<Rightarrow> Error e | RecvErr n \<Rightarrow> Error (Errno n) | RecvPkt _ pkt \<Rightarrow> Ok pkt, rest))"
  by (induction rs rule: ReadPacket.induct) (auto simp: ready_outcome_def)

section \<open>The link state of a demultiplexer\<close>

record link_ctl =
  lc_link :: bool
  linkClosed :: bool
  reporter :: LinkState
  linkListeners :: "(nat, LinkState option) gomap"
  lc_next :: nat

definition new_link_ctl :: link_ctl where
  "new_link_ctl = \<lparr>lc_link = False, linkClosed = False, reporter = LINK_STATE_UNKNOWN, linkListeners = [], lc_next = 0\<rparr>"

record 'w link_ops =
  lk_SetAdminUp :: "bool \<Rightarrow> ('w, unit) act"
  lk_Current :: "('w, LinkObservation) act"
  lk_Close :: "('w, unit) act"

text \<open>Errors of these operations are logged; a panic would end the process.\<close>

definition attachLink :: "'w link_ops \<Rightarrow> link_ctl \<Rightarrow> ('w, link_ctl) act" where
  "attachLink L lc =
     (if linkClosed lc then abind (atry (lk_Close L)) (\<lambda>_. aret lc)
      else abind (atry (lk_Current L)) (\<lambda>r.
        aret (case r of
                Ok obs \<Rightarrow> lc\<lparr>lc_link := True, reporter := fst (observe (reporter lc) obs)\<rparr>
              | _ \<Rightarrow> lc\<lparr>lc_link := True\<rparr>)))"

definition closeLink :: "'w link_ops \<Rightarrow> link_ctl \<Rightarrow> ('w, link_ctl) act" where
  "closeLink L lc =
     (if lc_link lc then abind (atry (lk_Close L)) (\<lambda>_. aret (lc\<lparr>linkClosed := True\<rparr>))
      else aret (lc\<lparr>linkClosed := True\<rparr>))"

definition observeLink :: "LinkObservation \<Rightarrow> link_ctl \<Rightarrow> link_ctl" where
  "observeLink obs lc =
     (let (r, s) = observe (reporter lc) obs; lc1 = lc\<lparr>reporter := r\<rparr> in
      if s = LINK_STATE_UNKNOWN then lc1
      else lc1\<lparr>linkListeners := map (\<lambda>(ch, v). (ch, publishLatest v s)) (linkListeners lc1)\<rparr>)"

definition subscribeLinkState :: "link_ctl \<Rightarrow> nat \<times> link_ctl" where
  "subscribeLinkState lc =
     (let ch = lc_next lc; s = current (reporter lc) in
      (ch, lc\<lparr>lc_next := Suc ch,
              linkListeners := put ch (if s \<noteq> LINK_STATE_UNKNOWN then Some s else None) (linkListeners lc)\<rparr>))"

definition unsubscribeLinkState :: "nat \<Rightarrow> link_ctl \<Rightarrow> link_ctl" where
  "unsubscribeLinkState ch lc = lc\<lparr>linkListeners := del ch (linkListeners lc)\<rparr>"

definition setLinkState :: "'w link_ops \<Rightarrow> link_ctl \<Rightarrow> LinkState \<Rightarrow> ('w, unit) act" where
  "setLinkState L lc s =
     (if \<not> lc_link lc then aret ()
      else abind (atry (lk_SetAdminUp L (s = LINK_STATE_UP))) (\<lambda>_. aret ()))"

text \<open>
  With one subscriber the demultiplexer's link state is an end of a wire as in the pair of bridges: what it
  observes goes to the channel of the sending loop in the same way.
\<close>

definition side_link :: "nat \<Rightarrow> link_ctl \<Rightarrow> LinkState \<times> LinkState option" where
  "side_link ch lc = (reporter lc, case map_of (linkListeners lc) ch of Some v \<Rightarrow> v | None \<Rightarrow> None)"

lemma observeLink_is_server_observe:
  assumes "events s = Some obs" and "map_of (linkListeners lc) ch = Some v" and "side_link ch lc = (reported s, linkChan s)"
  shows "side_link ch (observeLink obs lc) = (reported (server_observe s), linkChan (server_observe s))"
proof -
  obtain r st where ob: "observe (reporter lc) obs = (r, st)" by fastforce
  have m: "map_of (map (\<lambda>(ch, v). (ch, publishLatest v st)) l) ch = map_option (\<lambda>v. publishLatest v st) (map_of l ch)" for l
    by (induction l) auto
  show ?thesis using assms ob m
    by (cases "st = LINK_STATE_UNKNOWN") (auto simp: side_link_def observeLink_def server_observe_def)
qed

section \<open>The server's table\<close>

text \<open>Demultiplexers are numbered in the order of their creation; the table maps interfaces to numbers.\<close>

record iface =
  if_demux :: demux
  if_link :: link_ctl

record server =
  srv_done :: bool
  demuxers :: "(string, nat) gomap"
  ifaces :: "iface list"

definition NewServer :: "bool \<Rightarrow> server" where
  "NewServer parent_done = \<lparr>srv_done = parent_done, demuxers = [], ifaces = []\<rparr>"

definition add_demux :: "string \<Rightarrow> server \<Rightarrow> nat \<times> server" where
  "add_demux name sv =
     (let k = length (ifaces sv) in
      (k, sv\<lparr>demuxers := put name k (demuxers sv),
              ifaces := ifaces sv @ [\<lparr>if_demux = newInterfaceDemux name (srv_done sv), if_link = new_link_ctl\<rparr>]\<rparr>))"

definition live_demux :: "string \<Rightarrow> server \<Rightarrow> nat option" where
  "live_demux name sv =
     (case map_of (demuxers sv) name of
        Some k \<Rightarrow> if ctx_done (if_demux (ifaces sv ! k)) then None else Some k
      | None \<Rightarrow> None)"

definition getOrCreateDemux ::
  "(string \<Rightarrow> ('w, unit) act) \<Rightarrow> (string \<Rightarrow> ('w, 'w link_ops) act) option \<Rightarrow> string \<Rightarrow> server \<Rightarrow> 'w \<Rightarrow> nat result \<times> server \<times> 'w" where
  "getOrCreateDemux socketOpener linkOpener name sv w =
     (if srv_done sv then (Error (StatusErr Unavailable ''bridge server is shutting down: %v'' []), sv, w)
      else case live_demux name sv of
        Some k \<Rightarrow> (Ok k, sv, w)
      | None \<Rightarrow>
          (let sv1 = sv\<lparr>demuxers := del name (demuxers sv)\<rparr> in
           case socketOpener name w of
             (Error e, w1) \<Rightarrow> (Error (Errorw ''failed to open socket for interface %s: %w'' [name] e), sv1, w1)
           | (Panic p, w1) \<Rightarrow> (Panic p, sv1, w1)
           | (Ok _, w1) \<Rightarrow>
               (let (k, sv2) = add_demux name sv1 in
                case linkOpener of
                  None \<Rightarrow> (Ok k, sv2, w1)
                | Some lo \<Rightarrow>
                    (case lo name w1 of
                       (Error e, w2) \<Rightarrow> (Ok k, sv2, w2)
                     | (Panic p, w2) \<Rightarrow> (Panic p, sv2, w2)
                     | (Ok L, w2) \<Rightarrow>
                         (case attachLink L new_link_ctl w2 of
                            (Ok lc, w3) \<Rightarrow> (Ok k, sv2\<lparr>ifaces := (ifaces sv2)[k := (ifaces sv2 ! k)\<lparr>if_link := lc\<rparr>]\<rparr>, w3)
                          | (Error e, w3) \<Rightarrow> (Ok k, sv2, w3)
                          | (Panic p, w3) \<Rightarrow> (Panic p, sv2, w3))))))"

text \<open>The callback of a demultiplexer whose read loop has ended removes only itself.\<close>

definition onClose :: "nat \<Rightarrow> string \<Rightarrow> server \<Rightarrow> server" where
  "onClose k name sv =
     (if map_of (demuxers sv) name = Some k then sv\<lparr>demuxers := del name (demuxers sv)\<rparr> else sv)"

definition upd_demux :: "nat \<Rightarrow> demux \<Rightarrow> link_ctl \<Rightarrow> server \<Rightarrow> server" where
  "upd_demux k d lc sv = sv\<lparr>ifaces := (ifaces sv)[k := \<lparr>if_demux = d, if_link = lc\<rparr>]\<rparr>"

text \<open>Cancelling the server's context cancels those of its demultiplexers.\<close>

definition cancel_server :: "server \<Rightarrow> server" where
  "cancel_server sv =
     sv\<lparr>srv_done := True, ifaces := map (\<lambda>i. i\<lparr>if_demux := (if_demux i)\<lparr>ctx_done := True\<rparr>\<rparr>) (ifaces sv)\<rparr>"

inductive server_step ::
  "(string \<Rightarrow> ('w, unit) act) \<Rightarrow> (string \<Rightarrow> ('w, 'w link_ops) act) option \<Rightarrow> server \<times> 'w \<Rightarrow> server \<times> 'w \<Rightarrow> bool"
  for socketOpener linkOpener where
  Connect: "getOrCreateDemux socketOpener linkOpener name sv w = (r, sv', w') \<Longrightarrow>
    server_step socketOpener linkOpener (sv, w) (sv', w')"
| Demux: "k < length (ifaces sv) \<Longrightarrow> demux_exec e (if_demux (ifaces sv ! k)) = Ok d \<Longrightarrow> closed d = closed (if_demux (ifaces sv ! k)) \<Longrightarrow>
    server_step socketOpener linkOpener (sv, w) (upd_demux k d (if_link (ifaces sv ! k)) sv, w)"
| Finish: "k < length (ifaces sv) \<Longrightarrow> demux_exec e (if_demux (ifaces sv ! k)) = Ok d \<Longrightarrow> closed d \<Longrightarrow>
    \<not> closed (if_demux (ifaces sv ! k)) \<Longrightarrow> closeLink L (if_link (ifaces sv ! k)) w = (Ok lc, w') \<Longrightarrow>
    server_step socketOpener linkOpener (sv, w) (onClose k (ifaceName d) (upd_demux k d lc sv), w')"
| Shutdown: "server_step socketOpener linkOpener (sv, w) (cancel_server sv, w)"

inductive_cases server_stepE: "server_step so lo (sv, w) (sv', w')"

definition server_inv :: "server \<Rightarrow> bool" where
  "server_inv sv \<longleftrightarrow>
     wf_map (demuxers sv) \<and>
     (\<forall>k < length (ifaces sv). demux_inv (if_demux (ifaces sv ! k)) \<and>
        (\<not> ctx_done (if_demux (ifaces sv ! k)) \<longrightarrow>
           map_of (demuxers sv) (ifaceName (if_demux (ifaces sv ! k))) = Some k)) \<and>
     (\<forall>name k. map_of (demuxers sv) name = Some k \<longrightarrow>
        k < length (ifaces sv) \<and> ifaceName (if_demux (ifaces sv ! k)) = name)"

lemma demux_exec_frame:
  assumes inv: "demux_inv d" and run: "demux_exec e d = Ok d'"
  shows "ifaceName d' = ifaceName d" "ctx_done d \<Longrightarrow> ctx_done d'"
proof -
  have "ifaceName d' = ifaceName d \<and> (ctx_done d \<longrightarrow> ctx_done d')"
  proof (cases e)
    case Subscribe
    then show ?thesis using run by (cases rule: subscribe_cases [of d]) auto
  next
    case (ReadLoop r)
    then show ?thesis using run by (cases r) (auto simp: read_iter_inv [OF inv] close_all_def offer_all_def split: if_splits)
  next
    case (Unsubscribe c)
    then show ?thesis using run by (auto simp: unsubscribe_inv [OF inv] close_one_def split: if_splits)
  next
    case (Receive c)
    then show ?thesis using run by (cases "ch_queue (chans d ! c)") (auto simp: recv_chan_def split: if_splits)
  qed (use run in \<open>auto simp: close_demux_def\<close>)
  then show "ifaceName d' = ifaceName d" "ctx_done d \<Longrightarrow> ctx_done d'" by simp_all
qed

lemma server_invI:
  assumes "wf_map (demuxers sv)"
    and "\<And>k. k < length (ifaces sv) \<Longrightarrow> demux_inv (if_demux (ifaces sv ! k))"
    and "\<And>k. k < length (ifaces sv) \<Longrightarrow> \<not> ctx_done (if_demux (ifaces sv ! k)) \<Longrightarrow>
      map_of (demuxers sv) (ifaceName (if_demux (ifaces sv ! k))) = Some k"
    and "\<And>name k. map_of (demuxers sv) name = Some k \<Longrightarrow> k < length (ifaces sv) \<and> ifaceName (if_demux (ifaces sv ! k)) = name"
  shows "server_inv sv"
  using assms unfolding server_inv_def by blast

lemma server_invD:
  assumes "server_inv sv"
  shows "wf_map (demuxers sv)"
    and "k < length (ifaces sv) \<Longrightarrow> demux_inv (if_demux (ifaces sv ! k))"
    and "k < length (ifaces sv) \<Longrightarrow> \<not> ctx_done (if_demux (ifaces sv ! k)) \<Longrightarrow>
      map_of (demuxers sv) (ifaceName (if_demux (ifaces sv ! k))) = Some k"
    and "map_of (demuxers sv) name = Some k \<Longrightarrow> k < length (ifaces sv) \<and> ifaceName (if_demux (ifaces sv ! k)) = name"
  using assms unfolding server_inv_def by blast+

text \<open>Giving up a table entry is safe if the demultiplexer behind it is cancelled.\<close>

lemma server_inv_del:
  assumes inv: "server_inv sv" and c: "\<And>k. map_of (demuxers sv) name = Some k \<Longrightarrow> ctx_done (if_demux (ifaces sv ! k))"
  shows "server_inv (sv\<lparr>demuxers := del name (demuxers sv)\<rparr>)"
proof (rule server_invI)
  fix k assume k: "k < length (ifaces (sv\<lparr>demuxers := del name (demuxers sv)\<rparr>))"
    "\<not> ctx_done (if_demux (ifaces (sv\<lparr>demuxers := del name (demuxers sv)\<rparr>) ! k))"
  then have "map_of (demuxers sv) (ifaceName (if_demux (ifaces sv ! k))) = Some k"
    using server_invD(3) [OF inv, of k] by simp
  moreover from this have "ifaceName (if_demux (ifaces sv ! k)) \<noteq> name" using c k(2) by auto
  ultimately show "map_of (demuxers (sv\<lparr>demuxers := del name (demuxers sv)\<rparr>))
      (ifaceName (if_demux (ifaces (sv\<lparr>demuxers := del name (demuxers sv)\<rparr>) ! k))) = Some k" by simp
qed (use server_invD [OF inv] in \<open>auto split: if_splits\<close>)

lemma server_inv_add:
  assumes "server_inv sv" "map_of (demuxers sv) name = None"
  shows "server_inv (snd (add_demux name sv))"
proof -
  have "ifaceName (if_demux (ifaces sv ! k)) \<noteq> name" if "k < length (ifaces sv)" "\<not> ctx_done (if_demux (ifaces sv ! k))" for k
    using assms that by (auto simp: server_inv_def)
  then show ?thesis using assms
    by (auto simp: server_inv_def add_demux_def Let_def nth_append less_Suc_eq newInterfaceDemux_def inv_new [unfolded newInterfaceDemux_def])
qed

lemma server_inv_link:
  "server_inv sv \<Longrightarrow> server_inv (sv\<lparr>ifaces := (ifaces sv)[k := (ifaces sv ! k)\<lparr>if_link := lc\<rparr>]\<rparr>)"
proof -
  assume inv: "server_inv sv"
  have "if_demux ((ifaces sv)[k := (ifaces sv ! k)\<lparr>if_link := lc\<rparr>] ! j) = if_demux (ifaces sv ! j)" for j
    by (cases "j = k"; cases "k < length (ifaces sv)") (simp_all add: list_update_beyond)
  with inv show ?thesis by (simp add: server_inv_def)
qed

lemma server_inv_upd:
  assumes inv: "server_inv sv" and k: "k < length (ifaces sv)" and run: "demux_exec e (if_demux (ifaces sv ! k)) = Ok d"
  shows "server_inv (upd_demux k d lc sv)"
proof -
  have di: "demux_inv (if_demux (ifaces sv ! k))" using inv k by (simp add: server_inv_def)
  then have "demux_inv d" using demux_exec_inv [OF di, of e] run by simp
  with inv k demux_exec_frame [OF di run] show ?thesis
    by (auto simp: server_inv_def upd_demux_def nth_list_update)
qed

lemma server_inv_connect:
  assumes inv: "server_inv sv" and run: "getOrCreateDemux so lo name sv w = (r, sv', w')"
  shows "server_inv sv'"
proof (cases "srv_done sv \<or> live_demux name sv \<noteq> None")
  case True
  then have "sv' = sv" using run by (auto simp: getOrCreateDemux_def split: if_splits)
  with inv show ?thesis by simp
next
  case False
  let ?sv1 = "sv\<lparr>demuxers := del name (demuxers sv)\<rparr>"
  have "ctx_done (if_demux (ifaces sv ! k))" if "map_of (demuxers sv) name = Some k" for k
    using False that by (auto simp: live_demux_def split: if_splits)
  with inv have i1: "server_inv ?sv1" by (rule server_inv_del)
  then have i2: "server_inv (snd (add_demux name ?sv1))" by (rule server_inv_add) simp
  obtain q w1 where q: "so name w = (q, w1)" by fastforce
  obtain k sv2 where sv2: "add_demux name ?sv1 = (k, sv2)" by fastforce
  have i3: "server_inv sv2" "server_inv (sv2\<lparr>ifaces := (ifaces sv2)[k := (ifaces sv2 ! k)\<lparr>if_link := lc\<rparr>]\<rparr>)" for lc
    using i2 sv2 server_inv_link by simp_all
  from run False i1 i3(1) show ?thesis
    by (auto simp: getOrCreateDemux_def Let_def q sv2 i3(2) split: result.splits option.splits prod.splits)
qed

lemma server_inv_step: "server_step so lo p q \<Longrightarrow> server_inv (fst p) \<Longrightarrow> server_inv (fst q)"
proof (induction rule: server_step.induct)
  case (Connect name sv w r sv' w')
  then show ?case using server_inv_connect by simp
next
  case (Demux k sv e d w)
  then show ?case using server_inv_upd by simp
next
  case (Finish k sv e d L w lc w')
  let ?sv = "upd_demux k d lc sv"
  have inv: "server_inv ?sv" using Finish server_inv_upd by simp
  have "demux_inv d" "if_demux (ifaces ?sv ! k) = d" using inv Finish(1) by (auto simp: server_inv_def upd_demux_def)
  then have "ctx_done (if_demux (ifaces ?sv ! k))" using Finish(3) by (simp add: demux_inv_def)
  with server_inv_del [OF inv, of "ifaceName d"] inv show ?case by (auto simp: onClose_def)
next
  case (Shutdown sv w)
  then show ?case by (auto simp: server_inv_def cancel_server_def demux_inv_def)
qed

lemma server_inv_steps: "(server_step so lo)\<^sup>*\<^sup>* p q \<Longrightarrow> server_inv (fst p) \<Longrightarrow> server_inv (fst q)"
  by (induction rule: rtranclp_induct) (auto intro: server_inv_step)

text \<open>
  C24. There is one reader per interface: in every state that the server reaches, through connections, captured
  frames, failures of sockets and links, ended read loops and shutdown in any order, two demultiplexers that
  are not cancelled serve different interfaces, and each of them is the one that the next client of its
  interface is given.
\<close>

theorem one_reader_per_interface:
  assumes "(server_step so lo)\<^sup>*\<^sup>* (NewServer b, w0) (sv, w)"
    and "i < length (ifaces sv)" "j < length (ifaces sv)" "i \<noteq> j"
    and "\<not> ctx_done (if_demux (ifaces sv ! i))" "\<not> ctx_done (if_demux (ifaces sv ! j))"
  shows "ifaceName (if_demux (ifaces sv ! i)) \<noteq> ifaceName (if_demux (ifaces sv ! j)) \<and>
    live_demux (ifaceName (if_demux (ifaces sv ! i))) sv = Some i"
proof -
  have "server_inv (NewServer b)" by (simp add: server_inv_def NewServer_def)
  with server_inv_steps [OF assms(1)] have inv: "server_inv sv" by simp
  note i = server_invD(3) [OF inv assms(2,5)] and j = server_invD(3) [OF inv assms(3,6)]
  show ?thesis using i j assms(4,5) by (auto simp: live_demux_def)
qed

text \<open>A server with one interface whose socket fails, and a second client that comes afterwards.\<close>

definition open_all :: "string \<Rightarrow> (unit, unit) act" where
  "open_all name = aret ()"

definition ex_server :: server where
  "ex_server = (let (_, sv1) = add_demux ''eth1'' (NewServer False);
     d = the_Ok (demux_exec (ReadLoop (Inl EOF)) (if_demux (ifaces sv1 ! 0)));
     sv2 = onClose 0 ''eth1'' (upd_demux 0 d (new_link_ctl\<lparr>linkClosed := True\<rparr>) sv1);
     (_, sv3) = add_demux ''eth1'' sv2; (_, sv4) = add_demux ''eth2'' sv3 in sv4)"

lemma ex_server_reached: "(server_step open_all None)\<^sup>*\<^sup>* (NewServer False, ()) (ex_server, ())"
proof -
  let ?step = "server_step open_all None"
  define sv1 where "sv1 = snd (add_demux ''eth1'' (NewServer False))"
  define d where "d = the_Ok (demux_exec (ReadLoop (Inl EOF)) (if_demux (ifaces sv1 ! 0)))"
  define sv2 where "sv2 = onClose 0 ''eth1'' (upd_demux 0 d (new_link_ctl\<lparr>linkClosed := True\<rparr>) sv1)"
  define sv3 where "sv3 = snd (add_demux ''eth1'' sv2)"
  have add: "getOrCreateDemux open_all None name sv () = (Ok (fst (add_demux name sv)), snd (add_demux name sv), ())"
    if "\<not> srv_done sv" "map_of (demuxers sv) name = None" for name sv
  proof -
    have "live_demux name sv = None" by (simp add: live_demux_def that(2))
    moreover have "del name (demuxers sv) = demuxers sv" using that(2) by (simp add: delete_id map_of_eq_None_iff)
    ultimately show ?thesis by (simp add: getOrCreateDemux_def that(1) open_all_def case_prod_unfold Let_def)
  qed
  have step: "?step (sv, ()) (snd (add_demux name sv), ())" if "\<not> srv_done sv" "map_of (demuxers sv) name = None" for name sv
    using server_step.Connect [of open_all None, OF add [OF that]] .
  have d: "demux_exec (ReadLoop (Inl EOF)) (if_demux (ifaces sv1 ! 0)) = Ok d" "closed d" "\<not> closed (if_demux (ifaces sv1 ! 0))"
    "if_link (ifaces sv1 ! 0) = new_link_ctl" "ifaceName d = ''eth1''"
    unfolding d_def sv1_def by code_simp+
  have "?step (sv1, ()) (onClose 0 (ifaceName d) (upd_demux 0 d (new_link_ctl\<lparr>linkClosed := True\<rparr>) sv1), ())"
  proof (rule server_step.Finish [OF _ d(1-3)])
    show "0 < length (ifaces sv1)" unfolding sv1_def by code_simp
    show "closeLink \<lparr>lk_SetAdminUp = (\<lambda>_. aret ()), lk_Current = aerr EOF, lk_Close = aret ()\<rparr> (if_link (ifaces sv1 ! 0)) () =
        (Ok (new_link_ctl\<lparr>linkClosed := True\<rparr>), ())"
      unfolding d(4) by (simp add: closeLink_def new_link_ctl_def)
  qed
  then have s2: "?step (sv1, ()) (sv2, ())" by (simp add: sv2_def d(5))
  have s1: "?step (NewServer False, ()) (sv1, ())" unfolding sv1_def by (rule step) code_simp+
  have s3: "?step (sv2, ()) (sv3, ())" unfolding sv3_def by (rule step; unfold sv2_def d_def sv1_def; code_simp)
  have s4: "?step (sv3, ()) (snd (add_demux ''eth2'' sv3), ())"
    by (rule step; unfold sv3_def sv2_def d_def sv1_def; code_simp)
  have "ex_server = snd (add_demux ''eth2'' sv3)"
    by (simp add: ex_server_def sv3_def sv2_def d_def sv1_def Let_def case_prod_unfold)
  with s1 s2 s3 s4 show ?thesis by (metis (no_types) rtranclp.rtrancl_into_rtrancl rtranclp.rtrancl_refl)
qed

theorem one_reader_per_interface_witness:
  "ifaceName (if_demux (ifaces ex_server ! 1)) \<noteq> ifaceName (if_demux (ifaces ex_server ! 2)) \<and>
   live_demux ''eth1'' ex_server = Some 1 \<and> length (ifaces ex_server) = 3"
proof -
  have c: "1 < length (ifaces ex_server)" "2 < length (ifaces ex_server)" "\<not> ctx_done (if_demux (ifaces ex_server ! 1))"
    "\<not> ctx_done (if_demux (ifaces ex_server ! 2))" "ifaceName (if_demux (ifaces ex_server ! 1)) = ''eth1''"
    "length (ifaces ex_server) = 3"
    by code_simp+
  from one_reader_per_interface [OF ex_server_reached c(1,2) _ c(3,4)] c(5,6) show ?thesis by simp
qed

section \<open>Transmit\<close>

record packet =
  pk_Data :: frame
  pk_LinkState :: LinkState

text \<open>The interface that the stream's metadata asks for.\<close>

definition transmit_interface :: "(string, string list) gomap option \<Rightarrow> string result" where
  "transmit_interface md =
     (case md of
        None \<Rightarrow> Error (Errorf ''no metadata found on incoming stream'' [])
      | Some m \<Rightarrow>
          (case map_of m ''interface'' of
             Some (v # _) \<Rightarrow> Ok v
           | _ \<Rightarrow>
               (case map_of m ''x-kne-interface'' of
                  Some (v # _) \<Rightarrow> Ok v
                | _ \<Rightarrow> Error (Errorf ''missing 'interface' header in gRPC stream metadata'' []))))"

text \<open>One message of the sending loop: the end of the context, a link state, a frame or the end of the channel.\<close>

datatype egress_choice = CtxDone err | FromLinkChan LinkState | FromPktChan "frame option"

definition egress_packet :: "egress_choice \<Rightarrow> err + packet" where
  "egress_packet c =
     (case c of
        CtxDone e \<Rightarrow> Inl e
      | FromLinkChan ls \<Rightarrow> Inr \<lparr>pk_Data = [], pk_LinkState = ls\<rparr>
      | FromPktChan None \<Rightarrow> Inl EOF
      | FromPktChan (Some pkt) \<Rightarrow> Inr \<lparr>pk_Data = pkt, pk_LinkState = LINK_STATE_UNKNOWN\<rparr>)"

text \<open>The receiving loop, message by message: \<open>Some e\<close> ends the stream with the error \<open>e\<close>.\<close>

definition ingress_data ::
  "string \<Rightarrow> (frame \<Rightarrow> ('w, unit) act) \<Rightarrow> frame \<Rightarrow> demux \<Rightarrow> 'w \<Rightarrow> err option result \<times> demux \<times> 'w" where
  "ingress_data name WP pkt d w =
     (case demux_write WP pkt d w of
        (Ok _, d1, w1) \<Rightarrow> (Ok None, d1, w1)
      | (Error e, d1, w1) \<Rightarrow>
          if isFatalWriteError e then (Ok (Some (Errorw ''fatal error writing packet to %s: %w'' [name] e)), d1, w1)
          else (Ok None, d1\<lparr>droppedWriteFrames := droppedWriteFrames d1 + 1\<rparr>, w1)
      | (Panic p, d1, w1) \<Rightarrow> (Panic p, d1, w1))"

definition ingress_packet ::
  "string \<Rightarrow> 'w link_ops \<Rightarrow> link_ctl \<Rightarrow> (frame \<Rightarrow> ('w, unit) act) \<Rightarrow> packet \<Rightarrow> demux \<Rightarrow> 'w \<Rightarrow> err option result \<times> demux \<times> 'w" where
  "ingress_packet name L lc WP req d w =
     (case (if pk_LinkState req \<noteq> LINK_STATE_UNKNOWN then setLinkState L lc (pk_LinkState req) w else (Ok (), w)) of
        (Ok _, w1) \<Rightarrow> (if pk_Data req \<noteq> [] then ingress_data name WP (pk_Data req) d w1 else (Ok None, d, w1))
      | (Error e, w1) \<Rightarrow> (Error e, d, w1)
      | (Panic p, w1) \<Rightarrow> (Panic p, d, w1))"

text \<open>Over what the stream gives: messages and finally an error. The value is what goes to the error channel.\<close>

fun ingress_loop ::
  "string \<Rightarrow> 'w link_ops \<Rightarrow> link_ctl \<Rightarrow> (frame \<Rightarrow> ('w, unit) act) \<Rightarrow> (err + packet) list \<Rightarrow> demux \<Rightarrow> 'w \<Rightarrow>
   err option result \<times> demux \<times> 'w" where
  "ingress_loop name L lc WP [] d w = (Ok None, d, w)"
| "ingress_loop name L lc WP (Inl e # rs) d w = (Ok (Some e), d, w)"
| "ingress_loop name L lc WP (Inr req # rs) d w =
     (case ingress_packet name L lc WP req d w of
        (Ok None, d1, w1) \<Rightarrow> ingress_loop name L lc WP rs d1 w1
      | (Ok (Some e), d1, w1) \<Rightarrow> (Ok (Some e), d1, w1)
      | (Error e, d1, w1) \<Rightarrow> (Error e, d1, w1)
      | (Panic p, d1, w1) \<Rightarrow> (Panic p, d1, w1))"

definition transmit_result :: "err option \<Rightarrow> err \<Rightarrow> unit result" where
  "transmit_result ctx_err e = (if e = EOF \<or> ctx_err \<noteq> None then Ok () else Error e)"

text \<open>
  The write counter is not what it says: a frame that is too large for the interface counts twice, once
  where it is refused and once where the refusal is handled, and it never reaches the interface.
\<close>

lemma oversize_counted_twice:
  assumes "\<not> ctx_done d" and "int (length pkt) > maxFrameSize"
  shows "ingress_data name WP pkt d w = (Ok None, d\<lparr>droppedWriteFrames := droppedWriteFrames d + 2\<rparr>, w)"
proof -
  have "pkt \<noteq> []" using assms(2) by (auto simp: maxFrameSize_def)
  then show ?thesis using assms by (simp add: ingress_data_def demux_write_def isFatalWriteError_def add.assoc)
qed

definition harmless_writes :: "(frame \<Rightarrow> ('w, unit) act) \<Rightarrow> bool" where
  "harmless_writes WP \<longleftrightarrow>
     (\<forall>pkt w r w'. WP pkt w = (r, w') \<longrightarrow> (case r of Ok _ \<Rightarrow> True | Error e \<Rightarrow> \<not> isFatalWriteError e | Panic _ \<Rightarrow> False))"

definition link_never_panics :: "'w link_ops \<Rightarrow> bool" where
  "link_never_panics L \<longleftrightarrow> (\<forall>up w p w'. lk_SetAdminUp L up w \<noteq> (Panic p, w'))"

lemma setLinkState_returns: "link_never_panics L \<Longrightarrow> \<exists>w'. setLinkState L lc s w = (Ok (), w')"
proof (cases "lc_link lc")
  case True
  assume np: "link_never_panics L"
  obtain r w' where r: "lk_SetAdminUp L (s = LINK_STATE_UP) w = (r, w')" by fastforce
  then have "\<nexists>p. r = Panic p" using np by (auto simp: link_never_panics_def)
  then show ?thesis by (cases r) (simp_all add: setLinkState_def True atry_def abind_def r)
qed (simp add: setLinkState_def)

lemma ingress_data_survives:
  assumes "harmless_writes WP" "\<not> ctx_done d"
  shows "\<exists>n w'. ingress_data name WP pkt d w = (Ok None, d\<lparr>droppedWriteFrames := n\<rparr>, w')"
proof -
  obtain r w' where r: "WP pkt w = (r, w')" by fastforce
  then have "case r of Ok _ \<Rightarrow> True | Error e \<Rightarrow> \<not> isFatalWriteError e | Panic _ \<Rightarrow> False"
    using assms(1) by (auto simp: harmless_writes_def)
  moreover have "\<exists>n. d = d\<lparr>droppedWriteFrames := n\<rparr>" by (rule exI [of _ "droppedWriteFrames d"]) simp
  ultimately show ?thesis using assms(2)
    by (cases r) (auto simp: ingress_data_def demux_write_def r isFatalWriteError_def [of "Errorf _ _"])
qed

text \<open>
  Writes that fail do not stop a bridge: for any messages whose writes fail with errors that are not
  fatal, the receiving loop handles all of them and ends with the error of the stream, so that an interface
  that is down loses frames and nothing else.
\<close>

theorem ingress_survives:
  assumes wp: "harmless_writes WP" and lnk: "link_never_panics L" and live: "\<not> ctx_done d"
  shows "\<exists>n w'. ingress_loop name L lc WP (map Inr reqs @ [Inl e]) d w = (Ok (Some e), d\<lparr>droppedWriteFrames := n\<rparr>, w')"
  using live
proof (induction reqs arbitrary: d w)
  case Nil
  show ?case by (auto intro: exI [of _ "droppedWriteFrames d"])
next
  case (Cons req reqs)
  obtain w1 where w1: "(if pk_LinkState req \<noteq> LINK_STATE_UNKNOWN then setLinkState L lc (pk_LinkState req) w else (Ok (), w)) = (Ok (), w1)"
    using setLinkState_returns [OF lnk] by fastforce
  obtain n w2 where p: "ingress_packet name L lc WP req d w = (Ok None, d\<lparr>droppedWriteFrames := n\<rparr>, w2)"
  proof (cases "pk_Data req = []")
    case True
    then show thesis using that [of "droppedWriteFrames d" w1] by (simp add: ingress_packet_def w1)
  next
    case False
    then show thesis using that ingress_data_survives [OF wp Cons.prems] by (fastforce simp: ingress_packet_def w1)
  qed
  from Cons.IH [of "d\<lparr>droppedWriteFrames := n\<rparr>" w2] Cons.prems show ?case by (simp add: p)
qed

definition down_writes :: "frame \<Rightarrow> (nat, unit) act" where
  "down_writes pkt n = (Error ENETDOWN, Suc n)"

definition no_link :: "nat link_ops" where
  "no_link = \<lparr>lk_SetAdminUp = (\<lambda>_. aerr EOF), lk_Current = aerr EOF, lk_Close = aret ()\<rparr>"

theorem ingress_survives_witness:
  "\<exists>n w'. ingress_loop ''eth1'' no_link new_link_ctl down_writes
      (map Inr [\<lparr>pk_Data = ''ab'', pk_LinkState = LINK_STATE_DOWN\<rparr>, \<lparr>pk_Data = ''cd'', pk_LinkState = LINK_STATE_UNKNOWN\<rparr>] @ [Inl EOF])
      ex_demux 0 = (Ok (Some EOF), ex_demux\<lparr>droppedWriteFrames := n\<rparr>, w')"
proof (rule ingress_survives)
  show "harmless_writes down_writes"
    by (simp add: harmless_writes_def down_writes_def isFatalWriteError_def ENETDOWN_def EBADF_def ENODEV_def ESHUTDOWN_def EINVAL_def)
  show "link_never_panics no_link" by (simp add: link_never_panics_def no_link_def)
  show "\<not> ctx_done ex_demux" by code_simp
qed

section \<open>The client\<close>

record client_config =
  PeerAddress :: string
  LocalInterface :: string
  RemoteInterface :: string
  RetryInterval :: int
  UseALTS :: bool

definition NewClient :: "client_config \<Rightarrow> client_config result" where
  "NewClient cfg =
     (if PeerAddress cfg = [] then Error (Errorf ''peer address cannot be empty'' [])
      else (let cfg1 = (if LocalInterface cfg = [] then cfg\<lparr>LocalInterface := ''eth1''\<rparr> else cfg);
                cfg2 = (if RemoteInterface cfg1 = [] then cfg1\<lparr>RemoteInterface := LocalInterface cfg1\<rparr> else cfg1);
                cfg3 = (if RetryInterval cfg2 \<le> 0 then cfg2\<lparr>RetryInterval := 2000000000\<rparr> else cfg2) in
            Ok cfg3))"

text \<open>The client's receiving loop writes to the socket itself and drops what is too large.\<close>

definition applyLinkState_client :: "'w link_ops option \<Rightarrow> LinkState \<Rightarrow> ('w, unit) act" where
  "applyLinkState_client lnk s =
     (case lnk of
        None \<Rightarrow> aret ()
      | Some L \<Rightarrow> abind (atry (lk_SetAdminUp L (s = LINK_STATE_UP))) (\<lambda>_. aret ()))"

definition client_ingress :: "client_config \<Rightarrow> 'w link_ops option \<Rightarrow> (frame \<Rightarrow> ('w, unit) act) \<Rightarrow> packet \<Rightarrow> ('w, err option) act" where
  "client_ingress cfg lnk WP resp =
     abind (if pk_LinkState resp \<noteq> LINK_STATE_UNKNOWN then applyLinkState_client lnk (pk_LinkState resp) else aret ()) (\<lambda>_.
       if pk_Data resp = [] then aret None
       else if int (length (pk_Data resp)) > maxFrameSize then aret None
       else abind (atry (WP (pk_Data resp))) (\<lambda>r.
         aret (case r of
                 Error e \<Rightarrow> if isFatalWriteError e then Some (Errorw ''write to %s error: %w'' [LocalInterface cfg] e) else None
               | _ \<Rightarrow> None)))"

text \<open>
  One pass of the sending loop for what the socket and the context say: \<open>Inr\<close> a message to send, \<open>Inl\<close> the
  end, with an error for the error channel unless the stream is cancelled.
\<close>

definition client_egress :: "client_config \<Rightarrow> bool \<Rightarrow> err + frame \<Rightarrow> (err option + packet) option" where
  "client_egress cfg stream_done r =
     (case r of
        Inl e \<Rightarrow>
          if stream_done then Some (Inl None)
          else if errors_Is e ENETDOWN then None
          else Some (Inl (Some (Errorw ''read from %s error: %w'' [LocalInterface cfg] e)))
      | Inr pkt \<Rightarrow>
          if stream_done then Some (Inl None) else Some (Inr \<lparr>pk_Data = pkt, pk_LinkState = LINK_STATE_UNKNOWN\<rparr>))"

text \<open>\<open>Run\<close>: connect, run the stream, wait, and again. The environment says when the context has ended.\<close>

record 'w run_env =
  re_CtxErr :: "('w, err option) act"
  re_Dial :: "('w, unit) act"
  re_RunStream :: "('w, unit) act"
  re_Wait :: "int \<Rightarrow> ('w, err option) act"

fun Run :: "nat \<Rightarrow> 'w run_env \<Rightarrow> client_config \<Rightarrow> 'w \<Rightarrow> (unit result \<times> 'w) option" where
  "Run 0 E cfg w = None"
| "Run (Suc fuel) E cfg w =
     (case re_CtxErr E w of
        (Panic p, w1) \<Rightarrow> Some (Panic p, w1)
      | (Error e, w1) \<Rightarrow> Some (Error e, w1)
      | (Ok (Some e), w1) \<Rightarrow> Some (Error e, w1)
      | (Ok None, w1) \<Rightarrow>
          (case re_Dial E w1 of
             (Panic p, w2) \<Rightarrow> Some (Panic p, w2)
           | (Error _, w2) \<Rightarrow>
               (case re_Wait E (RetryInterval cfg) w2 of
                  (Ok None, w3) \<Rightarrow> Run fuel E cfg w3
                | (Ok (Some e), w3) \<Rightarrow> Some (Error e, w3)
                | (Error e, w3) \<Rightarrow> Some (Error e, w3)
                | (Panic p, w3) \<Rightarrow> Some (Panic p, w3))
           | (Ok _, w2) \<Rightarrow>
               (case re_RunStream E w2 of
                  (Panic p, w3) \<Rightarrow> Some (Panic p, w3)
                | (_, w3) \<Rightarrow>
                    (case re_CtxErr E w3 of
                       (Panic p, w4) \<Rightarrow> Some (Panic p, w4)
                     | (Error e, w4) \<Rightarrow> Some (Error e, w4)
                     | (Ok (Some e), w4) \<Rightarrow> Some (Error e, w4)
                     | (Ok None, w4) \<Rightarrow>
                         (case re_Wait E (RetryInterval cfg) w4 of
                            (Ok None, w5) \<Rightarrow> Run fuel E cfg w5
                          | (Ok (Some e), w5) \<Rightarrow> Some (Error e, w5)
                          | (Error e, w5) \<Rightarrow> Some (Error e, w5)
                          | (Panic p, w5) \<Rightarrow> Some (Panic p, w5))))))"

text \<open>
  The client gives up only with its context: whatever the dials and the streams return, \<open>Run\<close> returns
  nothing but an error that the context reported, never a success.
\<close>

theorem Run_until_cancelled:
  assumes "\<And>w. \<exists>x w'. re_CtxErr E w = (Ok x, w')" and "\<And>t w. \<exists>x w'. re_Wait E t w = (Ok x, w')"
    and "\<And>w p w'. re_Dial E w \<noteq> (Panic p, w')" and "\<And>w p w'. re_RunStream E w \<noteq> (Panic p, w')"
    and "Run fuel E cfg w = Some (r, w')"
  shows "\<exists>e v. r = Error e \<and> (re_CtxErr E v = (Ok (Some e), w') \<or> re_Wait E (RetryInterval cfg) v = (Ok (Some e), w'))"
  using assms(5)
proof (induction fuel arbitrary: w)
  case (Suc fuel)
  obtain x w1 where x: "re_CtxErr E w = (Ok x, w1)" using assms(1) by blast
  show ?case
  proof (cases x)
    case (Some e)
    with Suc.prems x show ?thesis by auto
  next
    case None
    obtain q w2 where q: "re_Dial E w1 = (q, w2)" by fastforce
    obtain y w3 where y: "re_Wait E (RetryInterval cfg) w2 = (Ok y, w3)" using assms(2) by blast
    obtain s v3 where s: "re_RunStream E w2 = (s, v3)" by fastforce
    obtain z w4 where z: "re_CtxErr E v3 = (Ok z, w4)" using assms(1) by blast
    obtain u w5 where u: "re_Wait E (RetryInterval cfg) w4 = (Ok u, w5)" using assms(2) by blast
    show ?thesis
    proof (cases q)
      case (Error e)
      then show ?thesis using Suc.prems Suc.IH x None q y by (cases y) auto
    next
      case (Ok t)
      have np: "\<nexists>p. s = Panic p" using assms(4) s by blast
      then show ?thesis using Suc.prems Suc.IH x None q Ok s z u
        by (cases s; cases z; cases u) auto
    qed (use q assms(3) in blast)
  qed
qed simp

definition ex_env :: "nat run_env" where
  "ex_env = \<lparr>re_CtxErr = (\<lambda>n. (Ok (if n \<ge> 3 then Some ContextCanceled else None), n)), re_Dial = (\<lambda>n. (Ok (), n)),
     re_RunStream = (\<lambda>n. (Error EOF, Suc n)), re_Wait = (\<lambda>t n. (Ok None, n))\<rparr>"

definition ex_client :: client_config where
  "ex_client = the_Ok (NewClient \<lparr>PeerAddress = ''peer:50058'', LocalInterface = [], RemoteInterface = [], RetryInterval = 0, UseALTS = False\<rparr>)"

theorem Run_until_cancelled_witness:
  "Run 5 ex_env ex_client 0 = Some (Error ContextCanceled, 3) \<and>
   (\<exists>e v. Error ContextCanceled = (Error e :: unit result) \<and>
      (re_CtxErr ex_env v = (Ok (Some e), 3) \<or> re_Wait ex_env (RetryInterval ex_client) v = (Ok (Some e), 3)))"
proof -
  have r: "Run 5 ex_env ex_client 0 = Some (Error ContextCanceled, 3)" by code_simp
  show ?thesis
    by (rule conjI [OF r], rule Run_until_cancelled [OF _ _ _ _ r]) (simp_all add: ex_env_def)
qed

end
