(* ===== verification/Topo_Specs.thy ===== *)
theory Topo_Specs
  imports Topo_Wiring
begin

text \<open>
  \<open>Manager.topologySpecs\<close> and \<open>setLinkPeer\<close> of \<open>topo/topo.go\<close>: the meshnet resources of all nodes, with
  every link's peer node replaced by the pod and the interface that carry the other end. The two ends
  are matched by UID.

  A node type provides its resources through \<open>TopologySpecs\<close>; the locale \<open>spec_provider\<close> states what the
  manager relies on, and the properties of the resolved links are proved in it.
\<close>

section \<open>Finding the peer of a link\<close>

definition same_link :: "string \<Rightarrow> mlink \<Rightarrow> mlink \<Rightarrow> bool" where
  "same_link nodeName link peerLink \<longleftrightarrow>
     ml_UID peerLink = ml_UID link \<and>
     \<not> (nodeName = ml_PeerPod link \<and> ml_LocalIntf peerLink = ml_LocalIntf link)"

fun setLinkPeer :: "string \<Rightarrow> string \<Rightarrow> mlink \<Rightarrow> mtopo list \<Rightarrow> mlink result" where
  "setLinkPeer nodeName podName link [] =
     Error (Errorf ''could not find peer for node %s pod %s link UID %d''
              [nodeName, podName, itoa (ml_UID link)])"
| "setLinkPeer nodeName podName link (peerSpec # peerSpecs) =
     (case find (same_link nodeName link) (mt_Links peerSpec) of
        Some peerLink \<Rightarrow>
          Ok (link\<lparr>ml_PeerPod := mt_Name peerSpec, ml_PeerIntf := ml_LocalIntf peerLink\<rparr>)
      | None \<Rightarrow> setLinkPeer nodeName podName link peerSpecs)"

section \<open>The resources of all nodes\<close>

text \<open>First loop: the resources of every node, by node name.\<close>

definition add_specs ::
  "(node \<Rightarrow> mtopo list result) \<Rightarrow> (string, mtopo list) gomap \<Rightarrow> node \<Rightarrow> (string, mtopo list) gomap result" where
  "add_specs specs_of nodeSpecs n =
     (case specs_of n of
        Ok specs \<Rightarrow> Ok (put (n_Name n) specs nodeSpecs)
      | Error e \<Rightarrow> Error (Errorv ''could not fetch topology specs for node %s: %v'' [n_Name n] e)
      | Panic p \<Rightarrow> Panic p)"

text \<open>
  Second loop: every link of every resource gets its peer. The lookups read only names, UIDs and local
  interfaces, which the loop never changes, so the links can be resolved against the maps as they were.
\<close>

definition resolve_link :: "(string, mtopo list) gomap \<Rightarrow> string \<Rightarrow> string \<Rightarrow> mlink \<Rightarrow> mlink result" where
  "resolve_link nodeSpecs nodeName podName link =
     (case map_of nodeSpecs (ml_PeerPod link) of
        None \<Rightarrow> Error (Errorf ''specs do not exist for node %s'' [ml_PeerPod link])
      | Some peerSpecs \<Rightarrow> setLinkPeer nodeName podName link peerSpecs)"

definition resolve_spec :: "(string, mtopo list) gomap \<Rightarrow> string \<Rightarrow> mtopo \<Rightarrow> mtopo result" where
  "resolve_spec nodeSpecs nodeName spec =
     rbind (mapM (resolve_link nodeSpecs nodeName (mt_Name spec)) (mt_Links spec))
       (\<lambda>links. Ok (spec\<lparr>mt_Links := links\<rparr>))"

definition resolve_specs ::
  "((string, mtopo list) gomap \<Rightarrow> (string, mtopo list) gomap) \<Rightarrow> (string, mtopo list) gomap \<Rightarrow> mtopo list result" where
  "resolve_specs ord nodeSpecs =
     rbind (mapM (\<lambda>(nodeName, specs). mapM (resolve_spec nodeSpecs nodeName) specs) (ord nodeSpecs))
       (\<lambda>toposs. Ok (concat toposs))"

text \<open>The node objects of the manager, in the order in which the first loop ranges over them.\<close>

definition manager_nodes :: "manager \<Rightarrow> node list" where
  "manager_nodes m = map (\<lambda>(k, i). t_Nodes (m_topo m) ! i) (m_nodes m)"

text \<open>\<open>ord\<close> is the order of the second range; the first ranges over \<open>m.nodes\<close> in the order of its list.\<close>

definition topologySpecs ::
  "(node \<Rightarrow> mtopo list result) \<Rightarrow> ((string, mtopo list) gomap \<Rightarrow> (string, mtopo list) gomap) \<Rightarrow>
   manager \<Rightarrow> mtopo list result" where
  "topologySpecs specs_of ord m =
     rbind (foldM (add_specs specs_of) [] (manager_nodes m)) (resolve_specs ord)"

section \<open>Link ends\<close>

text \<open>All link ends of a collection of resources: node name, pod name and link.\<close>

definition ends_of :: "mtopo list \<Rightarrow> (string \<times> mlink) list" where
  "ends_of specs = concat (map (\<lambda>s. map (\<lambda>l. (mt_Name s, l)) (mt_Links s)) specs)"

definition link_insts :: "(string, mtopo list) gomap \<Rightarrow> (string \<times> string \<times> mlink) set" where
  "link_insts nodeSpecs = {(n, p, l). \<exists>specs. map_of nodeSpecs n = Some specs \<and> (p, l) \<in> set (ends_of specs)}"

text \<open>\<open>(p, l)\<close> at node \<open>n\<close> and \<open>(p', l')\<close> at node \<open>ml_PeerPod l\<close> are the two ends of one link.\<close>

definition has_partner :: "(string, mtopo list) gomap \<Rightarrow> string \<Rightarrow> mlink \<Rightarrow> string \<times> mlink \<Rightarrow> bool" where
  "has_partner nodeSpecs n l pl' \<longleftrightarrow>
     (\<exists>specs. map_of nodeSpecs (ml_PeerPod l) = Some specs \<and> pl' \<in> set (ends_of specs) \<and>
        same_link n l (snd pl') \<and>
        (\<forall>q \<in> set (ends_of specs). same_link n l (snd q) \<longrightarrow> q = pl'))"

lemma has_partnerI:
  assumes "map_of nodeSpecs (ml_PeerPod l) = Some specs"
    and "\<And>q. q \<in> set (ends_of specs) \<and> same_link n l (snd q) \<longleftrightarrow> q = pl'"
  shows "has_partner nodeSpecs n l pl'"
  unfolding has_partner_def using assms by blast

lemma has_partner_same: "has_partner nodeSpecs n l pl' \<Longrightarrow> same_link n l (snd pl')"
  unfolding has_partner_def by blast

lemma has_partner_unique:
  assumes "has_partner nodeSpecs n l pl'" and "(ml_PeerPod l, p, x) \<in> link_insts nodeSpecs" and "same_link n l x"
  shows "pl' = (p, x)"
proof -
  from assms(2) obtain specs where s: "map_of nodeSpecs (ml_PeerPod l) = Some specs" "(p, x) \<in> set (ends_of specs)"
    by (auto simp: link_insts_def)
  with assms(1) have "same_link n l (snd (p, x)) \<longrightarrow> (p, x) = pl'" unfolding has_partner_def by force
  with assms(3) show ?thesis by simp
qed

lemma ends_ofI: "t \<in> set ts \<Longrightarrow> l \<in> set (mt_Links t) \<Longrightarrow> (mt_Name t, l) \<in> set (ends_of ts)"
  by (auto simp: ends_of_def)

lemma ends_of_Cons: "set (ends_of (s # specs)) = Pair (mt_Name s) ` set (mt_Links s) \<union> set (ends_of specs)"
  by (simp add: ends_of_def)

lemma setLinkPeer_unique:
  assumes "pl' \<in> set (ends_of specs)" and "same_link n l (snd pl')"
    and "\<And>q. q \<in> set (ends_of specs) \<Longrightarrow> same_link n l (snd q) \<Longrightarrow> q = pl'"
  shows "setLinkPeer n p l specs = Ok (l\<lparr>ml_PeerPod := fst pl', ml_PeerIntf := ml_LocalIntf (snd pl')\<rparr>)"
  using assms
proof (induction specs)
  case Nil
  then show ?case by (simp add: ends_of_def)
next
  case (Cons s specs)
  show ?case
  proof (cases "find (same_link n l) (mt_Links s)")
    case None
    then have none: "\<forall>x \<in> set (mt_Links s). \<not> same_link n l x" by (simp add: find_None_iff)
    have "pl' \<in> set (ends_of specs)" using Cons.prems(1,2) none by (auto simp: ends_of_Cons)
    then have "setLinkPeer n p l specs = Ok (l\<lparr>ml_PeerPod := fst pl', ml_PeerIntf := ml_LocalIntf (snd pl')\<rparr>)"
      by (rule Cons.IH [OF _ Cons.prems(2)]) (rule Cons.prems(3), simp add: ends_of_Cons)
    with None show ?thesis by simp
  next
    case (Some x)
    then have "x \<in> set (mt_Links s)" "same_link n l x" by (auto simp: find_Some_iff)
    then have "(mt_Name s, x) = pl'" by (intro Cons.prems(3)) (simp_all add: ends_of_Cons)
    with Some show ?thesis by auto
  qed
qed

lemma resolve_link_partner:
  assumes "has_partner nodeSpecs n l pl'"
  shows "resolve_link nodeSpecs n p l = Ok (l\<lparr>ml_PeerPod := fst pl', ml_PeerIntf := ml_LocalIntf (snd pl')\<rparr>)"
proof -
  from assms obtain specs where "map_of nodeSpecs (ml_PeerPod l) = Some specs"
    and "setLinkPeer n p l specs = Ok (l\<lparr>ml_PeerPod := fst pl', ml_PeerIntf := ml_LocalIntf (snd pl')\<rparr>)"
    unfolding has_partner_def using setLinkPeer_unique by blast
  then show ?thesis by (simp add: resolve_link_def)
qed

text \<open>
  If every end has exactly one partner the loop succeeds, and the resolved ends are the original ones
  with the partner's pod and interface filled in.
\<close>

definition all_paired :: "(string, mtopo list) gomap \<Rightarrow> bool" where
  "all_paired nodeSpecs \<longleftrightarrow> (\<forall>(n, p, l) \<in> link_insts nodeSpecs. \<exists>pl'. has_partner nodeSpecs n l pl')"

lemma resolve_specs_paired:
  assumes ord: "range_order ord" and wf: "wf_map nodeSpecs" and ap: "all_paired nodeSpecs"
  shows "resolve_specs ord nodeSpecs = Ok (concat (map (\<lambda>(n, specs).
           map (\<lambda>s. s\<lparr>mt_Links := map (\<lambda>l. the_Ok (resolve_link nodeSpecs n (mt_Name s) l)) (mt_Links s)\<rparr>)
             specs) (ord nodeSpecs)))"
proof -
  have spec: "resolve_spec nodeSpecs n s =
      Ok (s\<lparr>mt_Links := map (\<lambda>l. the_Ok (resolve_link nodeSpecs n (mt_Name s) l)) (mt_Links s)\<rparr>)"
    if n: "(n, specs) \<in> set nodeSpecs" and s: "s \<in> set specs" for n specs s
  proof -
    have "is_Ok (resolve_link nodeSpecs n (mt_Name s) l)" if l: "l \<in> set (mt_Links s)" for l
    proof -
      have "map_of nodeSpecs n = Some specs" using n by (simp add: map_of_eq_iff_mem [OF wf])
      then have "(n, mt_Name s, l) \<in> link_insts nodeSpecs" using s l by (auto simp: link_insts_def ends_of_def)
      then obtain pl' where "has_partner nodeSpecs n l pl'" using ap by (auto simp: all_paired_def)
      from resolve_link_partner [OF this] show ?thesis by simp
    qed
    then show ?thesis by (simp add: resolve_spec_def mapM_is_Ok)
  qed
  have "mapM (\<lambda>(nodeName, specs). mapM (resolve_spec nodeSpecs nodeName) specs) (ord nodeSpecs) =
      Ok (map (\<lambda>(n, specs). map (\<lambda>s. s\<lparr>mt_Links := map (\<lambda>l. the_Ok (resolve_link nodeSpecs n (mt_Name s) l))
        (mt_Links s)\<rparr>) specs) (ord nodeSpecs))"
    by (rule mapM_pure) (auto simp: range_order_set [OF ord] spec intro!: mapM_pure)
  then show ?thesis by (simp add: resolve_specs_def)
qed

lemma resolved_ends:
  assumes ord: "range_order ord" and wf: "wf_map nodeSpecs" and ap: "all_paired nodeSpecs"
    and ok: "resolve_specs ord nodeSpecs = Ok topos"
    and i: "(n, p, l) \<in> link_insts nodeSpecs" and pl': "has_partner nodeSpecs n l pl'"
  shows "(p, l\<lparr>ml_PeerPod := fst pl', ml_PeerIntf := ml_LocalIntf (snd pl')\<rparr>) \<in> set (ends_of topos)"
proof -
  from i obtain specs s where s: "map_of nodeSpecs n = Some specs" "s \<in> set specs" "l \<in> set (mt_Links s)"
    "p = mt_Name s" by (auto simp: link_insts_def ends_of_def)
  have "(n, specs) \<in> set (ord nodeSpecs)" using s(1) by (simp add: map_of_eq_iff_mem [OF wf] range_order_set [OF ord])
  then have "s\<lparr>mt_Links := map (\<lambda>l. the_Ok (resolve_link nodeSpecs n (mt_Name s) l)) (mt_Links s)\<rparr> \<in> set topos"
    using ok s(2) by (force simp: resolve_specs_paired [OF ord wf ap])
  then have "(p, the_Ok (resolve_link nodeSpecs n p l)) \<in> set (ends_of topos)"
    using ends_ofI [of _ topos "the_Ok (resolve_link nodeSpecs n p l)"] s(3,4) by fastforce
  then show ?thesis by (simp add: resolve_link_partner [OF pl'])
qed

lemma resolved_from:
  assumes ord: "range_order ord" and wf: "wf_map nodeSpecs" and ap: "all_paired nodeSpecs"
    and ok: "resolve_specs ord nodeSpecs = Ok topos" and x: "(p, x) \<in> set (ends_of topos)"
  shows "\<exists>n x0. (n, p, x0) \<in> link_insts nodeSpecs \<and> resolve_link nodeSpecs n p x0 = Ok x"
proof -
  from x ok obtain n specs s x0 where s: "(n, specs) \<in> set nodeSpecs" "s \<in> set specs" "x0 \<in> set (mt_Links s)"
    "p = mt_Name s" "x = the_Ok (resolve_link nodeSpecs n p x0)"
    by (auto simp: resolve_specs_paired [OF ord wf ap] ends_of_def range_order_set [OF ord])
  have i: "(n, p, x0) \<in> link_insts nodeSpecs"
    using s by (auto simp: link_insts_def map_of_eq_iff_mem [OF wf] intro!: ends_ofI)
  then obtain pl' where "has_partner nodeSpecs n x0 pl'" using ap by (auto simp: all_paired_def)
  with i s(5) show ?thesis using resolve_link_partner by fastforce
qed

section \<open>The first loop\<close>

lemma add_specs_Ok_iff:
  "add_specs specs_of acc n = Ok acc' \<longleftrightarrow> (\<exists>ts. specs_of n = Ok ts \<and> acc' = put (n_Name n) ts acc)"
  by (auto simp: add_specs_def split: result.splits)

lemma add_specs_loop:
  assumes "foldM (add_specs specs_of) acc ns = Ok nodeSpecs" and "distinct (map n_Name ns)"
  shows "map_of nodeSpecs k = (case find (\<lambda>n. n_Name n = k) ns of
           Some n \<Rightarrow> Some (the_Ok (specs_of n)) | None \<Rightarrow> map_of acc k) \<and>
         (\<forall>n \<in> set ns. is_Ok (specs_of n)) \<and> (wf_map acc \<longrightarrow> wf_map nodeSpecs)"
  using assms
proof (induction ns arbitrary: acc)
  case Nil
  then show ?case by simp
next
  case (Cons n ns)
  from Cons.prems(1) obtain ts where ts: "specs_of n = Ok ts"
    and rest: "foldM (add_specs specs_of) (put (n_Name n) ts acc) ns = Ok nodeSpecs"
    by (auto simp: add_specs_Ok_iff)
  have "find (\<lambda>m. n_Name m = n_Name n) ns = None"
    using Cons.prems(2) by (auto simp: find_None_iff image_iff)
  with Cons.IH [OF rest] Cons.prems(2) ts show ?case by (auto split: option.splits)
qed

lemma add_specs_total:
  "(\<And>n. n \<in> set ns \<Longrightarrow> is_Ok (specs_of n)) \<Longrightarrow> \<exists>nodeSpecs. foldM (add_specs specs_of) acc ns = Ok nodeSpecs"
proof (induction ns arbitrary: acc)
  case Nil
  then show ?case by simp
next
  case (Cons n ns)
  from Cons.prems [of n] obtain ts where "specs_of n = Ok ts" by (auto simp: is_Ok_iff)
  with Cons show ?case by (simp add: add_specs_def)
qed

section \<open>A loaded topology\<close>

text \<open>
  A manager that \<^const>\<open>load\<close> has built from a description with named nodes and no peers filled in,
  whose links each join two different interfaces.
\<close>

definition loaded :: "registry \<Rightarrow> (vendor \<Rightarrow> renaming) \<Rightarrow> topology \<Rightarrow> manager \<Rightarrow> bool" where
  "loaded reg ren topo m \<longleftrightarrow>
     (\<exists>pidMax ord. range_order ord \<and> load reg pidMax ord topo = Ok m) \<and>
     named topo \<and> registry_ok reg ren \<and> ren_ok ren topo \<and> unwired topo \<and>
     (\<forall>l \<in> set (t_Links topo). (l_ANode l, l_AInt l) \<noteq> (l_ZNode l, l_ZInt l))"

text \<open>A node whose interfaces are all connected, none of them the management interface.\<close>

definition wired_node :: "node \<Rightarrow> bool" where
  "wired_node n \<longleftrightarrow> wf_map (n_Interfaces n) \<and> (\<forall>(k, i) \<in> set (n_Interfaces n). k \<noteq> ''eth0'' \<and> has_peer i)"

lemma loaded_wired: "loaded reg ren topo m \<Longrightarrow> \<exists>r. wired_by ren r topo m"
  unfolding loaded_def using load_wired_by by blast

lemma wired_only:
  assumes wb: "wired_by ren r topo m" and n: "node_of m name = Some n"
    and k: "(k, i) \<in> set (n_Interfaces n)" and p: "ifc_PeerName i \<noteq> []"
  shows "\<exists>j < length (t_Links topo). ifc_Uid i = int j \<and>
    (name = l_ANode (t_Links topo ! j) \<and> k = r name (l_AInt (t_Links topo ! j)) \<and>
       ifc_PeerName i = l_ZNode (t_Links topo ! j) \<or>
     name = l_ZNode (t_Links topo ! j) \<and> k = r name (l_ZInt (t_Links topo ! j)) \<and>
       ifc_PeerName i = l_ANode (t_Links topo ! j))"
proof -
  have w: "(k, ifc_PeerName i, ifc_PeerIntName i, ifc_Uid i) \<in> set (wiring n)"
    using k by (force simp: wiring_def wire_def)
  from wb have "only_links r topo m" by (simp add: wired_by_def)
  from this [unfolded only_links_def Let_def, rule_format, OF n w p] show ?thesis by blast
qed

lemma wired_link:
  assumes wb: "wired_by ren r topo m" and j: "j < length (t_Links topo)"
  shows "\<exists>a. node_of m (l_ANode (t_Links topo ! j)) = Some a \<and>
      (\<exists>k i. (k, i) \<in> set (n_Interfaces a) \<and> ifc_Uid i = int j \<and> ifc_PeerName i = l_ZNode (t_Links topo ! j))"
    and "\<exists>z. node_of m (l_ZNode (t_Links topo ! j)) = Some z \<and>
      (\<exists>k i. (k, i) \<in> set (n_Interfaces z) \<and> ifc_Uid i = int j \<and> ifc_PeerName i = l_ANode (t_Links topo ! j))"
proof -
  have "link_at ren r m (t_Links topo ! j) j" using wb j by (simp add: wired_by_def)
  moreover have "\<exists>k i. (k, i) \<in> set (n_Interfaces n) \<and> ifc_Uid i = u \<and> ifc_PeerName i = pn"
    if "(k, pn, pk, u) \<in> set (wiring n)" for k pn pk u n
    using that by (auto simp: wiring_def wire_def)
  ultimately show "\<exists>a. node_of m (l_ANode (t_Links topo ! j)) = Some a \<and>
      (\<exists>k i. (k, i) \<in> set (n_Interfaces a) \<and> ifc_Uid i = int j \<and> ifc_PeerName i = l_ZNode (t_Links topo ! j))"
    and "\<exists>z. node_of m (l_ZNode (t_Links topo ! j)) = Some z \<and>
      (\<exists>k i. (k, i) \<in> set (n_Interfaces z) \<and> ifc_Uid i = int j \<and> ifc_PeerName i = l_ANode (t_Links topo ! j))"
    unfolding link_at_def by blast+
qed

text \<open>A node carries one interface of each of its links, or two if the link is a loop.\<close>

lemma wired_count:
  assumes wb: "wired_by ren r topo m" and n: "node_of m name = Some n" and wn: "wired_node n"
    and j: "j < length (t_Links topo)" and l: "l = t_Links topo ! j"
    and name: "name = l_ANode l \<or> name = l_ZNode l" and ne: "(l_ANode l, l_AInt l) \<noteq> (l_ZNode l, l_ZInt l)"
  shows "length (filter (\<lambda>(k, i). ifc_Uid i = int j) (n_Interfaces n)) = (if l_ANode l = l_ZNode l then 2 else 1)"
proof -
  let ?F = "filter (\<lambda>(k, i). ifc_Uid i = int j) (n_Interfaces n)"
  let ?r = "r name"
  let ?K = "(if name = l_ANode l then {?r (l_AInt l)} else {}) \<union> (if name = l_ZNode l then {?r (l_ZInt l)} else {})"
  have "link_at ren r m l j" using wb j l by (simp add: wired_by_def)
  then obtain a z where az: "node_of m (l_ANode l) = Some a" "node_of m (l_ZNode l) = Some z"
    "(r (l_ANode l) (l_AInt l), l_ZNode l, l_ZInt l, int j) \<in> set (wiring a)"
    "(r (l_ZNode l) (l_ZInt l), l_ANode l, l_AInt l, int j) \<in> set (wiring z)"
    and inj: "l_ANode l = l_ZNode l \<and> l_AInt l \<noteq> l_ZInt l \<longrightarrow>
           r (l_ANode l) (l_AInt l) \<noteq> r (l_ZNode l) (l_ZInt l)" unfolding link_at_def by blast
  have "distinct (map fst ?F)" using wn by (simp add: wired_node_def wf_map_def distinct_map_filter)
  moreover have "set (map fst ?F) = ?K"
  proof
    show "set (map fst ?F) \<subseteq> ?K"
    proof
      fix k assume "k \<in> set (map fst ?F)"
      then obtain i where i: "(k, i) \<in> set (n_Interfaces n)" "ifc_Uid i = int j" by auto
      have "ifc_PeerName i \<noteq> []" using wn i(1) by (auto simp: wired_node_def has_peer_def)
      from wired_only [OF wb n i(1) this] i(2) l show "k \<in> ?K" by auto
    qed
    have mem: "k \<in> set (map fst ?F)" if "(k, pn, pk, int j) \<in> set (wiring n)" for k pn pk
      using that by (force simp: wiring_def wire_def)
    show "?K \<subseteq> set (map fst ?F)"
      using az n mem by (auto split: if_splits)
  qed
  moreover have "card ?K = (if l_ANode l = l_ZNode l then 2 else 1)"
    using inj name ne by (cases "l_ANode l = l_ZNode l") auto
  ultimately show ?thesis by (metis distinct_card length_map)
qed

lemma find_by_name:
  assumes "wf_map m" and "\<And>k i. (k, i) \<in> set m \<Longrightarrow> f (g i) = k"
  shows "find (\<lambda>n. f n = k) (map (\<lambda>(k, i). g i) m) = map_option g (map_of m k)"
  using assms by (induction m) (auto simp: wf_map_def)

lemma manager_nodes:
  assumes ld: "loaded reg ren topo m"
  shows "distinct (map n_Name (manager_nodes m))"
    and "find (\<lambda>n. n_Name n = k) (manager_nodes m) = node_of m k"
    and "n \<in> set (manager_nodes m) \<longleftrightarrow> node_of m (n_Name n) = Some n"
proof -
  from ld obtain pidMax ord where ok: "load reg pidMax ord topo = Ok m" "range_order ord" "named topo"
    "registry_ok reg ren" "ren_ok ren topo" unfolding loaded_def by blast
  have wf: "wf_map (m_nodes m)" by (rule load_nodes(1) [OF ok])
  have name: "n_Name (t_Nodes (m_topo m) ! i) = k" if "(k, i) \<in> set (m_nodes m)" for k i
    using load_nodes(2) [OF ok, of k "t_Nodes (m_topo m) ! i"] that
    by (simp add: node_of_def map_of_eq_iff_mem [OF wf, THEN iffD2])
  have "map n_Name (manager_nodes m) = map fst (m_nodes m)"
    unfolding manager_nodes_def map_map by (rule map_cong [OF refl]) (use name in auto)
  then show "distinct (map n_Name (manager_nodes m))" using wf by (simp add: wf_map_def)
  show f: "find (\<lambda>n. n_Name n = k) (manager_nodes m) = node_of m k" for k
    unfolding manager_nodes_def node_of_def
    using find_by_name [OF wf, of n_Name "\<lambda>i. t_Nodes (m_topo m) ! i" k] name by blast
  show "n \<in> set (manager_nodes m) \<longleftrightarrow> node_of m (n_Name n) = Some n"
  proof
    assume "n \<in> set (manager_nodes m)"
    then obtain k i where k: "(k, i) \<in> set (m_nodes m)" "n = t_Nodes (m_topo m) ! i" by (auto simp: manager_nodes_def)
    then have "n_Name n = k" by (simp add: name)
    with k show "node_of m (n_Name n) = Some n" by (auto simp: node_of_def map_of_eq_iff_mem [OF wf, THEN iffD2])
  next
    assume "node_of m (n_Name n) = Some n"
    then show "n \<in> set (manager_nodes m)" using f [of "n_Name n"] by (auto simp: find_Some_iff)
  qed
qed

section \<open>What the manager relies on\<close>

locale spec_provider =
  fixes specs_of :: "node \<Rightarrow> mtopo list result"
  assumes specs_total: "wired_node n \<Longrightarrow> \<exists>ts. specs_of n = Ok ts"
    and specs_ends: "wired_node n \<Longrightarrow> specs_of n = Ok ts \<Longrightarrow>
      mset (map (\<lambda>(p, l). (ml_UID l, ml_PeerPod l)) (ends_of ts)) =
      mset (map (\<lambda>(k, i). (ifc_Uid i, ifc_PeerName i)) (n_Interfaces n))"
    and specs_local: "wired_node n \<Longrightarrow> specs_of n = Ok ts \<Longrightarrow> distinct (map (\<lambda>(p, l). ml_LocalIntf l) (ends_of ts))"
begin

lemma specs_filter:
  assumes "wired_node n" and "specs_of n = Ok ts"
  shows "length (filter (\<lambda>(p, l). P (ml_UID l) (ml_PeerPod l)) (ends_of ts)) =
         length (filter (\<lambda>(k, i). P (ifc_Uid i) (ifc_PeerName i)) (n_Interfaces n))"
proof -
  have "length (filter (\<lambda>x. P (fst x) (snd x)) (map (\<lambda>(p, l). (ml_UID l, ml_PeerPod l)) (ends_of ts))) =
        length (filter (\<lambda>x. P (fst x) (snd x)) (map (\<lambda>(k, i). (ifc_Uid i, ifc_PeerName i)) (n_Interfaces n)))"
    by (rule mset_eq_length_filter [OF specs_ends [OF assms]])
  then show ?thesis by (simp add: filter_map o_def case_prod_unfold)
qed

lemma specs_mem:
  assumes "wired_node n" and "specs_of n = Ok ts"
  shows "(\<exists>p l. (p, l) \<in> set (ends_of ts) \<and> ml_UID l = u \<and> ml_PeerPod l = q) \<longleftrightarrow>
         (\<exists>k i. (k, i) \<in> set (n_Interfaces n) \<and> ifc_Uid i = u \<and> ifc_PeerName i = q)"
proof -
  have "(u, q) \<in> set (map (\<lambda>(p, l). (ml_UID l, ml_PeerPod l)) (ends_of ts)) \<longleftrightarrow>
        (u, q) \<in> set (map (\<lambda>(k, i). (ifc_Uid i, ifc_PeerName i)) (n_Interfaces n))"
    using mset_eq_setD [OF specs_ends [OF assms]] by simp
  then show ?thesis by force
qed

text \<open>The ends of a link that the manager wired, and that no other end shares its UID.\<close>

lemma partner_exists:
  assumes nd: "map_of nodeSpecs (l_ZNode l) = Some ts" "specs_of z = Ok ts" "wired_node z"
    and z: "\<exists>k i. (k, i) \<in> set (n_Interfaces z) \<and> ifc_Uid i = u \<and> ifc_PeerName i = l_ANode l"
    and cnt: "length (filter (\<lambda>(k, i). ifc_Uid i = u) (n_Interfaces z)) = (if l_ANode l = l_ZNode l then 2 else 1)"
    and x: "ml_UID x = u" "ml_PeerPod x = l_ZNode l"
    and self: "l_ANode l = l_ZNode l \<Longrightarrow> (p, x) \<in> set (ends_of ts)"
  shows "\<exists>pl'. has_partner nodeSpecs (l_ANode l) x pl' \<and> ml_UID (snd pl') = u"
proof -
  let ?E = "filter (\<lambda>(p, l). ml_UID l = u) (ends_of ts)"
  have len: "length ?E = (if l_ANode l = l_ZNode l then 2 else 1)"
    using specs_filter [OF nd(3,2), of "\<lambda>a b. a = u"] cnt by simp
  have sl: "same_link (l_ANode l) x y \<longleftrightarrow>
      ml_UID y = u \<and> (l_ANode l = l_ZNode l \<longrightarrow> ml_LocalIntf y \<noteq> ml_LocalIntf x)" for y
    by (auto simp: same_link_def x)
  show ?thesis
  proof (cases "l_ANode l = l_ZNode l")
    case False
    with len obtain q where "?E = [q]" by (auto simp: length_Suc_conv)
    then have "set ?E = {q}" by simp
    then have q: "y \<in> set (ends_of ts) \<and> ml_UID (snd y) = u \<longleftrightarrow> y = q" for y
      by (auto simp: case_prod_unfold)
    have "y \<in> set (ends_of ts) \<and> same_link (l_ANode l) x (snd y) \<longleftrightarrow> y = q" for y
      using q [of y] False by (simp add: sl)
    then have "has_partner nodeSpecs (l_ANode l) x q"
      by (intro has_partnerI) (simp_all add: nd(1) x(2))
    then show ?thesis using q [of q] by blast
  next
    case True
    have d: "distinct (map (\<lambda>(p, l). ml_LocalIntf l) ?E)"
      using specs_local [OF nd(3,2)] by (rule distinct_map_filter)
    obtain q1 q2 where E: "?E = [q1, q2]" using len True by (auto simp: length_Suc_conv numeral_2_eq_2)
    have "(p, x) \<in> set ?E" using self [OF True] x(1) by simp
    then have px: "(p, x) = q1 \<or> (p, x) = q2" unfolding E by simp
    have dd: "ml_LocalIntf (snd q1) \<noteq> ml_LocalIntf (snd q2)" using d unfolding E by (simp add: case_prod_unfold)
    define q where "q = (if q1 = (p, x) then q2 else q1)"
    have ne: "ml_LocalIntf (snd q) \<noteq> ml_LocalIntf x" using px dd by (auto simp: q_def)
    have "set ?E = {q1, q2}" unfolding E by simp
    also have "\<dots> = {(p, x), q}" using px by (auto simp: q_def)
    finally have E2: "y \<in> set ?E \<longleftrightarrow> y = (p, x) \<or> y = q" for y by simp
    have q: "y \<in> set (ends_of ts) \<and> ml_UID (snd y) = u \<longleftrightarrow> y = (p, x) \<or> y = q" for y
      using E2 [of y] by (simp add: case_prod_unfold)
    have "y \<in> set (ends_of ts) \<and> same_link (l_ANode l) x (snd y) \<longleftrightarrow> y = q" for y
      unfolding sl using q [of y] ne True by auto
    then have "has_partner nodeSpecs (l_ANode l) x q"
      by (intro has_partnerI) (simp_all add: nd(1) x(2))
    then show ?thesis using q [of q] by blast
  qed
qed

lemma specs_of_manager:
  assumes ld: "loaded reg ren topo m" and wn: "\<forall>n \<in> set (manager_nodes m). wired_node n"
  obtains nodeSpecs where "foldM (add_specs specs_of) [] (manager_nodes m) = Ok nodeSpecs"
    and "wf_map nodeSpecs"
    and "\<And>k ts. map_of nodeSpecs k = Some ts \<longleftrightarrow> (\<exists>n. node_of m k = Some n \<and> wired_node n \<and> specs_of n = Ok ts)"
proof -
  have tot: "is_Ok (specs_of n)" if "n \<in> set (manager_nodes m)" for n
    using that wn specs_total by (auto simp: is_Ok_iff)
  obtain nodeSpecs where ns: "foldM (add_specs specs_of) [] (manager_nodes m) = Ok nodeSpecs"
    using add_specs_total [of "manager_nodes m" specs_of "[]"] tot by blast
  note l = add_specs_loop [OF ns manager_nodes(1) [OF ld]]
  have "map_of nodeSpecs k = map_option (\<lambda>n. the_Ok (specs_of n)) (node_of m k)" for k
    using l [of k] manager_nodes(2) [OF ld, of k] by (simp split: option.splits)
  moreover have "wired_node n \<and> is_Ok (specs_of n)" if "node_of m k = Some n" for k n
  proof -
    have "n \<in> set (manager_nodes m)"
      using that manager_nodes(2) [OF ld, of k] by (auto simp: find_Some_iff)
    then show ?thesis using tot wn by blast
  qed
  ultimately have "map_of nodeSpecs k = Some ts \<longleftrightarrow> (\<exists>n. node_of m k = Some n \<and> wired_node n \<and> specs_of n = Ok ts)" for k ts
    by (fastforce simp: is_Ok_iff)
  with ns l show thesis using that by simp
qed

text \<open>Every link end of a loaded topology has exactly one partner, and the partner's partner is the end itself.\<close>

lemma loaded_partner:
  assumes ld: "loaded reg ren topo m" 
    and nsp: "\<And>k ts. map_of nodeSpecs k = Some ts \<longleftrightarrow> (\<exists>n. node_of m k = Some n \<and> wired_node n \<and> specs_of n = Ok ts)"
    and wn: "\<forall>n \<in> set (manager_nodes m). wired_node n"
    and x: "(name, p, x) \<in> link_insts nodeSpecs"
  shows "\<exists>p' y. has_partner nodeSpecs name x (p', y) \<and> (ml_PeerPod x, p', y) \<in> link_insts nodeSpecs \<and>
    ml_PeerPod y = name \<and> (\<exists>j < length (t_Links topo). ml_UID x = int j)"
proof -
  obtain r where wb: "wired_by ren r topo m" using loaded_wired [OF ld] by blast
  from x nsp obtain n ts where n: "node_of m name = Some n" "wired_node n" "specs_of n = Ok ts"
    and px: "(p, x) \<in> set (ends_of ts)" unfolding link_insts_def by blast
  from specs_mem [OF n(2,3), of "ml_UID x" "ml_PeerPod x"] px obtain k i where
    i: "(k, i) \<in> set (n_Interfaces n)" "ifc_Uid i = ml_UID x" "ifc_PeerName i = ml_PeerPod x" by blast
  have "ifc_PeerName i \<noteq> []" using n(2) i(1) by (auto simp: wired_node_def has_peer_def)
  from wired_only [OF wb n(1) i(1) this] i obtain j where j: "j < length (t_Links topo)" "ml_UID x = int j"
    and ends: "name = l_ANode (t_Links topo ! j) \<and> ml_PeerPod x = l_ZNode (t_Links topo ! j) \<or>
      name = l_ZNode (t_Links topo ! j) \<and> ml_PeerPod x = l_ANode (t_Links topo ! j)" by auto
  define l where "l = t_Links topo ! j"
  have ne: "(l_ANode l, l_AInt l) \<noteq> (l_ZNode l, l_ZInt l)"
    using ld nth_mem [OF j(1)] unfolding loaded_def l_def by blast
  obtain z where z: "node_of m (ml_PeerPod x) = Some z"
    and zi: "\<exists>k i. (k, i) \<in> set (n_Interfaces z) \<and> ifc_Uid i = int j \<and> ifc_PeerName i = name"
    using wired_link [OF wb j(1)] ends by metis
  have wz: "wired_node z" using wn z manager_nodes(2) [OF ld, of "ml_PeerPod x"] by (auto simp: find_Some_iff)
  obtain ts' where ts': "specs_of z = Ok ts'" using specs_total [OF wz] by blast
  have mz: "map_of nodeSpecs (ml_PeerPod x) = Some ts'" using nsp z wz ts' by blast
  define l' where "l' = \<lparr>l_ANode = name, l_AInt = [], l_ZNode = ml_PeerPod x, l_ZInt = []\<rparr>"
  have "length (filter (\<lambda>(k, i). ifc_Uid i = int j) (n_Interfaces z)) = (if l_ANode l' = l_ZNode l' then 2 else 1)"
    using wired_count [OF wb z wz j(1) l_def _ ne] ends [folded l_def] by (auto simp: l'_def)
  moreover have "(p, x) \<in> set (ends_of ts')" if "l_ANode l' = l_ZNode l'"
    using px n z ts' that by (auto simp: l'_def)
  ultimately have "\<exists>pl'. has_partner nodeSpecs (l_ANode l') x pl' \<and> ml_UID (snd pl') = int j"
    using mz wz zi by (intro partner_exists [OF _ ts' _ _ _ j(2)]) (simp_all add: l'_def)
  then obtain pl' where pl': "has_partner nodeSpecs name x pl'" "ml_UID (snd pl') = int j"
    by (auto simp: l'_def)
  obtain p' y where y: "pl' = (p', y)" by (cases pl')
  have yin: "(p', y) \<in> set (ends_of ts')" using pl'(1) mz by (auto simp: has_partner_def y)
  from specs_mem [OF wz ts', of "int j" "ml_PeerPod y"] yin pl'(2) obtain k' i' where
    i': "(k', i') \<in> set (n_Interfaces z)" "ifc_Uid i' = int j" "ifc_PeerName i' = ml_PeerPod y" by (auto simp: y)
  have "ifc_PeerName i' \<noteq> []" using wz i'(1) by (auto simp: wired_node_def has_peer_def)
  from wired_only [OF wb z i'(1) this] obtain j' where "int j = int j'"
    "ml_PeerPod x = l_ANode (t_Links topo ! j') \<and> ml_PeerPod y = l_ZNode (t_Links topo ! j') \<or>
     ml_PeerPod x = l_ZNode (t_Links topo ! j') \<and> ml_PeerPod y = l_ANode (t_Links topo ! j')"
    unfolding i'(2,3) by blast
  with ends have "ml_PeerPod y = name" by fastforce
  moreover have "(ml_PeerPod x, p', y) \<in> link_insts nodeSpecs" using mz yin by (simp add: link_insts_def)
  ultimately show ?thesis using pl'(1) j y by blast
qed

text \<open>Two resolved link ends name each other.\<close>

lemma topologySpecs_mutual:
  assumes ld: "loaded reg ren topo m" and wn: "\<forall>n \<in> set (manager_nodes m). wired_node n"
    and ord: "range_order ord"
  shows "\<exists>topos. topologySpecs specs_of ord m = Ok topos \<and>
    (\<forall>(p, x) \<in> set (ends_of topos). \<exists>(p', y) \<in> set (ends_of topos).
       ml_UID y = ml_UID x \<and> ml_PeerPod x = p' \<and> ml_PeerIntf x = ml_LocalIntf y \<and>
       ml_PeerPod y = p \<and> ml_PeerIntf y = ml_LocalIntf x)"
proof -
  obtain nodeSpecs where ns: "foldM (add_specs specs_of) [] (manager_nodes m) = Ok nodeSpecs"
    and wf: "wf_map nodeSpecs"
    and nsp: "\<And>k ts. map_of nodeSpecs k = Some ts \<longleftrightarrow> (\<exists>n. node_of m k = Some n \<and> wired_node n \<and> specs_of n = Ok ts)"
    using specs_of_manager [OF ld wn] by metis
  note partner = loaded_partner [OF ld nsp wn]
  have ap: "all_paired nodeSpecs" unfolding all_paired_def using partner by blast
  obtain topos where ok: "resolve_specs ord nodeSpecs = Ok topos"
    using resolve_specs_paired [OF ord wf ap] by blast
  have "\<exists>(p', y) \<in> set (ends_of topos). ml_UID y = ml_UID x \<and> ml_PeerPod x = p' \<and> ml_PeerIntf x = ml_LocalIntf y \<and>
       ml_PeerPod y = p \<and> ml_PeerIntf y = ml_LocalIntf x" if x: "(p, x) \<in> set (ends_of topos)" for p x
  proof -
    obtain name x0 where x0: "(name, p, x0) \<in> link_insts nodeSpecs" and rx: "resolve_link nodeSpecs name p x0 = Ok x"
      using resolved_from [OF ord wf ap ok x] by blast
    from partner [OF x0] obtain p' y0 where hp: "has_partner nodeSpecs name x0 (p', y0)"
      and y0: "(ml_PeerPod x0, p', y0) \<in> link_insts nodeSpecs" and bk: "ml_PeerPod y0 = name" by blast
    have x_eq: "x = x0\<lparr>ml_PeerPod := p', ml_PeerIntf := ml_LocalIntf y0\<rparr>"
      using rx resolve_link_partner [OF hp] by simp
    from partner [OF y0] obtain q where q: "has_partner nodeSpecs (ml_PeerPod x0) y0 q" by blast
    have sl: "same_link name x0 y0" using has_partner_same [OF hp] by simp
    then have "same_link (ml_PeerPod x0) y0 x0" using bk by (auto simp: same_link_def)
    with has_partner_unique [OF q] x0 bk have "q = (p, x0)" by simp
    with resolved_ends [OF ord wf ap ok y0 q]
    have "(p', y0\<lparr>ml_PeerPod := p, ml_PeerIntf := ml_LocalIntf x0\<rparr>) \<in> set (ends_of topos)" by simp
    moreover have "ml_UID y0 = ml_UID x0" using sl by (simp add: same_link_def)
    ultimately show ?thesis unfolding x_eq by (intro bexI) auto
  qed
  then show ?thesis using ns ok by (intro exI [of _ topos]) (auto simp: topologySpecs_def)
qed

text \<open>The link with index \<open>j\<close> has an end in the resources of each of its two nodes.\<close>

lemma topologySpecs_complete:
  assumes ld: "loaded reg ren topo m" and wn: "\<forall>n \<in> set (manager_nodes m). wired_node n"
    and ord: "range_order ord" and ok: "topologySpecs specs_of ord m = Ok topos"
    and j: "j < length (t_Links topo)"
  shows "\<exists>(p, x) \<in> set (ends_of topos). ml_UID x = int j"
proof -
  obtain nodeSpecs where ns: "foldM (add_specs specs_of) [] (manager_nodes m) = Ok nodeSpecs"
    and wf: "wf_map nodeSpecs"
    and nsp: "\<And>k ts. map_of nodeSpecs k = Some ts \<longleftrightarrow> (\<exists>n. node_of m k = Some n \<and> wired_node n \<and> specs_of n = Ok ts)"
    using specs_of_manager [OF ld wn] by metis
  have wn': "wired_node n" if "node_of m k = Some n" for k n
    using that wn manager_nodes(2) [OF ld, of k] by (auto simp: find_Some_iff)
  note partner = loaded_partner [OF ld nsp wn]
  have ap: "all_paired nodeSpecs" unfolding all_paired_def using partner by blast
  have res: "resolve_specs ord nodeSpecs = Ok topos" using ok ns by (simp add: topologySpecs_def)
  define l where "l = t_Links topo ! j"
  obtain r where wb: "wired_by ren r topo m" using loaded_wired [OF ld] by blast
  obtain a where a: "node_of m (l_ANode l) = Some a"
    and w: "\<exists>k i. (k, i) \<in> set (n_Interfaces a) \<and> ifc_Uid i = int j \<and> ifc_PeerName i = l_ZNode l"
    using wired_link [OF wb j] unfolding l_def by blast
  obtain ts where ts: "specs_of a = Ok ts" using specs_total [OF wn' [OF a]] by blast
  with specs_mem [OF wn' [OF a] ts, of "int j" "l_ZNode l"] w obtain p x where
    x: "(p, x) \<in> set (ends_of ts)" "ml_UID x = int j" by blast
  have i: "(l_ANode l, p, x) \<in> link_insts nodeSpecs"
    using x a ts wn' [OF a] nsp by (auto simp: link_insts_def)
  from partner [OF this] obtain pl' where "has_partner nodeSpecs (l_ANode l) x pl'" by blast
  from resolved_ends [OF ord wf ap res i this] show ?thesis by (rule bexI [rotated]) (simp add: x(2))
qed

end

interpretation base: spec_provider TopologySpecs
proof
  fix n :: node and ts
  assume w: "wired_node n"
  have links: "GetNodeLinks n = Ok (map (\<lambda>(k, i). mk_link k i) (n_Interfaces n))"
  proof -
    have "data_ifcs n = n_Interfaces n"
      using w by (auto simp: data_ifcs_def wired_node_def filter_id_conv)
    then show ?thesis using w GetNodeLinks_Ok [of n] by (auto simp: wired_node_def)
  qed
  then have ts: "TopologySpecs n = Ok [\<lparr>mt_Name = n_Name n, mt_Links = map (\<lambda>(k, i). mk_link k i) (n_Interfaces n)\<rparr>]"
    by (simp add: TopologySpecs_def)
  then show "\<exists>ts. TopologySpecs n = Ok ts" by blast
  assume "TopologySpecs n = Ok ts"
  with ts have e: "ends_of ts = map (\<lambda>(k, i). (n_Name n, mk_link k i)) (n_Interfaces n)"
    by (auto simp: ends_of_def)
  have "map (\<lambda>(p, l). (ml_UID l, ml_PeerPod l)) (ends_of ts) =
      map (\<lambda>(k, i). (ifc_Uid i, ifc_PeerName i)) (n_Interfaces n)"
    by (auto simp: e mk_link_def)
  then show "mset (map (\<lambda>(p, l). (ml_UID l, ml_PeerPod l)) (ends_of ts)) =
      mset (map (\<lambda>(k, i). (ifc_Uid i, ifc_PeerName i)) (n_Interfaces n))" by (rule arg_cong)
  have "map (\<lambda>(p, l). ml_LocalIntf l) (ends_of ts) = map fst (n_Interfaces n)"
    by (auto simp: e mk_link_def)
  then show "distinct (map (\<lambda>(p, l). ml_LocalIntf l) (ends_of ts))"
    using w by (simp add: wired_node_def wf_map_def)
qed

end
