(* ===== verification/Watchers.thy ===== *)
theory Watchers
  imports Kube_API
begin

text \<open>
  The watchers of \<open>pods/pods.go\<close>, \<open>pods/status.go\<close>, \<open>events/events.go\<close> and \<open>events/status.go\<close>. Both packages
  have the same machinery around different handlers: a goroutine that takes statuses from a channel until one
  of them is fatal, an error channel of capacity one, and \<open>Cleanup\<close>, which may run at any time. That machinery
  is a step relation over a handler; the two handlers are functions on their own state. Lines that are
  displayed are kept as format and arguments, without the time of day in front of them.
\<close>

section \<open>The goroutine and its channels\<close>

text \<open>Where the goroutine is: in its loop, between the send of an error and the call of \<open>cancel\<close>, before the
  deferred \<open>stop\<close>, or at its end.\<close>

datatype watch_pc = Looping | Cancelling | Returning | Ended

record 't watcher =
  wa_pc :: watch_pc
  wa_errCh :: "err option"
  wa_wstop :: bool
  wa_stopped :: nat
  wa_cancelled :: bool
  wa_progress :: bool
  wa_state :: 't

definition newWatcher :: "'t \<Rightarrow> 't watcher" where
  "newWatcher st = \<lparr>wa_pc = Looping, wa_errCh = None, wa_wstop = True, wa_stopped = 0, wa_cancelled = False,
     wa_progress = False, wa_state = st\<rparr>"

definition SetProgress :: "bool \<Rightarrow> 't watcher \<Rightarrow> 't watcher" where
  "SetProgress v w = w\<lparr>wa_progress := v\<rparr>"

text \<open>\<open>stop\<close> takes the stop function of the watch and calls it, the first time.\<close>

definition stop :: "'t watcher \<Rightarrow> 't watcher" where
  "stop w = (if wa_wstop w then w\<lparr>wa_wstop := False, wa_stopped := wa_stopped w + 1\<rparr> else w)"

definition Cleanup :: "unit result \<Rightarrow> 't watcher \<Rightarrow> unit result \<times> 't watcher" where
  "Cleanup r w =
     (let w1 = stop w in
      case wa_errCh w1 of
        Some werr \<Rightarrow> (Error werr, w1\<lparr>wa_errCh := None\<rparr>)
      | None \<Rightarrow> (r, w1))"

text \<open>
  What the \<open>select\<close> of the loop chooses. A handler returns the error that it sends, if any, and its new state.
  The value \<open>None\<close> of a step is a send that blocks on a full channel.
\<close>

datatype 'e choice = Received 'e | ChanClosed | ContextDone

type_synonym ('e, 't) handler = "bool \<Rightarrow> 'e \<Rightarrow> 't \<Rightarrow> err option \<times> 't"

definition loop_step :: "('e, 't) handler \<Rightarrow> 'e choice \<Rightarrow> 't watcher \<Rightarrow> 't watcher option" where
  "loop_step update c w =
     (case c of
        Received s \<Rightarrow>
          (case update (wa_progress w) s (wa_state w) of
             (None, st) \<Rightarrow> Some (w\<lparr>wa_state := st\<rparr>)
           | (Some e, st) \<Rightarrow>
               if wa_errCh w \<noteq> None then None
               else Some (w\<lparr>wa_state := st, wa_errCh := Some e, wa_pc := Cancelling\<rparr>))
      | ChanClosed \<Rightarrow> Some (w\<lparr>wa_pc := Returning\<rparr>)
      | ContextDone \<Rightarrow> Some (w\<lparr>wa_pc := Returning\<rparr>))"

inductive watcher_step :: "('e, 't) handler \<Rightarrow> 't watcher \<Rightarrow> 't watcher \<Rightarrow> bool" for update where
  Loop: "wa_pc w = Looping \<Longrightarrow> loop_step update c w = Some w' \<Longrightarrow> watcher_step update w w'"
| Cancel: "wa_pc w = Cancelling \<Longrightarrow> watcher_step update w (w\<lparr>wa_cancelled := True, wa_pc := Returning\<rparr>)"
| Return: "wa_pc w = Returning \<Longrightarrow> watcher_step update w ((stop w)\<lparr>wa_pc := Ended\<rparr>)"
| Progress: "watcher_step update w (SetProgress v w)"

text \<open>The steps of the goroutine and of its owner, up to a \<open>Cleanup\<close> and with it.\<close>

inductive owner_step :: "('e, 't) handler \<Rightarrow> 't watcher \<Rightarrow> 't watcher \<Rightarrow> bool" for update where
  Watch: "watcher_step update w w' \<Longrightarrow> owner_step update w w'"
| Clean: "owner_step update w (snd (Cleanup r w))"

inductive_cases watcher_stepE: "watcher_step update w w'"
inductive_cases owner_stepE: "owner_step update w w'"

definition watcher_inv :: "'t watcher \<Rightarrow> bool" where
  "watcher_inv w \<longleftrightarrow>
     (wa_pc w = Looping \<longrightarrow> wa_errCh w = None) \<and>
     wa_stopped w = (if wa_wstop w then 0 else 1) \<and>
     (wa_cancelled w \<longrightarrow> wa_pc w \<in> {Returning, Ended}) \<and>
     (wa_pc w = Ended \<longrightarrow> \<not> wa_wstop w)"

lemma stop_simps [simp]:
  "wa_pc (stop w) = wa_pc w" "wa_errCh (stop w) = wa_errCh w" "wa_cancelled (stop w) = wa_cancelled w"
  "wa_progress (stop w) = wa_progress w" "wa_state (stop w) = wa_state w" "\<not> wa_wstop (stop w)"
  "wa_stopped (stop w) = (if wa_wstop w then wa_stopped w + 1 else wa_stopped w)"
  by (simp_all add: stop_def)

lemma SetProgress_simps [simp]:
  "wa_pc (SetProgress v w) = wa_pc w" "wa_errCh (SetProgress v w) = wa_errCh w" "wa_cancelled (SetProgress v w) = wa_cancelled w"
  "wa_wstop (SetProgress v w) = wa_wstop w" "wa_stopped (SetProgress v w) = wa_stopped w" "wa_state (SetProgress v w) = wa_state w"
  by (simp_all add: SetProgress_def)

lemma Cleanup_cases:
  obtains (failed) e where "wa_errCh w = Some e" "Cleanup r w = (Error e, (stop w)\<lparr>wa_errCh := None\<rparr>)"
  | (fine) "wa_errCh w = None" "Cleanup r w = (r, stop w)"
  by (cases "wa_errCh w") (simp_all add: Cleanup_def)

lemma loop_step_cases:
  assumes "loop_step update c w = Some w'"
  obtains (handled) s st where "c = Received s" "update (wa_progress w) s (wa_state w) = (None, st)" "w' = w\<lparr>wa_state := st\<rparr>"
  | (fatal) s e st where "c = Received s" "update (wa_progress w) s (wa_state w) = (Some e, st)" "wa_errCh w = None"
      "w' = w\<lparr>wa_state := st, wa_errCh := Some e, wa_pc := Cancelling\<rparr>"
  | (ended) "w' = w\<lparr>wa_pc := Returning\<rparr>"
  using assms by (cases c) (auto simp: loop_step_def split: prod.splits option.splits if_splits)

lemma watcher_inv_step: "watcher_step update w w' \<Longrightarrow> watcher_inv w \<Longrightarrow> watcher_inv w'"
  by (erule watcher_stepE) (auto simp: watcher_inv_def elim!: loop_step_cases)

lemma owner_inv_step: "owner_step update w w' \<Longrightarrow> watcher_inv w \<Longrightarrow> watcher_inv w'"
proof (erule owner_stepE)
  fix r assume w': "w' = snd (Cleanup r w)" and inv: "watcher_inv w"
  show "watcher_inv w'" unfolding w' by (cases rule: Cleanup_cases [of w r]) (use inv in \<open>auto simp: watcher_inv_def\<close>)
qed (rule watcher_inv_step)

lemma watcher_inv_new: "watcher_inv (newWatcher st)"
  by (simp add: watcher_inv_def newWatcher_def)

lemma owner_inv: "(owner_step update)\<^sup>*\<^sup>* (newWatcher st) w \<Longrightarrow> watcher_inv w"
  by (induction rule: rtranclp_induct) (simp_all add: watcher_inv_new owner_inv_step)


text \<open>Once an error is sent it stays in the channel until \<open>Cleanup\<close> takes it.\<close>

lemma error_stays: "(watcher_step update)\<^sup>*\<^sup>* w w' \<Longrightarrow> wa_errCh w = Some e \<Longrightarrow> wa_pc w \<noteq> Looping \<Longrightarrow> wa_errCh w' = Some e \<and> wa_pc w' \<noteq> Looping"
  by (induction rule: rtranclp_induct) (auto elim!: watcher_stepE loop_step_cases)


lemma Cleanup_Ok: "fst (Cleanup r w) = Ok () \<Longrightarrow> r = Ok ()"
  by (cases rule: Cleanup_cases [of w r]) auto

section \<open>Deferred calls around a watcher\<close>

text \<open>
  Starting a watcher may fail, which is only logged. A started watcher is cleaned up when the function that
  started it returns, and has the last word on its error. A deferred call also runs during a panic; the named
  result is nil then, and the panic goes on.
\<close>

definition started :: "('w, unit) act \<Rightarrow> 'w \<Rightarrow> bool \<times> 'w" where
  "started m w = (case m w of (r, w') \<Rightarrow> (is_Ok r, w'))"

definition deferred :: "bool \<Rightarrow> (unit result \<Rightarrow> ('w, unit) act) \<Rightarrow> unit result \<Rightarrow> 'w \<Rightarrow> unit result \<times> 'w" where
  "deferred b cleanup r w =
     (if \<not> b then (r, w)
      else case r of Panic p \<Rightarrow> (Panic p, snd (cleanup (Ok ()) w)) | _ \<Rightarrow> cleanup r w)"

definition cleanup_with :: "('w \<Rightarrow> 't watcher) \<Rightarrow> ('t watcher \<Rightarrow> 'w \<Rightarrow> 'w) \<Rightarrow> unit result \<Rightarrow> ('w, unit) act" where
  "cleanup_with get set_w r w = (case Cleanup r (get w) of (r', x) \<Rightarrow> (r', set_w x w))"

lemma cleanup_with_Ok: "cleanup_with get set_w r w = (Ok (), w') \<Longrightarrow> r = Ok ()"
  using Cleanup_Ok [of r "get w"] by (auto simp: cleanup_with_def split: prod.splits)

lemma deferred_Ok: "(\<And>r v v'. c r v = (Ok (), v') \<Longrightarrow> r = Ok ()) \<Longrightarrow> deferred b c r w = (Ok (), w') \<Longrightarrow> r = Ok ()"
  by (auto simp: deferred_def split: if_splits result.splits)

lemma deferred_cleanup_Ok: "deferred b (cleanup_with get set_w) r w = (Ok (), w') \<Longrightarrow> r = Ok ()"
  using deferred_Ok [of "cleanup_with get set_w" b r w w'] cleanup_with_Ok [of get set_w] by metis

lemma deferred_cases:
  obtains (skip) "deferred b c r w = (r, w)" | (run) r' where "snd (deferred b c r w) = snd (c r' w)"
  by (cases b; cases r) (auto simp: deferred_def)

section \<open>Pod statuses\<close>

text \<open>What is read of a pod of the cluster: a container has a waiting state with reason and message, or none.\<close>

record raw_cs =
  rc_Name :: string
  rc_Image :: string
  rc_Ready :: bool
  rc_Running :: bool
  rc_Waiting :: "(string \<times> string) option"

record raw_pod =
  rp_Name :: string
  rp_Namespace :: string
  rp_UID :: string
  rp_Phase :: pod_phase
  rp_Deleted :: bool
  rp_Containers :: "raw_cs list"
  rp_InitContainers :: "raw_cs list"

record ContainerStatus =
  cst_Name :: string
  cst_Image :: string
  cst_Ready :: bool
  cst_Reason :: string
  cst_Message :: string

record PodStatus =
  ps_Name :: string
  ps_UID :: string
  ps_Namespace :: string
  ps_Phase :: pod_phase
  ps_Ready :: bool
  ps_Containers :: "ContainerStatus list"
  ps_InitContainers :: "ContainerStatus list"
  ps_Deleted :: bool

definition to_container :: "raw_cs \<Rightarrow> ContainerStatus" where
  "to_container cs =
     (let c = \<lparr>cst_Name = rc_Name cs, cst_Image = rc_Image cs, cst_Ready = rc_Ready cs \<or> rc_Running cs, cst_Reason = [], cst_Message = []\<rparr> in
      case rc_Waiting cs of
        Some (reason, message) \<Rightarrow> c\<lparr>cst_Reason := reason, cst_Message := message\<rparr>
      | None \<Rightarrow> c)"

text \<open>The loop over the containers, which also clears \<open>Ready\<close>.\<close>

definition add_containers :: "raw_cs list \<Rightarrow> bool \<Rightarrow> ContainerStatus list \<times> bool" where
  "add_containers css ready =
     foldl (\<lambda>(cs, rdy) raw. let c = to_container raw in (cs @ [c], rdy \<and> cst_Ready c)) ([], ready) css"

text \<open>The names of the containers of a pod are distinct, so that sorting by name has one result.\<close>

definition PodToStatus :: "raw_pod \<Rightarrow> PodStatus" where
  "PodToStatus pod =
     (let ready0 = (length (rp_Containers pod) + length (rp_InitContainers pod) > 0);
          (cs, ready1) = add_containers (rp_Containers pod) ready0;
          (ics, ready2) = add_containers (rp_InitContainers pod) ready1 in
      \<lparr>ps_Name = rp_Name pod, ps_UID = rp_UID pod, ps_Namespace = rp_Namespace pod, ps_Phase = rp_Phase pod, ps_Ready = ready2,
       ps_Containers = sort_key cst_Name cs, ps_InitContainers = sort_key cst_Name ics, ps_Deleted = rp_Deleted pod\<rparr>)"

definition ContainerStatus_Equal :: "ContainerStatus \<Rightarrow> ContainerStatus \<Rightarrow> bool" where
  "ContainerStatus_Equal c oc =
     (\<not> (cst_Name c \<noteq> cst_Name oc \<or> cst_Image c \<noteq> cst_Image oc \<or> cst_Ready c \<noteq> cst_Ready oc \<or>
         cst_Reason c \<noteq> cst_Reason oc \<or> cst_Message c \<noteq> cst_Message oc))"

definition PodStatus_Equal :: "PodStatus \<Rightarrow> PodStatus \<Rightarrow> bool" where
  "PodStatus_Equal p q =
     (if ps_UID p \<noteq> ps_UID q \<or> ps_Name p \<noteq> ps_Name q \<or> ps_Namespace p \<noteq> ps_Namespace q \<or> ps_Phase p \<noteq> ps_Phase q \<or>
         length (ps_Containers p) \<noteq> length (ps_Containers q) \<or> length (ps_InitContainers p) \<noteq> length (ps_InitContainers q)
      then False
      else if \<not> list_all (\<lambda>(c, oc). ContainerStatus_Equal c oc) (zip (ps_Containers p) (ps_Containers q)) then False
      else list_all (\<lambda>(c, oc). ContainerStatus_Equal c oc) (zip (ps_InitContainers p) (ps_InitContainers q)))"

definition GetPodStatus :: "('w, raw_pod list) act \<Rightarrow> ('w, PodStatus list) act" where
  "GetPodStatus list_pods = abind list_pods (\<lambda>pods. aret (map PodToStatus pods))"

text \<open>The goroutine behind \<open>WatchPodStatus\<close>: duplicates are dropped, and so is an event on another object.\<close>

fun forward_pods :: "(string, PodStatus) gomap \<Rightarrow> raw_pod option list \<Rightarrow> PodStatus list" where
  "forward_pods seen [] = []"
| "forward_pods seen (None # es) = forward_pods seen es"
| "forward_pods seen (Some pod # es) =
     (let s = PodToStatus pod in
      if (case map_of seen (ps_UID s) of Some os \<Rightarrow> PodStatus_Equal s os | None \<Rightarrow> False) then forward_pods seen es
      else s # forward_pods (put (ps_UID s) s seen) es)"

definition WatchPodStatus :: "bool \<Rightarrow> bool \<Rightarrow> raw_pod option list result \<Rightarrow> PodStatus list result" where
  "WatchPodStatus nil_ctx nil_client watch =
     (if nil_ctx then Error (Errorf ''WatchPodStatus: nil context '' [])
      else if nil_client then Error (Errorf ''WatchPodStatus: nil client '' [])
      else rbind watch (\<lambda>es. Ok (forward_pods [] es)))"

section \<open>The pod handler\<close>

definition MaxPullTime :: int where "MaxPullTime = 15 * 60 * 1000000000"

record pod_watch =
  podStates :: "(string, string) gomap"
  podStart :: "(string, int) gomap"
  cStates :: "(string, string) gomap"
  currentNamespace :: string
  currentPod :: string
  pw_out :: "(string \<times> string list) list"

definition new_pod_watch :: pod_watch where
  "new_pod_watch = \<lparr>podStates = [], podStart = [], cStates = [], currentNamespace = [], currentPod = [], pw_out = []\<rparr>"

definition display_pod :: "bool \<Rightarrow> string \<Rightarrow> string list \<Rightarrow> pod_watch \<Rightarrow> pod_watch" where
  "display_pod progress format args pw = (if progress then pw\<lparr>pw_out := pw_out pw @ [(format, args)]\<rparr> else pw)"

definition pod_state :: "PodStatus \<Rightarrow> string" where
  "pod_state s =
     (if ps_Deleted s then ''terminating''
      else if ps_Ready s then ''READY''
      else case ps_Phase s of
        PodPending \<Rightarrow> ''pending''
      | PodRunning \<Rightarrow> ''running''
      | PodSucceeded \<Rightarrow> ''success''
      | PodFailed \<Rightarrow> ''failed''
      | PodUnknown \<Rightarrow> [])"

text \<open>The closures of \<open>updatePod\<close> share the flag \<open>newNamespace\<close>, the first component of their state.\<close>

definition showPodState :: "bool \<Rightarrow> PodStatus \<Rightarrow> string \<Rightarrow> string \<Rightarrow> bool \<times> pod_watch \<Rightarrow> bool \<times> pod_watch" where
  "showPodState progress s oldState newState x =
     (case x of (newNs, pw) \<Rightarrow>
        if currentPod pw = ps_UID s \<and> oldState = newState then (newNs, pw)
        else (let pw1 = pw\<lparr>currentPod := ps_UID s\<rparr>;
                  pw2 = (if newNs then display_pod progress ''NS: %s'' [ps_Namespace s] (pw1\<lparr>currentNamespace := ps_Namespace s\<rparr>) else pw1) in
              (False,
               if newState = [] then display_pod progress ''    POD: %s'' [ps_Name s] pw2
               else display_pod progress ''    POD: %s is now %s'' [ps_Name s, newState] pw2)))"

definition showContainer :: "bool \<Rightarrow> PodStatus \<Rightarrow> ContainerStatus \<Rightarrow> string \<Rightarrow> bool \<times> pod_watch \<Rightarrow> bool \<times> pod_watch" where
  "showContainer progress s c state x =
     (let cid = ps_Namespace s @ '':'' @ ps_Name s @ '':'' @ cst_Name c in
      if get_str (cStates (snd x)) cid \<noteq> state then
        (case showPodState progress s [] [] x of (newNs, pw) \<Rightarrow>
           (newNs, display_pod progress ''         CONTAINER: %s is now %s'' [cst_Name c, state] (pw\<lparr>cStates := put cid state (cStates pw)\<rparr>)))
      else x)"

definition fullName :: "PodStatus \<Rightarrow> ContainerStatus \<Rightarrow> string" where
  "fullName s c = ''NS:'' @ ps_Namespace s @ '' POD:'' @ ps_Name s @ '' CONTAINER:'' @ cst_Name c"

text \<open>The loop over the containers; \<open>clk i\<close> is the time that the \<open>i\<close>-th of them reads.\<close>

fun update_containers ::
  "bool \<Rightarrow> (nat \<Rightarrow> int) \<Rightarrow> PodStatus \<Rightarrow> nat \<Rightarrow> ContainerStatus list \<Rightarrow> bool \<times> pod_watch \<Rightarrow> err option \<times> pod_watch" where
  "update_containers progress clk s i [] x = (None, snd x)"
| "update_containers progress clk s i (c # cs) x =
     (if cst_Ready c then update_containers progress clk s (Suc i) cs (showContainer progress s c ''READY'' x)
      else if cst_Reason c = ''ErrImagePull'' \<and> Contains (cst_Message c) ''code = NotFound'' then
        (Some (Errorf ''%s IMAGE:%s not found'' [fullName s c, cst_Image c]), snd (showContainer progress s c ''FAILED'' x))
      else if cst_Reason c = ''ErrImagePull'' then
        (case map_of (podStart (snd x)) (ps_UID s) of
           Some t \<Rightarrow>
             if t + MaxPullTime < clk i then
               (Some (Errorf ''%s IMAGE:%s pull timed out after %v'' [fullName s c, cst_Image c, ''15m0s'']),
                snd (showContainer progress s c ''PULL TIMED OUT'' x))
             else update_containers progress clk s (Suc i) cs (showContainer progress s c (cst_Reason c) x)
         | None \<Rightarrow>
             update_containers progress clk s (Suc i) cs
               (showContainer progress s c (cst_Reason c) (fst x, (snd x)\<lparr>podStart := put (ps_UID s) (clk i) (podStart (snd x))\<rparr>)))
      else update_containers progress clk s (Suc i) cs (showContainer progress s c (cst_Reason c) x))"

definition all_containers :: "PodStatus \<Rightarrow> ContainerStatus list" where
  "all_containers s = ps_Containers s @ ps_InitContainers s"

text \<open>A status comes with the times that its handling reads.\<close>

definition updatePod :: "(PodStatus \<times> (nat \<Rightarrow> int), pod_watch) handler" where
  "updatePod progress sc pw =
     (case sc of (s, clk) \<Rightarrow>
        let newNamespace = (ps_Namespace s \<noteq> currentNamespace pw);
            newState = pod_state s;
            oldState = get_str (podStates pw) (ps_UID s);
            x = (if oldState \<noteq> newState
                 then (case showPodState progress s oldState newState (newNamespace, pw) of (newNs, pw1) \<Rightarrow>
                         (newNs, pw1\<lparr>podStates := put (ps_UID s) newState (podStates pw1)\<rparr>))
                 else (newNamespace, pw)) in
        if newState = ''failed'' then (Some (Errorf ''Pod %s failed to deploy'' [ps_Name s]), snd x)
        else if newState = ''terminating'' then (None, snd x)
        else update_containers progress clk s 0 (all_containers s) x)"

section \<open>Event statuses and their handler\<close>

record raw_event =
  ev_Name :: string
  ev_Namespace :: string
  ev_UID :: string
  ev_Type :: string
  ev_Message :: string
  ev_Reason :: string
  ev_Created :: int

record EventStatus =
  es_Name :: string
  es_UID :: string
  es_Namespace :: string
  es_Message :: string
  es_Type :: string
  es_Reason :: string

definition EventToStatus :: "raw_event \<Rightarrow> EventStatus" where
  "EventToStatus e = \<lparr>es_Name = ev_Name e, es_UID = ev_UID e, es_Namespace = ev_Namespace e, es_Message = ev_Message e,
     es_Type = ev_Type e, es_Reason = ev_Reason e\<rparr>"

definition EventStatus_Equal :: "EventStatus \<Rightarrow> EventStatus \<Rightarrow> bool" where
  "EventStatus_Equal e q = (if es_UID e \<noteq> es_UID q \<or> es_Name e \<noteq> es_Name q \<or> es_Namespace e \<noteq> es_Namespace q then False else True)"

definition GetEventStatus :: "('w, raw_event list) act \<Rightarrow> ('w, EventStatus list) act" where
  "GetEventStatus list_events = abind list_events (\<lambda>es. aret (map EventToStatus es))"

text \<open>Events from before the start of the watch are dropped, and so is an event on another object.\<close>

fun forward_events :: "int \<Rightarrow> raw_event option list \<Rightarrow> EventStatus list" where
  "forward_events start [] = []"
| "forward_events start (None # es) = forward_events start es"
| "forward_events start (Some e # es) =
     (if \<not> ev_Created e < start then EventToStatus e # forward_events start es else forward_events start es)"

definition WatchEventStatus :: "bool \<Rightarrow> bool \<Rightarrow> int \<Rightarrow> raw_event option list result \<Rightarrow> EventStatus list result" where
  "WatchEventStatus nil_ctx nil_client start watch =
     (if nil_ctx then Error (Errorf ''WatchEventStatus: nil context '' [])
      else if nil_client then Error (Errorf ''WatchEventStatus: nil client '' [])
      else rbind watch (\<lambda>es. Ok (forward_events start es)))"

definition errorMsgs :: "string list" where
  "errorMsgs = [''Insufficient memory'', ''Insufficient cpu'']"

type_synonym event_watch = "(string \<times> string list) list"

definition isEventNormal :: "(EventStatus, event_watch) handler" where
  "isEventNormal progress s out =
     (let out' = (if progress then out @ [(''NS: %s Event name: %s Type: %s Message: %s'', [es_Namespace s, es_Name s, es_Type s, es_Message s])]
                  else out) in
      case find (\<lambda>m. Contains (es_Message s) m) errorMsgs of
        Some _ \<Rightarrow> (Some (Errorf ''Event failed due to %s . Message: %s'' [es_Reason s, es_Message s]), out')
      | None \<Rightarrow> (None, out'))"

section \<open>What is forwarded\<close>

lemma PodStatus_Equal_iff:
  "PodStatus_Equal p q \<longleftrightarrow> ps_UID p = ps_UID q \<and> ps_Name p = ps_Name q \<and> ps_Namespace p = ps_Namespace q \<and> ps_Phase p = ps_Phase q \<and>
     ps_Containers p = ps_Containers q \<and> ps_InitContainers p = ps_InitContainers q"
proof -
  have "ContainerStatus_Equal c oc \<longleftrightarrow> c = oc" for c oc by (auto simp: ContainerStatus_Equal_def)
  then have "length cs = length ds \<Longrightarrow> list_all (\<lambda>(c, oc). ContainerStatus_Equal c oc) (zip cs ds) \<longleftrightarrow> cs = ds" for cs ds
    by (simp add: list_all_iff) (metis (no_types, lifting) case_prodD case_prodI2 list_eq_iff_zip_eq)
  then show ?thesis by (auto simp: PodStatus_Equal_def)
qed

definition somes :: "'a option list \<Rightarrow> 'a list" where
  "somes es = concat (map (\<lambda>e. case e of Some x \<Rightarrow> [x] | None \<Rightarrow> []) es)"

lemma somes_simps [simp]: "somes [] = []" "somes (None # es) = somes es" "somes (Some x # es) = x # somes es"
  by (simp_all add: somes_def)

definition last_of :: "string \<Rightarrow> PodStatus list \<Rightarrow> PodStatus option" where
  "last_of uid ss = find (\<lambda>s. ps_UID s = uid) (rev ss)"

lemma last_of_snoc: "last_of uid (ss @ [s]) = (if ps_UID s = uid then Some s else last_of uid ss)"
  by (simp add: last_of_def)

lemma last_of_Nil [simp]: "last_of uid [] = None"
  by (simp add: last_of_def)

text \<open>The reference: a status is news unless it equals the one before it of the same pod.\<close>

definition is_news :: "PodStatus list \<Rightarrow> PodStatus \<Rightarrow> bool" where
  "is_news pre s = (case last_of (ps_UID s) pre of Some os \<Rightarrow> \<not> PodStatus_Equal s os | None \<Rightarrow> True)"

fun news :: "PodStatus list \<Rightarrow> PodStatus list \<Rightarrow> PodStatus list" where
  "news pre [] = []"
| "news pre (s # ss) = (if is_news pre s then [s] else []) @ news (pre @ [s]) ss"

lemma forward_pods_news:
  assumes "\<And>uid. rel_option PodStatus_Equal (map_of seen uid) (last_of uid pre)"
  shows "forward_pods seen es = news pre (map PodToStatus (somes es))"
  using assms
proof (induction es arbitrary: seen pre)
  case (Cons e es)
  show ?case
  proof (cases e)
    case (Some pod)
    define s where "s = PodToStatus pod"
    have r: "rel_option PodStatus_Equal (map_of seen (ps_UID s)) (last_of (ps_UID s) pre)" by (rule Cons.prems)
    then have n: "is_news pre s \<longleftrightarrow> \<not> (case map_of seen (ps_UID s) of Some os \<Rightarrow> PodStatus_Equal s os | None \<Rightarrow> False)"
      by (auto simp: is_news_def PodStatus_Equal_iff split: option.splits elim!: option.rel_cases)
    show ?thesis
    proof (cases "is_news pre s")
      case True
      have "rel_option PodStatus_Equal (map_of (put (ps_UID s) s seen) uid) (last_of uid (pre @ [s]))" for uid
        using Cons.prems [of uid] by (simp add: last_of_snoc PodStatus_Equal_iff [of s s])
      from Cons.IH [OF this] True n show ?thesis by (simp add: Some s_def [symmetric] Let_def)
    next
      case False
      have "rel_option PodStatus_Equal (map_of seen uid) (last_of uid (pre @ [s]))" for uid
        using Cons.prems [of uid] r n False by (auto simp: last_of_snoc PodStatus_Equal_iff split: option.splits elim!: option.rel_cases)
      from Cons.IH [OF this] False n show ?thesis by (simp add: Some s_def [symmetric] Let_def)
    qed
  next
    case None
    then show ?thesis using Cons by simp
  qed
qed simp

lemma news_current:
  "(\<And>uid. rel_option PodStatus_Equal (last_of uid acc) (last_of uid pre)) \<Longrightarrow>
   rel_option PodStatus_Equal (last_of uid (acc @ news pre ss)) (last_of uid (pre @ ss))"
proof (induction ss arbitrary: acc pre)
  case (Cons s ss)
  define acc' where "acc' = acc @ (if is_news pre s then [s] else [])"
  have "rel_option PodStatus_Equal (last_of u acc') (last_of u (pre @ [s]))" for u
    using Cons.prems [of u]
    by (auto simp: acc'_def last_of_snoc is_news_def PodStatus_Equal_iff split: option.splits elim!: option.rel_cases)
  from Cons.IH [OF this] show ?case by (simp add: acc'_def)
qed simp


text \<open>Deletion is not compared: that a pod is being deleted is not news.\<close>

lemma deletion_is_no_news: "forward_pods [] [Some pod, Some (pod\<lparr>rp_Deleted := True\<rparr>)] = [PodToStatus pod]"
  by (simp add: Let_def PodStatus_Equal_iff) (simp add: PodToStatus_def Let_def split: prod.split)

lemma add_containers_eq: "add_containers css ready = (map to_container css, ready \<and> list_all (\<lambda>c. cst_Ready (to_container c)) css)"
proof -
  have "foldl (\<lambda>(cs, rdy) raw. let c = to_container raw in (cs @ [c], rdy \<and> cst_Ready c)) (acc, ready) css =
      (acc @ map to_container css, ready \<and> list_all (\<lambda>c. cst_Ready (to_container c)) css)" for acc
    by (induction css arbitrary: acc ready) (auto simp: Let_def)
  then show ?thesis by (simp add: add_containers_def)
qed

text \<open>A pod is ready if it has containers and each of them is ready or running.\<close>

lemma PodToStatus_Ready:
  "ps_Ready (PodToStatus pod) \<longleftrightarrow>
     (rp_Containers pod \<noteq> [] \<or> rp_InitContainers pod \<noteq> []) \<and>
     (\<forall>c \<in> set (rp_Containers pod) \<union> set (rp_InitContainers pod). rc_Ready c \<or> rc_Running c)"
proof -
  have "cst_Ready (to_container c) \<longleftrightarrow> rc_Ready c \<or> rc_Running c" for c by (auto simp: to_container_def Let_def split: option.split)
  then show ?thesis by (auto simp: PodToStatus_def add_containers_eq list_all_iff)
qed

lemma forward_events_eq: "forward_events start es = map EventToStatus (filter (\<lambda>e. start \<le> ev_Created e) (somes es))"
proof (induction es)
  case (Cons e es)
  then show ?case by (cases e) auto
qed simp

section \<open>Runs of a handler\<close>

fun handle_all :: "('e, 't) handler \<Rightarrow> (bool \<times> 'e) list \<Rightarrow> 't \<Rightarrow> err option \<times> 't" where
  "handle_all update [] st = (None, st)"
| "handle_all update ((progress, e) # es) st =
     (case update progress e st of
        (None, st') \<Rightarrow> handle_all update es st'
      | (Some err, st') \<Rightarrow> (Some err, st'))"

text \<open>
  What both handlers promise: without progress nothing is displayed, and the display is of no consequence.
  \<open>erase\<close> is the state without what was displayed.
\<close>

locale watch_handler =
  fixes update :: "('e, 't) handler" and shown :: "'t \<Rightarrow> (string \<times> string list) list" and erase :: "'t \<Rightarrow> 'u"
  assumes silent: "shown (snd (update False e st)) = shown st"
    and extends: "prefix (shown st) (shown (snd (update progress e st)))"
    and blind: "erase st = erase st' \<Longrightarrow> fst (update p e st) = fst (update q e st') \<and> erase (snd (update p e st)) = erase (snd (update q e st'))"
begin

lemma handle_all_silent:
  "list_all (\<lambda>(p, e). \<not> p) es \<Longrightarrow> shown (snd (handle_all update es st)) = shown st"
proof (induction es arbitrary: st)
  case (Cons x es)
  obtain p e where x: "x = (p, e)" by (cases x)
  obtain r st1 where u: "update False e st = (r, st1)" by fastforce
  have "shown st1 = shown st" using silent [of e st] u by simp
  then show ?case using Cons x u by (cases r) auto
qed simp

lemma handle_all_extends: "prefix (shown st) (shown (snd (handle_all update es st)))"
proof (induction es arbitrary: st)
  case (Cons x es)
  obtain p e where x: "x = (p, e)" by (cases x)
  obtain r st1 where u: "update p e st = (r, st1)" by fastforce
  have "prefix (shown st) (shown st1)" using extends [of st p e] u by simp
  then show ?case using Cons.IH [of st1] x u by (cases r) (auto elim: prefix_order.trans)
qed simp

lemma handle_all_blind:
  "map snd es = map snd es' \<Longrightarrow> erase st = erase st' \<Longrightarrow> fst (handle_all update es st) = fst (handle_all update es' st')"
proof (induction es arbitrary: es' st st')
  case (Cons x es)
  obtain p e where x: "x = (p, e)" by (cases x)
  have "map snd es' = e # map snd es" using Cons.prems(1) by (simp add: x)
  then obtain q es1 where es': "es' = (q, e) # es1" "map snd es = map snd es1" by (auto simp: map_eq_Cons_conv)
  obtain r st1 where u: "update p e st = (r, st1)" by fastforce
  obtain r' st1' where u': "update q e st' = (r', st1')" by fastforce
  have "r' = r" "erase st1 = erase st1'" using blind [OF Cons.prems(2), of p e q] u u' by auto
  then show ?case using Cons.IH [OF es'(2), of st1 st1'] by (cases r) (simp_all add: x es'(1) u u')
qed simp

end

section \<open>What the pod handler decides\<close>

definition pulling :: "ContainerStatus \<Rightarrow> bool" where
  "pulling c \<longleftrightarrow> \<not> cst_Ready c \<and> cst_Reason c = ''ErrImagePull''"

definition pull_fatal :: "(nat \<Rightarrow> int) \<Rightarrow> int option \<Rightarrow> nat \<Rightarrow> ContainerStatus \<Rightarrow> bool" where
  "pull_fatal clk start i c \<longleftrightarrow>
     pulling c \<and> (Contains (cst_Message c) ''code = NotFound'' \<or> (case start of Some t \<Rightarrow> t + MaxPullTime < clk i | None \<Rightarrow> False))"

definition container_error :: "PodStatus \<Rightarrow> ContainerStatus \<Rightarrow> err" where
  "container_error s c =
     (if Contains (cst_Message c) ''code = NotFound'' then Errorf ''%s IMAGE:%s not found'' [fullName s c, cst_Image c]
      else Errorf ''%s IMAGE:%s pull timed out after %v'' [fullName s c, cst_Image c, ''15m0s''])"

definition first_fatal :: "(nat \<Rightarrow> int) \<Rightarrow> int option \<Rightarrow> PodStatus \<Rightarrow> nat \<Rightarrow> ContainerStatus list \<Rightarrow> err option" where
  "first_fatal clk start s i cs =
     map_option (\<lambda>(i, c). container_error s c) (find (\<lambda>(i, c). pull_fatal clk start i c) (List.enumerate i cs))"

text \<open>The verdict on a status, given when the pod was first seen to have trouble with an image.\<close>

definition pod_verdict :: "(nat \<Rightarrow> int) \<Rightarrow> int option \<Rightarrow> PodStatus \<Rightarrow> err option" where
  "pod_verdict clk start s =
     (if pod_state s = ''failed'' then Some (Errorf ''Pod %s failed to deploy'' [ps_Name s])
      else if pod_state s = ''terminating'' then None
      else first_fatal clk start s 0 (all_containers s))"

text \<open>When a status starts the clock of its pod.\<close>

definition first_pulling :: "(nat \<Rightarrow> int) \<Rightarrow> nat \<Rightarrow> ContainerStatus list \<Rightarrow> int option" where
  "first_pulling clk i cs = map_option (\<lambda>(i, c). clk i) (find (\<lambda>(i, c). pulling c) (List.enumerate i cs))"

definition pull_started :: "(nat \<Rightarrow> int) \<Rightarrow> PodStatus \<Rightarrow> int option" where
  "pull_started clk s =
     (if pod_state s \<in> {''failed'', ''terminating''} then None else first_pulling clk 0 (all_containers s))"

fun first_pull :: "string \<Rightarrow> (PodStatus \<times> (nat \<Rightarrow> int)) list \<Rightarrow> int option" where
  "first_pull uid [] = None"
| "first_pull uid ((s, clk) # hist) =
     (if ps_UID s = uid \<and> pull_started clk s \<noteq> None then pull_started clk s else first_pull uid hist)"

lemma first_fatal_simps [simp]:
  "first_fatal clk start s i [] = None"
  "first_fatal clk start s i (c # cs) =
     (if pull_fatal clk start i c then Some (container_error s c) else first_fatal clk start s (Suc i) cs)"
  by (simp_all add: first_fatal_def)

lemma first_pulling_simps [simp]:
  "first_pulling clk i [] = None"
  "first_pulling clk i (c # cs) = (if pulling c then Some (clk i) else first_pulling clk (Suc i) cs)"
  by (simp_all add: first_pulling_def)

lemma display_pod_simps [simp]:
  "podStates (display_pod p f a pw) = podStates pw" "podStart (display_pod p f a pw) = podStart pw"
  "cStates (display_pod p f a pw) = cStates pw" "currentNamespace (display_pod p f a pw) = currentNamespace pw"
  "currentPod (display_pod p f a pw) = currentPod pw" "display_pod False f a pw = pw"
  by (simp_all add: display_pod_def)

lemma show_podStart [simp]:
  "podStart (snd (showPodState p s old new x)) = podStart (snd x)"
  "podStart (snd (showContainer p s c st x)) = podStart (snd x)"
proof -
  show 1: "podStart (snd (showPodState p s old new x)) = podStart (snd x)" for old new
    by (simp add: showPodState_def Let_def split: prod.split)
  show "podStart (snd (showContainer p s c st x)) = podStart (snd x)"
    using 1 [of "[]" "[]"] by (auto simp: showContainer_def Let_def split: prod.split)
qed

text \<open>The times that one update reads are close to each other.\<close>

definition steady :: "(nat \<Rightarrow> int) \<Rightarrow> bool" where
  "steady clk \<longleftrightarrow> (\<forall>i j. clk i \<le> clk j + MaxPullTime)"

lemma update_containers_verdict:
  assumes "steady clk" and "map_of (podStart (snd x)) (ps_UID s) = start \<or> start = None \<and> (\<exists>j. map_of (podStart (snd x)) (ps_UID s) = Some (clk j))"
  shows "fst (update_containers p clk s i cs x) = first_fatal clk start s i cs"
  using assms(2)
proof (induction cs arbitrary: i x)
  case (Cons c cs)
  have late: "\<not> clk j + MaxPullTime < clk i" for j using assms(1) by (simp add: steady_def not_less)
  consider "cst_Ready c" | "\<not> cst_Ready c" "cst_Reason c \<noteq> ''ErrImagePull''"
    | "\<not> cst_Ready c" "cst_Reason c = ''ErrImagePull''" "Contains (cst_Message c) ''code = NotFound''"
    | "\<not> cst_Ready c" "cst_Reason c = ''ErrImagePull''" "\<not> Contains (cst_Message c) ''code = NotFound''" by blast
  then show ?case
  proof cases
    case 4
    show ?thesis
    proof (cases "map_of (podStart (snd x)) (ps_UID s)")
      case None
      let ?y = "(fst x, (snd x)\<lparr>podStart := put (ps_UID s) (clk i) (podStart (snd x))\<rparr>)"
      have "start = None" using Cons.prems None by auto
      then have "fst (update_containers p clk s (Suc i) cs (showContainer p s c ''ErrImagePull'' ?y)) = first_fatal clk start s (Suc i) cs"
        by (intro Cons.IH) auto
      then show ?thesis using 4 None \<open>start = None\<close> by (simp add: pull_fatal_def pulling_def)
    next
      case (Some t)
      have "start = Some t \<or> start = None \<and> (\<exists>j. t = clk j)" using Cons.prems Some by auto
      moreover have "fst (update_containers p clk s (Suc i) cs (showContainer p s c ''ErrImagePull'' x)) = first_fatal clk start s (Suc i) cs"
        by (rule Cons.IH) (use Cons.prems in simp)
      ultimately show ?thesis using 4 Some late by (auto simp: pull_fatal_def pulling_def container_error_def)
    qed
  qed (use Cons in \<open>simp_all add: pull_fatal_def pulling_def container_error_def\<close>)
qed simp

lemma update_containers_start:
  assumes "fst (update_containers p clk s i cs x) = None"
  shows "map_of (podStart (snd (update_containers p clk s i cs x))) uid =
    (case map_of (podStart (snd x)) uid of
       Some t \<Rightarrow> Some t
     | None \<Rightarrow> if uid = ps_UID s then first_pulling clk i cs else None)"
  using assms
proof (induction cs arbitrary: i x)
  case Nil
  then show ?case by (simp split: option.split)
next
  case (Cons c cs)
  consider "cst_Ready c" | "\<not> cst_Ready c" "cst_Reason c \<noteq> ''ErrImagePull''"
    | "\<not> cst_Ready c" "cst_Reason c = ''ErrImagePull''" "Contains (cst_Message c) ''code = NotFound''"
    | "\<not> cst_Ready c" "cst_Reason c = ''ErrImagePull''" "\<not> Contains (cst_Message c) ''code = NotFound''" by blast
  then show ?case
  proof cases
    case 4
    show ?thesis
    proof (cases "map_of (podStart (snd x)) (ps_UID s)")
      case None
      then show ?thesis using 4 Cons by (auto simp: pulling_def split: option.split)
    next
      case (Some t)
      let ?y = "showContainer p s c ''ErrImagePull'' x"
      have r: "update_containers p clk s i (c # cs) x = update_containers p clk s (Suc i) cs ?y"
        using 4 Some Cons.prems by (simp split: if_splits)
      show ?thesis unfolding r using Cons.IH [of "Suc i" ?y] Cons.prems Some unfolding r by (auto simp: pulling_def split: option.split)
    qed
  qed (use Cons in \<open>auto simp: pulling_def split: option.split\<close>)
qed

text \<open>The part of \<open>updatePod\<close> before the containers.\<close>

definition note_state :: "bool \<Rightarrow> PodStatus \<Rightarrow> pod_watch \<Rightarrow> bool \<times> pod_watch" where
  "note_state progress s pw =
     (let newNamespace = (ps_Namespace s \<noteq> currentNamespace pw); oldState = get_str (podStates pw) (ps_UID s) in
      if oldState \<noteq> pod_state s
      then (case showPodState progress s oldState (pod_state s) (newNamespace, pw) of (newNs, pw1) \<Rightarrow>
              (newNs, pw1\<lparr>podStates := put (ps_UID s) (pod_state s) (podStates pw1)\<rparr>))
      else (newNamespace, pw))"

lemma updatePod_eq:
  "updatePod p (s, clk) pw =
     (if pod_state s = ''failed'' then (Some (Errorf ''Pod %s failed to deploy'' [ps_Name s]), snd (note_state p s pw))
      else if pod_state s = ''terminating'' then (None, snd (note_state p s pw))
      else update_containers p clk s 0 (all_containers s) (note_state p s pw))"
  unfolding updatePod_def note_state_def Let_def prod.case ..

lemma note_state_podStart [simp]: "podStart (snd (note_state p s pw)) = podStart pw"
proof -
  have "podStart (snd (showPodState p s old new (b, pw))) = podStart pw" for old new b by simp
  then show ?thesis by (simp add: note_state_def Let_def case_prod_unfold)
qed

lemma updatePod_verdict:
  "steady clk \<Longrightarrow> fst (updatePod p (s, clk) pw) = pod_verdict clk (map_of (podStart pw) (ps_UID s)) s"
  by (simp add: updatePod_eq pod_verdict_def update_containers_verdict)

lemma updatePod_start:
  assumes "fst (updatePod p (s, clk) pw) = None"
  shows "map_of (podStart (snd (updatePod p (s, clk) pw))) uid =
    (case map_of (podStart pw) uid of Some t \<Rightarrow> Some t | None \<Rightarrow> if uid = ps_UID s then pull_started clk s else None)"
  using assms update_containers_start [of p clk s 0 "all_containers s" "note_state p s pw" uid]
  by (auto simp: updatePod_eq pull_started_def split: option.split if_splits)

lemma handle_all_start:
  assumes "handle_all updatePod hist pw = (None, pw')"
  shows "map_of (podStart pw') uid = (case map_of (podStart pw) uid of Some t \<Rightarrow> Some t | None \<Rightarrow> first_pull uid (map snd hist))"
  using assms
proof (induction hist arbitrary: pw)
  case Nil
  then show ?case by (simp split: option.split)
next
  case (Cons x hist)
  obtain p s clk where x: "x = (p, s, clk)" by (cases x)
  obtain pw1 where u: "updatePod p (s, clk) pw = (None, pw1)" and r: "handle_all updatePod hist pw1 = (None, pw')"
    using Cons.prems x by (auto split: prod.splits option.splits)
  have "map_of (podStart pw1) uid =
      (case map_of (podStart pw) uid of Some t \<Rightarrow> Some t | None \<Rightarrow> if uid = ps_UID s then pull_started clk s else None)"
    using updatePod_start [of p s clk pw uid] u by simp
  then show ?case using Cons.IH [OF r] x by (auto split: option.splits)
qed

text \<open>
  C25. What the pod watcher decides on a status is determined by the status and by when its pod first had
  trouble with an image: the pod has failed, or it is not being deleted and has a container whose image does
  not exist, or one that still waits for its image fifteen minutes after that first time; and the error names
  the first such container.
\<close>

theorem pod_watcher_verdict:
  assumes "handle_all updatePod hist new_pod_watch = (None, pw)" and "steady clk"
  shows "fst (updatePod progress (s, clk) pw) = pod_verdict clk (first_pull (ps_UID s) (map snd hist)) s"
  using handle_all_start [OF assms(1), of "ps_UID s"] updatePod_verdict [OF assms(2)] by (simp add: new_pod_watch_def)

section \<open>The handlers keep the contract\<close>

definition erase_out :: "pod_watch \<Rightarrow> pod_watch" where
  "erase_out pw = pw\<lparr>pw_out := []\<rparr>"

lemma erase_out_iff:
  "erase_out pw = erase_out pw' \<longleftrightarrow> podStates pw = podStates pw' \<and> podStart pw = podStart pw' \<and> cStates pw = cStates pw' \<and>
     currentNamespace pw = currentNamespace pw' \<and> currentPod pw = currentPod pw'"
  by (cases pw; cases pw') (auto simp: erase_out_def)

text \<open>How the steps of the handler change what was displayed and what was not.\<close>

definition shows_more :: "bool \<Rightarrow> pod_watch \<Rightarrow> pod_watch \<Rightarrow> bool" where
  "shows_more progress pw pw' \<longleftrightarrow> (if progress then prefix (pw_out pw) (pw_out pw') else pw_out pw' = pw_out pw)"

lemma shows_more_refl [simp]: "shows_more p pw pw"
  by (simp add: shows_more_def)

lemma shows_more_trans: "shows_more p a b \<Longrightarrow> shows_more p b c \<Longrightarrow> shows_more p a c"
  by (auto simp: shows_more_def split: if_splits elim: prefix_order.trans)

lemma display_shows [simp]: "shows_more p pw (display_pod p f a pw')" if "pw_out pw' = pw_out pw"
  using that by (simp add: shows_more_def display_pod_def)

lemma showPodState_shows: "shows_more p (snd x) (snd (showPodState p s old new x))"
  by (auto simp: showPodState_def Let_def shows_more_def display_pod_def split: prod.split)

lemma showContainer_shows: "shows_more p (snd x) (snd (showContainer p s c st x))"
  using showPodState_shows [of p x s "[]" "[]"]
  by (auto simp: showContainer_def Let_def shows_more_def display_pod_def split: prod.split)

lemma update_containers_shows: "shows_more p (snd x) (snd (update_containers p clk s i cs x))"
proof (induction cs arbitrary: i x)
  case (Cons c cs)
  have 1: "shows_more p (snd x) (snd (update_containers p clk s (Suc i) cs (showContainer p s c st x)))" for st x
    by (rule shows_more_trans [OF showContainer_shows Cons.IH])
  have 2: "shows_more p (snd x) (snd (update_containers p clk s (Suc i) cs (showContainer p s c st (fst x, (snd x)\<lparr>podStart := m\<rparr>))))" for st m
    using 1 [of "(fst x, (snd x)\<lparr>podStart := m\<rparr>)" st] by (cases p) (simp_all add: shows_more_def)
  show ?case using 1 2 by (auto simp: showContainer_shows split: option.split)
qed simp

lemma note_state_shows: "shows_more p pw (snd (note_state p s pw))"
  using showPodState_shows [of p "(ps_Namespace s \<noteq> currentNamespace pw, pw)" s "get_str (podStates pw) (ps_UID s)" "pod_state s"]
  by (auto simp: note_state_def Let_def shows_more_def split: prod.split)

lemma updatePod_shows: "shows_more p pw (snd (updatePod p e pw))"
  using note_state_shows shows_more_trans [OF note_state_shows update_containers_shows]
  by (cases e) (auto simp: updatePod_eq)

lemma display_erase [simp]: "erase_out (display_pod p f a pw) = erase_out pw"
  by (simp add: erase_out_def display_pod_def)

lemma showPodState_blind:
  "erase_out pw = erase_out pw' \<Longrightarrow>
   rel_prod (=) (\<lambda>a b. erase_out a = erase_out b) (showPodState p s old new (b, pw)) (showPodState q s old new (b, pw'))"
  by (auto simp: showPodState_def Let_def erase_out_iff)

lemma showContainer_blind:
  assumes "rel_prod (=) (\<lambda>a b. erase_out a = erase_out b) x y"
  shows "rel_prod (=) (\<lambda>a b. erase_out a = erase_out b) (showContainer p s c st x) (showContainer q s c st y)"
proof -
  obtain b pw pw' where xy: "x = (b, pw)" "y = (b, pw')" and e: "erase_out pw = erase_out pw'" using assms by (cases x; cases y) auto
  obtain b1 pw1 where 1: "showPodState p s [] [] (b, pw) = (b1, pw1)" by fastforce
  obtain b2 pw2 where 2: "showPodState q s [] [] (b, pw') = (b2, pw2)" by fastforce
  show ?thesis using showPodState_blind [OF e, of p s "[]" "[]" b q] e by (auto simp: showContainer_def Let_def xy 1 2 erase_out_iff)
qed

lemma update_containers_blind:
  assumes "rel_prod (=) (\<lambda>a b. erase_out a = erase_out b) x y"
  shows "fst (update_containers p clk s i cs x) = fst (update_containers q clk s i cs y) \<and>
    erase_out (snd (update_containers p clk s i cs x)) = erase_out (snd (update_containers q clk s i cs y))"
  using assms
proof (induction cs arbitrary: i x y)
  case Nil
  then show ?case by (auto simp: rel_prod_sel)
next
  case (Cons c cs)
  have eq: "map_of (podStart (snd x)) (ps_UID s) = map_of (podStart (snd y)) (ps_UID s)" "podStart (snd x) = podStart (snd y)"
    using Cons.prems by (auto simp: rel_prod_sel erase_out_iff)
  have sc: "erase_out (snd (showContainer p s c st x)) = erase_out (snd (showContainer q s c st y))" for st
    using showContainer_blind [OF Cons.prems] by (auto simp: rel_prod_sel)
  have y: "rel_prod (=) (\<lambda>a b. erase_out a = erase_out b) (fst x, (snd x)\<lparr>podStart := m\<rparr>) (fst y, (snd y)\<lparr>podStart := m\<rparr>)" for m
    using Cons.prems by (auto simp: rel_prod_sel erase_out_iff)
  note ih = Cons.IH [OF showContainer_blind [OF Cons.prems]] and ih' = Cons.IH [OF showContainer_blind [OF y]]
  show ?case using ih ih' sc eq by (auto split: option.split)
qed

lemma updatePod_blind:
  assumes "erase_out pw = erase_out pw'"
  shows "fst (updatePod p e pw) = fst (updatePod q e pw') \<and> erase_out (snd (updatePod p e pw)) = erase_out (snd (updatePod q e pw'))"
proof -
  obtain s clk where e: "e = (s, clk)" by (cases e)
  have "rel_prod (=) (\<lambda>a b. erase_out a = erase_out b) (note_state p s pw) (note_state q s pw')"
    using showPodState_blind [OF assms, of p s "get_str (podStates pw) (ps_UID s)" "pod_state s" "ps_Namespace s \<noteq> currentNamespace pw" q] assms
    by (auto simp: note_state_def Let_def erase_out_iff split: prod.split)
  from update_containers_blind [OF this] this show ?thesis by (auto simp: e updatePod_eq rel_prod_sel)
qed

interpretation pods: watch_handler updatePod pw_out erase_out
proof
  show "pw_out (snd (updatePod False e st)) = pw_out st" for e st using updatePod_shows [of False st e] by (simp add: shows_more_def)
  show "prefix (pw_out st) (pw_out (snd (updatePod progress e st)))" for st progress e
    using updatePod_shows [of progress st e] by (cases progress) (auto simp: shows_more_def)
qed (rule updatePod_blind)

interpretation events: watch_handler isEventNormal "\<lambda>out. out" "\<lambda>_. ()"
  by unfold_locales (auto simp: isEventNormal_def Let_def split: option.split)

text \<open>
  Showing progress has no consequence: whichever updates of the pods are displayed, the pod watcher comes
  to the same error or to none, and if none are displayed it writes nothing.
\<close>

lemma progress_is_harmless:
  "map snd es = map snd es' \<Longrightarrow> fst (handle_all updatePod es new_pod_watch) = fst (handle_all updatePod es' new_pod_watch) \<and>
   (list_all (\<lambda>(p, e). \<not> p) es \<longrightarrow> pw_out (snd (handle_all updatePod es new_pod_watch)) = [])"
proof (intro conjI impI)
  assume "map snd es = map snd es'"
  then show "fst (handle_all updatePod es new_pod_watch) = fst (handle_all updatePod es' new_pod_watch)"
    using refl by (rule pods.handle_all_blind)
next
  assume "list_all (\<lambda>(p, e). \<not> p) es"
  from pods.handle_all_silent [OF this, of new_pod_watch] show "pw_out (snd (handle_all updatePod es new_pod_watch)) = []"
    by (simp add: new_pod_watch_def)
qed

section \<open>Concrete runs\<close>

text \<open>An event that tells of too little memory.\<close>

definition ex_event :: EventStatus where
  "ex_event = EventToStatus \<lparr>ev_Name = ''r1.17'', ev_Namespace = ''demo'', ev_UID = ''u1'', ev_Type = ''Warning'',
     ev_Message = ''0/1 nodes are available: 1 Insufficient memory.'', ev_Reason = ''FailedScheduling'', ev_Created = 7\<rparr>"

definition ex_failed :: "event_watch watcher" where
  "ex_failed = the (loop_step isEventNormal (Received ex_event) (newWatcher []))"

definition ex_error :: err where
  "ex_error = Errorf ''Event failed due to %s . Message: %s'' [''FailedScheduling'', ''0/1 nodes are available: 1 Insufficient memory.'']"

lemma ex_event_fatal: "isEventNormal False ex_event [] = (Some ex_error, [])"
  by code_simp

lemma ex_loop: "loop_step isEventNormal (Received ex_event) (newWatcher []) = Some ex_failed"
  by (simp add: ex_failed_def loop_step_def newWatcher_def ex_event_fatal)



text \<open>A pod that waits for its image, for too long.\<close>

definition ex_pulling :: PodStatus where
  "ex_pulling = PodToStatus \<lparr>rp_Name = ''r1'', rp_Namespace = ''demo'', rp_UID = ''u1'', rp_Phase = PodPending, rp_Deleted = False,
     rp_Containers = [\<lparr>rc_Name = ''r1'', rc_Image = ''ceos:latest'', rc_Ready = False, rc_Running = False,
       rc_Waiting = Some (''ErrImagePull'', ''i/o timeout'')\<rparr>], rp_InitContainers = []\<rparr>"

definition ex_seen :: pod_watch where
  "ex_seen = snd (handle_all updatePod [(True, ex_pulling, \<lambda>_. 5)] new_pod_watch)"

theorem pod_watcher_verdict_witness:
  "fst (updatePod True (ex_pulling, \<lambda>_. 6 + MaxPullTime) ex_seen) = pod_verdict (\<lambda>_. 6 + MaxPullTime) (Some 5) ex_pulling \<and>
   pod_verdict (\<lambda>_. 6 + MaxPullTime) (Some 5) ex_pulling \<noteq> None"
proof -
  have r: "fst (handle_all updatePod [(True, ex_pulling, \<lambda>_. 5)] new_pod_watch) = None" by code_simp
  then have "handle_all updatePod [(True, ex_pulling, \<lambda>_. 5)] new_pod_watch = (None, ex_seen)" by (simp add: ex_seen_def prod_eq_iff)
  moreover have "steady (\<lambda>_. 6 + MaxPullTime)" by (simp add: steady_def MaxPullTime_def)
  ultimately have "fst (updatePod True (ex_pulling, \<lambda>_. 6 + MaxPullTime) ex_seen) =
      pod_verdict (\<lambda>_. 6 + MaxPullTime) (first_pull (ps_UID ex_pulling) (map snd [(True, ex_pulling, \<lambda>_. 5)])) ex_pulling"
    by (rule pod_watcher_verdict)
  moreover have "first_pull (ps_UID ex_pulling) [(ex_pulling, \<lambda>_. 5)] = Some 5" "pod_verdict (\<lambda>_. 6 + MaxPullTime) (Some 5) ex_pulling \<noteq> None"
    by code_simp+
  ultimately show ?thesis by simp
qed

end
