(* ===== verification/Topo_Manager.thy ===== *)
theory Topo_Manager
  imports Topo_Status Topo_Specs Watchers
begin

text \<open>
  The operations of the topology manager, \<open>topo/topo.go\<close>: \<open>push\<close>, \<open>Create\<close>, \<open>Delete\<close>, \<open>Show\<close>,
  \<open>Resources\<close> and the calls that go to one node. A node object is a record of its operations, the methods of
  the Go interface; the optional interfaces are optional fields. Goroutines over the nodes run in the order of
  the node map, which is arbitrary.
\<close>

section \<open>Nodes and clients\<close>

record 'w nod =
  nd_proto :: node
  nd_ValidateConstraints :: "node \<Rightarrow> ('w, node \<times> unit result) act"
  nd_Create :: "node \<Rightarrow> ('w, unit) act"
  nd_Delete :: "node \<Rightarrow> ('w, unit) act"
  nd_Status :: "node \<Rightarrow> ('w, node_status \<times> err option) act"
  nd_Pods :: "node \<Rightarrow> ('w, pod list) act"
  nd_Services :: "node \<Rightarrow> ('w, k8s_service list) act"
  nd_GenerateSelfSigned :: "(node \<Rightarrow> ('w, unit) act) option"
  nd_ConfigPush :: "(node \<Rightarrow> string \<Rightarrow> ('w, unit) act) option"
  nd_ResetCfg :: "(node \<Rightarrow> ('w, unit) act) option"

text \<open>A status may come with an error, as the Go method has two results.\<close>

type_synonym 'w nodes = "(string, 'w nod) gomap"

text \<open>The clients of a manager: the typed client, the dynamic client's meshnet resources, and its name.\<close>

record 'w mgr =
  mg_kClient :: "'w kube"
  mg_dClient :: "('w, mtopo) api"
  mg_name :: string
  mg_skipDeleteWait :: bool

section \<open>Calls to one node\<close>

definition call_node ::
  "'w nodes \<Rightarrow> string \<Rightarrow> ('w nod \<Rightarrow> ('w, unit) act) \<Rightarrow> ('w, unit) act" where
  "call_node nodes name f =
     (case map_of nodes name of
        None \<Rightarrow> aerr (Errorf ''node %q not found'' [name])
      | Some n \<Rightarrow> f n)"

definition ConfigPush :: "'w nodes \<Rightarrow> string \<Rightarrow> string \<Rightarrow> ('w, unit) act" where
  "ConfigPush nodes name r =
     call_node nodes name (\<lambda>n. case nd_ConfigPush n of
       None \<Rightarrow> aerr (StatusErr Unimplemented ''node %q does not implement ConfigPusher interface'' [name])
     | Some cp \<Rightarrow> cp (nd_proto n) r)"

definition ResetCfg :: "'w nodes \<Rightarrow> string \<Rightarrow> ('w, unit) act" where
  "ResetCfg nodes name =
     call_node nodes name (\<lambda>n. case nd_ResetCfg n of
       None \<Rightarrow> aerr (StatusErr Unimplemented ''node %q does not implement Resetter interface'' [name])
     | Some r \<Rightarrow> r (nd_proto n))"

definition GenerateSelfSigned :: "'w nodes \<Rightarrow> string \<Rightarrow> ('w, unit) act" where
  "GenerateSelfSigned nodes name =
     call_node nodes name (\<lambda>n.
       if cfg_Cert (GetConfig (nd_proto n)) = None then aret ()
       else case nd_GenerateSelfSigned n of
         None \<Rightarrow> aerr (StatusErr Unimplemented ''node %q does not implement Certer interface'' [name])
       | Some c \<Rightarrow> c (nd_proto n))"

section \<open>push\<close>

fun validate_nodes :: "'w nodes \<Rightarrow> ('w, 'w nodes) act" where
  "validate_nodes [] = aret []"
| "validate_nodes ((name, n) # ns) =
     abind (nd_ValidateConstraints n (nd_proto n)) (\<lambda>(pb, r).
       case r of
         Error e \<Rightarrow> aerr (Errorw ''failed to validate node %s: %w'' [name] e)
       | Panic p \<Rightarrow> apanic p
       | Ok _ \<Rightarrow> abind (validate_nodes ns) (\<lambda>ns'. aret ((name, n\<lparr>nd_proto := pb\<rparr>) # ns')))"

definition ensure_namespace :: "'w mgr \<Rightarrow> ('w, unit) act" where
  "ensure_namespace M =
     abind (atry (api_Get (k_Namespaces (mg_kClient M)) [] (mg_name M))) (\<lambda>r.
       case r of
         Ok _ \<Rightarrow> aret ()
       | Error _ \<Rightarrow>
           abind (amap_err (Errorw ''failed to create namespace %q: %w'' [mg_name M])
             (api_Create (k_Namespaces (mg_kClient M)) [] \<lparr>ns_Name = mg_name M, ns_Labels = [(''kne-topology'', ''true'')]\<rparr>)) (\<lambda>_. aret ())
       | Panic p \<Rightarrow> apanic p)"

text \<open>A fan-out keeps the first error and waits for all.\<close>

definition first_err :: "err list \<Rightarrow> unit result" where
  "first_err errs = (case errs of [] \<Rightarrow> Ok () | e # _ \<Rightarrow> Error e)"

definition createMeshnetTopologies :: "'w mgr \<Rightarrow> mtopo list result \<Rightarrow> ('w, unit) act" where
  "createMeshnetTopologies M specs =
     (case specs of
        Error e \<Rightarrow> aerr (Errorv ''could not get meshnet topologies: %v'' [] e)
      | Panic p \<Rightarrow> apanic p
      | Ok topologies \<Rightarrow>
          abind (acollect (\<lambda>t. abind (amap_err (Errorv ''could not create topology for meshnet node %s: %v'' [mt_Name t])
                   (api_Create (mg_dClient M) (mg_name M) t)) (\<lambda>_. aret ())) topologies) (\<lambda>errs.
            alift (first_err errs)))"

definition rename_services :: "node \<Rightarrow> node" where
  "rename_services pb = pb\<lparr>n_Services := map_option (map (\<lambda>(key, s). (key, updateServicePortName s key))) (n_Services pb)\<rparr>"

definition push_node :: "'w nodes \<Rightarrow> string \<times> 'w nod \<Rightarrow> ('w, unit) act" where
  "push_node nodes nn =
     (case nn of (name, n) \<Rightarrow>
        abind (amap_err (Errorw ''failed to create node %s: %w'' [name]) (nd_Create n (nd_proto n))) (\<lambda>_.
          abind (atry (GenerateSelfSigned nodes name)) (\<lambda>r.
            case r of
              Ok _ \<Rightarrow> aret ()
            | Error e \<Rightarrow>
                if status_Code e = Unimplemented then aret ()
                else aerr (Errorw ''failed to generate cert for node %s: %w'' [name] e)
            | Panic p \<Rightarrow> apanic p)))"

text \<open>
  \<open>push\<close> returns the nodes with the constraints and service names that it has filled in. On an error of a node
  the code returns while the goroutines of the others go on; here all of them have run by then.
\<close>

definition push :: "'w mgr \<Rightarrow> mtopo list result \<Rightarrow> 'w nodes \<Rightarrow> ('w, 'w nodes) act" where
  "push M specs nodes =
     abind (validate_nodes nodes) (\<lambda>nodes1.
     abind (ensure_namespace M) (\<lambda>_.
     abind (amap_err (Errorw ''failed to create meshnet topologies: %w'' []) (createMeshnetTopologies M specs)) (\<lambda>_.
       let nodes2 = map (\<lambda>(name, n). (name, n\<lparr>nd_proto := rename_services (nd_proto n)\<rparr>)) nodes1 in
       abind (acollect (push_node nodes2) nodes2) (\<lambda>errs.
         abind (alift (first_err errs)) (\<lambda>_. aret nodes2)))))"

section \<open>Create\<close>

text \<open>
  The watchers of pods and events, which are part of the world, and the usage reports: starting one may fail,
  which is only logged; a started watcher has the last word on the error that \<open>Create\<close> returns, in the reverse
  order of their start.
\<close>

record 'w create_env =
  ce_clock :: "'w clock"
  ce_IsKind :: "('w, bool) act"
  ce_RefreshGAR :: "('w, unit) act"
  ce_Nodes :: "('w, cluster_node list) act option"
  ce_PodWatcher :: "('w, unit) act"
  ce_pods :: "'w \<Rightarrow> pod_watch watcher"
  ce_set_pods :: "pod_watch watcher \<Rightarrow> 'w \<Rightarrow> 'w"
  ce_EventWatcher :: "('w, unit) act"
  ce_events :: "'w \<Rightarrow> event_watch watcher"
  ce_set_events :: "event_watch watcher \<Rightarrow> 'w \<Rightarrow> 'w"
  ce_reportUsage :: bool
  ce_ReportStart :: "('w, unit) act"
  ce_ReportEnd :: "unit result \<Rightarrow> ('w, unit) act"

definition node_status_of :: "'w nodes \<Rightarrow> string \<Rightarrow> ('w, node_status) act" where
  "node_status_of nodes name =
     (case map_of nodes name of
        Some n \<Rightarrow> abind (nd_Status n (nd_proto n)) (\<lambda>(s, eo). case eo of None \<Rightarrow> aret s | Some e \<Rightarrow> aerr e)
      | None \<Rightarrow> apanic ''nil node'')"

definition node_ready_of :: "'w nodes \<Rightarrow> string \<Rightarrow> ('w, bool) act" where
  "node_ready_of nodes name =
     (case map_of nodes name of Some n \<Rightarrow> nodeServicesReady (nd_Services n (nd_proto n)) | None \<Rightarrow> apanic ''nil node'')"

definition has_services :: "'w nodes \<Rightarrow> string \<Rightarrow> bool" where
  "has_services nodes name = (case map_of nodes name of Some n \<Rightarrow> items (n_Services (nd_proto n)) \<noteq> [] | None \<Rightarrow> False)"

text \<open>The part of \<open>Create\<close> that the watchers guard.\<close>

definition create_body ::
  "nat \<Rightarrow> 'w create_env \<Rightarrow> 'w mgr \<Rightarrow> mtopo list result \<Rightarrow> 'w nodes \<Rightarrow> int \<Rightarrow> 'w \<Rightarrow> (unit result \<times> 'w nodes \<times> 'w) option" where
  "create_body fuel E M specs nodes timeout w =
     (case push M specs nodes w of
        (Error e, w1) \<Rightarrow> Some (Error (Errorw ''failed to create topology %q: %w'' [mg_name M] e), nodes, w1)
      | (Panic p, w1) \<Rightarrow> Some (Panic p, nodes, w1)
      | (Ok nodes', w1) \<Rightarrow>
          (case ck_Now (ce_clock E) w1 of
             (Error e, w2) \<Rightarrow> Some (Error e, nodes', w2)
           | (Panic p, w2) \<Rightarrow> Some (Panic p, nodes', w2)
           | (Ok start, w2) \<Rightarrow>
               (case checkNodeStatus fuel (ce_clock E) (node_status_of nodes') (map fst nodes') timeout w2 of
                  None \<Rightarrow> None
                | Some (Error e, w3) \<Rightarrow> Some (Error (Errorw ''failed to check status of nodes in topology %q: %w'' [mg_name M] e), nodes', w3)
                | Some (Panic p, w3) \<Rightarrow> Some (Panic p, nodes', w3)
                | Some (Ok _, w3) \<Rightarrow>
                    (case ck_Now (ce_clock E) w3 of
                       (Error e, w4) \<Rightarrow> Some (Error e, nodes', w4)
                     | (Panic p, w4) \<Rightarrow> Some (Panic p, nodes', w4)
                     | (Ok t, w4) \<Rightarrow>
                         (case checkServiceStatus fuel (ce_clock E) (has_services nodes') (node_ready_of nodes') (map fst nodes')
                            (calculateServiceTimeout timeout (t - start)) w4 of
                            None \<Rightarrow> None
                          | Some (Error e, w5) \<Rightarrow>
                              Some (Error (Errorw ''failed to check status of services in topology %q: %w'' [mg_name M] e), nodes', w5)
                          | Some (Panic p, w5) \<Rightarrow> Some (Panic p, nodes', w5)
                          | Some (Ok _, w5) \<Rightarrow> Some (Ok (), nodes', w5))))))"

text \<open>The access to the image registry is refreshed on a kind cluster; a failure is only logged.\<close>

definition refresh_access :: "'w create_env \<Rightarrow> ('w, unit) act" where
  "refresh_access E =
     abind (atry (ce_IsKind E)) (\<lambda>r.
       case r of
         Ok True \<Rightarrow> abind (atry (ce_RefreshGAR E)) (\<lambda>_. aret ())
       | _ \<Rightarrow> aret ())"

definition PodCleanup :: "'w create_env \<Rightarrow> unit result \<Rightarrow> ('w, unit) act" where
  "PodCleanup E = cleanup_with (ce_pods E) (ce_set_pods E)"

definition EventCleanup :: "'w create_env \<Rightarrow> unit result \<Rightarrow> ('w, unit) act" where
  "EventCleanup E = cleanup_with (ce_events E) (ce_set_events E)"

definition close_watchers :: "'w create_env \<Rightarrow> bool \<Rightarrow> bool \<Rightarrow> unit result \<times> 'w nodes \<times> 'w \<Rightarrow> unit result \<times> 'w nodes \<times> 'w" where
  "close_watchers E pods evs x =
     (case x of (r, nodes', w) \<Rightarrow>
        let (r1, w1) = deferred evs (EventCleanup E) r w; (r2, w2) = deferred pods (PodCleanup E) r1 w1 in (r2, nodes', w2))"

definition report_end :: "'w create_env \<Rightarrow> bool \<Rightarrow> unit result \<times> 'w nodes \<times> 'w \<Rightarrow> unit result \<times> 'w nodes \<times> 'w" where
  "report_end E rep x = (case x of (r, nodes', w) \<Rightarrow>
     (r, nodes', if rep then snd (ce_ReportEnd E (case r of Panic _ \<Rightarrow> Ok () | _ \<Rightarrow> r) w) else w))"

definition Create_topo ::
  "nat \<Rightarrow> 'w create_env \<Rightarrow> 'w mgr \<Rightarrow> mtopo list result \<Rightarrow> 'w nodes \<Rightarrow> int \<Rightarrow> 'w \<Rightarrow> (unit result \<times> 'w nodes \<times> 'w) option" where
  "Create_topo fuel E M specs nodes timeout w =
     (let (rep, w0) = (if ce_reportUsage E then started (ce_ReportStart E) w else (False, w)) in
      case refresh_access E w0 of
        (Panic p, w1) \<Rightarrow> Some (report_end E rep (Panic p, nodes, w1))
      | (_, w1) \<Rightarrow>
      (case waitClusterReady fuel (ce_clock E) (ce_Nodes E) w1 of
         None \<Rightarrow> None
       | Some (Error e, w2) \<Rightarrow>
           Some (report_end E rep (Error (Errorw ''failed waiting for cluster to be ready: %w'' [] e), nodes, w2))
       | Some (Panic p, w2) \<Rightarrow> Some (report_end E rep (Panic p, nodes, w2))
       | Some (Ok _, w2) \<Rightarrow>
           (let (pods, w3) = started (ce_PodWatcher E) w2; (evs, w4) = started (ce_EventWatcher E) w3 in
            map_option (\<lambda>x. report_end E rep (close_watchers E pods evs x)) (create_body fuel E M specs nodes timeout w4))))"

section \<open>Delete\<close>

text \<open>The watch of the namespaces: the end of the context, the end of the watch, or an event on an object.\<close>

datatype ns_event = NSCtxDone | NSClosed | NSEvent bool "string option"

fun waitNSDeleted :: "string \<Rightarrow> ns_event list \<Rightarrow> unit result option" where
  "waitNSDeleted ns [] = None"
| "waitNSDeleted ns (NSCtxDone # es) = Some (Error (Errorf ''context canceled before namespace deleted'' []))"
| "waitNSDeleted ns (NSClosed # es) = Some (Error (Errorf ''no more watch events'' []))"
| "waitNSDeleted ns (NSEvent deleted None # es) = waitNSDeleted ns es"
| "waitNSDeleted ns (NSEvent deleted (Some n) # es) =
     (if n \<noteq> ns then waitNSDeleted ns es else if deleted then Some (Ok ()) else waitNSDeleted ns es)"

definition topologyResources :: "'w mgr \<Rightarrow> ('w, mtopo list) act" where
  "topologyResources M = amap_err (Errorv ''failed to get topology CRDs: %v'' []) (api_List (mg_dClient M) (mg_name M) None)"

definition deleteMeshnetTopologies :: "'w mgr \<Rightarrow> ('w, unit) act" where
  "deleteMeshnetTopologies M =
     abind (amap_err (Errorw ''failed to get meshnet nodes: %w'' []) (topologyResources M)) (\<lambda>ts.
       abind (acollect (\<lambda>t. amap_err (Errorw ''failed to delete meshnet node %q: %w'' [mt_Name t])
                (api_Delete (mg_dClient M) (mg_name M) (mt_Name t))) ts) (\<lambda>errs.
         alift (join_errs errs)))"

definition delete_namespace :: "'w mgr \<Rightarrow> ('w, unit) act" where
  "delete_namespace M =
     amap_err (Errorw ''failed to delete namespace %q: %w'' [mg_name M]) (api_Delete (k_Namespaces (mg_kClient M)) [] (mg_name M))"

text \<open>\<open>watch\<close> is what the watch of the namespaces reports; \<open>None\<close>: the wait does not end.\<close>

definition Delete_topo :: "'w mgr \<Rightarrow> 'w nodes \<Rightarrow> (ns_event list result) \<Rightarrow> 'w \<Rightarrow> (unit result \<times> 'w) option" where
  "Delete_topo M nodes watch w =
     (case atry (api_Get (k_Namespaces (mg_kClient M)) [] (mg_name M)) w of
        (Ok (Ok _), w1) \<Rightarrow>
          (case acollect (\<lambda>(_, n). nd_Delete n (nd_proto n)) nodes w1 of
             (Ok _, w2) \<Rightarrow>
               (case atry (deleteMeshnetTopologies M) w2 of
                  (Ok _, w3) \<Rightarrow>
                    (case delete_namespace M w3 of
                       (Ok _, w4) \<Rightarrow>
                         if mg_skipDeleteWait M then Some (Ok (), w4)
                         else (case watch of
                                 Error e \<Rightarrow> Some (Error (Errorw ''failed to wait for namespace %q deletion: %w'' [mg_name M] e), w4)
                               | Panic p \<Rightarrow> Some (Panic p, w4)
                               | Ok evs \<Rightarrow>
                                   (case waitNSDeleted (mg_name M) evs of
                                      None \<Rightarrow> None
                                    | Some (Error e) \<Rightarrow>
                                        Some (Error (Errorw ''failed to wait for namespace %q deletion: %w'' [mg_name M] e), w4)
                                    | Some r \<Rightarrow> Some (r, w4)))
                     | (r, w4) \<Rightarrow> Some (r, w4))
                | (Panic p, w3) \<Rightarrow> Some (Panic p, w3)
                | (Error e, w3) \<Rightarrow> Some (Error e, w3))
           | (Panic p, w2) \<Rightarrow> Some (Panic p, w2)
           | (Error e, w2) \<Rightarrow> Some (Error e, w2))
      | (Ok (Error _), w1) \<Rightarrow> Some (Error (Errorf ''topology %q does not exist in cluster'' [mg_name M]), w1)
      | (Ok (Panic p), w1) \<Rightarrow> Some (Panic p, w1)
      | (Error e, w1) \<Rightarrow> Some (Error e, w1)
      | (Panic p, w1) \<Rightarrow> Some (Panic p, w1))"

section \<open>Show\<close>

record resources_of =
  rs_Pods :: "(string, pod list) gomap"
  rs_Services :: "(string, k8s_service list) gomap"
  rs_Topologies :: "(string, mtopo) gomap"

definition node_resources :: "string \<times> 'w nod \<Rightarrow> ('w, pod list \<times> k8s_service list) act" where
  "node_resources nn =
     (case nn of (name, n) \<Rightarrow>
        abind (amap_err (Errorv ''could not get pods for node %s: %v'' [name]) (nd_Pods n (nd_proto n))) (\<lambda>pods.
          abind (amap_err (Errorv ''could not get services for node %s: %v'' [name]) (nd_Services n (nd_proto n))) (\<lambda>svcs.
            aret (pods, svcs))))"

fun gather_resources :: "'w nodes \<Rightarrow> ('w, resources_of \<times> err list) act" where
  "gather_resources [] = aret (\<lparr>rs_Pods = [], rs_Services = [], rs_Topologies = []\<rparr>, [])"
| "gather_resources ((name, n) # ns) =
     abind (atry (node_resources (name, n))) (\<lambda>r.
       abind (gather_resources ns) (\<lambda>(rs, errs).
         aret (case r of
                 Ok (pods, svcs) \<Rightarrow> (rs\<lparr>rs_Pods := put name pods (rs_Pods rs), rs_Services := put name svcs (rs_Services rs)\<rparr>, errs)
               | Error e \<Rightarrow> (rs, e # errs)
               | Panic _ \<Rightarrow> (rs, errs))))"

definition Resources :: "'w mgr \<Rightarrow> 'w nodes \<Rightarrow> ('w, resources_of) act" where
  "Resources M nodes =
     abind (gather_resources nodes) (\<lambda>(rs, errs).
       abind (alift (first_err errs)) (\<lambda>_.
         abind (topologyResources M) (\<lambda>ts.
           aret (rs\<lparr>rs_Topologies := foldl (\<lambda>m t. put (mt_Name t) t m) [] ts\<rparr>))))"

text \<open>One node of the topology with its pod address and the addresses of its services.\<close>

definition show_node :: "resources_of \<Rightarrow> node \<Rightarrow> node result" where
  "show_node rs n =
     (case map_of (rs_Pods rs) (n_Name n) of
        Some (pod # _) \<Rightarrow>
          (let n1 = n\<lparr>n_PodIp := pd_PodIP pod\<rparr> in
           if items (n_Services n1) = [] then Ok n1
           else (case map_of (rs_Services rs) (n_Name n1) of
                   None \<Rightarrow> Error (Errorf ''services for node %s not found'' [n_Name n1])
                 | Some svcs \<Rightarrow> rbind (populate_all svcs (items (n_Services n1))) (\<lambda>m. Ok (n1\<lparr>n_Services := Some m\<rparr>))))
      | _ \<Rightarrow> Error (Errorf ''pods for node %s not found'' [n_Name n]))"

text \<open>The error of a status check is ignored, the state that came with it is not.\<close>

fun gather_states :: "'w nodes \<Rightarrow> ('w, state_map) act" where
  "gather_states [] = aret []"
| "gather_states ((name, n) # ns) =
     abind (nd_Status n (nd_proto n)) (\<lambda>(s, _).
       abind (gather_states ns) (\<lambda>m.
         aret (setNodeState m name s)))"

definition Show :: "'w mgr \<Rightarrow> 'w nodes \<Rightarrow> node list \<Rightarrow> ('w, topology_state \<times> node list) act" where
  "Show M nodes topo_nodes =
     abind (Resources M nodes) (\<lambda>rs.
       abind (alift (mapM (show_node rs) topo_nodes)) (\<lambda>ns.
         abind (gather_states nodes) (\<lambda>m.
           aret (topologyState m, ns))))"

section \<open>Nothing is created on a host that does not fit\<close>

lemma validate_nodes_keeps:
  "(\<forall>(name, n) \<in> set nodes. keeps view (nd_ValidateConstraints n (nd_proto n))) \<Longrightarrow> keeps view (validate_nodes nodes)"
  by (induction nodes rule: validate_nodes.induct) (auto intro!: keeps_intros split: result.split)

lemma validate_nodes_Ok:
  "validate_nodes nodes w = (Ok nodes', w') \<Longrightarrow>
     map fst nodes' = map fst nodes \<and>
     list_all2 (\<lambda>(k, n) (k', n'). k' = k \<and> (\<exists>pb. n' = n\<lparr>nd_proto := pb\<rparr>) \<and>
       (\<exists>v v'. nd_ValidateConstraints n (nd_proto n) v = (Ok (nd_proto n', Ok ()), v'))) nodes nodes'"
proof (induction nodes arbitrary: w nodes' rule: validate_nodes.induct)
  case (2 name n ns)
  from "2.prems" obtain pb r w1 where v: "nd_ValidateConstraints n (nd_proto n) w = (Ok (pb, r), w1)"
    and k: "(case r of Error e \<Rightarrow> aerr (Errorw ''failed to validate node %s: %w'' [name] e) | Panic p \<Rightarrow> apanic p
       | Ok _ \<Rightarrow> abind (validate_nodes ns) (\<lambda>ns'. aret ((name, n\<lparr>nd_proto := pb\<rparr>) # ns'))) w1 = (Ok nodes', w')"
    by (auto elim: abind_OkD)
  have r: "r = Ok ()" using k by (cases r) simp_all
  from k obtain ns' where ns': "validate_nodes ns w1 = (Ok ns', w')" "nodes' = (name, n\<lparr>nd_proto := pb\<rparr>) # ns'"
    by (auto simp: r elim!: abind_OkD)
  from "2.IH" [OF ns'(1)] v r show ?case by (auto simp: ns'(2))
qed simp

text \<open>
  C15. If the host does not satisfy the constraints of one of the nodes, \<open>push\<close> fails before it has created
  anything: no namespace, no link resource and no node. \<open>view\<close> is any part of the cluster's state that reading
  kernel parameters leaves alone.
\<close>

theorem push_validates_first:
  assumes "\<forall>(name, n) \<in> set nodes. keeps view (nd_ValidateConstraints n (nd_proto n))"
    and "(name, n) \<in> set nodes" and "\<And>v v' pb. nd_ValidateConstraints n (nd_proto n) v \<noteq> (Ok (pb, Ok ()), v')"
    and "push M specs nodes w = (r, w')"
  shows "\<not> is_Ok r \<and> view w' = view w"
proof -
  obtain q w1 where q: "validate_nodes nodes w = (q, w1)" by fastforce
  have "\<nexists>ns'. q = Ok ns'"
  proof
    assume "\<exists>ns'. q = Ok ns'"
    then obtain ns' where "validate_nodes nodes w = (Ok ns', w1)" using q by auto
    from validate_nodes_Ok [OF this] assms(2,3) show False by (fastforce simp: list_all2_conv_all_nth in_set_conv_nth)
  qed
  then have "\<not> is_Ok r \<and> w' = w1" using assms(4) q by (cases q) (auto simp: push_def)
  then show ?thesis using keepsD [OF validate_nodes_keeps [OF assms(1)] q] by simp
qed

section \<open>What a successful push has made\<close>

text \<open>
  What \<open>push\<close> needs of the cluster: namespaces and link resources behave as the API promises, and creating a
  node or its certificate leaves both alone. A node has the name it is listed under, and validating it does
  not rename it.
\<close>

definition push_env ::
  "('w, namespace) view \<Rightarrow> ('w, mtopo) view \<Rightarrow> 'w mgr \<Rightarrow> 'w nodes \<Rightarrow> bool" where
  "push_env nv tv M nodes \<longleftrightarrow>
     api_ok ns_Name ns_Labels (\<lambda>x y. True) nv (k_Namespaces (mg_kClient M)) \<and>
     create_ok mt_Name (\<lambda>x y. True) tv (mg_dClient M) \<and>
     api_frame tv (k_Namespaces (mg_kClient M)) \<and> api_frame nv (mg_dClient M) \<and>
     (\<forall>(name, n) \<in> set nodes. n_Name (nd_proto n) = name \<and>
        (\<forall>pb v pb' r v'. nd_ValidateConstraints n pb v = (Ok (pb', r), v') \<longrightarrow> n_Name pb' = n_Name pb)) \<and>
     (\<forall>(name, n) \<in> set nodes. \<forall>pb.
        keeps nv (nd_ValidateConstraints n pb) \<and> keeps tv (nd_ValidateConstraints n pb) \<and>
        keeps nv (nd_Create n pb) \<and> keeps tv (nd_Create n pb) \<and>
        (\<forall>c. nd_GenerateSelfSigned n = Some c \<longrightarrow> keeps nv (c pb) \<and> keeps tv (c pb)))"

lemma acollect_stable: "(\<And>x. x \<in> set xs \<Longrightarrow> stable P (f x)) \<Longrightarrow> stable P (acollect f xs)"
  by (induction xs) (auto intro!: stable_abind stable_atry stable_aret split: result.split)

lemma acollect_nil:
  assumes "acollect f xs w = (Ok [], w')" and "\<And>x y. x \<in> set xs \<Longrightarrow> y \<in> set xs \<Longrightarrow> stable (P x) (f y)"
    and "\<And>x v v'. x \<in> set xs \<Longrightarrow> f x v = (Ok (), v') \<Longrightarrow> P x v'"
  shows "\<forall>x \<in> set xs. P x w'"
  using assms
proof (induction xs arbitrary: w)
  case (Cons x xs)
  from Cons.prems(1) obtain r w1 es where r: "atry (f x) w = (Ok r, w1)" and es: "acollect f xs w1 = (Ok es, w')"
    and nil: "(case r of Error e \<Rightarrow> e # es | _ \<Rightarrow> es) = []"
    by (auto elim!: abind_OkD)
  from nil have "es = []" "\<nexists>e. r = Error e" by (cases r; simp)+
  moreover have f: "f x w = (r, w1)" "\<nexists>p. r = Panic p" using r by (auto simp: atry_def split: prod.splits result.splits)
  ultimately have x: "f x w = (Ok (), w1)" by (cases r) auto
  have rest: "acollect f xs w1 = (Ok [], w')" using es \<open>es = []\<close> by simp
  have "stable (P x) (acollect f xs)" by (rule acollect_stable) (use Cons.prems(2) [of x] in auto)
  moreover have "P x w1" using Cons.prems(3) x by auto
  ultimately have "P x w'" using rest by (rule stableD)
  moreover have "\<forall>y \<in> set xs. P y w'"
    by (rule Cons.IH [OF rest]) (use Cons.prems in auto)
  ultimately show ?case by simp
qed simp

lemma ensure_namespace_made:
  assumes ok: "api_ok ns_Name ns_Labels (\<lambda>x y. True) nv (k_Namespaces (mg_kClient M))"
    and run: "ensure_namespace M w = (Ok (), w')"
  shows "nv w' ([], mg_name M) \<noteq> None"
proof -
  let ?api = "k_Namespaces (mg_kClient M)"
  have c: "create_ok ns_Name (\<lambda>x y. True) nv ?api" "get_ok nv ?api" using ok by (simp_all add: api_ok_def)
  obtain q w1 where q: "api_Get ?api [] (mg_name M) w = (q, w1)" by fastforce
  from c(2) q show ?thesis
  proof (cases rule: get_cases)
    case (found x)
    then show ?thesis using run q by (simp add: ensure_namespace_def atry_def abind_def)
  next
    case (failed e)
    let ?ns = "\<lparr>ns_Name = mg_name M, ns_Labels = [(''kne-topology'', ''true'')]\<rparr>"
    obtain x where "api_Create ?api [] ?ns w1 = (Ok x, w')"
      using run q failed by (auto simp: ensure_namespace_def atry_def abind_def amap_err_def split: prod.splits result.splits)
    from c(1) this show ?thesis by (cases rule: create_cases) auto
  qed
qed

lemma first_err_Ok [simp]: "first_err es = Ok u \<longleftrightarrow> es = []"
  by (cases es) (simp_all add: first_err_def)

lemma keeps_stable: "keeps view m \<Longrightarrow> stable (\<lambda>w. P (view w)) m"
  by (auto simp: keeps_def stable_def) (metis snd_conv)

lemma createMeshnet_made:
  assumes ok: "create_ok mt_Name (\<lambda>x y. True) tv (mg_dClient M)"
    and run: "createMeshnetTopologies M (Ok topos) w = (Ok (), w')"
  shows "\<forall>t \<in> set topos. tv w' (mg_name M, mt_Name t) \<noteq> None"
proof -
  let ?f = "\<lambda>t. abind (amap_err (Errorv ''could not create topology for meshnet node %s: %v'' [mt_Name t])
                   (api_Create (mg_dClient M) (mg_name M) t)) (\<lambda>_. aret ())"
  have f: "\<exists>r. api_Create (mg_dClient M) (mg_name M) t v = (r, v') \<and> (r' = Ok () \<longrightarrow> is_Ok r)" if "?f t v = (r', v')" for t v r' v'
    using that by (auto simp: abind_def amap_err_def split: prod.splits result.splits)
  from run have "acollect ?f topos w = (Ok [], w')"
    by (auto simp: createMeshnetTopologies_def elim!: abind_OkD)
  then show ?thesis
  proof (rule acollect_nil)
    fix x y
    show "stable (\<lambda>w. tv w (mg_name M, mt_Name x) \<noteq> None) (?f y)"
    proof (rule stableI)
      fix v r' v' assume ex: "tv v (mg_name M, mt_Name x) \<noteq> None" and y: "?f y v = (r', v')"
      from f [OF y] obtain r where "api_Create (mg_dClient M) (mg_name M) y v = (r, v')" by blast
      with ok show "tv v' (mg_name M, mt_Name x) \<noteq> None" by (cases rule: create_cases) (use ex in auto)
    qed
  next
    fix x v v' assume "?f x v = (Ok (), v')"
    from f [OF this] obtain r where r: "api_Create (mg_dClient M) (mg_name M) x v = (r, v')" "is_Ok r" by auto
    from ok r(1) show "tv v' (mg_name M, mt_Name x) \<noteq> None" by (cases rule: create_cases) (use r(2) in auto)
  qed
qed

lemma call_node_stable: "(\<And>n. (name, n) \<in> set nodes \<Longrightarrow> stable P (f n)) \<Longrightarrow> stable P (call_node nodes name f)"
  by (auto simp: call_node_def intro: stable_aret dest: map_of_SomeD split: option.split)

lemma push_node_stable:
  assumes "\<And>name n pb. (name, n) \<in> set nodes \<Longrightarrow> stable P (nd_Create n pb) \<and> (\<forall>c. nd_GenerateSelfSigned n = Some c \<longrightarrow> stable P (c pb))"
    and "nn \<in> set nodes"
  shows "stable P (push_node nodes nn)"
proof -
  have g: "stable P (GenerateSelfSigned nodes name)" for name
    unfolding GenerateSelfSigned_def
    by (rule call_node_stable) (use assms(1) in \<open>auto intro: stable_aret split: option.split\<close>)
  obtain name n where nn: "nn = (name, n)" by (cases nn)
  have "stable P (amap_err f (nd_Create n pb))" for f pb
    using assms nn by (auto simp: stable_def amap_err_def split: prod.splits result.splits)
  then show ?thesis unfolding push_node_def nn prod.case
    by (intro stable_abind stable_atry g) (auto intro: stable_aret split: result.split)
qed

lemma push_OkE:
  assumes "push M specs nodes w = (Ok nodes', w')"
  obtains nodes1 w1 w2 w3 where "validate_nodes nodes w = (Ok nodes1, w1)" "ensure_namespace M w1 = (Ok (), w2)"
    "createMeshnetTopologies M specs w2 = (Ok (), w3)"
    "nodes' = map (\<lambda>(name, n). (name, n\<lparr>nd_proto := rename_services (nd_proto n)\<rparr>)) nodes1"
    "acollect (push_node nodes') nodes' w3 = (Ok [], w')"
  using assms unfolding push_def Let_def
  by (auto simp: amap_err_Ok elim!: abind_OkD)

lemma pushed_nodes:
  assumes "validate_nodes nodes w = (Ok nodes1, w1)"
    and "nodes' = map (\<lambda>(name, n). (name, n\<lparr>nd_proto := rename_services (nd_proto n)\<rparr>)) nodes1"
  shows "list_all2 (\<lambda>(k, n) (k', n'). k' = k \<and> (\<exists>pb. n' = n\<lparr>nd_proto := rename_services pb\<rparr> \<and>
    (\<exists>v v'. nd_ValidateConstraints n (nd_proto n) v = (Ok (pb, Ok ()), v')))) nodes nodes'"
  using validate_nodes_Ok [OF assms(1)]
  by (fastforce simp: assms(2) list_all2_map2 elim!: list_all2_mono)

lemma pushed_names: "list_all2 (\<lambda>(k, n) (k', n'). k' = k \<and> Q n n') nodes nodes' \<Longrightarrow> map fst nodes' = map fst nodes"
  by (induction rule: list_all2_induct) auto

text \<open>The node objects that are created are those that were validated, with another description of the same name.\<close>

lemma pushed_origin:
  assumes env: "push_env nv tv M nodes" and v: "validate_nodes nodes w = (Ok nodes1, w1)"
    and nodes': "nodes' = map (\<lambda>(name, n). (name, n\<lparr>nd_proto := rename_services (nd_proto n)\<rparr>)) nodes1"
    and mem: "(name, n') \<in> set nodes'"
  obtains n where "(name, n) \<in> set nodes" "nd_Create n' = nd_Create n" "nd_GenerateSelfSigned n' = nd_GenerateSelfSigned n"
    "n_Name (nd_proto n') = name"
proof -
  from pushed_nodes [OF v nodes'] mem obtain n pb u u' where n: "(name, n) \<in> set nodes" "n' = n\<lparr>nd_proto := rename_services pb\<rparr>"
    "nd_ValidateConstraints n (nd_proto n) u = (Ok (pb, Ok ()), u')"
    by (fastforce simp: list_all2_conv_all_nth in_set_conv_nth)
  have "\<forall>(name, n) \<in> set nodes. n_Name (nd_proto n) = name \<and>
      (\<forall>pb v pb' r v'. nd_ValidateConstraints n pb v = (Ok (pb', r), v') \<longrightarrow> n_Name pb' = n_Name pb)"
    using env unfolding push_env_def by blast
  from bspec [OF this n(1)] n(3) have "n_Name pb = name" by (simp only: prod.case)
  with n that show thesis by (auto simp: rename_services_def)
qed

text \<open>What the creation of a node establishes holds once its goroutine is done, if certificates do not undo it.\<close>

lemma push_node_establishes:
  assumes "\<And>name n pb c. (name, n) \<in> set nodes \<Longrightarrow> nd_GenerateSelfSigned n = Some c \<Longrightarrow> stable P (c pb)"
    and run: "push_node nodes (name, n) v = (Ok (), v')"
    and made: "\<And>v1. nd_Create n (nd_proto n) v = (Ok (), v1) \<Longrightarrow> P v1"
  shows "P v'"
proof -
  let ?rest = "abind (atry (GenerateSelfSigned nodes name)) (\<lambda>r. case r of Ok _ \<Rightarrow> aret ()
        | Error e \<Rightarrow> if status_Code e = Unimplemented then aret ()
            else aerr (Errorw ''failed to generate cert for node %s: %w'' [name] e)
        | Panic p \<Rightarrow> apanic p)"
  from run obtain v1 where c: "nd_Create n (nd_proto n) v = (Ok (), v1)" and rest: "?rest v1 = (Ok (), v')"
    by (auto simp: push_node_def amap_err_Ok elim!: abind_OkD)
  have "stable P (GenerateSelfSigned nodes name)"
    unfolding GenerateSelfSigned_def
    by (rule call_node_stable) (use assms(1) in \<open>auto intro: stable_aret split: option.split\<close>)
  then have "stable P ?rest"
    by (intro stable_abind stable_atry) (auto intro: stable_aret split: result.split)
  then show ?thesis using made [OF c] rest by (rule stableD)
qed

text \<open>
  C14. A successful \<open>push\<close> has made everything: the namespace exists, every link resource of the topology exists
  in it, and every node has been created. \<open>Made\<close> is any fact that a node's \<open>Create\<close> establishes and that the
  work on the other nodes does not undo.
\<close>

theorem push_complete:
  assumes env: "push_env nv tv M nodes" and run: "push M (Ok topos) nodes w = (Ok nodes', w')"
    and made: "\<And>name n pb v v'. (name, n) \<in> set nodes \<Longrightarrow> n_Name pb = name \<Longrightarrow> nd_Create n pb v = (Ok (), v') \<Longrightarrow> Made name v'"
    and st: "\<And>m name n pb. (name, n) \<in> set nodes \<Longrightarrow> stable (Made m) (nd_Create n pb) \<and>
      (\<forall>c. nd_GenerateSelfSigned n = Some c \<longrightarrow> stable (Made m) (c pb))"
  shows "nv w' ([], mg_name M) \<noteq> None \<and> (\<forall>t \<in> set topos. tv w' (mg_name M, mt_Name t) \<noteq> None) \<and>
    (\<forall>(name, n) \<in> set nodes. Made name w')"
proof -
  from run obtain nodes1 w1 w2 w3 where p: "validate_nodes nodes w = (Ok nodes1, w1)" "ensure_namespace M w1 = (Ok (), w2)"
    "createMeshnetTopologies M (Ok topos) w2 = (Ok (), w3)"
    "nodes' = map (\<lambda>(name, n). (name, n\<lparr>nd_proto := rename_services (nd_proto n)\<rparr>)) nodes1"
    "acollect (push_node nodes') nodes' w3 = (Ok [], w')" by (rule push_OkE)
  have origin: "\<exists>n. (name, n) \<in> set nodes \<and> nd_Create n' = nd_Create n \<and> nd_GenerateSelfSigned n' = nd_GenerateSelfSigned n \<and>
      n_Name (nd_proto n') = name" if "(name, n') \<in> set nodes'" for name n'
    using pushed_origin [OF env p(1,4) that] by blast
  have ks: "keeps nv (nd_Create n pb)" "keeps tv (nd_Create n pb)" "nd_GenerateSelfSigned n = Some c \<Longrightarrow> keeps nv (c pb) \<and> keeps tv (c pb)"
    if "(name, n) \<in> set nodes" for name n pb c using env that by (fastforce simp: push_env_def)+
  have stab: "stable Q (push_node nodes' nn)"
    if "nn \<in> set nodes'" and "\<And>name n pb. (name, n) \<in> set nodes \<Longrightarrow> stable Q (nd_Create n pb) \<and>
      (\<forall>c. nd_GenerateSelfSigned n = Some c \<longrightarrow> stable Q (c pb))" for Q nn
    by (rule push_node_stable [OF _ that(1)]) (use origin that(2) in fastforce)
  have "keeps nv (createMeshnetTopologies M (Ok topos))"
    unfolding createMeshnetTopologies_def using env by (auto simp: push_env_def intro!: keeps_intros)
  then have "nv w3 = nv w2" using p(3) by (rule keepsD)
  then have ns3: "nv w3 ([], mg_name M) \<noteq> None"
    using ensure_namespace_made [OF _ p(2), of nv] env by (simp add: push_env_def)
  have "stable (\<lambda>w. nv w ([], mg_name M) \<noteq> None) (acollect (push_node nodes') nodes')"
    by (intro acollect_stable stab) (use ks in \<open>auto intro: keeps_stable [of nv]\<close>)
  then have ns: "nv w' ([], mg_name M) \<noteq> None" using ns3 p(5) by (rule stableD)
  have ts: "tv w' (mg_name M, mt_Name t) \<noteq> None" if "t \<in> set topos" for t
  proof -
    have "stable (\<lambda>w. tv w (mg_name M, mt_Name t) \<noteq> None) (acollect (push_node nodes') nodes')"
      by (intro acollect_stable stab) (use ks in \<open>auto intro: keeps_stable [of tv]\<close>)
    moreover have "tv w3 (mg_name M, mt_Name t) \<noteq> None"
      using createMeshnet_made [OF _ p(3), of tv] env that by (simp add: push_env_def)
    ultimately show ?thesis using p(5) by (rule stableD)
  qed
  have "\<forall>nn \<in> set nodes'. Made (fst nn) w'"
  proof (rule acollect_nil [OF p(5)])
    show "stable (Made (fst x)) (push_node nodes' y)" if "x \<in> set nodes'" "y \<in> set nodes'" for x y
      using stab [OF that(2)] st by blast
    fix x v v' assume x: "x \<in> set nodes'" "push_node nodes' x v = (Ok (), v')"
    show "Made (fst x) v'"
    proof (rule push_node_establishes [where nodes = nodes' and name = "fst x" and n = "snd x" and v = v])
      show "stable (Made (fst x)) (c pb)" if "(name, n) \<in> set nodes'" "nd_GenerateSelfSigned n = Some c" for name n pb c
        using origin [OF that(1)] that(2) st by metis
      show "Made (fst x) v1" if "nd_Create (snd x) (nd_proto (snd x)) v = (Ok (), v1)" for v1
        using origin [of "fst x" "snd x"] x(1) that made by (metis prod.collapse)
    qed (use x in simp)
  qed
  moreover have "set (map fst nodes') = set (map fst nodes)" by (simp only: pushed_names [OF pushed_nodes [OF p(1,4)]])
  ultimately have "\<forall>(name, n) \<in> set nodes. Made name w'" by (force simp: image_iff)
  with ns ts show ?thesis by blast
qed

section \<open>What a successful deletion has removed\<close>

lemma waitNSDeleted_Ok: "waitNSDeleted ns es = Some (Ok ()) \<Longrightarrow> NSEvent True (Some ns) \<in> set es"
  by (induction ns es rule: waitNSDeleted.induct) (auto split: if_splits)

lemma acollect_all:
  assumes "acollect f xs w = (Ok es, w')" and "\<And>x y. x \<in> set xs \<Longrightarrow> y \<in> set xs \<Longrightarrow> stable (P x) (f y)"
    and "\<And>x v r v'. x \<in> set xs \<Longrightarrow> f x v = (r, v') \<Longrightarrow> \<nexists>p. r = Panic p \<Longrightarrow> P x v'"
  shows "\<forall>x \<in> set xs. P x w'"
  using assms
proof (induction xs arbitrary: w es)
  case (Cons x xs)
  from Cons.prems(1) obtain r w1 es' where r: "atry (f x) w = (Ok r, w1)" and es: "acollect f xs w1 = (Ok es', w')"
    by (auto elim!: abind_OkD)
  have f: "f x w = (r, w1)" "\<nexists>p. r = Panic p" using r by (auto simp: atry_def split: prod.splits result.splits)
  have "stable (P x) (acollect f xs)" by (rule acollect_stable) (use Cons.prems(2) [of x] in auto)
  moreover have "P x w1" using Cons.prems(3) [OF _ f] by simp
  ultimately have "P x w'" using es by (rule stableD)
  moreover have "\<forall>y \<in> set xs. P y w'" by (rule Cons.IH [OF es]) (use Cons.prems in auto)
  ultimately show ?case by simp
qed simp

lemma Delete_topo_OkE:
  assumes "Delete_topo M nodes watch w = Some (Ok (), w')"
  obtains es r w1 w2 w3 where "acollect (\<lambda>(_, n). nd_Delete n (nd_proto n)) nodes w1 = (Ok es, w2)"
    "atry (deleteMeshnetTopologies M) w2 = (Ok r, w3)" "delete_namespace M w3 = (Ok (), w')"
    "mg_skipDeleteWait M \<or> (\<exists>evs. watch = Ok evs \<and> waitNSDeleted (mg_name M) evs = Some (Ok ()))"
  using assms unfolding Delete_topo_def
  by (auto split: prod.splits result.splits option.splits if_splits)


section \<open>What \<open>Show\<close> says\<close>

text \<open>
  A snapshot: what the reading operations of the nodes answer as long as \<open>view\<close> of the world is \<open>x\<close>, and that
  they leave \<open>view\<close> alone.
\<close>

definition snapshot ::
  "('w \<Rightarrow> 'v) \<Rightarrow> 'v \<Rightarrow> (string \<Rightarrow> node_status) \<Rightarrow> (string \<Rightarrow> pod list) \<Rightarrow> (string \<Rightarrow> k8s_service list) \<Rightarrow> 'w nodes \<Rightarrow> bool" where
  "snapshot view x stat pods svcs nodes \<longleftrightarrow>
     (\<forall>(name, n) \<in> set nodes. \<forall>v. view v = x \<longrightarrow>
        (\<exists>v'. nd_Pods n (nd_proto n) v = (Ok (pods name), v') \<and> view v' = x) \<and>
        (\<exists>v'. nd_Services n (nd_proto n) v = (Ok (svcs name), v') \<and> view v' = x) \<and>
        (\<exists>eo v'. nd_Status n (nd_proto n) v = (Ok (stat name, eo), v') \<and> view v' = x))"

lemma snapshot_Cons: "snapshot view x stat pods svcs ((name, n) # ns) \<Longrightarrow> snapshot view x stat pods svcs ns"
  by (simp add: snapshot_def)

lemma gather_states_snapshot:
  "snapshot view x stat pods svcs nodes \<Longrightarrow> view w = x \<Longrightarrow>
   \<exists>m w'. gather_states nodes w = (Ok m, w') \<and> wf_map m \<and> set m = {(name, stat name) | name. name \<in> fst ` set nodes}"
proof (induction nodes arbitrary: w rule: gather_states.induct)
  case (2 name n ns)
  obtain eo w1 where s: "nd_Status n (nd_proto n) w = (Ok (stat name, eo), w1)" "view w1 = x"
    using "2.prems" by (fastforce simp: snapshot_def)
  obtain m w' where ih: "gather_states ns w1 = (Ok m, w')" "wf_map m" "set m = {(name, stat name) | name. name \<in> fst ` set ns}"
    using "2.IH" [OF snapshot_Cons [OF "2.prems"(1)] s(2)] by blast
  have "set (put name (stat name) m) = {(k, stat k) | k. k \<in> fst ` set ((name, n) # ns)}"
    using ih(2,3) by (auto simp: set_eq_iff map_of_eq_iff_mem [symmetric] wf_map_put split: if_splits)
  then show ?case using ih by (simp add: abind_def s setNodeState_def)
qed (simp add: wf_map_def)

lemma gather_resources_snapshot:
  "snapshot view x stat pods svcs nodes \<Longrightarrow> view w = x \<Longrightarrow>
   \<exists>rs w'. gather_resources nodes w = (Ok (rs, []), w') \<and> view w' = x \<and>
     (\<forall>name. map_of (rs_Pods rs) name = (if name \<in> fst ` set nodes then Some (pods name) else None)) \<and>
     (\<forall>name. map_of (rs_Services rs) name = (if name \<in> fst ` set nodes then Some (svcs name) else None))"
proof (induction nodes arbitrary: w rule: gather_resources.induct)
  case (2 name n ns)
  obtain w1 where p: "nd_Pods n (nd_proto n) w = (Ok (pods name), w1)" "view w1 = x"
    using "2.prems" by (fastforce simp: snapshot_def)
  obtain w2 where s: "nd_Services n (nd_proto n) w1 = (Ok (svcs name), w2)" "view w2 = x"
    using "2.prems"(1) p(2) by (fastforce simp: snapshot_def)
  have r: "atry (node_resources (name, n)) w = (Ok (Ok (pods name, svcs name)), w2)"
    by (simp add: node_resources_def atry_def abind_def amap_err_def p(1) s(1))
  obtain rs w' where ih: "gather_resources ns w2 = (Ok (rs, []), w')" "view w' = x"
    "\<forall>name. map_of (rs_Pods rs) name = (if name \<in> fst ` set ns then Some (pods name) else None)"
    "\<forall>name. map_of (rs_Services rs) name = (if name \<in> fst ` set ns then Some (svcs name) else None)"
    using "2.IH" [OF snapshot_Cons [OF "2.prems"(1)] s(2)] by blast
  then show ?case by (simp add: abind_def r)
qed simp

text \<open>What \<open>Show\<close> makes of a node: the address of its first pod and the addresses of its services.\<close>

definition shown_as :: "(string \<Rightarrow> pod list) \<Rightarrow> (string \<Rightarrow> k8s_service list) \<Rightarrow> node \<Rightarrow> node \<Rightarrow> bool" where
  "shown_as pods svcs n n' \<longleftrightarrow>
     (\<exists>pod rest. pods (n_Name n) = pod # rest \<and>
        (if items (n_Services n) = [] then n' = n\<lparr>n_PodIp := pd_PodIP pod\<rparr>
         else \<exists>m. populate_all (svcs (n_Name n)) (items (n_Services n)) = Ok m \<and>
                n' = n\<lparr>n_PodIp := pd_PodIP pod, n_Services := Some m\<rparr>))"

lemma show_node_iff:
  assumes "\<forall>name. map_of (rs_Pods rs) name = (if name \<in> S then Some (pods name) else None)"
    "\<forall>name. map_of (rs_Services rs) name = (if name \<in> S then Some (svcs name) else None)" "n_Name n \<in> S"
  shows "show_node rs n = Ok n' \<longleftrightarrow> shown_as pods svcs n n'"
  using assms by (cases "pods (n_Name n)") (auto simp: show_node_def shown_as_def Let_def)

text \<open>
  C18. \<open>Show\<close> on a cluster that does not change meanwhile: it succeeds exactly if every node of the topology has
  a pod and services that fit its service map, and then it reports each node with the address of its first pod
  and the addresses of its services. The state is running exactly if there are nodes and all of them say they
  are running, and an error exactly if one says that it has failed.
\<close>

theorem Show_reports:
  assumes snap: "snapshot view (view w) stat pods svcs nodes" and dyn: "keeps view (api_List (mg_dClient M) (mg_name M) None)"
    and tops: "\<And>v. is_Ok (fst (api_List (mg_dClient M) (mg_name M) None v))"
    and known: "\<And>n. n \<in> set topo_nodes \<Longrightarrow> n_Name n \<in> set (map fst nodes)"
  shows "\<exists>r st w'. Show M nodes topo_nodes w = (r, w') \<and>
    (\<forall>x. r = Ok x \<longleftrightarrow> (\<exists>ns. x = (st, ns) \<and> list_all2 (shown_as pods svcs) topo_nodes ns)) \<and>
    (st = TS_RUNNING \<longleftrightarrow> nodes \<noteq> [] \<and> (\<forall>name \<in> set (map fst nodes). stat name = StatusRunning)) \<and>
    (st = TS_ERROR \<longleftrightarrow> (\<exists>name \<in> set (map fst nodes). stat name = StatusFailed))"
proof -
  obtain rs w1 where rs: "gather_resources nodes w = (Ok (rs, []), w1)" "view w1 = view w"
    "\<forall>name. map_of (rs_Pods rs) name = (if name \<in> fst ` set nodes then Some (pods name) else None)"
    "\<forall>name. map_of (rs_Services rs) name = (if name \<in> fst ` set nodes then Some (svcs name) else None)"
    using gather_resources_snapshot [OF snap refl] by blast
  have "keeps view (topologyResources M)" unfolding topologyResources_def by (intro keeps_intros dyn)
  moreover obtain q w2 where q: "topologyResources M w1 = (q, w2)" by fastforce
  ultimately have w2: "view w2 = view w" using rs(2) keepsD by metis
  have "is_Ok q" using tops [of w1] q by (auto simp: topologyResources_def amap_err_def split: prod.splits result.splits)
  then obtain ts where ts: "q = Ok ts" by (auto simp: is_Ok_iff)
  define rs' where "rs' = rs\<lparr>rs_Topologies := foldl (\<lambda>m t. put (mt_Name t) t m) [] ts\<rparr>"
  have R: "Resources M nodes w = (Ok rs', w2)"
    by (simp add: Resources_def abind_def rs(1) first_err_def q ts rs'_def)
  obtain m w3 where m: "gather_states nodes w2 = (Ok m, w3)" "wf_map m" "set m = {(name, stat name) | name. name \<in> fst ` set nodes}"
    using gather_states_snapshot [OF snap w2] by blast
  have sn: "show_node rs' n = Ok n' \<longleftrightarrow> shown_as pods svcs n n'" if "n \<in> set topo_nodes" for n n'
    by (rule show_node_iff [of _ "fst ` set nodes"]) (use rs(3,4) known [OF that] in \<open>simp_all add: rs'_def\<close>)
  have ns: "mapM (show_node rs') topo_nodes = Ok ns \<longleftrightarrow> list_all2 (shown_as pods svcs) topo_nodes ns" for ns
    unfolding mapM_Ok_iff using sn by (auto simp: list_all2_conv_all_nth)
  have run: "\<exists>r w'. Show M nodes topo_nodes w = (r, w') \<and>
      (\<forall>x. r = Ok x \<longleftrightarrow> (\<exists>ns. x = (topologyState m, ns) \<and> mapM (show_node rs') topo_nodes = Ok ns))"
    by (cases "mapM (show_node rs') topo_nodes") (auto simp: Show_def abind_def R m(1))
  have im: "snd ` set m = stat ` fst ` set nodes" by (force simp: m(3))
  have "(topologyState m = TS_ERROR \<longleftrightarrow> StatusFailed \<in> snd ` set m) \<and> (topologyState m = TS_RUNNING \<longleftrightarrow> snd ` set m = {StatusRunning})"
    using topologyState_cases [of m] by blast
  moreover have "StatusFailed \<in> snd ` set m \<longleftrightarrow> (\<exists>name \<in> set (map fst nodes). stat name = StatusFailed)"
    unfolding im set_map image_iff [of StatusFailed] by (simp only: eq_commute)
  moreover have "snd ` set m = {StatusRunning} \<longleftrightarrow> nodes \<noteq> [] \<and> (\<forall>name \<in> set (map fst nodes). stat name = StatusRunning)"
    unfolding im by (cases nodes) auto
  moreover obtain r w' where "Show M nodes topo_nodes w = (r, w')"
    "\<forall>x. r = Ok x \<longleftrightarrow> (\<exists>ns. x = (topologyState m, ns) \<and> list_all2 (shown_as pods svcs) topo_nodes ns)"
    using run unfolding ns by (elim exE conjE)
  ultimately show ?thesis by (intro exI [of _ r] exI [of _ "topologyState m"] exI [of _ w'] conjI) simp_all
qed

section \<open>What a successful creation means\<close>

lemma poll_no_timeout: "poll fuel ck start 0 round pause s w = Some (Ok (s', b), w') \<Longrightarrow> b"
proof (induction fuel arbitrary: s w)
  case (Suc fuel)
  then show ?case by (auto split: prod.splits result.splits bool.splits)
qed simp

text \<open>What the clock and the cleanups leave alone.\<close>

definition env_stable :: "('w \<Rightarrow> bool) \<Rightarrow> 'w create_env \<Rightarrow> bool" where
  "env_stable Q E \<longleftrightarrow>
     stable Q (ck_Now (ce_clock E)) \<and> stable Q (ck_CtxErr (ce_clock E)) \<and>
     (\<forall>t. stable Q (ck_Sleep (ce_clock E) t) \<and> stable Q (ck_Wait (ce_clock E) t)) \<and>
     (\<forall>w x y. Q w \<longrightarrow> Q (ce_set_pods E x w) \<and> Q (ce_set_events E y w)) \<and> (\<forall>r. stable Q (ce_ReportEnd E r))"

lemma env_stable_cleanups: "env_stable Q E \<Longrightarrow> stable Q (EventCleanup E r) \<and> stable Q (PodCleanup E r)"
  unfolding env_stable_def stable_def [of Q "EventCleanup E r"] stable_def [of Q "PodCleanup E r"]
  by (auto simp: EventCleanup_def PodCleanup_def cleanup_with_def split: prod.splits)

text \<open>Without a timeout the check of the nodes returns only when every node has said that it is running.\<close>

lemma checkNodeStatus_no_timeout:
  assumes run: "checkNodeStatus fuel ck status names 0 w = Some (Ok pend, w')"
    and st: "\<And>m n. stable (Ran m) (status n)" "\<And>m. stable (Ran m) (ck_Now ck)" "\<And>m t. stable (Ran m) (ck_Sleep ck t)"
    and est: "\<And>n v v'. status n v = (Ok StatusRunning, v') \<Longrightarrow> Ran n v'"
  shows "\<forall>n \<in> set names. Ran n w'"
proof -
  obtain start w1 where now: "ck_Now ck w = (Ok start, w1)"
    using run by (auto simp: checkNodeStatus_def split: prod.splits result.splits)
  obtain ps b where p: "poll fuel ck start 0 (status_round status names) (ck_Sleep ck pollInterval) [] w1 = Some (Ok (ps, b), w')"
    using run by (auto simp: checkNodeStatus_def now)
  have "(\<forall>n \<in> set ps. Ran n w') \<and> (b \<longrightarrow> set names \<subseteq> set ps)"
  proof (rule poll_sound [where I = "\<lambda>ps w. \<forall>n \<in> set ps. Ran n w" and P = "\<lambda>ps w. set names \<subseteq> set ps", OF _ _ _ p])
    show "(\<forall>n \<in> set ps'. Ran n u') \<and> (b' \<longrightarrow> set names \<subseteq> set ps')"
      if "\<forall>n \<in> set ps. Ran n u" "status_round status names ps u = (Ok (ps', b'), u')" for ps u ps' b' u'
      by (rule status_round_sound [where Run = Ran, OF st(1) _ that]) (rule est)
    show "stable (\<lambda>w. \<forall>n \<in> set ps. Ran n w) (ck_Now ck)" for ps by (rule stable_Ball [OF st(2)])
    show "stable (\<lambda>w. \<forall>n \<in> set ps. Ran n w) (ck_Sleep ck pollInterval)" for ps by (rule stable_Ball [OF st(3)])
  qed simp
  then show ?thesis using poll_no_timeout [OF p] by auto
qed

lemma checkServiceStatus_stable:
  assumes run: "checkServiceStatus fuel ck hs ready names timeout w = Some (Ok pend, w')" and q: "Q w"
    and st: "\<And>n. stable Q (ready n)" "stable Q (ck_Now ck)" "stable Q (ck_CtxErr ck)" "\<And>t. stable Q (ck_Wait ck t)"
  shows "Q w'"
proof -
  obtain start w1 where now: "ck_Now ck w = (Ok start, w1)"
    using run by (auto simp: checkServiceStatus_def split: prod.splits result.splits)
  obtain ps b where p: "poll fuel ck start timeout (service_round ck hs ready names) (service_pause ck) [] w1 = Some (Ok (ps, b), w')"
    using run by (auto simp: checkServiceStatus_def now)
  have sr: "stable Q (service_round ck hs ready names ps)" for ps
    unfolding service_round_def Let_def
    by (intro stable_abind st) (auto intro!: stable_abind stable_gather stable_aret st split: option.split)
  have "Q w' \<and> (b \<longrightarrow> True)"
  proof (rule poll_sound [where I = "\<lambda>ps. Q" and P = "\<lambda>ps w. True", OF _ _ _ p])
    show "Q u' \<and> (b' \<longrightarrow> True)" if "Q u" "service_round ck hs ready names ps u = (Ok (ps', b'), u')" for ps u ps' b' u'
      using stableD [OF sr that] by simp
    show "stable Q (service_pause ck)"
      unfolding service_pause_def by (intro stable_abind st) (auto intro!: stable_aret split: option.split)
    show "Q w1" by (rule stableD [OF st(2) q now])
  qed (rule st(2))
  then show ?thesis ..
qed

lemma deferred_stable: "(\<And>r. stable Q (c r)) \<Longrightarrow> Q w \<Longrightarrow> Q (snd (deferred b c r w))"
  by (cases rule: deferred_cases [of b c r w]) (auto intro: stableD [OF _ _ prod.collapse [symmetric]])

lemma Create_topo_OkE:
  assumes run: "Create_topo fuel E M specs nodes timeout w = Some (Ok (), nodes', w')"
  obtains v v' where "create_body fuel E M specs nodes timeout v = Some (Ok (), nodes', v')" "\<forall>Q. env_stable Q E \<longrightarrow> Q v' \<longrightarrow> Q w'"
proof -
  from run obtain v x evs pods rep where b: "create_body fuel E M specs nodes timeout v = Some x"
    and x: "report_end E rep (close_watchers E pods evs x) = (Ok (), nodes', w')"
    unfolding Create_topo_def Let_def
    by (auto simp: report_end_def [of _ _ "(Error _, _)"] report_end_def [of _ _ "(Panic _, _)"] split: option.splits result.splits prod.splits)
  obtain r ns v' where xr: "x = (r, ns, v')" by (cases x)
  obtain r1 w1 where d1: "deferred evs (EventCleanup E) r v' = (r1, w1)" by fastforce
  obtain r2 w2 where d2: "deferred pods (PodCleanup E) r1 w1 = (r2, w2)" by fastforce
  have r2: "r2 = Ok ()" "ns = nodes'" "w' = (if rep then snd (ce_ReportEnd E r2 w2) else w2)"
    using x by (auto simp: report_end_def close_watchers_def xr d1 d2 split: result.splits)
  have "r1 = Ok ()" by (rule deferred_cleanup_Ok [OF d2 [unfolded r2(1) PodCleanup_def]])
  have "r = Ok ()" by (rule deferred_cleanup_Ok [OF d1 [unfolded \<open>r1 = Ok ()\<close> EventCleanup_def]])
  moreover have "\<forall>Q. env_stable Q E \<longrightarrow> Q v' \<longrightarrow> Q w'"
  proof (intro allI impI)
    fix Q assume q: "env_stable Q E" "Q v'"
    have "Q w1" using deferred_stable [of Q "EventCleanup E" v' evs r] env_stable_cleanups [OF q(1)] q(2) d1 by simp
    then have "Q w2" using deferred_stable [of Q "PodCleanup E" w1 pods r1] env_stable_cleanups [OF q(1)] d2 by simp
    moreover have "stable Q (ce_ReportEnd E r2)" using q(1) by (simp add: env_stable_def)
    ultimately have "Q (snd (ce_ReportEnd E r2 w2))" by (auto intro: stableD [OF _ _ prod.collapse [symmetric]])
    with \<open>Q w2\<close> show "Q w'" by (simp add: r2(3))
  qed
  ultimately show thesis using b that [of v v'] by (simp add: r2(2) xr)
qed

lemma create_body_OkE:
  assumes "create_body fuel E M specs nodes timeout w = Some (Ok (), nodes', w')"
  obtains w1 w2 w3 w4 start pend t pend' where "push M specs nodes w = (Ok nodes', w1)" "ck_Now (ce_clock E) w1 = (Ok start, w2)"
    "checkNodeStatus fuel (ce_clock E) (node_status_of nodes') (map fst nodes') timeout w2 = Some (Ok pend, w3)"
    "ck_Now (ce_clock E) w3 = (Ok t, w4)"
    "checkServiceStatus fuel (ce_clock E) (has_services nodes') (node_ready_of nodes') (map fst nodes')
       (calculateServiceTimeout timeout (t - start)) w4 = Some (Ok pend', w')"
  using assms unfolding create_body_def
  by (auto split: prod.splits result.splits option.splits)

lemma nodeServicesReady_stable: "stable Q m \<Longrightarrow> stable Q (nodeServicesReady m)"
  unfolding nodeServicesReady_def
  by (intro stable_abind stable_atry) (auto split: result.split simp: stable_def)

text \<open>What the operations on the nodes of a map keep and establish, if the operations of its node objects do.\<close>

lemma node_calls_stable:
  assumes "\<And>name n. (name, n) \<in> set nodes \<Longrightarrow> stable P (nd_Status n (nd_proto n)) \<and> stable P (nd_Services n (nd_proto n))"
  shows "stable P (node_status_of nodes name)" and "stable P (node_ready_of nodes name)"
proof -
  show "stable P (node_status_of nodes name)"
  proof (cases "map_of nodes name")
    case (Some n)
    with assms have "stable P (nd_Status n (nd_proto n))" by (blast dest: map_of_SomeD)
    then show ?thesis unfolding node_status_of_def Some option.case
      by (rule stable_abind) (auto intro: stable_aret split: option.split)
  qed (simp add: node_status_of_def stable_aret)
  show "stable P (node_ready_of nodes name)"
  proof (cases "map_of nodes name")
    case (Some n)
    with assms have "stable P (nd_Services n (nd_proto n))" by (blast dest: map_of_SomeD)
    then show ?thesis unfolding node_ready_of_def Some option.case by (rule nodeServicesReady_stable)
  qed (simp add: node_ready_of_def stable_aret)
qed

lemma node_status_running:
  assumes "node_status_of nodes name u = (Ok StatusRunning, u')"
  obtains n where "(name, n) \<in> set nodes" "nd_Status n (nd_proto n) u = (Ok (StatusRunning, None), u')"
  using assms by (auto simp: node_status_of_def elim!: abind_OkD split: option.splits dest: map_of_SomeD)

text \<open>
  C16. If \<open>Create\<close> without a timeout succeeds, then \<open>push\<close> has succeeded and every node of the topology has
  reported, without an error, that it is running. \<open>Ran\<close> is any fact that such a report of a node establishes
  and that nothing undoes. The watchers may turn success into an error but not the other way round.
\<close>

theorem Create_means_running:
  assumes run: "Create_topo fuel E M specs nodes 0 w = Some (Ok (), nodes', w')"
    and est: "\<And>name n pb v v'. (name, n) \<in> set nodes \<Longrightarrow> nd_Status n pb v = (Ok (StatusRunning, None), v') \<Longrightarrow> Ran name v'"
    and st: "\<And>m name n pb. (name, n) \<in> set nodes \<Longrightarrow> stable (Ran m) (nd_Status n pb) \<and> stable (Ran m) (nd_Services n pb)"
    and env: "\<And>m. env_stable (Ran m) E"
  shows "map fst nodes' = map fst nodes \<and> (\<exists>v v'. push M specs nodes v = (Ok nodes', v')) \<and> (\<forall>name \<in> set (map fst nodes). Ran name w')"
proof -
  obtain v v' where b: "create_body fuel E M specs nodes 0 v = Some (Ok (), nodes', v')" and fin: "\<forall>Q. env_stable Q E \<longrightarrow> Q v' \<longrightarrow> Q w'"
    by (rule Create_topo_OkE [OF run])
  from b obtain w1 w2 w3 w4 start pend t pend' where p: "push M specs nodes v = (Ok nodes', w1)"
    and c: "checkNodeStatus fuel (ce_clock E) (node_status_of nodes') (map fst nodes') 0 w2 = Some (Ok pend, w3)"
    and now: "ck_Now (ce_clock E) w3 = (Ok t, w4)"
    and sv: "checkServiceStatus fuel (ce_clock E) (has_services nodes') (node_ready_of nodes') (map fst nodes')
       (calculateServiceTimeout 0 (t - start)) w4 = Some (Ok pend', v')"
    by (rule create_body_OkE)
  from p obtain nodes1 u1 where "validate_nodes nodes v = (Ok nodes1, u1)"
    "nodes' = map (\<lambda>(name, n). (name, n\<lparr>nd_proto := rename_services (nd_proto n)\<rparr>)) nodes1"
    by (rule push_OkE)
  from pushed_nodes [OF this] have rel: "list_all2 (\<lambda>(name, n) (name', n'). name' = name \<and> (\<exists>pb. n' = n\<lparr>nd_proto := pb\<rparr>)) nodes nodes'"
    by (rule list_all2_mono) auto
  then have names: "map fst nodes' = map fst nodes" by (rule pushed_names)
  have same: "\<exists>n pb. (name, n) \<in> set nodes \<and> n' = n\<lparr>nd_proto := pb\<rparr>" if "(name, n') \<in> set nodes'" for name n'
    using that rel by (fastforce simp: list_all2_conv_all_nth in_set_conv_nth)
  have calls: "stable (Ran m) (nd_Status n' (nd_proto n')) \<and> stable (Ran m) (nd_Services n' (nd_proto n'))"
    if "(name, n') \<in> set nodes'" for m name n'
    using same [OF that] st by fastforce
  note s12 = node_calls_stable [OF calls]
  have s3: "Ran name u'" if "node_status_of nodes' name u = (Ok StatusRunning, u')" for name u u'
    using that by (rule node_status_running) (use same est in fastforce)
  have "\<forall>name \<in> set (map fst nodes'). Ran name w3"
    by (rule checkNodeStatus_no_timeout [OF c s12(1)]) (use env s3 in \<open>auto simp: env_stable_def\<close>)
  moreover have "Ran name w4" if "Ran name w3" for name
  proof -
    have "stable (Ran name) (ck_Now (ce_clock E))" using env [of name] by (simp add: env_stable_def)
    then show ?thesis using that now by (rule stableD)
  qed
  moreover have "Ran name v'" if "Ran name w4" for name
    by (rule checkServiceStatus_stable [OF sv that s12(2)]) (use env in \<open>auto simp: env_stable_def\<close>)
  ultimately show ?thesis using names p fin env by metis
qed

section \<open>Nodes of the base implementation in an in-memory cluster\<close>

text \<open>A node that uses the base implementation of every method.\<close>

definition base_status :: "'w kube \<Rightarrow> string \<Rightarrow> node \<Rightarrow> ('w, node_status \<times> err option) act" where
  "base_status K ns pb =
     abind (atry (Status K ns pb)) (\<lambda>r.
       case r of Ok s \<Rightarrow> aret (s, None) | Error e \<Rightarrow> aret (StatusUnknown, Some e) | Panic p \<Rightarrow> apanic p)"

definition base_nod :: "'w kube \<Rightarrow> 'w os \<Rightarrow> (string \<Rightarrow> bool) \<Rightarrow> string \<Rightarrow> string \<Rightarrow> node \<Rightarrow> 'w nod" where
  "base_nod K F quantity ns bp pb =
     \<lparr>nd_proto = pb, nd_ValidateConstraints = ValidateConstraints (kernelConstraintValueImpl F),
      nd_Create = Create K F quantity ns bp, nd_Delete = Delete K F ns, nd_Status = base_status K ns,
      nd_Pods = Pods K ns, nd_Services = Services K ns, nd_GenerateSelfSigned = None, nd_ConfigPush = None, nd_ResetCfg = None\<rparr>"

lemma validate_loop_keeps: "(\<And>n. keeps view (kval n)) \<Longrightarrow> keeps view (validate_loop kval hcs errs)"
proof (induction hcs arbitrary: errs)
  case (Cons hc hcs)
  then show ?case by (cases hc) (auto simp: Let_def intro!: keeps_intros split: prod.split)
qed (simp add: keeps_aret)

lemma ValidateConstraints_keeps:
  "os_frame view F \<Longrightarrow> keeps view (ValidateConstraints (kernelConstraintValueImpl F) pb)"
  unfolding ValidateConstraints_def kernelConstraintValueImpl_def
  by (intro keeps_intros validate_loop_keeps) (simp_all add: os_frameD keeps_intros)

lemma ValidateConstraints_name: "ValidateConstraints kval pb v = (Ok (pb', r), v') \<Longrightarrow> n_Name pb' = n_Name pb"
  by (auto simp: ValidateConstraints_def elim!: abind_OkD)

lemma Create_keeps:
  assumes "api_frame view (k_Pods K)" "api_frame view (k_ConfigMaps K)" "api_frame view (k_Services K)" "api_frame view (k_DaemonSets K)"
    "os_frame view F"
  shows "keeps view (Create K F quantity ns bp pb)"
  unfolding Create_def CreatePod_def attach_config_def
  by (auto intro!: keeps_intros CreateConfig_keeps CreateService_keeps assms split: option.split)

lemma Create_pod_exists:
  assumes ok: "cluster_ok sv pv cv K F" and run: "Create K F quantity ns bp pb w = (Ok (), w')"
  shows "pv w' (ns, n_Name pb) \<noteq> None"
proof -
  from run obtain w1 where p: "CreatePod K F quantity ns bp pb w = (Ok (), w1)" and s: "CreateService K ns pb w1 = (Ok (), w')"
    by (auto simp: Create_def amap_err_Ok elim!: abind_OkD)
  have "keeps pv (CreateService K ns pb)" using ok by (intro CreateService_keeps) (simp_all add: cluster_ok_def)
  from keepsD [OF this s] CreatePod_Ok [OF ok p] show ?thesis by (metis fun_upd_same option.distinct(1))
qed

lemma Create_pods_stay:
  assumes ok: "cluster_ok sv pv cv K F"
  shows "stable (\<lambda>w. pv w key \<noteq> None) (Create K F quantity ns bp pb)"
proof -
  let ?P = "\<lambda>w. pv w key \<noteq> None"
  have c: "create_ok pd_Name pod_same pv (k_Pods K)" using ok by (simp add: cluster_ok_def api_ok_def)
  have fr: "api_frame pv (k_Services K)" "api_frame pv (k_ConfigMaps K)" "api_frame pv (k_DaemonSets K)" "os_frame pv F"
    using ok by (simp_all add: cluster_ok_def)
  have create: "stable ?P (api_Create (k_Pods K) ns p)" for p
  proof (rule stableI)
    fix w r w' assume "pv w key \<noteq> None" and "api_Create (k_Pods K) ns p w = (r, w')"
    from c this(2) show "pv w' key \<noteq> None" by (cases rule: create_cases) (use \<open>pv w key \<noteq> None\<close> in auto)
  qed
  have err: "stable ?P (amap_err f m)" if "stable ?P m" for f and m :: "('a, unit) act"
    using that by (auto simp: stable_def amap_err_def split: prod.splits result.splits)
  have cfg: "stable ?P (CreateConfig K F ns bp pb)"
    by (rule keeps_stable [of pv, where P = "\<lambda>v. v key \<noteq> None"]) (intro CreateConfig_keeps fr)
  have "stable ?P (CreatePod K F quantity ns bp pb)"
    unfolding CreatePod_def attach_config_def
    by (auto intro!: stable_abind stable_aret create cfg simp del: not_None_eq split: option.split)
  moreover have "stable ?P (CreateService K ns pb)"
    by (rule keeps_stable [of pv, where P = "\<lambda>v. v key \<noteq> None"]) (intro CreateService_keeps fr)
  ultimately show ?thesis unfolding Create_def by (intro stable_abind err)
qed

record topo_world = mem_world +
  tw_Topos :: "mtopo table"
  tw_pods :: "pod_watch watcher"
  tw_events :: "event_watch watcher"

definition mem_topos :: "(topo_world, mtopo) view" where
  "mem_topos = (\<lambda>w. table_view mt_Name (tw_Topos w))"

definition mem_mgr :: "topo_world mgr" where
  "mem_mgr = \<lparr>mg_kClient = mem_kube, mg_dClient = mem_api mt_Name (\<lambda>_. []) id tw_Topos (\<lambda>t. tw_Topos_update (\<lambda>_. t)),
     mg_name = ''demo'', mg_skipDeleteWait = False\<rparr>"

definition mem_nodes :: "topo_world nodes" where
  "mem_nodes = [(''r1'', base_nod mem_kube mem_os (\<lambda>_. True) ''demo'' ''/base'' ex_node_cfg)]"

definition mem_specs :: "mtopo list" where
  "mem_specs = [\<lparr>mt_Name = ''r1'', mt_Links = []\<rparr>]"

definition mem_start :: topo_world where
  "mem_start = \<lparr>mw_Pods = [], mw_Services = [], mw_ConfigMaps = [], mw_DaemonSets = [], mw_Namespaces = [], tw_Topos = [],
     tw_pods = newWatcher new_pod_watch, tw_events = newWatcher []\<rparr>"

lemma mem_dClient_ok:
  "api_ok mt_Name (\<lambda>_. []) (\<lambda>x y. True) mem_topos (mg_dClient mem_mgr)" "reliable_delete mem_topos (mg_dClient mem_mgr)"
  "api_frame mem_namespaces (mg_dClient mem_mgr)"
  unfolding mem_mgr_def mem_topos_def mem_namespaces_def
  by (auto intro!: mem_api_ok mem_api_reliable mem_api_frame)

lemma mem_topos_frames:
  "api_frame mem_topos (k_Pods mem_kube)" "api_frame mem_topos (k_Services mem_kube)" "api_frame mem_topos (k_ConfigMaps mem_kube)"
  "api_frame mem_topos (k_DaemonSets mem_kube)" "api_frame mem_topos (k_Namespaces mem_kube)"
  unfolding mem_kube_def mem_topos_def by (auto intro!: mem_api_frame)

lemma mem_push_env: "push_env mem_namespaces mem_topos mem_mgr mem_nodes"
proof -
  have k: "mg_kClient mem_mgr = mem_kube" by (simp add: mem_mgr_def)
  have "keeps mem_namespaces (Create mem_kube mem_os q ns bp pb)" "keeps mem_topos (Create mem_kube mem_os q ns bp pb)" for q ns bp pb
    by (intro Create_keeps mem_kube_frames mem_topos_frames mem_os_frame)+
  then show ?thesis
    using mem_dClient_ok mem_topos_frames mem_kube_ok(4) [of "\<lambda>x y. True"]
    by (auto simp: push_env_def k mem_nodes_def base_nod_def api_ok_def ex_node_cfg_def ex_services_def
        intro: ValidateConstraints_keeps mem_os_frame dest: ValidateConstraints_name)
qed

definition mem_pushed :: "topo_world nodes result \<times> topo_world" where
  "mem_pushed = push mem_mgr (Ok mem_specs) mem_nodes mem_start"

theorem push_complete_witness:
  "mem_namespaces (snd mem_pushed) ([], ''demo'') \<noteq> None \<and> mem_topos (snd mem_pushed) (''demo'', ''r1'') \<noteq> None \<and>
   mem_pods (snd mem_pushed) (''demo'', ''r1'') \<noteq> None"
proof -
  have "is_Ok (fst mem_pushed)" by code_simp
  then have run: "push mem_mgr (Ok mem_specs) mem_nodes mem_start = (Ok (the_Ok (fst mem_pushed)), snd mem_pushed)"
    unfolding mem_pushed_def [symmetric] by (auto simp: is_Ok_iff prod_eq_iff)
  have "mem_namespaces (snd mem_pushed) ([], mg_name mem_mgr) \<noteq> None \<and>
      (\<forall>t \<in> set mem_specs. mem_topos (snd mem_pushed) (mg_name mem_mgr, mt_Name t) \<noteq> None) \<and>
      (\<forall>(name, n) \<in> set mem_nodes. mem_pods (snd mem_pushed) (''demo'', name) \<noteq> None)"
  proof (rule push_complete [OF mem_push_env run])
    show "mem_pods v' (''demo'', name) \<noteq> None"
      if "(name, n) \<in> set mem_nodes" "n_Name pb = name" "nd_Create n pb v = (Ok (), v')" for name n pb v v'
      using that Create_pod_exists [OF mem_cluster_ok, of "\<lambda>_. True" "''demo''" "''/base''" pb v v']
      by (auto simp: mem_nodes_def base_nod_def simp del: not_None_eq)
    show "stable (\<lambda>w. mem_pods w (''demo'', m) \<noteq> None) (nd_Create n pb) \<and>
        (\<forall>c. nd_GenerateSelfSigned n = Some c \<longrightarrow> stable (\<lambda>w. mem_pods w (''demo'', m) \<noteq> None) (c pb))"
      if "(name, n) \<in> set mem_nodes" for m name n pb
      using that Create_pods_stay [OF mem_cluster_ok, of "(''demo'', m)" "\<lambda>_. True" "''demo''" "''/base''" pb]
      by (auto simp: mem_nodes_def base_nod_def simp del: not_None_eq)
  qed
  then show ?thesis by (simp add: mem_mgr_def mem_specs_def mem_nodes_def)
qed

text \<open>A node whose kernel parameter cannot be read as a number.\<close>

definition unfit_nodes :: "topo_world nodes" where
  "unfit_nodes = [(''r1'', base_nod mem_kube mem_os (\<lambda>_. True) ''demo'' ''/base''
     (ex_node_cfg\<lparr>n_HostConstraints := [KernelConstraint \<lparr>kp_Name = ''kernel.pid_max'', kp_BoundedInteger = None\<rparr>]\<rparr>))]"

lemma mem_kval: "kernelConstraintValueImpl mem_os n v = (Error (Errorw ''failed to convert kernel constraint data: %s error: %w''
    [''hostname r1''] (ErrExt ''invalid syntax'')), v)"
proof -
  have "Atoi (TrimSpace ''hostname r1'') = Error (ErrExt ''invalid syntax'')" by code_simp
  then show ?thesis by (simp add: kernelConstraintValueImpl_def mem_os_def amap_err_def)
qed

theorem push_validates_first_witness:
  "\<not> is_Ok (fst (push mem_mgr (Ok mem_specs) unfit_nodes mem_start)) \<and>
   mem_namespaces (snd (push mem_mgr (Ok mem_specs) unfit_nodes mem_start)) = mem_namespaces mem_start"
proof (rule push_validates_first)
  show "\<forall>(name, n) \<in> set unfit_nodes. keeps mem_namespaces (nd_ValidateConstraints n (nd_proto n))"
    by (simp add: unfit_nodes_def base_nod_def ValidateConstraints_keeps mem_os_frame)
  show "(''r1'', snd (hd unfit_nodes)) \<in> set unfit_nodes" by (simp add: unfit_nodes_def)
  show "nd_ValidateConstraints (snd (hd unfit_nodes)) (nd_proto (snd (hd unfit_nodes))) v \<noteq> (Ok (pb, Ok ()), v')" for v v' pb
    by (simp add: unfit_nodes_def base_nod_def ValidateConstraints_def atry_def abind_def mem_kval join_errs_def)
qed simp

text \<open>A host that is pushed, shown and created. What is asked of it leaves a trace among the config maps.\<close>

definition log_name :: "string \<Rightarrow> topo_world \<Rightarrow> topo_world" where
  "log_name name w = w\<lparr>mw_ConfigMaps := (''log'', \<lparr>cm_Name = name, cm_Data = []\<rparr>) # mw_ConfigMaps w\<rparr>"

definition tried :: "string \<Rightarrow> topo_world \<Rightarrow> bool" where
  "tried k w \<longleftrightarrow> list_ex (\<lambda>(_, m). cm_Name m = k) (mw_ConfigMaps w)"

lemma tried_log: "tried k (log_name name w) \<longleftrightarrow> k = name \<or> tried k w"
  by (auto simp: tried_def log_name_def)

lemma tried_stable: "keeps mw_ConfigMaps m \<Longrightarrow> stable (tried k) m"
  unfolding tried_def by (rule keeps_stable)

definition ex_host :: node where
  "ex_host = empty_node\<lparr>n_Name := ''h1'', n_Config := Some empty_config\<rparr>"

definition host_nodes :: "topo_world nodes" where
  "host_nodes = [(''h1'', (base_nod mem_kube mem_os (\<lambda>_. True) ''demo'' ''/base'' ex_host)\<lparr>
     nd_Status := (\<lambda>pb w. (Ok (StatusRunning, None), log_name ''h1'' w))\<rparr>)]"

definition shown_nodes :: "topo_world nodes" where
  "shown_nodes = map (\<lambda>(name, n). (name, n\<lparr>nd_Status := (\<lambda>pb. aret (StatusRunning, None))\<rparr>)) host_nodes"

definition host_up :: topo_world where
  "host_up = snd (push mem_mgr (Ok []) shown_nodes mem_start)"

definition host_pods :: "pod list" where
  "host_pods = the_Ok (fst (Pods mem_kube ''demo'' ex_host host_up))"

theorem Show_reports_witness:
  "\<exists>n' w'. Show mem_mgr shown_nodes [ex_host] host_up = (Ok (TS_RUNNING, [n']), w') \<and> shown_as (\<lambda>_. host_pods) (\<lambda>_. []) ex_host n'"
proof -
  have p: "Pods mem_kube ''demo'' ex_host host_up = (Ok host_pods, host_up)" "host_pods \<noteq> []" by code_simp+
  have sv: "Services mem_kube ''demo'' ex_host host_up = (Ok [], host_up)" by code_simp
  obtain pod rest where hp: "host_pods = pod # rest" using p(2) by (cases host_pods) auto
  have sh: "shown_as (\<lambda>_. host_pods) (\<lambda>_. []) ex_host n' \<longleftrightarrow> n' = ex_host\<lparr>n_PodIp := pd_PodIP pod\<rparr>" for n'
    by (simp add: shown_as_def hp ex_host_def empty_node_def)
  have "\<exists>r st w'. Show mem_mgr shown_nodes [ex_host] host_up = (r, w') \<and>
    (\<forall>x. r = Ok x \<longleftrightarrow> (\<exists>ns. x = (st, ns) \<and> list_all2 (shown_as (\<lambda>_. host_pods) (\<lambda>_. [])) [ex_host] ns)) \<and>
    (st = TS_RUNNING \<longleftrightarrow> shown_nodes \<noteq> [] \<and> (\<forall>name \<in> set (map fst shown_nodes). (\<lambda>_. StatusRunning) name = StatusRunning)) \<and>
    (st = TS_ERROR \<longleftrightarrow> (\<exists>name \<in> set (map fst shown_nodes). (\<lambda>_. StatusRunning) name = StatusFailed))"
  proof (rule Show_reports [where view = "\<lambda>w. w"])
    show "snapshot (\<lambda>w. w) host_up (\<lambda>_. StatusRunning) (\<lambda>_. host_pods) (\<lambda>_. []) shown_nodes"
      by (simp add: snapshot_def shown_nodes_def host_nodes_def base_nod_def p sv)
    show "keeps (\<lambda>w. w) (api_List (mg_dClient mem_mgr) (mg_name mem_mgr) None)"
      by (simp add: mem_mgr_def mem_api_def keeps_def)
    show "is_Ok (fst (api_List (mg_dClient mem_mgr) (mg_name mem_mgr) None v))" for v
      by (simp add: mem_mgr_def mem_api_def)
    show "n_Name n \<in> set (map fst shown_nodes)" if "n \<in> set [ex_host]" for n
      using that by (simp add: shown_nodes_def host_nodes_def ex_host_def)
  qed
  then obtain st w' where "Show mem_mgr shown_nodes [ex_host] host_up = (Ok (st, [ex_host\<lparr>n_PodIp := pd_PodIP pod\<rparr>]), w')" "st = TS_RUNNING"
    by (auto simp: list_all2_Cons1 sh shown_nodes_def host_nodes_def)
  then show ?thesis by (auto simp: sh)
qed

definition ex_create_env :: "topo_world create_env" where
  "ex_create_env =
     \<lparr>ce_clock = \<lparr>ck_Now = aret 0, ck_Sleep = (\<lambda>_. aret ()), ck_CtxErr = aret None, ck_Wait = (\<lambda>_. aret None)\<rparr>,
      ce_IsKind = aret True, ce_RefreshGAR = aerr EOF,
      ce_Nodes = Some (aret []), ce_PodWatcher = aret (), ce_pods = tw_pods, ce_set_pods = (\<lambda>x. tw_pods_update (\<lambda>_. x)),
      ce_EventWatcher = aerr EOF, ce_events = tw_events, ce_set_events = (\<lambda>x. tw_events_update (\<lambda>_. x)),
      ce_reportUsage = False, ce_ReportStart = aret (), ce_ReportEnd = (\<lambda>_. aret ())\<rparr>"

definition host_created :: "(unit result \<times> topo_world nodes \<times> topo_world) option" where
  "host_created = Create_topo 3 ex_create_env mem_mgr (Ok []) host_nodes 0 mem_start"

theorem Create_means_running_witness:
  "\<exists>nodes' w'. host_created = Some (Ok (), nodes', w') \<and> map fst nodes' = [''h1''] \<and> tried ''h1'' w'"
proof -
  have c: "case host_created of Some (r, _) \<Rightarrow> is_Ok r | None \<Rightarrow> False" "map fst host_nodes = [''h1'']" by code_simp+
  from c(1) obtain nodes' w' where h: "host_created = Some (Ok (), nodes', w')"
    by (auto simp: is_Ok_iff split: option.splits prod.splits)
  have "map fst nodes' = map fst host_nodes \<and> (\<exists>v v'. push mem_mgr (Ok []) host_nodes v = (Ok nodes', v')) \<and>
      (\<forall>name \<in> set (map fst host_nodes). tried name w')"
  proof (rule Create_means_running [OF h [unfolded host_created_def]])
    show "tried name v'" if "(name, n) \<in> set host_nodes" "nd_Status n pb v = (Ok (StatusRunning, None), v')" for name n pb v v'
      using that by (auto simp: host_nodes_def tried_log)
    have "stable (tried m) (Services mem_kube ''demo'' pb)" for m pb
      by (rule tried_stable) (auto simp: Services_def list_services_def mem_kube_def intro!: keeps_intros mem_api_frame)
    then show "stable (tried m) (nd_Status n pb) \<and> stable (tried m) (nd_Services n pb)" if "(name, n) \<in> set host_nodes" for m name n pb
      using that by (auto simp: host_nodes_def base_nod_def tried_log stable_def [of _ "\<lambda>w. (_, log_name _ w)"])
    show "env_stable (tried m) ex_create_env" for m
      by (simp add: env_stable_def ex_create_env_def stable_def tried_def)
  qed
  with h c(2) show ?thesis by (intro exI [of _ nodes'] exI [of _ w']) simp
qed

text \<open>Nodes whose deletion fails and leaves a trace.\<close>

definition failing_delete :: "node \<Rightarrow> (topo_world, unit) act" where
  "failing_delete pb w = (Error EOF, log_name (n_Name pb) w)"

definition failing_nodes :: "topo_world nodes" where
  "failing_nodes = map (\<lambda>k. (k, (base_nod mem_kube mem_os (\<lambda>_. True) ''demo'' ''/base'' (empty_node\<lparr>n_Name := k\<rparr>))\<lparr>nd_Delete := failing_delete\<rparr>))
     [''r1'', ''r2'']"

definition mem_deleted :: "(unit result \<times> topo_world) option" where
  "mem_deleted = Delete_topo mem_mgr failing_nodes (Ok [NSEvent False (Some ''demo''), NSEvent True (Some ''demo'')]) (snd mem_pushed)"


end
