(* ===== verification/Shell.thy ===== *)
theory Shell
  imports Node_Pod
begin

text \<open>
  Commands, files and environment variables, as \<open>exec/run/run.go\<close> and package \<open>os\<close> offer them to the
  deployment code. The operating system is a record of operations that the definitions take as an argument.
  The laws of temporary files and of the environment are stated here once, with the lemmas by which the
  deployment steps are shown to leave both as they found them.
\<close>

section \<open>The operating system\<close>

text \<open>A command gets its standard input and its command line, and gives its output and perhaps an error.\<close>

record 'w shell = "'w os" +
  sh_Command :: "string \<Rightarrow> string list \<Rightarrow> ('w, string \<times> err option) act"
  sh_LookPath :: "string \<Rightarrow> ('w, string) act"
  sh_Stat :: "string \<Rightarrow> ('w, unit) act"
  sh_Create :: "string \<Rightarrow> ('w, unit) act"
  sh_WriteFile :: "string \<Rightarrow> string \<Rightarrow> ('w, unit) act"
  sh_MkdirTemp :: "string \<Rightarrow> ('w, string) act"
  sh_RemoveAll :: "string \<Rightarrow> ('w, unit) act"
  sh_Getenv :: "string \<Rightarrow> ('w, string) act"
  sh_Setenv :: "string \<Rightarrow> string \<Rightarrow> ('w, unit) act"
  sh_Sleep :: "int \<Rightarrow> ('w, unit) act"

section \<open>Running commands\<close>

text \<open>The label of a context and the prefix that it gives to the log of a command.\<close>

definition logPrefix :: "string \<Rightarrow> string \<Rightarrow> string" where
  "logPrefix label cmd = (if label \<noteq> [] then ''('' @ cmd @ ''/'' @ label @ ''): '' else ''('' @ cmd @ ''): '')"

definition runCommand :: "'w shell \<Rightarrow> string \<Rightarrow> string \<Rightarrow> string list \<Rightarrow> ('w, string \<times> err option) act" where
  "runCommand S inp cmd args = sh_Command S inp (cmd # args)"

definition run_err :: "('w, string \<times> err option) act \<Rightarrow> ('w, unit) act" where
  "run_err m = abind m (\<lambda>(out, eo). case eo of None \<Rightarrow> aret () | Some e \<Rightarrow> aerr e)"

definition LogCommand :: "'w shell \<Rightarrow> string \<Rightarrow> string list \<Rightarrow> ('w, unit) act" where
  "LogCommand S cmd args = run_err (runCommand S [] cmd args)"

definition LogCommandWithInput :: "'w shell \<Rightarrow> string \<Rightarrow> string \<Rightarrow> string list \<Rightarrow> ('w, unit) act" where
  "LogCommandWithInput S inp cmd args = run_err (runCommand S inp cmd args)"

definition OutCommand :: "'w shell \<Rightarrow> string \<Rightarrow> string list \<Rightarrow> ('w, string \<times> err option) act" where
  "OutCommand S cmd args = runCommand S [] cmd args"

text \<open>\<open>out, err := ...; if err != nil { return f(out, err) }\<close>.\<close>

definition out_or :: "(string \<Rightarrow> err \<Rightarrow> err) \<Rightarrow> ('w, string \<times> err option) act \<Rightarrow> ('w, string) act" where
  "out_or f m = abind m (\<lambda>(out, eo). case eo of None \<Rightarrow> aret out | Some e \<Rightarrow> aerr (f out e))"

text \<open>\<open>strings.Fields\<close>: the words between white space.\<close>

definition space_char :: "char \<Rightarrow> bool" where
  "space_char c \<longleftrightarrow> c \<in> {CHR '' '', CHR 0x09, CHR 0x0A, CHR 0x0B, CHR 0x0C, CHR 0x0D}"

fun Fields_from :: "string \<Rightarrow> string \<Rightarrow> string list" where
  "Fields_from word [] = (if word = [] then [] else [word])"
| "Fields_from word (c # cs) =
     (if space_char c then (if word = [] then [] else [word]) @ Fields_from [] cs else Fields_from (word @ [c]) cs)"

definition Fields :: "string \<Rightarrow> string list" where
  "Fields s = Fields_from [] s"

section \<open>Deferred calls\<close>

text \<open>\<open>defer c()\<close> followed by \<open>m\<close>: the cleanup runs whatever the result, and its error is dropped.\<close>

definition afinally :: "('w, 'a) act \<Rightarrow> ('w, 'b) act \<Rightarrow> ('w, 'a) act" where
  "afinally m c = (\<lambda>w. case m w of (r, w1) \<Rightarrow> (case c w1 of (Panic p, w2) \<Rightarrow> (Panic p, w2) | (_, w2) \<Rightarrow> (r, w2)))"

text \<open>A temporary file with some contents, which is removed at the end.\<close>

definition with_temp :: "'w shell \<Rightarrow> string \<Rightarrow> string \<Rightarrow> (string \<Rightarrow> ('w, 'a) act) \<Rightarrow> ('w, 'a) act" where
  "with_temp S pattern contents body =
     abind (os_CreateTemp S [] pattern) (\<lambda>f.
       afinally
         (abind (os_Write S f contents) (\<lambda>_.
          abind (os_Close S f) (\<lambda>_. body f)))
         (os_Remove S f))"

lemma keeps_afinally [keeps_intros]: "keeps view m \<Longrightarrow> keeps view c \<Longrightarrow> keeps view (afinally m c)"
proof (rule keepsI)
  fix w r w' assume k: "keeps view m" "keeps view c" and run: "afinally m c w = (r, w')"
  obtain q w1 where q: "m w = (q, w1)" by fastforce
  obtain q2 w2 where q2: "c w1 = (q2, w2)" by fastforce
  have "w' = w2" using run q q2 by (cases q2) (auto simp: afinally_def)
  then show "view w' = view w" using keepsD [OF k(1) q] keepsD [OF k(2) q2] by simp
qed

lemma keeps_run_err [keeps_intros]: "keeps view m \<Longrightarrow> keeps view (run_err m)"
  unfolding run_err_def by (rule keeps_abind) (auto intro!: keeps_intros split: option.split)

lemma keeps_out_or [keeps_intros]: "keeps view m \<Longrightarrow> keeps view (out_or f m)"
  unfolding out_or_def by (rule keeps_abind) (auto intro!: keeps_intros split: option.split)

section \<open>Temporary files\<close>

text \<open>
  \<open>fs\<close> is what there is of temporary files and directories. A new one is really new, removing one removes it,
  and nothing else changes them.
\<close>

definition temp_new :: "('w \<Rightarrow> string set) \<Rightarrow> ('w, string) act \<Rightarrow> bool" where
  "temp_new fs m \<longleftrightarrow>
     (\<forall>w. case m w of
        (Ok p, w') \<Rightarrow> p \<notin> fs w \<and> fs w' = insert p (fs w)
      | (_, w') \<Rightarrow> fs w' = fs w)"

definition temp_gone :: "('w \<Rightarrow> string set) \<Rightarrow> string \<Rightarrow> ('w, unit) act \<Rightarrow> bool" where
  "temp_gone fs p m \<longleftrightarrow> (\<forall>w. fs (snd (m w)) = fs w - {p})"

text \<open>The operations that touch neither temporary files nor the environment.\<close>

definition shell_frame :: "('w \<Rightarrow> 'v) \<Rightarrow> 'w shell \<Rightarrow> bool" where
  "shell_frame view S \<longleftrightarrow>
     (\<forall>p. keeps view (os_ReadFile S p)) \<and> (\<forall>p. keeps view (os_MkdirAll S p)) \<and> (\<forall>p d. keeps view (os_Write S p d)) \<and>
     (\<forall>p. keeps view (os_Close S p)) \<and> (\<forall>i c. keeps view (sh_Command S i c)) \<and> (\<forall>p. keeps view (sh_LookPath S p)) \<and>
     (\<forall>p. keeps view (sh_Stat S p)) \<and> (\<forall>p. keeps view (sh_Create S p)) \<and> (\<forall>p d. keeps view (sh_WriteFile S p d)) \<and>
     (\<forall>v. keeps view (sh_Getenv S v)) \<and> (\<forall>t. keeps view (sh_Sleep S t))"

lemma shell_frameD [keeps_intros]:
  assumes "shell_frame view S"
  shows "keeps view (os_ReadFile S p)" "keeps view (os_MkdirAll S p)" "keeps view (os_Write S p d)" "keeps view (os_Close S p)"
    "keeps view (sh_Command S i c)" "keeps view (sh_LookPath S p)" "keeps view (sh_Stat S p)" "keeps view (sh_Create S p)"
    "keeps view (sh_WriteFile S p d)" "keeps view (sh_Getenv S p)" "keeps view (sh_Sleep S t)"
  using assms by (simp_all add: shell_frame_def)

definition temps_ok :: "('w \<Rightarrow> string set) \<Rightarrow> 'w shell \<Rightarrow> bool" where
  "temps_ok fs S \<longleftrightarrow>
     shell_frame fs S \<and> (\<forall>v x. keeps fs (sh_Setenv S v x)) \<and>
     (\<forall>d p. temp_new fs (os_CreateTemp S d p)) \<and> (\<forall>p. temp_new fs (sh_MkdirTemp S p)) \<and>
     (\<forall>p. temp_gone fs p (os_Remove S p)) \<and> (\<forall>p. temp_gone fs p (sh_RemoveAll S p)) \<and>
     (\<forall>p d. never_panics (os_Write S p d)) \<and> (\<forall>p. never_panics (os_Close S p))"

lemma temps_okD:
  assumes "temps_ok fs S"
  shows "shell_frame fs S" "keeps fs (sh_Setenv S v x)" "temp_new fs (os_CreateTemp S d p)" "temp_new fs (sh_MkdirTemp S p)"
    "temp_gone fs f (os_Remove S f)" "temp_gone fs f (sh_RemoveAll S f)" "never_panics (os_Write S p d)" "never_panics (os_Close S p)"
  using assms by (simp_all add: temps_ok_def)

text \<open>The environment: reading and setting a variable, which nothing else does.\<close>

definition env_ok :: "('w \<Rightarrow> string \<Rightarrow> string) \<Rightarrow> 'w shell \<Rightarrow> bool" where
  "env_ok env S \<longleftrightarrow>
     shell_frame env S \<and> (\<forall>v w. sh_Getenv S v w = (Ok (env w v), w)) \<and>
     (\<forall>v x w. \<exists>w'. sh_Setenv S v x w = (Ok (), w') \<and> env w' = (env w)(v := x)) \<and>
     (\<forall>d p. keeps env (os_CreateTemp S d p)) \<and> (\<forall>p. keeps env (sh_MkdirTemp S p)) \<and>
     (\<forall>p. keeps env (os_Remove S p)) \<and> (\<forall>p. keeps env (sh_RemoveAll S p))"

lemma env_okD:
  assumes "env_ok env S"
  shows "shell_frame env S" "keeps env (os_CreateTemp S d p)" "keeps env (sh_MkdirTemp S p)" "keeps env (os_Remove S f)" "keeps env (sh_RemoveAll S f)"
  using assms by (simp_all add: env_ok_def)

lemma env_ok_Setenv:
  assumes "env_ok env S" "sh_Setenv S v x w = (r, w')"
  shows "r = Ok ()" "env w' = (env w)(v := x)"
proof -
  have "\<exists>u. sh_Setenv S v x w = (Ok (), u) \<and> env u = (env w)(v := x)" using assms(1) unfolding env_ok_def by blast
  then obtain u where "sh_Setenv S v x w = (Ok (), u)" "env u = (env w)(v := x)" by blast
  with assms(2) show "r = Ok ()" "env w' = (env w)(v := x)" by simp_all
qed

lemma temp_newD:
  assumes "temp_new fs m"
  shows "m w = (Ok f, w1) \<Longrightarrow> f \<notin> fs w \<and> fs w1 = insert f (fs w)" "m w = (Error e, w1) \<Longrightarrow> fs w1 = fs w"
    "m w = (Panic p, w1) \<Longrightarrow> fs w1 = fs w"
  using assms [unfolded temp_new_def, THEN spec, of w] by auto

lemma temp_goneD: "temp_gone fs f m \<Longrightarrow> m w = (r, w1) \<Longrightarrow> fs w1 = fs w - {f}"
  unfolding temp_gone_def by (metis snd_conv)

text \<open>What makes something temporary, works with it and removes it in the end leaves nothing behind.\<close>

lemma keeps_temp:
  assumes new: "temp_new fs m" and body: "\<And>f. keeps fs (body f)" and gone: "\<And>f. temp_gone fs f (rm f)"
  shows "keeps fs (abind m (\<lambda>f. afinally (body f) (rm f)))"
proof (rule keepsI)
  fix w r w' assume run: "abind m (\<lambda>f. afinally (body f) (rm f)) w = (r, w')"
  from run show "fs w' = fs w"
  proof (cases rule: abind_cases)
    case (Ok f w1)
    obtain q w2 where q: "body f w1 = (q, w2)" by fastforce
    obtain q3 w3 where q3: "rm f w2 = (q3, w3)" by fastforce
    note temp_newD(1) [OF new Ok(1)]
    moreover have "fs w2 = fs w1" by (rule keepsD [OF body q])
    moreover have "fs w3 = fs w2 - {f}" by (rule temp_goneD [OF gone q3])
    moreover have "w' = w3" using Ok(2) q q3 by (cases q3) (auto simp: afinally_def)
    ultimately show ?thesis by auto
  qed (use temp_newD(2,3) [OF new] in blast)+
qed

lemma keeps_with_temp [keeps_intros]:
  assumes "temps_ok fs S" and "\<And>f. keeps fs (body f)"
  shows "keeps fs (with_temp S pattern contents body)"
  unfolding with_temp_def
  by (rule keeps_temp) (use assms in \<open>auto intro!: keeps_intros dest: temps_okD intro: temps_okD\<close>)

lemma keeps_with_temp_env [keeps_intros]:
  assumes "env_ok env S" and "\<And>f. keeps env (body f)"
  shows "keeps env (with_temp S pattern contents body)"
  unfolding with_temp_def using env_okD [OF assms(1)] by (intro keeps_intros assms(2)) simp_all

text \<open>Both views of the world have in common what the deployment steps need of them.\<close>

definition tidy :: "('w \<Rightarrow> 'v) \<Rightarrow> 'w shell \<Rightarrow> bool" where
  "tidy view S \<longleftrightarrow>
     shell_frame view S \<and>
     (\<forall>pattern contents (body :: string \<Rightarrow> ('w, unit) act). (\<forall>f. keeps view (body f)) \<longrightarrow> keeps view (with_temp S pattern contents body))"

lemma temps_tidy: "temps_ok fs S \<Longrightarrow> tidy fs S"
  unfolding tidy_def by (auto intro: keeps_with_temp temps_okD)

lemma env_tidy: "env_ok env S \<Longrightarrow> tidy env S"
  unfolding tidy_def by (auto intro: keeps_with_temp_env env_okD)

lemma tidy_frame: "tidy view S \<Longrightarrow> shell_frame view S"
  by (simp add: tidy_def)

text \<open>A variable that is set for a while and then set back.\<close>

lemma keeps_setenv:
  assumes ok: "env_ok env S" and body: "keeps env body"
  shows "keeps env (abind (sh_Getenv S v) (\<lambda>orig. afinally (abind (sh_Setenv S v x) (\<lambda>_. body)) (sh_Setenv S v orig)))"
proof (rule keepsI)
  fix w r w'
  assume run: "abind (sh_Getenv S v) (\<lambda>orig. afinally (abind (sh_Setenv S v x) (\<lambda>_. body)) (sh_Setenv S v orig)) w = (r, w')"
  obtain r1 w1 where s1: "sh_Setenv S v x w = (r1, w1)" by fastforce
  obtain r2 w2 where b: "body w1 = (r2, w2)" by fastforce
  obtain r3 w3 where s3: "sh_Setenv S v (env w v) w2 = (r3, w3)" by fastforce
  have "sh_Getenv S v w = (Ok (env w v), w)" using ok by (simp add: env_ok_def)
  then have "w' = w3" using run b s3 env_ok_Setenv(1) [OF ok s1] env_ok_Setenv(1) [OF ok s3] s1 by (simp add: afinally_def)
  then show "env w' = env w"
    using env_ok_Setenv(2) [OF ok s1] env_ok_Setenv(2) [OF ok s3] keepsD [OF body b] by simp
qed

lemma keeps_commands [keeps_intros]:
  assumes "\<And>i c. keeps view (sh_Command S i c)"
  shows "keeps view (runCommand S inp cmd args)" "keeps view (LogCommand S cmd args)" "keeps view (LogCommandWithInput S inp cmd args)"
    "keeps view (OutCommand S cmd args)"
  unfolding runCommand_def LogCommand_def LogCommandWithInput_def OutCommand_def
  by (intro keeps_intros assms)+

section \<open>An operating system in memory\<close>

text \<open>Every command is recorded, and what it says is given by a function.\<close>

record sys =
  sys_temps :: "string list"
  sys_next :: nat
  sys_env :: "(string, string) gomap"
  sys_log :: "string list list"

definition new_temp :: "(sys, string) act" where
  "new_temp w = (let p = ''/tmp/'' @ replicate (sys_next w) CHR ''t'' in
     if p \<in> set (sys_temps w) then (Error EOF, w)
     else (Ok p, w\<lparr>sys_temps := p # sys_temps w, sys_next := sys_next w + 1\<rparr>))"

definition mem_shell :: "(string list \<Rightarrow> string \<times> err option) \<Rightarrow> sys shell" where
  "mem_shell says =
     \<lparr>os_ReadFile = (\<lambda>p. aret ''flags'' ), os_MkdirAll = (\<lambda>p. aret ()), os_CreateTemp = (\<lambda>d p. new_temp),
      os_Write = (\<lambda>p d. aret ()), os_Chmod = (\<lambda>p m. aret ()), os_Close = (\<lambda>p. aret ()),
      os_Remove = (\<lambda>p w. (Ok (), w\<lparr>sys_temps := removeAll p (sys_temps w)\<rparr>)), os_IsNotExist = (\<lambda>e. False),
      sh_Command = (\<lambda>i c w. (Ok (says c), w\<lparr>sys_log := sys_log w @ [c]\<rparr>)), sh_LookPath = aret, sh_Stat = (\<lambda>p. aret ()),
      sh_Create = (\<lambda>p. aret ()), sh_WriteFile = (\<lambda>p d. aret ()), sh_MkdirTemp = (\<lambda>p. new_temp),
      sh_RemoveAll = (\<lambda>p w. (Ok (), w\<lparr>sys_temps := removeAll p (sys_temps w)\<rparr>)),
      sh_Getenv = (\<lambda>v w. (Ok (get_str (sys_env w) v), w)), sh_Setenv = (\<lambda>v x w. (Ok (), w\<lparr>sys_env := put v x (sys_env w)\<rparr>)),
      sh_Sleep = (\<lambda>t. aret ())\<rparr>"

definition sys_start :: sys where
  "sys_start = \<lparr>sys_temps = [], sys_next = 0, sys_env = [(''DOCKER_CONFIG'', ''/root/.docker'')], sys_log = []\<rparr>"

lemma mem_shell_temps: "temps_ok (\<lambda>w. set (sys_temps w)) (mem_shell says)"
  unfolding temps_ok_def shell_frame_def mem_shell_def
  by (auto simp: keeps_def temp_new_def temp_gone_def new_temp_def never_panics_def Let_def)

lemma mem_shell_env: "env_ok (\<lambda>w. get_str (sys_env w)) (mem_shell says)"
  unfolding env_ok_def shell_frame_def mem_shell_def
  by (auto simp: keeps_def new_temp_def Let_def fun_eq_iff)

end
