(* ===== verification/Deploy_Cluster.thy ===== *)
theory Deploy_Cluster
  imports Shell
begin

text \<open>
  The clusters that a deployment brings up: \<open>cluster/kind/kind.go\<close>, \<open>cluster/kubeadm/kubeadm.go\<close>, and the
  cluster specifications of \<open>deploy/deploy.go\<close> (\<open>ExternalSpec\<close>, \<open>KubeadmSpec\<close>, \<open>KindSpec\<close>). Encoders and
  decoders of JSON and YAML, the credentials of the cloud, the parser of semantic versions and that of image
  references are code outside the repository and arguments of the definitions.
\<close>

section \<open>Versions\<close>

record version =
  v_Major :: "64 word"
  v_Minor :: "64 word"
  v_Patch :: "64 word"
  v_Pre :: "string list"
  v_Build :: "string list"

record semver =
  sv_Parse :: "string \<Rightarrow> version result"
  sv_LT :: "version \<Rightarrow> version \<Rightarrow> bool"
  sv_String :: "version \<Rightarrow> string"

definition parseVersion :: "semver \<Rightarrow> string \<Rightarrow> version result" where
  "parseVersion V s =
     (if \<not> HasPrefix s ''v'' then Error (Errorf ''missing prefix on major version'' [])
      else rbind (sv_Parse V (tl s)) (\<lambda>v. Ok (v\<lparr>v_Pre := [], v_Build := []\<rparr>)))"

definition check_binaries :: "'w shell \<Rightarrow> string list \<Rightarrow> ('w, unit) act" where
  "check_binaries S bins =
     abind (acollect (\<lambda>bin. amap_err (\<lambda>_. Errorf ''install dependency %q to deploy'' [bin]) (abind (sh_LookPath S bin) (\<lambda>_. aret ()))) bins)
       (\<lambda>errs. alift (join_errs errs))"

section \<open>kind clusters\<close>

definition dockerConfigEnvVar :: string where "dockerConfigEnvVar = ''DOCKER_CONFIG''"
definition kubeletConfigPath :: string where "kubeletConfigPath = ''/var/lib/kubelet/config.json''"

text \<open>The submatch of the first match of \<open>kind-(.*)\<close>; a dot does not match the end of a line.\<close>

fun kind_match :: "string \<Rightarrow> string option" where
  "kind_match [] = None"
| "kind_match (c # cs) =
     (if prefix ''kind-'' (c # cs) then Some (takeWhile (\<lambda>x. x \<noteq> CHR 0x0A) (drop 5 (c # cs))) else kind_match cs)"

definition clusterName :: "'w shell \<Rightarrow> ('w, string) act" where
  "clusterName S =
     out_or (\<lambda>_. Errorv ''unable to determine cluster information: %v'' []) (OutCommand S ''kubectl'' [''config'', ''current-context''])"

definition ClusterIsKind :: "'w shell \<Rightarrow> ('w, bool) act" where
  "ClusterIsKind S =
     abind (amap_err (Errorv ''unable to determine cluster name: %v'' []) (clusterName S)) (\<lambda>name.
       aret (case kind_match name of None \<Rightarrow> False | Some m \<Rightarrow> m \<noteq> []))"

definition clusterKindName :: "'w shell \<Rightarrow> ('w, string) act" where
  "clusterKindName S =
     abind (amap_err (Errorv ''unable to determine cluster name: %v'' []) (clusterName S)) (\<lambda>name.
       let bad = aerr (Errorf ''cluster %v is not a kind cluster'' [name]) in
       case kind_match name of None \<Rightarrow> bad | Some m \<Rightarrow> if m = [] then bad else aret m)"

definition split_nodes :: "string \<Rightarrow> string list" where
  "split_nodes out = (if out = [] then [] else map (\<lambda>n. TrimSuffix n [CHR 0x0A]) (Split (CHR '' '') out))"

definition clusterKindNodes :: "'w shell \<Rightarrow> ('w, string list) act" where
  "clusterKindNodes S =
     abind (clusterKindName S) (\<lambda>name.
     abind (out_or (\<lambda>_ e. e) (OutCommand S ''kind'' [''get'', ''nodes'', ''--name'', name])) (\<lambda>out.
       aret (split_nodes out)))"

text \<open>The cloud's credentials and the JSON of a docker configuration, whose keys are the registries.\<close>

record 'w gar_env =
  ge_FindCredentials :: "('w, unit) act"
  ge_Token :: "('w, string) act"
  ge_Marshal :: "string list \<Rightarrow> string result"
  ge_Unmarshal :: "string \<Rightarrow> string list result"

definition writeDockerConfig :: "'w shell \<Rightarrow> 'w gar_env \<Rightarrow> string \<Rightarrow> string list \<Rightarrow> ('w, unit) act" where
  "writeDockerConfig S G path registries =
     abind (alift (ge_Marshal G (remdups registries))) (\<lambda>b.
     abind (sh_Create S path) (\<lambda>_.
       afinally (os_Write S path b) (os_Close S path)))"

definition copy_config :: "'w shell \<Rightarrow> string \<Rightarrow> string \<Rightarrow> ('w, unit) act" where
  "copy_config S configPath n =
     abind (LogCommand S ''docker'' [''cp'', configPath, n @ '':'' @ kubeletConfigPath]) (\<lambda>_.
       LogCommand S ''docker'' [''exec'', n, ''systemctl'', ''restart'', ''kubelet.service''])"

definition gar_login :: "'w shell \<Rightarrow> 'w gar_env \<Rightarrow> string \<Rightarrow> string list \<Rightarrow> ('w, unit) act" where
  "gar_login S G configPath registries =
     abind (writeDockerConfig S G configPath registries) (\<lambda>_.
     abind (amap_err (Errorv ''failed to find gcloud credentials: %v'' []) (ge_FindCredentials G)) (\<lambda>_.
     abind (amap_err (Errorv ''failed to get token from gcloud credentials: %v'' []) (ge_Token G)) (\<lambda>token.
     abind (aiter (\<lambda>r. LogCommandWithInput S token ''docker'' [''login'', ''-u'', ''oauth2accesstoken'', ''--password-stdin'', ''https://'' @ r]) registries) (\<lambda>_.
     abind (clusterKindNodes S) (\<lambda>nodes.
       aiter (copy_config S configPath) nodes)))))"

definition SetupGARAccess :: "'w shell \<Rightarrow> 'w gar_env \<Rightarrow> string list \<Rightarrow> ('w, unit) act" where
  "SetupGARAccess S G registries =
     abind (sh_MkdirTemp S ''kne_kind_docker'') (\<lambda>dir.
       afinally
         (abind (sh_Getenv S dockerConfigEnvVar) (\<lambda>orig.
            afinally
              (abind (sh_Setenv S dockerConfigEnvVar dir) (\<lambda>_.
                 gar_login S G (filepath_Join [dir, ''config.json'']) registries))
              (sh_Setenv S dockerConfigEnvVar orig)))
         (sh_RemoveAll S dir))"

text \<open>The registries of the stored configuration come in the order of a Go map.\<close>

definition RefreshGARAccess :: "'w shell \<Rightarrow> 'w gar_env \<Rightarrow> ('w, unit) act" where
  "RefreshGARAccess S G =
     abind (clusterKindNodes S) (\<lambda>nodes.
       case nodes of
         [] \<Rightarrow> aret ()
       | n # _ \<Rightarrow>
           abind (OutCommand S ''docker'' [''exec'', n, ''cat'', kubeletConfigPath]) (\<lambda>(cfg, eo).
             case eo of
               Some _ \<Rightarrow> aret ()
             | None \<Rightarrow> abind (alift (ge_Unmarshal G cfg)) (\<lambda>registries. SetupGARAccess S G registries)))"

section \<open>kubeadm\<close>

record InitConfigOptions =
  io_CRISocket :: string
  io_PodNetworkCIDR :: string
  io_TokenTTL :: string
  io_ImageRepository :: string
  io_ServiceNodePortRange :: string
  io_KubernetesVersion :: string

record initConfiguration =
  ic_APIVersion :: string
  ic_Kind :: string
  ic_NodeRegistration :: "string option"
  ic_BootstrapTokens :: "string list"

record clusterConfiguration =
  cc_APIVersion :: string
  cc_Kind :: string
  cc_KubernetesVersion :: string
  cc_ImageRepository :: string
  cc_Networking :: "string option"
  cc_ExtraArgs :: "(string, string) gomap"

record yaml_env =
  ye_Init :: "initConfiguration \<Rightarrow> string result"
  ye_Cluster :: "clusterConfiguration \<Rightarrow> string result"

definition init_config :: "InitConfigOptions \<Rightarrow> initConfiguration" where
  "init_config opts =
     \<lparr>ic_APIVersion = [], ic_Kind = [],
      ic_NodeRegistration = (if io_CRISocket opts \<noteq> [] then Some (io_CRISocket opts) else None),
      ic_BootstrapTokens = (if io_TokenTTL opts \<noteq> [] then [io_TokenTTL opts] else [])\<rparr>"

definition cluster_config :: "InitConfigOptions \<Rightarrow> clusterConfiguration" where
  "cluster_config opts =
     \<lparr>cc_APIVersion = ''kubeadm.k8s.io/v1beta3'', cc_Kind = ''ClusterConfiguration'', cc_KubernetesVersion = io_KubernetesVersion opts,
      cc_ImageRepository = io_ImageRepository opts,
      cc_Networking = (if io_PodNetworkCIDR opts \<noteq> [] then Some (io_PodNetworkCIDR opts) else None),
      cc_ExtraArgs = [(''service-node-port-range'',
        if io_ServiceNodePortRange opts = [] then ''10000-32767'' else io_ServiceNodePortRange opts)]\<rparr>"

definition config_docs :: "yaml_env \<Rightarrow> InitConfigOptions \<Rightarrow> string list result" where
  "config_docs Y opts =
     (let ic = init_config opts in
      rbind (if ic_NodeRegistration ic \<noteq> None \<or> ic_BootstrapTokens ic \<noteq> [] then
               rbind (rmap_err (Errorw ''failed to marshal InitConfiguration: %w'' [])
                        (ye_Init Y (ic\<lparr>ic_APIVersion := ''kubeadm.k8s.io/v1beta3'', ic_Kind := ''InitConfiguration''\<rparr>))) (\<lambda>b. Ok [b])
             else Ok []) (\<lambda>docs.
      rbind (rmap_err (Errorw ''failed to marshal ClusterConfiguration: %w'' []) (ye_Cluster Y (cluster_config opts))) (\<lambda>b.
        Ok (docs @ [b]))))"

definition remove_config :: "'w shell \<Rightarrow> string \<Rightarrow> ('w, unit) act" where
  "remove_config S f = abind (atry (os_Remove S f)) (\<lambda>_. aret ())"

definition CreateInitConfigFile :: "'w shell \<Rightarrow> yaml_env \<Rightarrow> InitConfigOptions \<Rightarrow> ('w, string) act" where
  "CreateInitConfigFile S Y opts =
     abind (alift (config_docs Y opts)) (\<lambda>docs.
     abind (amap_err (Errorw ''failed to create temp file: %w'' []) (os_CreateTemp S [] ''kne-kubeadm-init-*.yaml'')) (\<lambda>f.
     abind (atry (os_Write S f (StrJoin (''---'' @ [CHR 0x0A]) docs))) (\<lambda>r.
       case r of
         Error e \<Rightarrow>
           abind (atry (os_Close S f)) (\<lambda>_. abind (remove_config S f) (\<lambda>_. aerr (Errorw ''failed to write kubeadm config: %w'' [] e)))
       | Panic p \<Rightarrow> apanic p
       | Ok _ \<Rightarrow>
           abind (atry (os_Close S f)) (\<lambda>r.
             case r of
               Error e \<Rightarrow> abind (remove_config S f) (\<lambda>_. aerr (Errorw ''failed to close kubeadm config file: %w'' [] e))
             | Panic p \<Rightarrow> apanic p
             | Ok _ \<Rightarrow> aret f))))"

definition kubeadmFlagPath :: string where "kubeadmFlagPath = ''/var/lib/kubelet/kubeadm-flags.env''"

definition flag_suffix :: string where "flag_suffix = [CHR 0x22, CHR 0x0A]"

definition credential_flags :: "string \<Rightarrow> string \<Rightarrow> string" where
  "credential_flags s cfgPath =
     s @ '' --image-credential-provider-config='' @ cfgPath @ '' --image-credential-provider-bin-dir=/etc/kubernetes/bin'' @ flag_suffix"

definition EnableCredentialProvider :: "'w shell \<Rightarrow> string \<Rightarrow> ('w, unit) act" where
  "EnableCredentialProvider S cfgPath =
     abind (amap_err (Errorv ''config file not found: %v'' []) (sh_Stat S cfgPath)) (\<lambda>_.
     abind (LogCommand S ''sudo'' [''kubeadm'', ''upgrade'', ''node'', ''phase'', ''kubelet-config'']) (\<lambda>_.
     abind (amap_err (Errorv ''failed to read kubeadm flag file: %v'' []) (os_ReadFile S kubeadmFlagPath)) (\<lambda>b.
       if \<not> HasSuffix b flag_suffix then
         aerr (Errorf ''kubeadm flag file %q does not have expected contents: %q'' [kubeadmFlagPath, b])
       else
         abind (os_CreateTemp S [] ''kne-kubeadm-flag.env'') (\<lambda>f.
           afinally
             (abind (atry (os_Write S f (credential_flags (TrimSuffix b flag_suffix) cfgPath))) (\<lambda>r.
                case r of
                  Error e \<Rightarrow> abind (atry (os_Close S f)) (\<lambda>_. aerr e)
                | Panic p \<Rightarrow> apanic p
                | Ok _ \<Rightarrow>
                    abind (os_Close S f) (\<lambda>_.
                    abind (LogCommand S ''sudo'' [''cp'', ''-f'', f, kubeadmFlagPath]) (\<lambda>_.
                      LogCommand S ''sudo'' [''systemctl'', ''restart'', ''kubelet'']))))
             (os_Remove S f)))))"

section \<open>Cluster specifications\<close>

definition defaultKubeadmImageRepository :: string where
  "defaultKubeadmImageRepository = ''us-west1-docker.pkg.dev/kne-external/kne''"

definition defaultKubernetesVersion :: string where "defaultKubernetesVersion = ''v1.36.1''"
definition defaultKindNodeImage :: string where "defaultKindNodeImage = ''kindest/node:v1.36.1''"
definition pullRetryDelay :: int where "pullRetryDelay = 1000000000"

definition kubectlApply :: "'w shell \<Rightarrow> string \<Rightarrow> ('w, unit) act" where
  "kubectlApply S cfg = LogCommandWithInput S cfg ''kubectl'' [''apply'', ''-f'', ''-'']"

definition cluster_info :: "'w shell \<Rightarrow> string list \<Rightarrow> ('w, unit) act" where
  "cluster_info S args =
     amap_err (Errorw ''cluster not healthy: %w'' []) (LogCommand S ''kubectl'' (''cluster-info'' # args))"

subsection \<open>kubeadm\<close>

record KubeadmSpec =
  km_CRISocket :: string
  km_PodNetworkCIDR :: string
  km_PodNetworkAddOnManifest :: string
  km_PodNetworkAddOnManifestData :: "string option"
  km_CredentialProviderConfig :: string
  km_TokenTTL :: string
  km_Network :: string
  km_AllowControlPlaneScheduling :: bool
  km_ImageRepository :: string
  km_ServiceNodePortRange :: string
  km_KubernetesVersion :: string

definition or_default :: "string \<Rightarrow> string \<Rightarrow> string" where
  "or_default s d = (if s \<noteq> [] then s else d)"

definition kubeadm_options :: "KubeadmSpec \<Rightarrow> InitConfigOptions" where
  "kubeadm_options k =
     \<lparr>io_CRISocket = km_CRISocket k, io_PodNetworkCIDR = km_PodNetworkCIDR k, io_TokenTTL = km_TokenTTL k,
      io_ImageRepository = or_default (km_ImageRepository k) defaultKubeadmImageRepository,
      io_ServiceNodePortRange = or_default (km_ServiceNodePortRange k) ''10000-32767'',
      io_KubernetesVersion = or_default (km_KubernetesVersion k) defaultKubernetesVersion\<rparr>"

text \<open>The lines of a failed command's output that are kept for the error message.\<close>

definition error_lines :: "(string \<Rightarrow> bool) \<Rightarrow> string \<Rightarrow> string" where
  "error_lines P out = StrJoin '', '' (filter P (Split (CHR 0x0A) out))"

definition kubeadm_error_line :: "string \<Rightarrow> bool" where
  "kubeadm_error_line line = Contains (ToLower line) ''error''"

text \<open>After the cluster is up: the manifest of the pod network, the credential provider, the docker network.\<close>

definition kubeadm_network :: "'w shell \<Rightarrow> ('w, string) act \<Rightarrow> KubeadmSpec \<Rightarrow> ('w, KubeadmSpec) act" where
  "kubeadm_network S uuid k =
     abind (if km_CredentialProviderConfig k \<noteq> [] then EnableCredentialProvider S (km_CredentialProviderConfig k) else aret ()) (\<lambda>_.
       if km_Network k = [] then
         abind uuid (\<lambda>u. let net = ''kne-kubeadm-'' @ u in
           abind (LogCommand S ''docker'' [''network'', ''create'', net]) (\<lambda>_. aret (k\<lparr>km_Network := net\<rparr>)))
       else aret k)"

definition kubeadm_add_on :: "'w shell \<Rightarrow> ('w, string) act \<Rightarrow> KubeadmSpec \<Rightarrow> ('w, KubeadmSpec) act" where
  "kubeadm_add_on S uuid k =
     abind (if km_PodNetworkAddOnManifest k \<noteq> [] then
              abind (os_ReadFile S (km_PodNetworkAddOnManifest k)) (\<lambda>b. kubectlApply S b)
            else aret ()) (\<lambda>_.
       kubeadm_network S uuid k)"

definition kubeadm_up :: "'w shell \<Rightarrow> ('w, string) act \<Rightarrow> string \<Rightarrow> string \<Rightarrow> KubeadmSpec \<Rightarrow> ('w, KubeadmSpec) act" where
  "kubeadm_up S uuid home cfgPath k =
     abind (out_or (\<lambda>out. Errorw ''%w: %v'' [error_lines kubeadm_error_line out])
              (OutCommand S ''sudo'' [''kubeadm'', ''init'', ''--config'', cfgPath])) (\<lambda>_.
     abind (os_MkdirAll S (filepath_Join [home, ''.kube''])) (\<lambda>_.
     abind (out_or (\<lambda>_ e. e) (OutCommand S ''sudo'' [''cat'', ''/etc/kubernetes/admin.conf''])) (\<lambda>b.
     abind (sh_WriteFile S (filepath_Join [filepath_Join [home, ''.kube''], ''config'']) b) (\<lambda>_.
     abind (if km_AllowControlPlaneScheduling k then
              LogCommand S ''kubectl'' [''taint'', ''nodes'', ''--all'', ''node-role.kubernetes.io/control-plane:NoSchedule-'']
            else aret ()) (\<lambda>_.
       case km_PodNetworkAddOnManifestData k of
         Some d \<Rightarrow>
           with_temp S ''kubeadm-pod-network-add-on-manifest-*.yaml'' d (\<lambda>f.
             kubeadm_add_on S uuid (k\<lparr>km_PodNetworkAddOnManifest := f\<rparr>))
       | None \<Rightarrow> kubeadm_add_on S uuid k)))))"

definition Kubeadm_Deploy :: "'w shell \<Rightarrow> yaml_env \<Rightarrow> ('w, string) act \<Rightarrow> string \<Rightarrow> KubeadmSpec \<Rightarrow> ('w, KubeadmSpec) act" where
  "Kubeadm_Deploy S Y uuid home k =
     abind (amap_err (Errorw ''failed to check for dependencies: %w'' []) (check_binaries S [''kubeadm''])) (\<lambda>_.
     abind (amap_err (Errorw ''failed to create kubeadm init config file: %w'' []) (CreateInitConfigFile S Y (kubeadm_options k))) (\<lambda>cfgPath.
       afinally (kubeadm_up S uuid home cfgPath k) (remove_config S cfgPath)))"

definition Kubeadm_Delete :: "'w shell \<Rightarrow> KubeadmSpec \<Rightarrow> ('w, unit) act" where
  "Kubeadm_Delete S k =
     LogCommand S ''sudo'' ([''kubeadm'', ''reset'', ''--force''] @ (if km_CRISocket k \<noteq> [] then [''--cri-socket'', km_CRISocket k] else []))"

subsection \<open>kind\<close>

record KindSpec =
  ks_Name :: string
  ks_Recycle :: bool
  ks_Version :: string
  ks_Image :: string
  ks_Retain :: bool
  ks_Wait :: string
  ks_Kubecfg :: string
  ks_GoogleArtifactRegistries :: "string list"
  ks_ContainerImages :: "(string, string) gomap"
  ks_KindConfigFile :: string
  ks_AdditionalManifests :: "string list"

text \<open>\<open>ks_Wait\<close> is the duration as it is printed, and empty if it is zero.\<close>

definition Kind_checkDependencies :: "'w shell \<Rightarrow> semver \<Rightarrow> KindSpec \<Rightarrow> ('w, unit) act" where
  "Kind_checkDependencies S V k =
     abind (check_binaries S [''kind'']) (\<lambda>_.
       if ks_Version k = [] then aret ()
       else
         abind (amap_err (Errorw ''failed to parse desired kind version: %w'' []) (alift (parseVersion V (ks_Version k)))) (\<lambda>wantV.
         abind (out_or (\<lambda>_. Errorw ''failed to get kind version: %w'' []) (OutCommand S ''kind'' [''version''])) (\<lambda>stdout.
           if length (Fields stdout) < 2 then aerr (Errorf ''failed to parse kind version from: %s'' [stdout])
           else
             abind (amap_err (Errorw ''kind version check failed: %w'' []) (alift (parseVersion V (Fields stdout ! 1)))) (\<lambda>gotV.
               if sv_LT V gotV wantV then
                 aerr (Errorf ''kind version check failed: got %s, want %s. install with `go install sigs.k8s.io/kind@v%s`''
                   [sv_String V gotV, sv_String V wantV, sv_String V wantV])
               else aret ()))))"

definition create_args :: "KindSpec \<Rightarrow> string list" where
  "create_args k =
     [''create'', ''cluster''] @
     (if ks_Name k \<noteq> [] then [''--name'', ks_Name k] else []) @
     [''--image'', or_default (ks_Image k) defaultKindNodeImage] @
     (if ks_Retain k then [''--retain''] else []) @
     (if ks_Wait k \<noteq> [] then [''--wait'', ks_Wait k] else []) @
     (if ks_Kubecfg k \<noteq> [] then [''--kubeconfig'', ks_Kubecfg k] else []) @
     (if ks_KindConfigFile k \<noteq> [] then [''--config'', ks_KindConfigFile k] else [])"

definition kind_error_line :: "string \<Rightarrow> bool" where
  "kind_error_line line \<longleftrightarrow> HasPrefix line ''ERROR'' \<or> HasPrefix line ''Command Output''"

definition kind_create_cluster :: "'w shell \<Rightarrow> KindSpec \<Rightarrow> ('w, KindSpec) act" where
  "kind_create_cluster S k =
     abind (out_or (\<lambda>out. Errorw ''%w: %v'' [error_lines kind_error_line out]) (OutCommand S ''kind'' (create_args k))) (\<lambda>_.
       aret (k\<lparr>ks_Image := or_default (ks_Image k) defaultKindNodeImage\<rparr>))"

definition Kind_create :: "'w shell \<Rightarrow> KindSpec \<Rightarrow> ('w, KindSpec) act" where
  "Kind_create S k =
     abind (os_MkdirAll S ''/tmp/kne'') (\<lambda>_.
       if ks_Recycle k then
         abind (atry (LogCommand S ''kubectl'' [''cluster-info'', ''--context'', ''kind-'' @ ks_Name k])) (\<lambda>r.
           if is_Ok r then aret k else kind_create_cluster S k)
       else kind_create_cluster S k)"

definition cluster_args :: "string \<Rightarrow> string list" where
  "cluster_args cluster = (if cluster \<noteq> [] then [''--name'', cluster] else [])"

text \<open>Retagging: the names of the nodes are the lines of the output that have no space in them.\<close>

definition node_lines :: "string \<Rightarrow> string list" where
  "node_lines out =
     filter (\<lambda>line. line \<noteq> [] \<and> CHR '' '' \<notin> set line \<and> CHR 0x09 \<notin> set line) (map TrimSpace (Split (CHR 0x0A) out))"

definition retagInKindNodes :: "'w shell \<Rightarrow> string \<Rightarrow> string \<Rightarrow> string \<Rightarrow> ('w, unit) act" where
  "retagInKindNodes S src dst cluster =
     abind (out_or (\<lambda>out. Errorw ''failed to list kind nodes: %w: %s'' [TrimSpace out])
              (OutCommand S ''kind'' ([''get'', ''nodes''] @ cluster_args cluster))) (\<lambda>out.
       if node_lines out = [] then aerr (Errorf ''no nodes found for kind cluster %q'' [cluster])
       else aiter (\<lambda>n. amap_err (Errorw ''failed to tag image on node %q: %w'' [n])
              (LogCommand S ''docker'' [''exec'', n, ''ctr'', ''-n'', ''k8s.io'', ''images'', ''tag'', ''--force'', src, dst])) (node_lines out))"

text \<open>A step that gives up quietly: the caller falls back to another way.\<close>

definition or_False :: "('w, 'a) act \<Rightarrow> ('a \<Rightarrow> ('w, bool) act) \<Rightarrow> ('w, bool) act" where
  "or_False m f = abind (atry m) (\<lambda>r. case r of Ok x \<Rightarrow> f x | Error _ \<Rightarrow> aret False | Panic p \<Rightarrow> apanic p)"

definition tryLoadFromContainerd :: "'w shell \<Rightarrow> (string \<Rightarrow> string result) \<Rightarrow> string \<Rightarrow> string \<Rightarrow> string \<Rightarrow> ('w, bool) act" where
  "tryLoadFromContainerd S normalizeImageRef src dst cluster =
     or_False (sh_LookPath S ''ctr'') (\<lambda>_.
       if normalizeImageRef src \<noteq> Ok src then aret False
       else or_False (alift (normalizeImageRef dst)) (\<lambda>dstRef.
         or_False (LogCommand S ''sudo'' [''ctr'', ''-n'', ''k8s.io'', ''images'', ''check'', ''name=='' @ src]) (\<lambda>_.
           or_False (abind (sh_MkdirTemp S ''kind-load-'') (\<lambda>tmpDir.
             afinally
               (let archive = filepath_Join [tmpDir, ''image.tar''] in
                or_False (LogCommand S ''sudo'' [''ctr'', ''-n'', ''k8s.io'', ''images'', ''export'', archive, src]) (\<lambda>_.
                  or_False (LogCommand S ''kind'' ([''load'', ''image-archive'', archive] @ cluster_args cluster)) (\<lambda>_.
                    if dstRef \<noteq> src then or_False (retagInKindNodes S src dstRef cluster) (\<lambda>_. aret True)
                    else aret True)))
               (sh_RemoveAll S tmpDir))) aret)))"

fun docker_pull :: "'w shell \<Rightarrow> string \<Rightarrow> nat \<Rightarrow> ('w, unit) act" where
  "docker_pull S src 0 = run_err (OutCommand S ''docker'' [''pull'', src])"
| "docker_pull S src (Suc retries) =
     abind (OutCommand S ''docker'' [''pull'', src]) (\<lambda>(out, eo).
       case eo of
         None \<Rightarrow> aret ()
       | Some e \<Rightarrow>
           if Contains out ''not found'' \<or> Contains out ''does not exist'' then aerr (Errorw ''container not found: %w'' [] e)
           else abind (sh_Sleep S pullRetryDelay) (\<lambda>_. docker_pull S src retries))"

definition docker_load :: "'w shell \<Rightarrow> string \<Rightarrow> string \<Rightarrow> string \<Rightarrow> ('w, unit) act" where
  "docker_load S src dst cluster =
     abind (docker_pull S src 3) (\<lambda>_.
     abind (if dst \<noteq> src then amap_err (Errorw ''failed to tag %q with %q: %w'' [src, dst]) (LogCommand S ''docker'' [''tag'', src, dst])
            else aret ()) (\<lambda>_.
       amap_err (Errorw ''failed to load %q: %w'' [dst]) (LogCommand S ''kind'' ([''load'', ''docker-image'', dst] @ cluster_args cluster))))"

definition loadContainerImageWithFallback :: "'w shell \<Rightarrow> (string \<Rightarrow> string result) \<Rightarrow> string \<Rightarrow> string \<Rightarrow> string \<Rightarrow> ('w, unit) act" where
  "loadContainerImageWithFallback S normalizeImageRef src dst cluster =
     abind (tryLoadFromContainerd S normalizeImageRef src dst cluster) (\<lambda>done.
       if done then aret () else docker_load S src dst cluster)"

definition loadContainerImages :: "'w shell \<Rightarrow> (string \<Rightarrow> string result) \<Rightarrow> KindSpec \<Rightarrow> ('w, unit) act" where
  "loadContainerImages S normalizeImageRef k =
     aiter (\<lambda>(s, d).
       if s = [] then aerr (Errorf ''source container must not be empty'' [])
       else loadContainerImageWithFallback S normalizeImageRef s (or_default d s) (ks_Name k)) (ks_ContainerImages k)"

definition set_pid_max :: "'w shell \<Rightarrow> string \<Rightarrow> ('w, unit) act" where
  "set_pid_max S script =
     abind (atry (sh_Stat S script)) (\<lambda>r.
       if is_Ok r then
         abind (out_or (\<lambda>out e. if out \<noteq> [] then Errorw ''failed to exec set_pid_max script: %w: %s'' [TrimSpace out] e
                                else Errorw ''failed to exec set_pid_max script: %w'' [] e) (OutCommand S script [])) (\<lambda>_. aret ())
       else aret ())"

definition Kind_Deploy :: "'w shell \<Rightarrow> semver \<Rightarrow> 'w gar_env \<Rightarrow> (string \<Rightarrow> string result) \<Rightarrow> string \<Rightarrow> KindSpec \<Rightarrow> ('w, KindSpec) act" where
  "Kind_Deploy S V G normalizeImageRef setPIDMaxScript k =
     abind (amap_err (Errorw ''failed to check for dependencies: %w'' []) (Kind_checkDependencies S V k)) (\<lambda>_.
     abind (amap_err (Errorw ''failed to create kind cluster: %w'' []) (Kind_create S k)) (\<lambda>k'.
     abind (set_pid_max S setPIDMaxScript) (\<lambda>_.
     abind (aiter (\<lambda>s. amap_err (Errorw ''failed to deploy manifest: %w'' []) (LogCommand S ''kubectl'' [''apply'', ''-f'', s]))
              (ks_AdditionalManifests k)) (\<lambda>_.
     abind (if ks_GoogleArtifactRegistries k \<noteq> [] then
              amap_err (Errorw ''failed to setup GAR access: %w'' []) (SetupGARAccess S G (ks_GoogleArtifactRegistries k))
            else aret ()) (\<lambda>_.
     abind (if ks_ContainerImages k \<noteq> [] then
              amap_err (Errorw ''failed to load container images: %w'' []) (loadContainerImages S normalizeImageRef k)
            else aret ()) (\<lambda>_.
       if ks_AdditionalManifests k \<noteq> [] then
         abind (atry (LogCommand S ''kubectl'' [''rollout'', ''status'', ''deployment'', ''-w''])) (\<lambda>_. aret k')
       else aret k'))))))"

definition Kind_Delete :: "'w shell \<Rightarrow> KindSpec \<Rightarrow> ('w, unit) act" where
  "Kind_Delete S k =
     amap_err (Errorw ''failed to delete cluster: %w'' []) (LogCommand S ''kind'' ([''delete'', ''cluster''] @ cluster_args (ks_Name k)))"

definition Kind_GetName :: "KindSpec \<Rightarrow> string" where
  "Kind_GetName k = or_default (ks_Name k) ''kne''"

subsection \<open>The interface\<close>

datatype cluster_spec = External string | Kubeadm KubeadmSpec | Kind KindSpec

text \<open>What a cluster needs of its environment besides the shell.\<close>

record 'w cluster_env =
  cl_semver :: semver
  cl_gar :: "'w gar_env"
  cl_yaml :: yaml_env
  cl_uuid :: "('w, string) act"
  cl_home :: string
  cl_normalizeImageRef :: "string \<Rightarrow> string result"
  cl_setPIDMaxScript :: string

definition Cluster_Deploy :: "'w shell \<Rightarrow> 'w cluster_env \<Rightarrow> cluster_spec \<Rightarrow> ('w, cluster_spec) act" where
  "Cluster_Deploy S C c =
     (case c of
        External _ \<Rightarrow> aret c
      | Kubeadm k \<Rightarrow> abind (Kubeadm_Deploy S (cl_yaml C) (cl_uuid C) (cl_home C) k) (\<lambda>k'. aret (Kubeadm k'))
      | Kind k \<Rightarrow>
          abind (Kind_Deploy S (cl_semver C) (cl_gar C) (cl_normalizeImageRef C) (cl_setPIDMaxScript C) k) (\<lambda>k'.
            aret (Kind k')))"

definition Cluster_Delete :: "'w shell \<Rightarrow> cluster_spec \<Rightarrow> ('w, unit) act" where
  "Cluster_Delete S c =
     (case c of External _ \<Rightarrow> aret () | Kubeadm k \<Rightarrow> Kubeadm_Delete S k | Kind k \<Rightarrow> Kind_Delete S k)"

definition Cluster_Healthy :: "'w shell \<Rightarrow> cluster_spec \<Rightarrow> ('w, unit) act" where
  "Cluster_Healthy S c =
     (case c of
        External _ \<Rightarrow> cluster_info S []
      | Kubeadm _ \<Rightarrow> cluster_info S []
      | Kind k \<Rightarrow> cluster_info S [''--context'', ''kind-'' @ Kind_GetName k])"

definition GetName :: "cluster_spec \<Rightarrow> string" where
  "GetName c = (case c of Kind k \<Rightarrow> Kind_GetName k | _ \<Rightarrow> ''kne'')"

definition GetDockerNetworkResourceName :: "cluster_spec \<Rightarrow> string" where
  "GetDockerNetworkResourceName c =
     (case c of External network \<Rightarrow> network | Kubeadm k \<Rightarrow> km_Network k | Kind _ \<Rightarrow> ''kind'')"

section \<open>A cluster deployment cleans up\<close>

text \<open>What the code outside the repository leaves alone.\<close>

definition gar_frame :: "('w \<Rightarrow> 'v) \<Rightarrow> 'w gar_env \<Rightarrow> bool" where
  "gar_frame view G \<longleftrightarrow> keeps view (ge_FindCredentials G) \<and> keeps view (ge_Token G)"

lemma gar_frameD [keeps_intros]: "gar_frame view G \<Longrightarrow> keeps view (ge_FindCredentials G)" "gar_frame view G \<Longrightarrow> keeps view (ge_Token G)"
  by (simp_all add: gar_frame_def)

lemma keeps_or_False [keeps_intros]: "keeps view m \<Longrightarrow> (\<And>x. keeps view (f x)) \<Longrightarrow> keeps view (or_False m f)"
  unfolding or_False_def by (intro keeps_intros)

lemma keeps_check_binaries [keeps_intros]: "shell_frame view S \<Longrightarrow> keeps view (check_binaries S bins)"
  unfolding check_binaries_def by (intro keeps_intros)

lemma keeps_clusterKindNodes [keeps_intros]: "shell_frame view S \<Longrightarrow> keeps view (clusterKindNodes S)"
  unfolding clusterKindNodes_def clusterKindName_def clusterName_def Let_def by (intro keeps_intros) simp_all

lemma keeps_gar_login [keeps_intros]: "shell_frame view S \<Longrightarrow> gar_frame view G \<Longrightarrow> keeps view (gar_login S G path registries)"
  unfolding gar_login_def writeDockerConfig_def copy_config_def by (intro keeps_intros) simp_all

lemma SetupGARAccess_temps: "temps_ok fs S \<Longrightarrow> gar_frame fs G \<Longrightarrow> keeps fs (SetupGARAccess S G registries)"
  unfolding SetupGARAccess_def
  by (rule keeps_temp) (auto intro!: keeps_intros dest: temps_okD intro: temps_okD)

lemma SetupGARAccess_env: "env_ok env S \<Longrightarrow> gar_frame env G \<Longrightarrow> keeps env (SetupGARAccess S G registries)"
  unfolding SetupGARAccess_def
  by (intro keeps_abind keeps_afinally keeps_setenv) (auto intro!: keeps_intros dest: env_okD intro: env_okD)

lemma keeps_retag [keeps_intros]: "shell_frame view S \<Longrightarrow> keeps view (retagInKindNodes S src dst cluster)"
  unfolding retagInKindNodes_def by (intro keeps_intros) simp_all

lemma keeps_docker_pull [keeps_intros]: "shell_frame view S \<Longrightarrow> keeps view (docker_pull S src n)"
proof (induction n)
  case (Suc n)
  then show ?case by (auto intro!: keeps_intros split: option.split)
qed (auto intro!: keeps_intros)

lemma keeps_docker_load [keeps_intros]: "shell_frame view S \<Longrightarrow> keeps view (docker_load S src dst cluster)"
  unfolding docker_load_def by (intro keeps_intros) simp_all

text \<open>The part of loading an image that works with an archive in a temporary directory.\<close>

lemma keeps_archive [keeps_intros]:
  "shell_frame view S \<Longrightarrow>
   keeps view (let archive = filepath_Join [tmpDir, ''image.tar''] in
      or_False (LogCommand S ''sudo'' [''ctr'', ''-n'', ''k8s.io'', ''images'', ''export'', archive, src]) (\<lambda>_.
        or_False (LogCommand S ''kind'' ([''load'', ''image-archive'', archive] @ cluster_args cluster)) (\<lambda>_.
          if dstRef \<noteq> src then or_False (retagInKindNodes S src dstRef cluster) (\<lambda>_. aret True) else aret True)))"
  unfolding Let_def by (intro keeps_intros) simp_all

lemma tryLoad_temps: "temps_ok fs S \<Longrightarrow> keeps fs (tryLoadFromContainerd S N src dst cluster)"
  unfolding tryLoadFromContainerd_def
  by (intro keeps_or_False keeps_if keeps_temp keeps_archive) (auto intro!: keeps_intros dest: temps_okD intro: temps_okD)

lemma tryLoad_env: "env_ok env S \<Longrightarrow> keeps env (tryLoadFromContainerd S N src dst cluster)"
  unfolding tryLoadFromContainerd_def
  by (intro keeps_or_False keeps_if keeps_abind keeps_afinally keeps_archive) (auto intro!: keeps_intros dest: env_okD intro: env_okD)

lemma keeps_loadContainerImages:
  assumes "shell_frame view S" "\<And>src dst cluster. keeps view (tryLoadFromContainerd S N src dst cluster)"
  shows "keeps view (loadContainerImages S N k)"
  unfolding loadContainerImages_def loadContainerImageWithFallback_def
  by (rule keeps_aiter) (auto intro!: keeps_intros assms)

lemma keeps_Kind_Deploy:
  assumes f: "shell_frame view S" and t: "\<And>src dst cluster. keeps view (tryLoadFromContainerd S N src dst cluster)"
    and g: "\<And>rs. keeps view (SetupGARAccess S G rs)"
  shows "keeps view (Kind_Deploy S V G N script k)"
proof -
  have "keeps view (Kind_checkDependencies S V k)"
    unfolding Kind_checkDependencies_def by (intro keeps_intros f)
  moreover have "keeps view (Kind_create S k)"
    unfolding Kind_create_def kind_create_cluster_def by (intro keeps_intros f)
  moreover have "keeps view (set_pid_max S script)" unfolding set_pid_max_def by (intro keeps_intros f)
  ultimately show ?thesis unfolding Kind_Deploy_def by (intro keeps_intros f g keeps_loadContainerImages t) simp_all
qed

lemma CreateInitConfigFile_new:
  assumes ok: "temps_ok fs S"
  shows "temp_new fs (CreateInitConfigFile S Y opts)"
  unfolding temp_new_def
proof
  fix w
  note fr = shell_frameD [OF temps_okD(1) [OF ok]]
  have rm: "fs w2 = fs w1 - {f}" if "remove_config S f w1 = (r, w2)" for f w1 r w2
  proof -
    obtain q u where q: "os_Remove S f w1 = (q, u)" by fastforce
    have "w2 = u" using that q by (cases q) (auto simp: remove_config_def atry_def abind_def)
    then show ?thesis using temp_goneD [OF temps_okD(5) [OF ok] q] by simp
  qed
  show "case CreateInitConfigFile S Y opts w of
      (Ok p, w') \<Rightarrow> p \<notin> fs w \<and> fs w' = insert p (fs w) | (_, w') \<Rightarrow> fs w' = fs w"
  proof (cases "config_docs Y opts")
    case (Ok docs)
    obtain r1 w1 where c: "os_CreateTemp S [] ''kne-kubeadm-init-*.yaml'' w = (r1, w1)" by fastforce
    show ?thesis
    proof (cases r1)
      case (Ok f)
      have f: "f \<notin> fs w" "fs w1 = insert f (fs w)" using temp_newD(1) [OF temps_okD(3) [OF ok]] c Ok by auto
      obtain r2 w2 where wr: "os_Write S f (StrJoin (''---'' @ [CHR 0x0A]) docs) w1 = (r2, w2)" by fastforce
      obtain r3 w3 where cl: "os_Close S f w2 = (r3, w3)" by fastforce
      obtain r4 w4 where rc: "remove_config S f w3 = (r4, w4)" by fastforce
      have s: "fs w2 = fs w1" "fs w3 = fs w2" using keepsD [OF fr(3) wr] keepsD [OF fr(4) cl] by simp_all
      have "fs w4 = fs w3 - {f}" by (rule rm [OF rc])
      with f s have "fs w4 = fs w" by auto
      moreover have "\<nexists>p. r2 = Panic p" "\<nexists>p. r3 = Panic p"
        using never_panicsD [OF temps_okD(7) [OF ok]] never_panicsD [OF temps_okD(8) [OF ok]] wr cl by blast+
      ultimately show ?thesis
        using f s \<open>config_docs Y opts = Ok docs\<close> c Ok wr cl rc
        by (cases r2; cases r3; cases r4) (auto simp: CreateInitConfigFile_def amap_err_def atry_def abind_def)
    next
      case (Error e)
      then show ?thesis using \<open>config_docs Y opts = Ok docs\<close> c temp_newD(2) [OF temps_okD(3) [OF ok]]
        by (auto simp: CreateInitConfigFile_def amap_err_def abind_def)
    next
      case (Panic p)
      then show ?thesis using \<open>config_docs Y opts = Ok docs\<close> c temp_newD(3) [OF temps_okD(3) [OF ok]]
        by (auto simp: CreateInitConfigFile_def amap_err_def abind_def)
    qed
  qed (simp_all add: CreateInitConfigFile_def)
qed

lemma temp_new_amap_err: "temp_new fs m \<Longrightarrow> temp_new fs (amap_err f m)"
  unfolding temp_new_def [of fs "amap_err f m"]
proof
  fix w assume new: "temp_new fs m"
  obtain q u where q: "m w = (q, u)" by fastforce
  show "case amap_err f m w of (Ok p, w') \<Rightarrow> p \<notin> fs w \<and> fs w' = insert p (fs w) | (_, w') \<Rightarrow> fs w' = fs w"
    using temp_newD [OF new] q by (cases q) (simp_all add: amap_err_def)
qed

lemma temp_gone_remove_config: "temps_ok fs S \<Longrightarrow> temp_gone fs f (remove_config S f)"
  unfolding temp_gone_def
proof
  fix w assume ok: "temps_ok fs S"
  obtain q u where q: "os_Remove S f w = (q, u)" by fastforce
  have "snd (remove_config S f w) = u" using q by (cases q) (auto simp: remove_config_def atry_def abind_def)
  then show "fs (snd (remove_config S f w)) = fs w - {f}" using temp_goneD [OF temps_okD(5) [OF ok] q] by simp
qed

lemma EnableCredentialProvider_temps: "temps_ok fs S \<Longrightarrow> keeps fs (EnableCredentialProvider S cfg)"
  unfolding EnableCredentialProvider_def
  by (intro keeps_abind keeps_amap_err keeps_if keeps_temp) (auto intro!: keeps_intros dest: temps_okD intro: temps_okD)

lemma EnableCredentialProvider_env: "env_ok env S \<Longrightarrow> keeps env (EnableCredentialProvider S cfg)"
  unfolding EnableCredentialProvider_def
  by (intro keeps_abind keeps_amap_err keeps_if keeps_afinally) (auto intro!: keeps_intros dest: env_okD intro: env_okD)

lemma keeps_kubeadm_up:
  assumes f: "shell_frame view S" and u: "keeps view uuid" and c: "\<And>cfg. keeps view (EnableCredentialProvider S cfg)"
    and t: "\<And>pattern d body. (\<And>f. keeps view (body f)) \<Longrightarrow> keeps view (with_temp S pattern d (body :: string \<Rightarrow> ('w, KubeadmSpec) act))"
  shows "keeps view (kubeadm_up S uuid home cfgPath k)"
proof -
  have "keeps view (kubeadm_add_on S uuid k)" for k
    unfolding kubeadm_add_on_def kubeadm_network_def kubectlApply_def Let_def by (intro keeps_intros f u c)
  then show ?thesis unfolding kubeadm_up_def by (intro keeps_intros f t) simp_all
qed

lemma Cluster_Deploy_temps:
  assumes fs: "temps_ok fs S" and gar: "gar_frame fs (cl_gar C)" and uuid: "keeps fs (cl_uuid C)"
  shows "keeps fs (Cluster_Deploy S C c)"
proof -
  have "keeps fs (Kubeadm_Deploy S Y (cl_uuid C) home k)" for Y home k
  proof -
    have "keeps fs (kubeadm_up S (cl_uuid C) home cfg k)" for cfg
      by (rule keeps_kubeadm_up) (use fs uuid in \<open>auto intro: temps_okD EnableCredentialProvider_temps keeps_with_temp\<close>)
    then show ?thesis
      unfolding Kubeadm_Deploy_def using temps_okD(1) [OF fs]
      by (intro keeps_abind [OF keeps_amap_err [OF keeps_check_binaries]] keeps_temp temp_new_amap_err
          CreateInitConfigFile_new [OF fs] temp_gone_remove_config [OF fs])
  qed
  moreover have "keeps fs (Kind_Deploy S V (cl_gar C) N script k)" for V N script k
    by (rule keeps_Kind_Deploy) (use fs gar in \<open>auto intro: temps_okD tryLoad_temps SetupGARAccess_temps\<close>)
  ultimately show ?thesis
    unfolding Cluster_Deploy_def by (cases c) (auto intro!: keeps_intros)
qed

lemma Cluster_Deploy_env:
  assumes env: "env_ok env S" and gar: "gar_frame env (cl_gar C)" and uuid: "keeps env (cl_uuid C)"
  shows "keeps env (Cluster_Deploy S C c)"
proof -
  have "keeps env (Kubeadm_Deploy S Y (cl_uuid C) home k)" for Y home k
  proof -
    have "keeps env (kubeadm_up S (cl_uuid C) home cfg k)" for cfg
      by (rule keeps_kubeadm_up) (use env uuid in \<open>auto intro: env_okD EnableCredentialProvider_env keeps_with_temp_env\<close>)
    moreover have "keeps env (CreateInitConfigFile S Y opts)" for opts
      unfolding CreateInitConfigFile_def remove_config_def using env_okD [OF env] by (intro keeps_intros) simp_all
    moreover have "keeps env (remove_config S f)" for f
      unfolding remove_config_def using env_okD [OF env] by (intro keeps_intros) simp_all
    ultimately show ?thesis
      unfolding Kubeadm_Deploy_def using env_okD(1) [OF env] by (intro keeps_intros) simp_all
  qed
  moreover have "keeps env (Kind_Deploy S V (cl_gar C) N script k)" for V N script k
    by (rule keeps_Kind_Deploy) (use env gar in \<open>auto intro: env_okD tryLoad_env SetupGARAccess_env\<close>)
  ultimately show ?thesis
    unfolding Cluster_Deploy_def by (cases c) (auto intro!: keeps_intros)
qed

section \<open>The commands that load an image\<close>

text \<open>\<open>log\<close> is the list of the commands that were run.\<close>

definition logs_commands :: "('w \<Rightarrow> string list list) \<Rightarrow> 'w shell \<Rightarrow> bool" where
  "logs_commands log S \<longleftrightarrow>
     (\<forall>i c w. \<exists>x w'. sh_Command S i c w = (Ok x, w') \<and> log w' = log w @ [c]) \<and>
     (\<forall>t w. \<exists>w'. sh_Sleep S t w = (Ok (), w') \<and> log w' = log w)"

lemma logs_OutCommand:
  assumes "logs_commands log S"
  obtains out eo w' where "OutCommand S cmd args w = (Ok (out, eo), w')" "log w' = log w @ [cmd # args]"
proof -
  have "\<exists>x w'. sh_Command S [] (cmd # args) w = (Ok x, w') \<and> log w' = log w @ [cmd # args]"
    using assms unfolding logs_commands_def by blast
  then show thesis using that by (auto simp: OutCommand_def runCommand_def)
qed

lemma logs_LogCommand:
  assumes "logs_commands log S"
  obtains eo w' where "LogCommand S cmd args w = (case eo of None \<Rightarrow> Ok () | Some e \<Rightarrow> Error e, w')" "log w' = log w @ [cmd # args]"
proof -
  obtain out eo w' where "OutCommand S cmd args w = (Ok (out, eo), w')" "log w' = log w @ [cmd # args]"
    by (rule logs_OutCommand [OF assms])
  then show thesis using that [of eo w']
    by (cases eo) (auto simp: LogCommand_def OutCommand_def run_err_def)
qed

definition pull_command :: "string \<Rightarrow> string list" where "pull_command src = [''docker'', ''pull'', src]"

lemma docker_pull_log:
  assumes "logs_commands log S"
  shows "\<exists>k r w'. docker_pull S src n w = (r, w') \<and> 1 \<le> k \<and> k \<le> Suc n \<and> log w' = log w @ replicate k (pull_command src) \<and>
    (\<nexists>p. r = Panic p)"
proof (induction n arbitrary: w)
  case 0
  obtain out eo w1 where o: "OutCommand S ''docker'' [''pull'', src] w = (Ok (out, eo), w1)" "log w1 = log w @ [''docker'' # [''pull'', src]]"
    by (rule logs_OutCommand [OF assms])
  then show ?case by (cases eo) (auto simp: run_err_def pull_command_def intro!: exI [of _ 1])
next
  case (Suc n)
  obtain out eo w1 where o: "OutCommand S ''docker'' [''pull'', src] w = (Ok (out, eo), w1)" "log w1 = log w @ [''docker'' # [''pull'', src]]"
    by (rule logs_OutCommand [OF assms])
  show ?case
  proof (cases "eo = None \<or> Contains out ''not found'' \<or> Contains out ''does not exist''")
    case True
    then show ?thesis using o by (cases eo) (auto simp: pull_command_def intro!: exI [of _ 1])
  next
    case False
    then obtain e where e: "eo = Some e" by auto
    obtain w2 where w2: "sh_Sleep S pullRetryDelay w1 = (Ok (), w2)" "log w2 = log w1" using assms unfolding logs_commands_def by blast
    obtain k r w' where ih: "docker_pull S src n w2 = (r, w')" "1 \<le> k" "k \<le> Suc n" "log w' = log w2 @ replicate k (pull_command src)" "\<nexists>p. r = Panic p"
      using Suc.IH by blast
    have "docker_pull S src (Suc n) w = (r, w')" using False o w2 ih(1) e by simp
    moreover have "log w' = log w @ replicate (Suc k) (pull_command src)" using ih(4) w2(2) o(2) by (simp add: pull_command_def)
    ultimately show ?thesis using ih(2,3,5) by (intro exI [of _ "Suc k"] exI [of _ r] exI [of _ w']) simp
  qed
qed

definition load_commands :: "string \<Rightarrow> string \<Rightarrow> string \<Rightarrow> string list list" where
  "load_commands src dst cluster =
     (if dst \<noteq> src then [[''docker'', ''tag'', src, dst]] else []) @ [''kind'' # [''load'', ''docker-image'', dst] @ cluster_args cluster]"

text \<open>
  Loading an image through docker runs the right commands: one to four attempts to pull it, then the tag if
  the image gets another name, then the load into the cluster, and nothing else. It stops at the first that
  fails, and if it succeeds all of them have run.
\<close>

theorem docker_load_commands:
  assumes "logs_commands log S" and "docker_load S src dst cluster w = (r, w')"
  shows "\<exists>k rest. 1 \<le> k \<and> k \<le> 4 \<and> log w' = log w @ replicate k (pull_command src) @ rest \<and>
    prefix rest (load_commands src dst cluster) \<and> (r = Ok () \<longrightarrow> rest = load_commands src dst cluster)"
proof -
  obtain k q w1 where p: "docker_pull S src 3 w = (q, w1)" "1 \<le> k" "k \<le> Suc 3" "log w1 = log w @ replicate k (pull_command src)"
    using docker_pull_log [OF assms(1), of src 3 w] by blast
  obtain eo w2 where t: "LogCommand S ''docker'' [''tag'', src, dst] w1 = (case eo of None \<Rightarrow> Ok () | Some e \<Rightarrow> Error e, w2)"
    "log w2 = log w1 @ [''docker'' # [''tag'', src, dst]]" by (rule logs_LogCommand [OF assms(1)])
  define w3 where "w3 = (if dst \<noteq> src then w2 else w1)"
  obtain eo' w4 where l: "LogCommand S ''kind'' ([''load'', ''docker-image'', dst] @ cluster_args cluster) w3 = (case eo' of None \<Rightarrow> Ok () | Some e \<Rightarrow> Error e, w4)"
    "log w4 = log w3 @ [''kind'' # [''load'', ''docker-image'', dst] @ cluster_args cluster]" by (rule logs_LogCommand [OF assms(1)])
  let ?tag = "if dst \<noteq> src then [[''docker'', ''tag'', src, dst]] else []"
  have w3: "log w3 = log w1 @ ?tag" using t(2) by (simp add: w3_def)
  consider "q \<noteq> Ok ()" "r \<noteq> Ok ()" "w' = w1" | "q = Ok ()" "dst \<noteq> src" "eo \<noteq> None" "r \<noteq> Ok ()" "w' = w2"
    | "q = Ok ()" "w' = w4"
    using assms(2) p(1) t(1) l(1) by (cases q; cases eo) (auto simp: docker_load_def abind_def amap_err_def w3_def split: if_splits option.splits)
  then show ?thesis
  proof cases
    case 1
    then show ?thesis using p by (intro exI [of _ k] exI [of _ "[]"]) simp
  next
    case 2
    then show ?thesis using p t by (intro exI [of _ k] exI [of _ "[[''docker'', ''tag'', src, dst]]"]) (simp add: load_commands_def)
  next
    case 3
    then show ?thesis using p l w3 by (intro exI [of _ k] exI [of _ "load_commands src dst cluster"]) (simp add: load_commands_def)
  qed
qed

section \<open>Concrete runs\<close>

lemma mem_shell_log: "logs_commands sys_log (mem_shell says)"
  by (auto simp: logs_commands_def mem_shell_def)

definition ex_loaded :: "unit result \<times> sys" where
  "ex_loaded = docker_load (mem_shell (\<lambda>c. ([], None))) ''ceos:4.30'' ''ceos:latest'' ''kne'' sys_start"

theorem docker_load_commands_witness:
  "\<exists>k. 1 \<le> k \<and> k \<le> 4 \<and> fst ex_loaded = Ok () \<and>
    sys_log (snd ex_loaded) = replicate k [''docker'', ''pull'', ''ceos:4.30''] @
      [[''docker'', ''tag'', ''ceos:4.30'', ''ceos:latest''], [''kind'', ''load'', ''docker-image'', ''ceos:latest'', ''--name'', ''kne'']]"
proof -
  have ok: "fst ex_loaded = Ok ()" by code_simp
  have "docker_load (mem_shell (\<lambda>c. ([], None))) ''ceos:4.30'' ''ceos:latest'' ''kne'' sys_start = (fst ex_loaded, snd ex_loaded)"
    by (simp add: ex_loaded_def)
  from docker_load_commands [OF mem_shell_log this] ok show ?thesis
    by (auto simp: pull_command_def load_commands_def cluster_args_def sys_start_def)
qed

text \<open>A kind cluster whose registry login fails half-way.\<close>

definition ex_says :: "string list \<Rightarrow> string \<times> err option" where
  "ex_says c = (if take 2 c = [''docker'', ''login''] then (''denied'', Some EOF) else (''kind-kne'', None))"

definition ex_cluster_env :: "sys cluster_env" where
  "ex_cluster_env =
     \<lparr>cl_semver = \<lparr>sv_Parse = (\<lambda>s. Error EOF), sv_LT = (\<lambda>a b. False), sv_String = (\<lambda>v. [])\<rparr>,
      cl_gar = \<lparr>ge_FindCredentials = aret (), ge_Token = aret ''token'', ge_Marshal = (\<lambda>rs. Ok ''{}''), ge_Unmarshal = (\<lambda>s. Ok [])\<rparr>,
      cl_yaml = \<lparr>ye_Init = (\<lambda>_. Ok ''init''), ye_Cluster = (\<lambda>_. Ok ''cluster'')\<rparr>,
      cl_uuid = aret ''1234'', cl_home = ''/root'', cl_normalizeImageRef = Ok, cl_setPIDMaxScript = ''/root/set_pid_max.sh''\<rparr>"

definition ex_kind :: KindSpec where
  "ex_kind = \<lparr>ks_Name = ''kne'', ks_Recycle = False, ks_Version = [], ks_Image = [], ks_Retain = False, ks_Wait = [], ks_Kubecfg = [],
     ks_GoogleArtifactRegistries = [''us-west1-docker.pkg.dev''], ks_ContainerImages = [(''a'', ''b'')], ks_KindConfigFile = [],
     ks_AdditionalManifests = []\<rparr>"

text \<open>The nodes of a cluster come one on a line; one reader of that list splits it at spaces.\<close>

lemma split_nodes_keeps_lines:
  "split_nodes (''kne-control-plane'' @ [CHR 0x0A] @ ''kne-worker'' @ [CHR 0x0A]) = [''kne-control-plane'' @ [CHR 0x0A] @ ''kne-worker'']"
  "node_lines (''kne-control-plane'' @ [CHR 0x0A] @ ''kne-worker'' @ [CHR 0x0A]) = [''kne-control-plane'', ''kne-worker'']"
  by code_simp+

end
