(* ===== verification/Deploy_Specs.thy ===== *)
theory Deploy_Specs
  imports Deploy_Cluster Net_IP
begin

text \<open>
  The ingress, the CNI and the controllers of \<open>deploy/deploy.go\<close>: how each of them is deployed from its
  manifest, and how the code waits until its workloads are healthy. A watch of the cluster is the list of the
  objects that it delivers before the context of the wait ends, and the error of that context.
\<close>

section \<open>Waiting for workloads\<close>

datatype 'o watched = Seen 'o | SeenOther | WatchClosed

record deployment_status =
  dp_SpecReplicas :: "int option"
  dp_Available :: int
  dp_Ready :: int
  dp_Unavailable :: int
  dp_Replicas :: int
  dp_Updated :: int

record daemon_status =
  dm_Ready :: int
  dm_Desired :: int
  dm_Unavailable :: int

record secret =
  sc_Name :: string
  sc_StringData :: "(string, string) gomap"

record 'w kclient =
  kc_WatchDeployments :: "string \<Rightarrow> ('w, deployment_status watched list \<times> err) act"
  kc_WatchDaemonSets :: "string \<Rightarrow> string \<Rightarrow> ('w, daemon_status watched list \<times> err) act"
  kc_Secrets :: "('w, secret) api"

definition all_replicas :: "deployment_status \<Rightarrow> bool" where
  "all_replicas d =
     (let r = (case dp_SpecReplicas d of None \<Rightarrow> 1 | Some n \<Rightarrow> n) in
      dp_Available d = r \<and> dp_Ready d = r \<and> dp_Unavailable d = 0 \<and> dp_Replicas d = r \<and> dp_Updated d = r)"

fun deployment_loop :: "string \<Rightarrow> deployment_status watched list \<Rightarrow> err \<Rightarrow> unit result" where
  "deployment_loop name [] ctxErr = Error (Errorw ''context canceled before %q healthy: %w'' [name] ctxErr)"
| "deployment_loop name (WatchClosed # es) ctxErr = Error (Errorf ''watch channel closed before %q healthy'' [name])"
| "deployment_loop name (SeenOther # es) ctxErr = Error (Errorf ''invalid object type: %T'' [''*v1.Deployment''])"
| "deployment_loop name (Seen d # es) ctxErr = (if all_replicas d then Ok () else deployment_loop name es ctxErr)"

definition deploymentHealthy :: "'w kclient \<Rightarrow> string \<Rightarrow> ('w, unit) act" where
  "deploymentHealthy K name =
     abind (amap_err (\<lambda>_. Errorf ''failed to create watcher for deployment %q'' [name]) (kc_WatchDeployments K name)) (\<lambda>(es, ctxErr).
       alift (deployment_loop name es ctxErr))"

definition daemon_ready :: "daemon_status \<Rightarrow> bool" where
  "daemon_ready d \<longleftrightarrow> dm_Ready d = dm_Desired d \<and> dm_Unavailable d = 0"

fun meshnet_loop :: "daemon_status watched list \<Rightarrow> err \<Rightarrow> unit result" where
  "meshnet_loop [] ctxErr = Error (Errorw ''context canceled before meshnet healthy: %w'' [] ctxErr)"
| "meshnet_loop (WatchClosed # es) ctxErr = Error (Errorf ''watch channel closed before meshnet healthy'' [])"
| "meshnet_loop (SeenOther # es) ctxErr = Error (Errorf ''invalid object type: %T'' [''*v1.DaemonSet''])"
| "meshnet_loop (Seen d # es) ctxErr = (if daemon_ready d then Ok () else meshnet_loop es ctxErr)"

definition Meshnet_Healthy :: "'w kclient \<Rightarrow> ('w, unit) act" where
  "Meshnet_Healthy K =
     abind (kc_WatchDaemonSets K ''meshnet'' ''metadata.name=meshnet'') (\<lambda>(es, ctxErr). alift (meshnet_loop es ctxErr))"

section \<open>Manifests\<close>

definition apply_manifest :: "'w shell \<Rightarrow> string \<Rightarrow> ('w, unit) act" where
  "apply_manifest S f = LogCommand S ''kubectl'' [''apply'', ''-f'', f]"

text \<open>
  The contents of a manifest, if they are given, go to a temporary file, which is removed when the caller
  returns. The source passes the name of the file on through a field of the specification, which keeps it; the
  model passes it as an argument and leaves the specification as it is, since a deployment is deployed once.
\<close>

definition staged :: "'w shell \<Rightarrow> string \<Rightarrow> string option \<Rightarrow> string \<Rightarrow> (string \<Rightarrow> ('w, unit) act) \<Rightarrow> ('w, unit) act" where
  "staged S pattern contents path body =
     (case contents of None \<Rightarrow> body path | Some d \<Rightarrow> with_temp S pattern d body)"

definition in_dir :: "string \<Rightarrow> string \<Rightarrow> string \<Rightarrow> string" where
  "in_dir dir file path = (if path = [] \<and> dir \<noteq> [] then filepath_Join [dir, file] else path)"

record cdnos_spec =
  op_Operator :: string
  op_OperatorData :: "string option"

record operator_spec = cdnos_spec +
  op_ManifestDir :: string

record ixia_spec = operator_spec +
  ix_ConfigMap :: string
  ix_ConfigMapData :: "string option"

record meshnet_spec =
  ms_ManifestDir :: string
  ms_Manifest :: string
  ms_ManifestData :: "string option"

definition Meshnet_Deploy :: "'w shell \<Rightarrow> meshnet_spec \<Rightarrow> ('w, unit) act" where
  "Meshnet_Deploy S m =
     staged S ''meshnet-manifest-*.yaml'' (ms_ManifestData m) (ms_Manifest m) (\<lambda>f.
       amap_err (Errorw ''failed to deploy meshnet: %w'' []) (apply_manifest S (in_dir (ms_ManifestDir m) ''manifest.yaml'' f)))"

definition CEOSLab_Deploy :: "'w shell \<Rightarrow> operator_spec \<Rightarrow> ('w, unit) act" where
  "CEOSLab_Deploy S c =
     staged S ''ceoslab-operator-*.yaml'' (op_OperatorData c) (op_Operator c) (\<lambda>f.
       amap_err (Errorw ''failed to deploy ceoslab operator: %w'' []) (apply_manifest S (in_dir (op_ManifestDir c) ''manifest.yaml'' f)))"

definition Lemming_Deploy :: "'w shell \<Rightarrow> operator_spec \<Rightarrow> ('w, unit) act" where
  "Lemming_Deploy S l =
     staged S ''lemming-operator-*.yaml'' (op_OperatorData l) (op_Operator l) (\<lambda>f.
       amap_err (Errorw ''failed to deploy lemming operator: %w'' []) (apply_manifest S (in_dir (op_ManifestDir l) ''manifest.yaml'' f)))"

definition SRLinux_Deploy :: "'w shell \<Rightarrow> operator_spec \<Rightarrow> ('w, unit) act" where
  "SRLinux_Deploy S s =
     staged S ''srlinux-operator-*.yaml'' (op_OperatorData s) (op_Operator s) (\<lambda>f.
       amap_err (Errorw ''failed to deploy srlinux operator: %w'' []) (apply_manifest S (in_dir (op_ManifestDir s) ''manifest.yaml'' f)))"

definition Cdnos_Deploy :: "'w shell \<Rightarrow> cdnos_spec \<Rightarrow> ('w, unit) act" where
  "Cdnos_Deploy S c =
     staged S ''cdnos-operator-*.yaml'' (op_OperatorData c) (op_Operator c) (\<lambda>f.
       amap_err (Errorw ''failed to deploy cdnos operator: %w'' []) (apply_manifest S f))"

text \<open>The config map of IxiaTG may be found in the directory of the manifests, under one of two names.\<close>

fun find_config :: "'w shell \<Rightarrow> string \<Rightarrow> string list \<Rightarrow> ('w, string) act" where
  "find_config S dir [] = aret []"
| "find_config S dir (name # names) =
     (let path = filepath_Join [dir, name] in
      abind (atry (sh_Stat S path)) (\<lambda>r. if is_Ok r then aret path else find_config S dir names))"

definition ixia_config_map :: "'w shell \<Rightarrow> ixia_spec \<Rightarrow> ('w, unit) act" where
  "ixia_config_map S i =
     abind (if ix_ConfigMap i = [] \<and> op_ManifestDir i \<noteq> [] then find_config S (op_ManifestDir i) [''ixiatg-configmap.yaml'', ''ixia-configmap.yaml'']
            else aret (ix_ConfigMap i)) (\<lambda>cm.
       if cm = [] \<and> ix_ConfigMapData i = None then aret ()
       else staged S ''ixiatg-configmap-*.yaml'' (ix_ConfigMapData i) cm (\<lambda>f.
              amap_err (Errorw ''failed to deploy ixiatg config map: %w'' []) (apply_manifest S f)))"

definition IxiaTG_Deploy :: "'w shell \<Rightarrow> ixia_spec \<Rightarrow> ('w, unit) act" where
  "IxiaTG_Deploy S i =
     staged S ''ixiatg-operator-*.yaml'' (op_OperatorData i) (op_Operator i) (\<lambda>f.
       abind (amap_err (Errorw ''failed to deploy ixiatg operator: %w'' []) (apply_manifest S (in_dir (op_ManifestDir i) ''ixiatg-operator.yaml'' f))) (\<lambda>_.
         ixia_config_map S i))"

section \<open>MetalLB\<close>

text \<open>Counting an address up, a byte at a time from the end.\<close>

fun inc_rev :: "u8 list \<Rightarrow> u8 list" where
  "inc_rev [] = []"
| "inc_rev (b # bs) = (if b + 1 > 0 then (b + 1) # bs else (b + 1) # inc_rev bs)"

definition inc_once :: "ip \<Rightarrow> ip" where
  "inc_once ip = rev (inc_rev (rev ip))"

definition inc :: "ip \<Rightarrow> int \<Rightarrow> ip" where
  "inc ip cnt = (inc_once ^^ nat cnt) ip"

record address_pool =
  ap_Namespace :: string
  ap_Name :: string
  ap_Addresses :: "string list"

definition pool_start :: "ip \<Rightarrow> ip" where
  "pool_start n = inc n 50"

definition pool_end :: "ip \<Rightarrow> int \<Rightarrow> ip" where
  "pool_end n cnt = inc (pool_start n) cnt"

definition makePool :: "ip \<Rightarrow> int \<Rightarrow> address_pool" where
  "makePool n cnt =
     \<lparr>ap_Namespace = ''metallb-system'', ap_Name = ''kne-service-pool'',
      ap_Addresses = [IP_String (pool_start n) @ '' - '' @ IP_String (pool_end n cnt)]\<rparr>"

record l2_advertisement =
  l2_Namespace :: string
  l2_Name :: string
  l2_Pools :: "string list"

text \<open>A network of docker with its subnets; \<open>None\<close> is a subnet that is not valid.\<close>

record docker_network =
  dn_Name :: string
  dn_Subnets :: "string option list"

record 'w metal_env =
  me_NewDocker :: "('w, unit) act"
  me_NewMetal :: "('w, unit) act"
  me_Rand :: "('w, string) act"
  me_Base64 :: "string \<Rightarrow> string"
  me_NetworkList :: "('w, docker_network list) act"
  me_Pools :: "('w, address_pool) api"
  me_L2 :: "('w, l2_advertisement) api"

record metallb_spec =
  mb_IPCount :: int
  mb_ManifestDir :: string
  mb_Manifest :: string
  mb_ManifestData :: "string option"

definition poolRetryDelay :: int where "poolRetryDelay = 5 * 1000000000"

fun find_subnet :: "string option list \<Rightarrow> ip option result" where
  "find_subnet [] = Ok None"
| "find_subnet (None # ss) = find_subnet ss"
| "find_subnet (Some s # ss) =
     (case CIDR_network s of
        Error e \<Rightarrow> Error (Errorw ''failed to parse cidr: %w'' [] e)
      | Panic p \<Rightarrow> Panic p
      | Ok n \<Rightarrow> if To4 n \<noteq> None then Ok (Some n) else find_subnet ss)"

definition network_subnets :: "string \<Rightarrow> docker_network list \<Rightarrow> string option list" where
  "network_subnets name nets =
     (case find (\<lambda>v. dn_Name v = (if name = [] then ''bridge'' else name)) nets of
        Some v \<Rightarrow> dn_Subnets v
      | None \<Rightarrow> [])"

fun create_pool :: "'w shell \<Rightarrow> ('w, address_pool) api \<Rightarrow> address_pool \<Rightarrow> nat \<Rightarrow> ('w, unit) act" where
  "create_pool S P pool 0 = abind (api_Create P ''metallb-system'' pool) (\<lambda>_. aret ())"
| "create_pool S P pool (Suc retries) =
     abind (atry (api_Create P ''metallb-system'' pool)) (\<lambda>r.
       case r of
         Error _ \<Rightarrow> abind (sh_Sleep S poolRetryDelay) (\<lambda>_. create_pool S P pool retries)
       | Panic p \<Rightarrow> apanic p
       | Ok _ \<Rightarrow> aret ())"

definition metallb_secret :: "'w kclient \<Rightarrow> 'w metal_env \<Rightarrow> ('w, unit) act" where
  "metallb_secret K E =
     abind (atry (api_Get (kc_Secrets K) ''metallb-system'' ''memberlist'')) (\<lambda>r.
       if is_Ok r then aret ()
       else
         abind (me_Rand E) (\<lambda>d.
         abind (amap_err (Errorw ''failed to create metallb secret: %w'' [])
           (api_Create (kc_Secrets K) ''metallb-system'' \<lparr>sc_Name = ''memberlist'', sc_StringData = [(''secretkey'', me_Base64 E d)]\<rparr>)) (\<lambda>_.
           aret ())))"

definition metallb_pool :: "'w shell \<Rightarrow> 'w metal_env \<Rightarrow> string \<Rightarrow> metallb_spec \<Rightarrow> ('w, unit) act" where
  "metallb_pool S E network m =
     abind (amap_err (Errorw ''failed to get docker network list: %w'' []) (me_NetworkList E)) (\<lambda>nets.
     abind (alift (find_subnet (network_subnets network nets))) (\<lambda>no.
       case no of
         None \<Rightarrow> aerr (Errorf ''failed to find kind ipv4 docker net'' [])
       | Some n \<Rightarrow>
           abind (create_pool S (me_Pools E) (makePool n (mb_IPCount m)) 5) (\<lambda>_.
           abind (amap_err (Errorw ''failed to create metallb L2 advertisement: %w'' [])
             (api_Create (me_L2 E) ''metallb-system'' \<lparr>l2_Namespace = ''metallb-system'', l2_Name = ''kne-l2-service-pool'', l2_Pools = [''kne-service-pool'']\<rparr>)) (\<lambda>_.
             aret ()))))"

definition MetalLB_Healthy :: "'w kclient \<Rightarrow> ('w, unit) act" where
  "MetalLB_Healthy K = deploymentHealthy K ''metallb-system''"

definition MetalLB_Deploy :: "'w shell \<Rightarrow> 'w kclient \<Rightarrow> 'w metal_env \<Rightarrow> string \<Rightarrow> metallb_spec \<Rightarrow> ('w, unit) act" where
  "MetalLB_Deploy S K E network m =
     abind (amap_err (Errorw ''failed to create docker client: %w'' []) (me_NewDocker E)) (\<lambda>_.
     abind (amap_err (Errorw ''failed to create metallb client: %w'' []) (me_NewMetal E)) (\<lambda>_.
       staged S ''metallb-manifest-*.yaml'' (mb_ManifestData m) (mb_Manifest m) (\<lambda>f.
         abind (amap_err (Errorw ''failed to deploy metallb: %w'' []) (apply_manifest S (in_dir (mb_ManifestDir m) ''metallb-native.yaml'' f))) (\<lambda>_.
         abind (metallb_secret K E) (\<lambda>_.
         abind (amap_err (Errorw ''metallb not healthy: %w'' []) (MetalLB_Healthy K)) (\<lambda>_.
         abind (atry (api_Get (me_Pools E) ''metallb-system'' ''kne-service-pool'')) (\<lambda>r.
           if is_Ok r then aret () else metallb_pool S E network m)))))))"

section \<open>Controllers\<close>

datatype controller_spec =
  CEOSLab operator_spec | Lemming operator_spec | SRLinux operator_spec | IxiaTG ixia_spec | Cdnos cdnos_spec

definition Controller_Deploy :: "'w shell \<Rightarrow> controller_spec \<Rightarrow> ('w, unit) act" where
  "Controller_Deploy S c =
     (case c of
        CEOSLab o' \<Rightarrow> CEOSLab_Deploy S o'
      | Lemming o' \<Rightarrow> Lemming_Deploy S o'
      | SRLinux o' \<Rightarrow> SRLinux_Deploy S o'
      | IxiaTG i \<Rightarrow> IxiaTG_Deploy S i
      | Cdnos o' \<Rightarrow> Cdnos_Deploy S o')"

definition Controller_Healthy :: "'w kclient \<Rightarrow> controller_spec \<Rightarrow> ('w, unit) act" where
  "Controller_Healthy K c =
     deploymentHealthy K
       (case c of
          CEOSLab _ \<Rightarrow> ''arista-ceoslab-operator-system''
        | Lemming _ \<Rightarrow> ''lemming-operator''
        | SRLinux _ \<Rightarrow> ''srlinux-controller''
        | IxiaTG _ \<Rightarrow> ''ixiatg-op-system''
        | Cdnos _ \<Rightarrow> ''cdnos-controller-system'')"

definition type_string :: "controller_spec \<Rightarrow> string" where
  "type_string c =
     (case c of
        CEOSLab _ \<Rightarrow> ''*deploy.CEOSLabSpec''
      | Lemming _ \<Rightarrow> ''*deploy.LemmingSpec''
      | SRLinux _ \<Rightarrow> ''*deploy.SRLinuxSpec''
      | IxiaTG _ \<Rightarrow> ''*deploy.IxiaTGSpec''
      | Cdnos _ \<Rightarrow> ''*deploy.CdnosSpec'')"

definition controllerName :: "controller_spec \<Rightarrow> string" where
  "controllerName c =
     (let n = type_string c;
          n1 = (case last_index (CHR ''.'') n of Some i \<Rightarrow> drop (i + 1) n | None \<Rightarrow> n);
          n2 = TrimSuffix n1 ''Spec'' in
      if n2 = [] then ''controller'' else n2 @ '' controller'')"

section \<open>Address arithmetic\<close>

text \<open>An address as a number, most significant byte first.\<close>

fun rev_val :: "u8 list \<Rightarrow> nat" where
  "rev_val [] = 0"
| "rev_val (b # bs) = unat b + 256 * rev_val bs"

definition ip_val :: "ip \<Rightarrow> nat" where
  "ip_val ip = rev_val (rev ip)"

lemma inc_rev_length [simp]: "length (inc_rev bs) = length bs"
  by (induction bs) auto

lemma inc_once_length [simp]: "length (inc_once ip) = length ip"
  by (simp add: inc_once_def)

lemma inc_length [simp]: "length (inc ip cnt) = length ip"
proof -
  have "length ((inc_once ^^ n) ip) = length ip" for n by (induction n) auto
  then show ?thesis by (simp add: inc_def)
qed

lemma rev_val_less: "rev_val bs < 256 ^ length bs"
proof (induction bs)
  case (Cons b bs)
  have "unat b < 256" using unsigned_less [of b, where 'a = nat] by simp
  moreover have "rev_val bs + 1 \<le> 256 ^ length bs" using Cons by simp
  ultimately show ?case by simp
qed simp

lemma inc_rev_val: "rev_val (inc_rev bs) = (rev_val bs + 1) mod 256 ^ length bs"
proof (induction bs)
  case (Cons b bs)
  show ?case
  proof (cases "b + 1 = 0")
    case True
    then have "b = - 1" by (simp add: add_eq_0_iff2)
    then have b: "b = 255" by simp
    have "256 * ((rev_val bs + 1) mod 256 ^ length bs) = (256 * (rev_val bs + 1)) mod (256 * 256 ^ length bs)"
      by (simp only: mult_mod_right)
    moreover have "unat b = 255" using b by simp
    moreover have "rev_val (inc_rev (b # bs)) = 256 * ((rev_val bs + 1) mod 256 ^ length bs)"
      using True Cons by simp
    ultimately show ?thesis by (simp add: algebra_simps)
  next
    case False
    then have u: "unat (b + 1) = unat b + 1" by (simp add: unatSuc add.commute)
    have "unat (b + 1) < 256" using unsigned_less [of "b + 1", where 'a = nat] by simp
    moreover have "rev_val bs + 1 \<le> 256 ^ length bs" using rev_val_less [of bs] by simp
    ultimately have "unat b + 1 + 256 * rev_val bs < 256 * 256 ^ length bs" using u by linarith
    with False u show ?thesis by (simp add: word_gt_0)
  qed
qed simp

lemma inc_once_val: "ip_val (inc_once ip) = (ip_val ip + 1) mod 256 ^ length ip"
  by (simp add: ip_val_def inc_once_def inc_rev_val)

lemma inc_val: "ip_val (inc ip cnt) = (ip_val ip + nat cnt) mod 256 ^ length ip"
proof -
  have len: "length ((inc_once ^^ n) ip) = length ip" for n by (induction n) auto
  have "ip_val ((inc_once ^^ n) ip) = (ip_val ip + n) mod 256 ^ length ip" for n
  proof (induction n)
    case 0
    show ?case using rev_val_less [of "rev ip"] by (simp add: ip_val_def)
  next
    case (Suc n)
    then show ?case by (simp add: inc_once_val len mod_simps)
  qed
  then show ?thesis by (simp add: inc_def)
qed

lemma rev_val_inject: "length as = length bs \<Longrightarrow> rev_val as = rev_val bs \<Longrightarrow> as = bs"
proof (induction as bs rule: list_induct2)
  case (Cons a as b bs)
  have ab: "unat a < 256" "unat b < 256" using unsigned_less [of a, where 'a = nat] unsigned_less [of b, where 'a = nat] by simp_all
  have eq: "unat a + 256 * rev_val as = unat b + 256 * rev_val bs" using Cons(3) by simp
  have "(unat a + 256 * rev_val as) mod 256 = (unat b + 256 * rev_val bs) mod 256" by (simp only: eq)
  then have u: "unat a = unat b" using ab by simp
  then have "a = b" by (simp add: unsigned_word_eqI)
  moreover have "rev_val as = rev_val bs" using eq u by simp
  ultimately show ?case using Cons(2) by simp
qed simp

lemma ip_val_inject: "length as = length bs \<Longrightarrow> ip_val as = ip_val bs \<Longrightarrow> as = bs"
  using rev_val_inject [of "rev as" "rev bs"] by (simp add: ip_val_def)


lemma ip_val_less: "ip_val ip < 256 ^ length ip"
  using rev_val_less [of "rev ip"] by (simp add: ip_val_def)

lemma ip_val_surj: "\<exists>ip. length ip = n \<and> ip_val ip = v" if "v < 256 ^ n"
proof -
  have "\<exists>bs. length bs = n \<and> rev_val bs = v" using that
  proof (induction n arbitrary: v)
    case (Suc n)
    then have "v div 256 < 256 ^ n" by (simp add: less_mult_imp_div_less mult.commute)
    with Suc.IH obtain bs where bs: "length bs = n" "rev_val bs = v div 256" by blast
    then have "rev_val (of_nat (v mod 256) # bs) = v" by (simp add: unat_of_nat)
    with bs(1) show ?case by (intro exI [of _ "of_nat (v mod 256) # bs"]) simp
  qed simp
  then obtain bs where "length bs = n" "rev_val bs = v" by blast
  then show ?thesis by (intro exI [of _ "rev bs"]) (simp add: ip_val_def)
qed

lemma addresses_between:
  assumes "b < 256 ^ n"
  shows "card {ip. length ip = n \<and> a \<le> ip_val ip \<and> ip_val ip \<le> b} = b + 1 - a"
proof -
  let ?A = "{ip. length ip = n \<and> a \<le> ip_val ip \<and> ip_val ip \<le> b}"
  have "v \<in> ip_val ` ?A" if "v \<in> {a..b}" for v
  proof -
    have "v < 256 ^ n" using that assms by simp
    from ip_val_surj [OF this] obtain ip where "length ip = n" "ip_val ip = v" by blast
    with that show ?thesis by auto
  qed
  then have "ip_val ` ?A = {a..b}" by auto
  then have "card (ip_val ` ?A) = b + 1 - a" by (simp only: card_atLeastAtMost Suc_eq_plus1)
  moreover have "inj_on ip_val ?A"
  proof (rule inj_onI)
    fix x y assume "x \<in> ?A" "y \<in> ?A" "ip_val x = ip_val y"
    then show "x = y" by (intro ip_val_inject) auto
  qed
  then have "card (ip_val ` ?A) = card ?A" by (rule card_image)
  ultimately show ?thesis by (simp only:)
qed

text \<open>
  C36. The pool that \<open>makePool\<close> makes of an IPv4 network is written as two addresses that can be read back: the
  first is the fiftieth after the address of the network and the last is \<open>count\<close> further on. If that is within
  the address space, the pool holds exactly one address more than \<open>count\<close>.
\<close>

theorem makePool_range:
  assumes n: "length n = 4" and fits: "ip_val n + 50 + nat cnt < 2 ^ 32"
  shows "\<exists>first final. ap_Addresses (makePool n cnt) = [print_v4 first @ '' - '' @ print_v4 final] \<and>
    parseIPv4 (print_v4 first) = Some first \<and> parseIPv4 (print_v4 final) = Some final \<and>
    ip_val first = ip_val n + 50 \<and> ip_val final = ip_val n + 50 + nat cnt \<and>
    card {ip. length ip = 4 \<and> ip_val first \<le> ip_val ip \<and> ip_val ip \<le> ip_val final} = nat cnt + 1"
proof (intro exI conjI)
  have len: "length (pool_start n) = 4" "length (pool_end n cnt) = 4" using n by (simp_all add: pool_start_def pool_end_def)
  then show "ap_Addresses (makePool n cnt) = [print_v4 (pool_start n) @ '' - '' @ print_v4 (pool_end n cnt)]"
    by (simp add: makePool_def IP_String_def To4_def)
  show "parseIPv4 (print_v4 (pool_start n)) = Some (pool_start n)" "parseIPv4 (print_v4 (pool_end n cnt)) = Some (pool_end n cnt)"
    using len by (simp_all add: parseIPv4_print)
  show v: "ip_val (pool_start n) = ip_val n + 50" using n fits by (simp add: pool_start_def inc_val)
  then show w: "ip_val (pool_end n cnt) = ip_val n + 50 + nat cnt" using n fits len(1) by (simp add: pool_end_def inc_val)
  show "card {ip. length ip = 4 \<and> ip_val (pool_start n) \<le> ip_val ip \<and> ip_val ip \<le> ip_val (pool_end n cnt)} = nat cnt + 1"
    using addresses_between [of "ip_val (pool_end n cnt)" 4 "ip_val (pool_start n)"] fits v w by simp
qed

theorem makePool_range_witness:
  "CIDR_network ''172.18.0.0/16'' = Ok [172, 18, 0, 0] \<and> ap_Addresses (makePool [172, 18, 0, 0] 100) = [''172.18.0.50 - 172.18.0.150''] \<and>
   (\<exists>first final. ap_Addresses (makePool [172, 18, 0, 0] 100) = [print_v4 first @ '' - '' @ print_v4 final] \<and>
     card {ip. length ip = 4 \<and> ip_val first \<le> ip_val ip \<and> ip_val ip \<le> ip_val final} = 101)"
proof -
  have "CIDR_network ''172.18.0.0/16'' = Ok [172, 18, 0, 0]" "ap_Addresses (makePool [172, 18, 0, 0] 100) = [''172.18.0.50 - 172.18.0.150'']"
    by code_simp+
  moreover have "ip_val [172, 18, 0, 0] + 50 + nat 100 < 2 ^ 32" by (simp add: ip_val_def)
  ultimately show ?thesis using makePool_range [of "[172, 18, 0, 0]" 100] by auto
qed

section \<open>When a workload counts as healthy\<close>

lemma deployment_loop_Ok:
  "deployment_loop name es ctxErr = Ok () \<longleftrightarrow>
   (\<exists>ds d rest. es = map Seen ds @ Seen d # rest \<and> list_all (\<lambda>x. \<not> all_replicas x) ds \<and> all_replicas d)" (is "_ \<longleftrightarrow> ?R es")
proof (induction name es ctxErr rule: deployment_loop.induct)
  case (4 name d es ctxErr)
  show ?case
  proof (cases "all_replicas d")
    case True
    then show ?thesis by (auto intro!: exI [of _ "[]"])
  next
    case False
    have "?R (Seen d # es) \<longleftrightarrow> ?R es"
    proof
      assume "?R (Seen d # es)"
      then obtain ds d' rest where r: "Seen d # es = map Seen ds @ Seen d' # rest" "list_all (\<lambda>x. \<not> all_replicas x) ds" "all_replicas d'" by blast
      with False obtain x ds' where "ds = x # ds'" by (cases ds) auto
      with r show "?R es" by auto
    next
      assume "?R es"
      then obtain ds d' rest where "es = map Seen ds @ Seen d' # rest" "list_all (\<lambda>x. \<not> all_replicas x) ds" "all_replicas d'" by blast
      with False show "?R (Seen d # es)" by (intro exI [of _ "d # ds"] exI [of _ d'] exI [of _ rest]) simp
    qed
    with False 4 show ?thesis by simp
  qed
qed (auto simp: Cons_eq_append_conv Cons_eq_map_conv)

text \<open>A watch gives a verdict on every sequence of events, and never a panic.\<close>

lemma deployment_loop_total: "deployment_loop name es ctxErr \<noteq> Panic p"
  by (induction name es ctxErr rule: deployment_loop.induct) auto

section \<open>Components leave no temporary files behind\<close>

definition kclient_frame :: "('w \<Rightarrow> 'v) \<Rightarrow> 'w kclient \<Rightarrow> bool" where
  "kclient_frame view K \<longleftrightarrow>
     (\<forall>n. keeps view (kc_WatchDeployments K n)) \<and> (\<forall>ns s. keeps view (kc_WatchDaemonSets K ns s)) \<and> api_frame view (kc_Secrets K)"

lemma kclient_frameD [keeps_intros]:
  assumes "kclient_frame view K"
  shows "keeps view (kc_WatchDeployments K n)" "keeps view (kc_WatchDaemonSets K ns s)"
  using assms by (simp_all add: kclient_frame_def)

definition metal_frame :: "('w \<Rightarrow> 'v) \<Rightarrow> 'w metal_env \<Rightarrow> bool" where
  "metal_frame view E \<longleftrightarrow>
     keeps view (me_NewDocker E) \<and> keeps view (me_NewMetal E) \<and> keeps view (me_Rand E) \<and> keeps view (me_NetworkList E) \<and>
     api_frame view (me_Pools E) \<and> api_frame view (me_L2 E)"

lemma metal_frameD [keeps_intros]:
  assumes "metal_frame view E"
  shows "keeps view (me_NewDocker E)" "keeps view (me_NewMetal E)" "keeps view (me_Rand E)" "keeps view (me_NetworkList E)"
  using assms by (simp_all add: metal_frame_def)

lemma keeps_apply_manifest [keeps_intros]: "shell_frame view S \<Longrightarrow> keeps view (apply_manifest S f)"
  unfolding apply_manifest_def by (intro keeps_intros)

lemma keeps_deploymentHealthy [keeps_intros]: "kclient_frame view K \<Longrightarrow> keeps view (deploymentHealthy K name)"
  unfolding deploymentHealthy_def by (auto intro!: keeps_intros)

lemma keeps_Meshnet_Healthy [keeps_intros]: "kclient_frame view K \<Longrightarrow> keeps view (Meshnet_Healthy K)"
  unfolding Meshnet_Healthy_def by (auto intro!: keeps_intros)

lemma keeps_Controller_Healthy [keeps_intros]: "kclient_frame view K \<Longrightarrow> keeps view (Controller_Healthy K c)"
  unfolding Controller_Healthy_def by (intro keeps_intros)

lemma keeps_staged [keeps_intros]: "tidy view S \<Longrightarrow> (\<And>f. keeps view (body f)) \<Longrightarrow> keeps view (staged S pattern contents path body)"
  unfolding staged_def tidy_def by (auto split: option.split)

lemma keeps_find_config: "shell_frame view S \<Longrightarrow> keeps view (find_config S dir names)"
  by (induction names) (auto simp: Let_def intro!: keeps_intros)

lemma keeps_Controller_Deploy [keeps_intros]: "tidy view S \<Longrightarrow> keeps view (Controller_Deploy S c)"
  unfolding Controller_Deploy_def CEOSLab_Deploy_def Lemming_Deploy_def SRLinux_Deploy_def IxiaTG_Deploy_def Cdnos_Deploy_def ixia_config_map_def
  using tidy_frame [of view S]
  by (auto intro!: keeps_intros keeps_find_config simp del: find_config.simps split: controller_spec.split)

lemma keeps_Meshnet_Deploy [keeps_intros]: "tidy view S \<Longrightarrow> keeps view (Meshnet_Deploy S m)"
  unfolding Meshnet_Deploy_def using tidy_frame [of view S] by (auto intro!: keeps_intros)

lemma keeps_create_pool: "shell_frame view S \<Longrightarrow> api_frame view P \<Longrightarrow> keeps view (create_pool S P pool n)"
  by (induction n) (auto intro!: keeps_intros split: result.split)

lemma keeps_MetalLB_Deploy [keeps_intros]:
  assumes S: "tidy view S" and K: "kclient_frame view K" and E: "metal_frame view E"
  shows "keeps view (MetalLB_Deploy S K E network m)"
proof -
  have fr: "shell_frame view S" "api_frame view (kc_Secrets K)" "api_frame view (me_Pools E)" "api_frame view (me_L2 E)"
    using tidy_frame [OF S] K E by (simp_all add: kclient_frame_def metal_frame_def)
  have "keeps view (metallb_pool S E network m)"
    unfolding metallb_pool_def using fr E by (auto intro!: keeps_intros keeps_create_pool split: option.split)
  moreover have "keeps view (metallb_secret K E)" unfolding metallb_secret_def using fr E by (auto intro!: keeps_intros)
  ultimately show ?thesis
    unfolding MetalLB_Deploy_def MetalLB_Healthy_def using S fr K E by (auto intro!: keeps_intros)
qed

end
