(* ===== verification/Deploy_Run.thy ===== *)
theory Deploy_Run
  imports Complex_Main Deploy_Specs Watchers
begin

text \<open>
  The type \<open>Deployment\<close> of \<open>deploy/deploy.go\<close>: bringing up the cluster, checking versions, and deploying the
  ingress, the CNI and the controllers at once in an error group. A goroutine of the group makes a step whenever
  the schedule names it: a call of \<open>Deploy\<close> or \<open>Healthy\<close>, or the handing over of its error to the group. What is
  shown holds for every schedule. The contexts are functions of the world, which the environment of the
  deployment supplies.
\<close>

section \<open>Components in an error group\<close>

record 'w component =
  cp_name :: string
  cp_Deploy :: "('w, unit) act"
  cp_Healthy :: "('w, unit) act"

definition healthTimeout :: int where "healthTimeout = 3 * 60 * 1000000000"
definition defaultDeployTimeout :: int where "defaultDeployTimeout = 10 * 60 * 1000000000"

text \<open>
  The error of a context is \<open>None\<close> while it lives. \<open>own\<close> is \<open>None\<close> for a nil context. The health timeout prints
  as \<open>3m0s\<close>.
\<close>

definition is_deadline :: "err option \<Rightarrow> bool" where
  "is_deadline c = (case c of Some e \<Rightarrow> errors_Is e DeadlineExceeded | None \<Rightarrow> False)"

definition componentErr :: "string \<Rightarrow> err option \<Rightarrow> err option \<Rightarrow> err option option \<Rightarrow> err \<Rightarrow> err" where
  "componentErr name overall grp own e =
     (if is_deadline overall then
        Errorw ''%s did not finish before the overall deployment timeout expired: %w'' [name] e
      else if (case own of Some c \<Rightarrow> is_deadline c | None \<Rightarrow> False) then
        Errorw ''%s was not healthy within %v: %w'' [name, ''3m0s''] e
      else if grp \<noteq> None then Errorw ''%s abandoned before completing: %w'' [name] e
      else e)"

datatype stage = Deploy_stage | Health_stage

datatype phase = Deploying | Checking | Failing err | Returned "err option"

text \<open>A call that has returned, with the contexts at that time.\<close>

record call =
  ca_comp :: nat
  ca_stage :: stage
  ca_result :: "unit result"
  ca_overall :: "err option"
  ca_own :: "err option option"

record 'w group =
  gr_world :: 'w
  gr_phases :: "phase list"
  gr_err :: "err option"
  gr_panic :: "string option"
  gr_calls :: "call list"

record 'w group_env =
  gx_overall :: "'w \<Rightarrow> err option"
  gx_own :: "nat \<Rightarrow> 'w \<Rightarrow> err option"
  gx_check_format :: string

definition stage_err :: "'w group_env \<Rightarrow> stage \<Rightarrow> string \<Rightarrow> err \<Rightarrow> err" where
  "stage_err X s name e =
     (case s of
        Deploy_stage \<Rightarrow> Errorw ''failed to deploy %s: %w'' [name] e
      | Health_stage \<Rightarrow> Errorw (gx_check_format X) [name] e)"

text \<open>The context of the group ends with the deployment or at the first error that the group is given.\<close>

definition group_ctx :: "err option \<Rightarrow> err option \<Rightarrow> err option" where
  "group_ctx overall grp = (case overall of Some e \<Rightarrow> Some e | None \<Rightarrow> if grp \<noteq> None then Some ContextCanceled else None)"

definition after_call :: "'w group_env \<Rightarrow> 'w component list \<Rightarrow> nat \<Rightarrow> stage \<Rightarrow> unit result \<times> 'w \<Rightarrow> 'w group \<Rightarrow> 'w group" where
  "after_call X comps i s x st =
     (case x of (r, w) \<Rightarrow>
        let overall = gx_overall X w;
            own = (case s of Deploy_stage \<Rightarrow> None | Health_stage \<Rightarrow> Some (gx_own X i w));
            st1 = st\<lparr>gr_world := w, gr_calls := gr_calls st @ [\<lparr>ca_comp = i, ca_stage = s, ca_result = r, ca_overall = overall, ca_own = own\<rparr>]\<rparr> in
        case r of
          Ok _ \<Rightarrow> st1\<lparr>gr_phases := (gr_phases st)[i := (case s of Deploy_stage \<Rightarrow> Checking | Health_stage \<Rightarrow> Returned None)]\<rparr>
        | Error e \<Rightarrow>
            st1\<lparr>gr_phases := (gr_phases st)[i := Failing
              (componentErr (cp_name (comps ! i)) overall (group_ctx overall (gr_err st)) own (stage_err X s (cp_name (comps ! i)) e))]\<rparr>
        | Panic p \<Rightarrow> st1\<lparr>gr_panic := Some p\<rparr>)"

definition advance :: "'w group_env \<Rightarrow> 'w component list \<Rightarrow> nat \<Rightarrow> 'w group \<Rightarrow> 'w group" where
  "advance X comps i st =
     (if gr_panic st \<noteq> None \<or> length (gr_phases st) \<le> i then st
      else case gr_phases st ! i of
        Deploying \<Rightarrow> after_call X comps i Deploy_stage (cp_Deploy (comps ! i) (gr_world st)) st
      | Checking \<Rightarrow> after_call X comps i Health_stage (cp_Healthy (comps ! i) (gr_world st)) st
      | Failing e \<Rightarrow>
          st\<lparr>gr_phases := (gr_phases st)[i := Returned (Some e)],
             gr_err := (case gr_err st of None \<Rightarrow> Some e | Some e' \<Rightarrow> Some e')\<rparr>
      | Returned _ \<Rightarrow> st)"

definition group_start :: "phase \<Rightarrow> 'w component list \<Rightarrow> 'w \<Rightarrow> 'w group" where
  "group_start ph comps w = \<lparr>gr_world = w, gr_phases = map (\<lambda>_. ph) comps, gr_err = None, gr_panic = None, gr_calls = []\<rparr>"

definition group_run :: "'w group_env \<Rightarrow> 'w component list \<Rightarrow> nat list \<Rightarrow> 'w group \<Rightarrow> 'w group" where
  "group_run X comps sched st = fold (advance X comps) sched st"

text \<open>A schedule that goes on until every goroutine has returned: each makes at most three steps.\<close>

definition rounds :: "nat \<Rightarrow> nat list" where
  "rounds n = concat (replicate 3 [0..<n])"

definition group_final :: "'w group_env \<Rightarrow> phase \<Rightarrow> 'w component list \<Rightarrow> nat list \<Rightarrow> 'w \<Rightarrow> 'w group" where
  "group_final X ph comps sched w = group_run X comps (sched @ rounds (length comps)) (group_start ph comps w)"

definition Wait :: "'w group \<Rightarrow> unit result \<times> 'w" where
  "Wait st =
     (case gr_panic st of
        Some p \<Rightarrow> Panic p
      | None \<Rightarrow> (case gr_err st of None \<Rightarrow> Ok () | Some e \<Rightarrow> Error e), gr_world st)"

section \<open>Deployments\<close>

record deployment =
  d_Cluster :: cluster_spec
  d_Ingress :: "metallb_spec option"
  d_CNI :: "meshnet_spec option"
  d_Controllers :: "controller_spec list"
  d_Timeout :: int
  d_ReportUsage :: bool

datatype cluster_type = CLUSTER_TYPE_EXTERNAL | CLUSTER_TYPE_KIND | CLUSTER_TYPE_KUBEADM
datatype ingress_type = INGRESS_TYPE_UNSPECIFIED | INGRESS_TYPE_METALLB
datatype cni_type = CNI_TYPE_UNSPECIFIED | CNI_TYPE_MESHNET
datatype controller_type =
  CONTROLLER_TYPE_CEOSLAB | CONTROLLER_TYPE_IXIATG | CONTROLLER_TYPE_SRLINUX | CONTROLLER_TYPE_LEMMING | CONTROLLER_TYPE_CDNOS

record cluster_event =
  ev_Cluster :: cluster_type
  ev_Ingress :: ingress_type
  ev_Cni :: cni_type
  ev_Controllers :: "controller_type list"

definition controller_event :: "controller_spec \<Rightarrow> controller_type" where
  "controller_event c =
     (case c of
        CEOSLab _ \<Rightarrow> CONTROLLER_TYPE_CEOSLAB
      | IxiaTG _ \<Rightarrow> CONTROLLER_TYPE_IXIATG
      | SRLinux _ \<Rightarrow> CONTROLLER_TYPE_SRLINUX
      | Lemming _ \<Rightarrow> CONTROLLER_TYPE_LEMMING
      | Cdnos _ \<Rightarrow> CONTROLLER_TYPE_CDNOS)"

definition event :: "deployment \<Rightarrow> cluster_event" where
  "event d =
     \<lparr>ev_Cluster = (case d_Cluster d of External _ \<Rightarrow> CLUSTER_TYPE_EXTERNAL | Kind _ \<Rightarrow> CLUSTER_TYPE_KIND | Kubeadm _ \<Rightarrow> CLUSTER_TYPE_KUBEADM),
      ev_Ingress = (case d_Ingress d of Some _ \<Rightarrow> INGRESS_TYPE_METALLB | None \<Rightarrow> INGRESS_TYPE_UNSPECIFIED),
      ev_Cni = (case d_CNI d of Some _ \<Rightarrow> CNI_TYPE_MESHNET | None \<Rightarrow> CNI_TYPE_UNSPECIFIED),
      ev_Controllers = map controller_event (d_Controllers d)\<rparr>"

record rest_config =
  rc_QPS :: rat
  rc_Burst :: int

text \<open>
  What a deployment needs of its environment: clients, decoders, the watchers of pods and events, the reports of
  usage and the contexts. The client of the cluster is that which \<open>Deploy\<close> makes and hands to the components;
  \<open>Healthy\<close> is meant for a deployment that has it. Starting a watcher includes setting its progress output.
\<close>

record 'w deploy_env =
  de_shell :: "'w shell"
  de_cluster :: "'w cluster_env"
  de_BuildConfig :: "string \<Rightarrow> ('w, rest_config) act"
  de_NewClient :: "rest_config \<Rightarrow> ('w, unit) act"
  de_kClient :: "'w kclient"
  de_metal :: "'w metal_env"
  de_ServerVersion :: "('w, string) act"
  de_UnmarshalVersions :: "string \<Rightarrow> (string option \<times> string option) result"
  de_PodWatcher :: "('w, unit) act"
  de_pods :: "'w \<Rightarrow> pod_watch watcher"
  de_set_pods :: "pod_watch watcher \<Rightarrow> 'w \<Rightarrow> 'w"
  de_EventWatcher :: "('w, unit) act"
  de_events :: "'w \<Rightarrow> event_watch watcher"
  de_set_events :: "event_watch watcher \<Rightarrow> 'w \<Rightarrow> 'w"
  de_NewReporter :: "('w, unit) act"
  de_ReportStart :: "cluster_event \<Rightarrow> ('w, string) act"
  de_ReportEnd :: "string \<Rightarrow> unit result \<Rightarrow> ('w, unit) act"
  de_CloseReporter :: "('w, unit) act"
  de_overall :: "int \<Rightarrow> 'w \<Rightarrow> err option"
  de_own :: "nat \<Rightarrow> 'w \<Rightarrow> err option"

definition checkDependencies :: "'w deploy_env \<Rightarrow> ('w, unit) act" where
  "checkDependencies E = check_binaries (de_shell E) [''docker'', ''kubectl'']"

definition timeout :: "deployment \<Rightarrow> int" where
  "timeout d = (if d_Timeout d > 0 then d_Timeout d else defaultDeployTimeout)"

subsection \<open>Reports of usage\<close>

text \<open>The function that the report of the start returns, which is called with the error of the deployment.\<close>

datatype finish = Finish_nothing | Finish_close | Finish_report string

definition reportDeployEvent :: "'w deploy_env \<Rightarrow> deployment \<Rightarrow> 'w \<Rightarrow> finish \<times> 'w" where
  "reportDeployEvent E d w =
     (case de_NewReporter E w of
        (Ok _, w1) \<Rightarrow>
          (case de_ReportStart E (event d) w1 of
             (Ok rid, w2) \<Rightarrow> (Finish_report rid, w2)
           | (_, w2) \<Rightarrow> (Finish_close, w2))
      | (_, w1) \<Rightarrow> (Finish_nothing, w1))"

definition run_finish :: "'w deploy_env \<Rightarrow> finish \<Rightarrow> unit result \<Rightarrow> 'w \<Rightarrow> 'w" where
  "run_finish E f rerr w =
     (case f of
        Finish_nothing \<Rightarrow> w
      | Finish_close \<Rightarrow> snd (de_CloseReporter E w)
      | Finish_report rid \<Rightarrow> snd (de_CloseReporter E (snd (de_ReportEnd E rid rerr w))))"

subsection \<open>Versions\<close>

text \<open>
  The version of the client may be up to two major versions away from that of the server; this is checked in
  unsigned arithmetic, and a violation is only logged. The result says whether nothing was logged.
\<close>

definition versions_in_range :: "semver \<Rightarrow> version \<Rightarrow> version \<Rightarrow> bool" where
  "versions_in_range V client server \<longleftrightarrow>
     \<not> sv_LT V server (client\<lparr>v_Major := if v_Major client < 2 then 0 else v_Major client - 2\<rparr>) \<and>
     \<not> sv_LT V (client\<lparr>v_Major := v_Major client + 2\<rparr>) server"

definition git_version :: "string option \<Rightarrow> string result" where
  "git_version v = (case v of Some s \<Rightarrow> Ok s | None \<Rightarrow> Panic ''invalid memory address or nil pointer dereference'')"

definition validateKubectlVersion :: "'w deploy_env \<Rightarrow> ('w, bool) act" where
  "validateKubectlVersion E =
     (let V = cl_semver (de_cluster E) in
      abind (out_or (\<lambda>_. Errorw ''failed get kubectl version: %w'' []) (OutCommand (de_shell E) ''kubectl'' [''version'', ''--output=yaml''])) (\<lambda>out.
      abind (alift (rmap_err (Errorw ''failed get kubectl version: %w'' []) (de_UnmarshalVersions E out))) (\<lambda>(cv, sv).
      abind (alift (rbind (git_version cv) (\<lambda>s. rmap_err (Errorw ''failed to parse k8s client version: %w'' []) (parseVersion V s)))) (\<lambda>client.
      abind (alift (rbind (git_version sv) (\<lambda>s. rmap_err (Errorw ''failed to parse k8s server version: %w'' []) (parseVersion V s)))) (\<lambda>server.
        aret (versions_in_range V client server))))))"

text \<open>A tag that starts with a digit is taken as a version without its \<open>v\<close>.\<close>

definition version_tag :: "string \<Rightarrow> string" where
  "version_tag tag =
     (if \<not> HasPrefix tag ''v'' \<and> tag \<noteq> [] \<and> digit_char (hd tag) then ''v'' @ tag else tag)"

definition extractVersionFromImage :: "semver \<Rightarrow> string \<Rightarrow> string" where
  "extractVersionFromImage V img =
     (let img1 = (case first_index (CHR ''@'') img of Some i \<Rightarrow> take i img | None \<Rightarrow> img) in
      case last_index (CHR '':'') img1 of
        None \<Rightarrow> []
      | Some i \<Rightarrow> let tag = version_tag (drop (i + 1) img1) in if is_Ok (parseVersion V tag) then tag else [])"

definition wanted_version :: "semver \<Rightarrow> cluster_spec \<Rightarrow> string" where
  "wanted_version V c =
     (case c of
        Kubeadm k \<Rightarrow> or_default (km_KubernetesVersion k) defaultKubernetesVersion
      | Kind k \<Rightarrow> extractVersionFromImage V (or_default (ks_Image k) defaultKindNodeImage)
      | External _ \<Rightarrow> [])"

definition validateClusterVersion :: "'w deploy_env \<Rightarrow> cluster_spec \<Rightarrow> ('w, unit) act" where
  "validateClusterVersion E c =
     (let V = cl_semver (de_cluster E) in
      abind (amap_err (Errorw ''failed to discover cluster server version: %w'' []) (de_ServerVersion E)) (\<lambda>got.
        if Contains got ''Format:%H'' then aret ()
        else
          abind (alift (rmap_err (Errorw ''failed to parse server version %q: %w'' [got]) (parseVersion V got))) (\<lambda>serverVer.
            let want = wanted_version V c in
            if want = [] then aret ()
            else
              abind (alift (rmap_err (Errorw ''failed to parse expected version %q: %w'' [want]) (parseVersion V want))) (\<lambda>wantVer.
                if v_Major serverVer \<noteq> v_Major wantVer \<or> v_Minor serverVer \<noteq> v_Minor wantVer then
                  aerr (Errorf ''cluster server version mismatch: got %s, want %s'' [got, want])
                else aret ()))))"

subsection \<open>Deploy, Healthy and Delete\<close>

text \<open>The components in the order in which they are started; one that is not configured is skipped.\<close>

definition components :: "'w deploy_env \<Rightarrow> string \<Rightarrow> deployment \<Rightarrow> 'w component list" where
  "components E network d =
     (case d_Ingress d of
        None \<Rightarrow> []
      | Some m \<Rightarrow> [\<lparr>cp_name = ''ingress'', cp_Deploy = MetalLB_Deploy (de_shell E) (de_kClient E) (de_metal E) network m,
                   cp_Healthy = MetalLB_Healthy (de_kClient E)\<rparr>]) @
     (case d_CNI d of
        None \<Rightarrow> []
      | Some m \<Rightarrow> [\<lparr>cp_name = ''CNI'', cp_Deploy = Meshnet_Deploy (de_shell E) m, cp_Healthy = Meshnet_Healthy (de_kClient E)\<rparr>]) @
     map (\<lambda>c. \<lparr>cp_name = controllerName c, cp_Deploy = Controller_Deploy (de_shell E) c, cp_Healthy = Controller_Healthy (de_kClient E) c\<rparr>)
       (d_Controllers d)"

definition deploy_group :: "'w deploy_env \<Rightarrow> deployment \<Rightarrow> 'w group_env" where
  "deploy_group E d =
     \<lparr>gx_overall = de_overall E (timeout d), gx_own = de_own E, gx_check_format = ''failed to check if %s is healthy: %w''\<rparr>"

definition deployComponents :: "'w deploy_env \<Rightarrow> nat list \<Rightarrow> string \<Rightarrow> deployment \<Rightarrow> ('w, unit) act" where
  "deployComponents E sched network d w =
     Wait (group_final (deploy_group E d) Deploying (components E network d) sched w)"

definition tune :: "rest_config \<Rightarrow> rest_config" where
  "tune c = (let c1 = (if rc_QPS c < 100 then c\<lparr>rc_QPS := 100\<rparr> else c) in if rc_Burst c1 < 200 then c1\<lparr>rc_Burst := 200\<rparr> else c1)"

text \<open>The part of \<open>Deploy\<close> before the watchers. Its result is the cluster, which \<open>Deploy\<close> may have completed.\<close>

definition deploy_cluster :: "'w deploy_env \<Rightarrow> deployment \<Rightarrow> string \<Rightarrow> ('w, cluster_spec) act" where
  "deploy_cluster E d kubecfg =
     abind (amap_err (Errorw ''failed to check for dependencies: %w'' []) (checkDependencies E)) (\<lambda>_.
     abind (amap_err (Errorw ''failed to deploy cluster: %w'' []) (Cluster_Deploy (de_shell E) (de_cluster E) (d_Cluster d))) (\<lambda>c.
     abind (amap_err (Errorw ''failed to check if cluster is healthy: %w'' []) (Cluster_Healthy (de_shell E) c)) (\<lambda>_.
     abind (amap_err (Errorw ''failed to create k8s config: %w'' []) (de_BuildConfig E kubecfg)) (\<lambda>rCfg.
     abind (amap_err (Errorw ''failed to create k8s client: %w'' []) (de_NewClient E (tune rCfg))) (\<lambda>_.
     abind (amap_err (Errorv ''kubectl version outside of supported range: %v'' []) (validateKubectlVersion E)) (\<lambda>_.
     abind (amap_err (Errorw ''cluster server version validation failed: %w'' []) (validateClusterVersion E c)) (\<lambda>_.
       aret c)))))))"

text \<open>The clients are handed to the ingress and to the CNI without a check that there are any.\<close>

definition deploy_all :: "'w deploy_env \<Rightarrow> nat list \<Rightarrow> cluster_spec \<Rightarrow> deployment \<Rightarrow> ('w, unit) act" where
  "deploy_all E sched c d =
     (if d_Ingress d = None \<or> d_CNI d = None then apanic ''invalid memory address or nil pointer dereference''
      else deployComponents E sched (GetDockerNetworkResourceName c) d)"

definition watched_deploy :: "'w deploy_env \<Rightarrow> nat list \<Rightarrow> cluster_spec \<Rightarrow> deployment \<Rightarrow> ('w, unit) act" where
  "watched_deploy E sched c d w =
     (let (pods, w1) = started (de_PodWatcher E) w;
          (evs, w2) = started (de_EventWatcher E) w1;
          (r, w3) = deploy_all E sched c d w2;
          (r1, w4) = deferred evs (cleanup_with (de_events E) (de_set_events E)) r w3 in
      deferred pods (cleanup_with (de_pods E) (de_set_pods E)) r1 w4)"

definition Deploy :: "'w deploy_env \<Rightarrow> nat list \<Rightarrow> deployment \<Rightarrow> string \<Rightarrow> ('w, unit) act" where
  "Deploy E sched d kubecfg w =
     (let (fin, w0) = (if d_ReportUsage d then reportDeployEvent E d w else (Finish_nothing, w));
          (r, w1) = abind (deploy_cluster E d kubecfg) (\<lambda>c. watched_deploy E sched c d) w0 in
      (r, run_finish E fin (case r of Panic _ \<Rightarrow> Ok () | _ \<Rightarrow> r) w1))"

definition health_group :: "'w deploy_env \<Rightarrow> deployment \<Rightarrow> 'w group_env" where
  "health_group E d =
     \<lparr>gx_overall = de_overall E (timeout d), gx_own = de_own E, gx_check_format = ''failed to check %s is healthy: %w''\<rparr>"

definition Healthy :: "'w deploy_env \<Rightarrow> nat list \<Rightarrow> deployment \<Rightarrow> ('w, unit) act" where
  "Healthy E sched d =
     abind (amap_err (Errorw ''failed to check cluster is healthy: %w'' []) (Cluster_Healthy (de_shell E) (d_Cluster d))) (\<lambda>_ w.
       Wait (group_final (health_group E d) Checking (components E (GetDockerNetworkResourceName (d_Cluster d)) d) sched w))"

definition Delete_deployment :: "'w deploy_env \<Rightarrow> deployment \<Rightarrow> ('w, unit) act" where
  "Delete_deployment E d =
     amap_err (Errorw ''failed to delete cluster: %w'' []) (Cluster_Delete (de_shell E) (d_Cluster d))"

section \<open>The group reports the cause\<close>

text \<open>The calls of one goroutine, and what they must have been in each of its phases.\<close>

definition calls_of :: "nat \<Rightarrow> 'w group \<Rightarrow> (stage \<times> unit result) list" where
  "calls_of i st = map (\<lambda>t. (ca_stage t, ca_result t)) (filter (\<lambda>t. ca_comp t = i) (gr_calls st))"

definition before_check :: "phase \<Rightarrow> (stage \<times> unit result) list" where
  "before_check ph = (if ph = Deploying then [(Deploy_stage, Ok ())] else [])"

definition failed_calls :: "phase \<Rightarrow> (stage \<times> unit result) list \<Rightarrow> bool" where
  "failed_calls ph l \<longleftrightarrow>
     (\<exists>e. ph = Deploying \<and> l = [(Deploy_stage, Error e)] \<or> l = before_check ph @ [(Health_stage, Error e)])"

fun phase_calls :: "phase \<Rightarrow> phase \<Rightarrow> (stage \<times> unit result) list \<Rightarrow> bool" where
  "phase_calls ph Deploying l \<longleftrightarrow> ph = Deploying \<and> l = []"
| "phase_calls ph Checking l \<longleftrightarrow> l = before_check ph"
| "phase_calls ph (Failing e) l \<longleftrightarrow> failed_calls ph l"
| "phase_calls ph (Returned None) l \<longleftrightarrow> l = before_check ph @ [(Health_stage, Ok ())]"
| "phase_calls ph (Returned (Some e)) l \<longleftrightarrow> failed_calls ph l"

text \<open>
  An error that is explained by a call of a component: the label that it got tells of the deployment's own
  context and of the component's own, and not of other components that have failed.
\<close>

definition explains :: "'w group_env \<Rightarrow> 'w component list \<Rightarrow> call \<Rightarrow> err \<Rightarrow> bool" where
  "explains X comps t e \<longleftrightarrow>
     (\<exists>e0. ca_result t = Error e0 \<and> ca_comp t < length comps \<and>
        e = componentErr (cp_name (comps ! ca_comp t)) (ca_overall t) (ca_overall t) (ca_own t)
              (stage_err X (ca_stage t) (cp_name (comps ! ca_comp t)) e0))"

definition explained :: "'w group_env \<Rightarrow> 'w component list \<Rightarrow> call list \<Rightarrow> err \<Rightarrow> bool" where
  "explained X comps l e = list_ex (\<lambda>t. explains X comps t e) l"

lemma explained_append: "explained X comps l e \<Longrightarrow> explained X comps (l @ l') e"
  by (simp add: explained_def)

definition group_inv :: "'w group_env \<Rightarrow> phase \<Rightarrow> 'w component list \<Rightarrow> 'w group \<Rightarrow> bool" where
  "group_inv X ph comps st \<longleftrightarrow>
     length (gr_phases st) = length comps \<and>
     (\<forall>i < length comps. phase_calls ph (gr_phases st ! i) (calls_of i st)) \<and>
     (\<forall>e. gr_err st = Some e \<longrightarrow> explained X comps (gr_calls st) e) \<and>
     (gr_err st = None \<longleftrightarrow> (\<forall>i < length comps. \<forall>e. gr_phases st ! i \<noteq> Returned (Some e))) \<and>
     (gr_err st = None \<longrightarrow> (\<forall>i < length comps. \<forall>e. gr_phases st ! i = Failing e \<longrightarrow> explained X comps (gr_calls st) e))"

lemma group_ctx_None [simp]: "group_ctx overall None = overall"
  by (cases overall) (simp_all add: group_ctx_def)

lemma group_inv_start: "ph = Deploying \<or> ph = Checking \<Longrightarrow> group_inv X ph comps (group_start ph comps w)"
  by (auto simp: group_inv_def group_start_def calls_of_def before_check_def)

text \<open>A call that returns normally keeps the invariant.\<close>

lemma after_call_inv:
  assumes inv: "group_inv X ph comps st" and i: "i < length comps"
    and s: "s = Deploy_stage \<and> gr_phases st ! i = Deploying \<or> s = Health_stage \<and> gr_phases st ! i = Checking"
    and np: "gr_panic (after_call X comps i s x st) = None"
  shows "group_inv X ph comps (after_call X comps i s x st)"
proof -
  obtain r w where x: "x = (r, w)" by fastforce
  define t where "t = \<lparr>ca_comp = i, ca_stage = s, ca_result = r, ca_overall = gx_overall X w,
    ca_own = (case s of Deploy_stage \<Rightarrow> None | Health_stage \<Rightarrow> Some (gx_own X i w))\<rparr>"
  define q where "q = (case r of Ok _ \<Rightarrow> (case s of Deploy_stage \<Rightarrow> Checking | Health_stage \<Rightarrow> Returned None)
    | Error e \<Rightarrow> Failing (componentErr (cp_name (comps ! i)) (ca_overall t) (group_ctx (ca_overall t) (gr_err st)) (ca_own t)
        (stage_err X s (cp_name (comps ! i)) e))
    | Panic p \<Rightarrow> Checking)"
  have r: "r = Ok () \<or> (\<exists>e. r = Error e)" using np by (cases r) (auto simp: after_call_def x Let_def)
  have st': "after_call X comps i s x st = st\<lparr>gr_world := w, gr_calls := gr_calls st @ [t], gr_phases := (gr_phases st)[i := q]\<rparr>"
    using r by (auto simp: after_call_def x Let_def q_def t_def)
  have len: "length (gr_phases st) = length comps" using inv by (simp add: group_inv_def)
  have calls: "calls_of j (after_call X comps i s x st) = calls_of j st @ (if j = i then [(s, r)] else [])" for j
    by (simp add: st' calls_of_def t_def)
  have "phase_calls ph (gr_phases st ! i) (calls_of i st)" using inv i by (simp add: group_inv_def)
  then have qi: "phase_calls ph q (calls_of i st @ [(s, r)])"
    using s r by (auto simp: q_def failed_calls_def before_check_def)
  have q_ne: "q \<noteq> Returned (Some e)" for e using r by (cases s) (auto simp: q_def)
  have old_ne: "gr_phases st ! i \<noteq> Returned (Some e)" for e using s by auto
  have q_ex: "explained X comps (gr_calls st @ [t]) e" if qe: "q = Failing e" "gr_err st = None" for e
  proof -
    obtain e0 where "r = Error e0" using qe(1) r by (cases s) (auto simp: q_def)
    with qe have "explains X comps t e" using i by (auto simp: explains_def q_def t_def)
    then show ?thesis by (simp add: explained_def)
  qed
  show ?thesis
    unfolding group_inv_def
  proof (intro conjI allI impI)
    show "length (gr_phases (after_call X comps i s x st)) = length comps" using len by (simp add: st')
    show "phase_calls ph (gr_phases (after_call X comps i s x st) ! j) (calls_of j (after_call X comps i s x st))" if "j < length comps" for j
    proof -
      have "phase_calls ph (gr_phases st ! j) (calls_of j st)" using inv that by (simp add: group_inv_def)
      then show ?thesis unfolding calls using qi i len by (auto simp: st' nth_list_update)
    qed
    show "explained X comps (gr_calls (after_call X comps i s x st)) e" if "gr_err (after_call X comps i s x st) = Some e" for e
      using inv that by (auto simp: st' group_inv_def intro: explained_append)
    show "(gr_err (after_call X comps i s x st) = None) = (\<forall>j < length comps. \<forall>e. gr_phases (after_call X comps i s x st) ! j \<noteq> Returned (Some e))"
    proof -
      have "gr_phases st ! j = Returned (Some e) \<longleftrightarrow> (gr_phases st)[i := q] ! j = Returned (Some e)" if "j < length comps" for j e
        using q_ne old_ne len that by (cases "i = j") auto
      then show ?thesis using inv by (auto simp: st' group_inv_def)
    qed
    show "explained X comps (gr_calls (after_call X comps i s x st)) e"
      if "gr_err (after_call X comps i s x st) = None" "j < length comps" "gr_phases (after_call X comps i s x st) ! j = Failing e" for j e
      using inv that q_ex i len by (auto simp: st' group_inv_def nth_list_update intro: explained_append split: if_splits)
  qed
qed

lemma advance_inv:
  assumes inv: "group_inv X ph comps st" and np: "gr_panic (advance X comps i st) = None"
  shows "group_inv X ph comps (advance X comps i st)"
proof (cases "gr_panic st \<noteq> None \<or> length comps \<le> i")
  case True
  then show ?thesis using inv by (auto simp: advance_def group_inv_def)
next
  case False
  then have i: "gr_panic st = None" "i < length comps" "length (gr_phases st) = length comps" using inv by (auto simp: group_inv_def)
  show ?thesis
  proof (cases "gr_phases st ! i")
    case Deploying
    with i np have "advance X comps i st = after_call X comps i Deploy_stage (cp_Deploy (comps ! i) (gr_world st)) st" by (simp add: advance_def)
    with after_call_inv [OF inv i(2), of Deploy_stage] Deploying np show ?thesis by simp
  next
    case Checking
    with i np have "advance X comps i st = after_call X comps i Health_stage (cp_Healthy (comps ! i) (gr_world st)) st" by (simp add: advance_def)
    with after_call_inv [OF inv i(2), of Health_stage] Checking np show ?thesis by simp
  next
    case (Failing e)
    have "phase_calls ph (Failing e) (calls_of i st)" using inv i Failing by (metis group_inv_def)
    with Failing i inv show ?thesis
      by (auto simp: advance_def group_inv_def nth_list_update calls_of_def split: option.splits)
  next
    case (Returned x)
    with i inv show ?thesis by (simp add: advance_def)
  qed
qed

lemma advance_panics: "gr_panic st \<noteq> None \<Longrightarrow> advance X comps i st = st"
  by (simp add: advance_def)

lemma group_run_simps [simp]: "group_run X comps [] st = st" "group_run X comps (i # is) st = group_run X comps is (advance X comps i st)"
  by (simp_all add: group_run_def)

lemma group_run_append: "group_run X comps (xs @ ys) st = group_run X comps ys (group_run X comps xs st)"
  by (simp add: group_run_def)

lemma group_run_panics: "gr_panic st \<noteq> None \<Longrightarrow> group_run X comps sched st = st"
  by (induction sched) (simp_all add: advance_panics)

lemma group_run_inv:
  "group_inv X ph comps st \<Longrightarrow> gr_panic (group_run X comps sched st) = None \<Longrightarrow> group_inv X ph comps (group_run X comps sched st)"
proof (induction sched arbitrary: st)
  case (Cons i sched)
  then have "gr_panic (advance X comps i st) = None" using group_run_panics [of "advance X comps i st"] by fastforce
  with Cons show ?case by (simp add: advance_inv)
qed simp

section \<open>Every goroutine returns\<close>

fun steps_left :: "phase \<Rightarrow> nat" where
  "steps_left Deploying = 3"
| "steps_left Checking = 2"
| "steps_left (Failing e) = 1"
| "steps_left (Returned x) = 0"

lemma advance_length [simp]: "length (gr_phases (advance X comps i st)) = length (gr_phases st)"
  by (auto simp: advance_def after_call_def Let_def split: phase.split result.split prod.split)

lemma advance_left:
  assumes "gr_panic (advance X comps i st) = None" "j < length (gr_phases st)"
  shows "steps_left (gr_phases (advance X comps i st) ! j) \<le> steps_left (gr_phases st ! j) - (if i = j then 1 else 0)"
  using assms
  by (auto simp: advance_def after_call_def Let_def nth_list_update split: phase.splits result.splits prod.splits stage.splits if_splits)

lemma group_run_left:
  assumes "gr_panic (group_run X comps sched st) = None" "j < length (gr_phases st)"
  shows "steps_left (gr_phases (group_run X comps sched st) ! j) \<le> steps_left (gr_phases st ! j) - count_list sched j"
  using assms
proof (induction sched arbitrary: st)
  case (Cons i sched)
  then have np: "gr_panic (advance X comps i st) = None" using group_run_panics [of "advance X comps i st"] by fastforce
  have "steps_left (gr_phases (group_run X comps sched (advance X comps i st)) ! j) \<le>
      steps_left (gr_phases (advance X comps i st) ! j) - count_list sched j"
    using Cons by simp
  with advance_left [OF np, of j] Cons.prems(2) show ?case by (simp split: if_splits)
qed simp

lemma count_rounds: "j < n \<Longrightarrow> count_list (rounds n) j = 3"
proof -
  assume j: "j < n"
  have "count_list [0..<n] j = (if j < n then 1 else 0)" by (induction n) auto
  with j show ?thesis by (simp add: rounds_def numeral_3_eq_3)
qed

lemma all_returned:
  assumes np: "gr_panic (group_final X ph comps sched w) = None" and j: "j < length comps"
  shows "\<exists>x. gr_phases (group_final X ph comps sched w) ! j = Returned x"
proof -
  have "steps_left (gr_phases (group_final X ph comps sched w) ! j) \<le> steps_left ph - count_list (sched @ rounds (length comps)) j"
    using group_run_left [of X comps "sched @ rounds (length comps)" "group_start ph comps w" j] np j
    by (simp add: group_final_def group_start_def)
  also have "\<dots> = 0" using count_rounds [OF j] by (cases ph) simp_all
  finally show ?thesis by (cases "gr_phases (group_final X ph comps sched w) ! j") simp_all
qed

lemma group_outcome:
  assumes ph: "ph = Deploying \<or> ph = Checking" and st_def: "st = group_final X ph comps sched w" and np: "gr_panic st = None"
  shows "fst (Wait st) = Ok () \<longleftrightarrow> (\<forall>i < length comps. calls_of i st = before_check ph @ [(Health_stage, Ok ())])"
    and "fst (Wait st) = Error e \<Longrightarrow> \<exists>t \<in> set (gr_calls st). explains X comps t e"
proof -
  have inv: "group_inv X ph comps st"
    unfolding st_def group_final_def by (rule group_run_inv) (use np ph in \<open>simp_all add: group_inv_start st_def group_final_def\<close>)
  have ret: "\<exists>x. gr_phases st ! i = Returned x" if "i < length comps" for i
    using all_returned [of X ph comps sched w] np that by (simp add: st_def)
  have pc: "phase_calls ph (gr_phases st ! i) (calls_of i st)" if "i < length comps" for i
    using inv that by (simp add: group_inv_def)
  have one: "gr_phases st ! i = Returned None \<longleftrightarrow> calls_of i st = before_check ph @ [(Health_stage, Ok ())]" if i: "i < length comps" for i
  proof -
    obtain x where "gr_phases st ! i = Returned x" using ret [OF i] by blast
    with pc [OF i] show ?thesis by (cases x) (auto simp: before_check_def failed_calls_def)
  qed
  have "gr_err st = None \<longleftrightarrow> (\<forall>i < length comps. gr_phases st ! i = Returned None)"
    using inv ret by (fastforce simp: group_inv_def)
  then show "fst (Wait st) = Ok () \<longleftrightarrow> (\<forall>i < length comps. calls_of i st = before_check ph @ [(Health_stage, Ok ())])"
    using np one by (auto simp: Wait_def split: option.splits)
  show "\<exists>t \<in> set (gr_calls st). explains X comps t e" if "fst (Wait st) = Error e"
    using inv that np by (auto simp: Wait_def group_inv_def explained_def list_ex_iff split: option.splits)
qed

text \<open>
  C29. The ingress, the CNI and the controllers are deployed at once in a group that cancels all when one fails.
  However the calls interleave, unless one of them panics, every goroutine returns and the result of the group is
  exact: it is success exactly if every component was deployed and then found healthy, by one call each; and an
  error is that of a call that failed, labelled by the state of the deployment's context and of the component's
  own at that time, and never as abandoned because another component had failed.
\<close>

theorem group_reports_cause:
  assumes st_def: "st = group_final X Deploying comps sched w" and np: "gr_panic st = None"
  shows "(\<forall>i < length comps. \<exists>x. gr_phases st ! i = Returned x) \<and>
    (fst (Wait st) = Ok () \<longleftrightarrow> (\<forall>i < length comps. calls_of i st = [(Deploy_stage, Ok ()), (Health_stage, Ok ())])) \<and>
    (\<forall>e. fst (Wait st) = Error e \<longrightarrow> (\<exists>t \<in> set (gr_calls st). explains X comps t e))"
  using all_returned [of X Deploying comps sched w] group_outcome [OF _ st_def np] np st_def by (auto simp: before_check_def)

text \<open>
  The ingress is found unhealthy, after which the wait for the controller ends with the group's context; then the
  error of the ingress is reported.
\<close>

definition ex_component :: "string \<Rightarrow> unit result \<Rightarrow> unit result \<Rightarrow> string list component" where
  "ex_component name d h = \<lparr>cp_name = name, cp_Deploy = (\<lambda>w. (d, w @ [name])), cp_Healthy = (\<lambda>w. (h, w @ [name]))\<rparr>"

definition ex_components :: "string list component list" where
  "ex_components = [ex_component ''ingress'' (Ok ()) (Error EOF), ex_component ''CEOSLab controller'' (Ok ()) (Error ContextCanceled)]"

definition ex_group_env :: "string list group_env" where
  "ex_group_env = \<lparr>gx_overall = (\<lambda>w. None), gx_own = (\<lambda>i w. None), gx_check_format = ''failed to check if %s is healthy: %w''\<rparr>"

definition ex_group :: "string list group" where
  "ex_group = group_final ex_group_env Deploying ex_components [1, 0, 0, 0, 1] []"

theorem group_reports_cause_witness:
  "gr_phases ex_group ! 1 = Returned (Some (Errorw ''%s abandoned before completing: %w'' [''CEOSLab controller'']
     (Errorw ''failed to check if %s is healthy: %w'' [''CEOSLab controller''] ContextCanceled))) \<and>
   fst (Wait ex_group) = Error (Errorw ''failed to check if %s is healthy: %w'' [''ingress''] EOF) \<and>
   (\<exists>t \<in> set (gr_calls ex_group). explains ex_group_env ex_components t (Errorw ''failed to check if %s is healthy: %w'' [''ingress''] EOF))"
proof -
  have "gr_panic ex_group = None" by code_simp
  from group_reports_cause [OF ex_group_def this]
  have "\<forall>e. fst (Wait ex_group) = Error e \<longrightarrow> (\<exists>t \<in> set (gr_calls ex_group). explains ex_group_env ex_components t e)" by blast
  moreover have "fst (Wait ex_group) = Error (Errorw ''failed to check if %s is healthy: %w'' [''ingress''] EOF)" by code_simp
  moreover have "gr_phases ex_group ! 1 = Returned (Some (Errorw ''%s abandoned before completing: %w'' [''CEOSLab controller'']
     (Errorw ''failed to check if %s is healthy: %w'' [''CEOSLab controller''] ContextCanceled)))" by code_simp
  ultimately show ?thesis by blast
qed

text \<open>If every call succeeds, so does the group.\<close>

definition going_well :: "'w group \<Rightarrow> bool" where
  "going_well st \<longleftrightarrow> gr_panic st = None \<and> gr_err st = None \<and> list_all (\<lambda>p. p \<in> {Deploying, Checking, Returned None}) (gr_phases st)"

lemma group_all_Ok:
  assumes ok: "\<And>c w. c \<in> set comps \<Longrightarrow> fst (cp_Deploy c w) = Ok () \<and> fst (cp_Healthy c w) = Ok ()" and ph: "ph = Deploying \<or> ph = Checking"
  shows "fst (Wait (group_final X ph comps sched w)) = Ok ()"
proof -
  have step: "going_well (advance X comps i st)" if well: "going_well st" and len: "length (gr_phases st) = length comps" for i st
  proof (cases "i < length comps")
    case True
    then have "gr_phases st ! i \<in> {Deploying, Checking, Returned None}" "comps ! i \<in> set comps"
      using well len by (auto simp: going_well_def list_all_length)
    moreover have "list_all P (gr_phases st) \<Longrightarrow> P q \<Longrightarrow> list_all P ((gr_phases st)[i := q])" for P q
      by (auto simp: list_all_iff dest: set_update_subset_insert [THEN subsetD])
    ultimately show ?thesis
      using well len ok [of "comps ! i" "gr_world st"]
      by (auto simp: advance_def after_call_def Let_def going_well_def split: prod.splits)
  qed (use well len in \<open>simp add: advance_def\<close>)
  have "going_well (group_run X comps l st)" if "going_well st" "length (gr_phases st) = length comps" for l st
    using that by (induction l arbitrary: st) (simp_all add: step)
  moreover have "going_well (group_start ph comps w)" "length (gr_phases (group_start ph comps w)) = length comps"
    using ph by (auto simp: group_start_def going_well_def list_all_iff)
  ultimately have "going_well (group_final X ph comps sched w)" unfolding group_final_def by blast
  then show ?thesis by (simp add: going_well_def Wait_def)
qed

section \<open>What a successful deployment means\<close>

lemma watched_deploy_Ok:
  assumes "watched_deploy E sched c d w = (Ok (), w')"
  obtains u u' where "deploy_all E sched c d u = (Ok (), u')"
proof -
  obtain pods w1 where 1: "started (de_PodWatcher E) w = (pods, w1)" by fastforce
  obtain evs w2 where 2: "started (de_EventWatcher E) w1 = (evs, w2)" by fastforce
  obtain r w3 where 3: "deploy_all E sched c d w2 = (r, w3)" by fastforce
  obtain r1 w4 where 4: "deferred evs (cleanup_with (de_events E) (de_set_events E)) r w3 = (r1, w4)" by fastforce
  have "deferred pods (cleanup_with (de_pods E) (de_set_pods E)) r1 w4 = (Ok (), w')"
    using assms by (simp add: watched_deploy_def 1 2 3 4)
  then have "r1 = Ok ()" by (rule deferred_cleanup_Ok)
  with 4 have "deferred evs (cleanup_with (de_events E) (de_set_events E)) r w3 = (Ok (), w4)" by simp
  then have "r = Ok ()" by (rule deferred_cleanup_Ok)
  with 3 show thesis by (simp add: that)
qed

lemma deploy_cluster_Ok:
  assumes "deploy_cluster E d kubecfg w = (Ok c, w')"
  obtains v1 v2 v3 v4 where "checkDependencies E w = (Ok (), v1)" "Cluster_Deploy (de_shell E) (de_cluster E) (d_Cluster d) v1 = (Ok c, v2)"
    "Cluster_Healthy (de_shell E) c v2 = (Ok (), v3)" "validateClusterVersion E c v4 = (Ok (), w')"
  using assms unfolding deploy_cluster_def by (auto elim!: abind_OkD simp: amap_err_Ok)

text \<open>
  C30. If \<open>Deploy\<close> succeeds, then the binaries that it needs are there, the cluster came up and answered, its
  version is the one that was asked for, there are an ingress and a CNI, and in the run of the error group every
  component was deployed and found healthy. The watchers can only turn success into failure.
\<close>

theorem Deploy_means_healthy:
  assumes "Deploy E sched d kubecfg w = (Ok (), w')"
  shows "d_Ingress d \<noteq> None \<and> d_CNI d \<noteq> None \<and>
    (\<exists>c v0 v1 v2 v3 v4 v5 u. checkDependencies E v0 = (Ok (), v1) \<and>
      Cluster_Deploy (de_shell E) (de_cluster E) (d_Cluster d) v1 = (Ok c, v2) \<and>
      Cluster_Healthy (de_shell E) c v2 = (Ok (), v3) \<and> validateClusterVersion E c v4 = (Ok (), v5) \<and>
      (let comps = components E (GetDockerNetworkResourceName c) d; st = group_final (deploy_group E d) Deploying comps sched u in
       \<forall>i < length comps. calls_of i st = [(Deploy_stage, Ok ()), (Health_stage, Ok ())]))"
proof -
  obtain w0 w1 where "abind (deploy_cluster E d kubecfg) (\<lambda>c. watched_deploy E sched c d) w0 = (Ok (), w1)"
    using assms by (auto simp: Deploy_def Let_def split: prod.splits)
  then obtain c v where c: "deploy_cluster E d kubecfg w0 = (Ok c, v)" and "watched_deploy E sched c d v = (Ok (), w1)"
    by (rule abind_OkD)
  then obtain u u' where u: "deploy_all E sched c d u = (Ok (), u')" by (blast elim: watched_deploy_Ok)
  then have i: "d_Ingress d \<noteq> None" "d_CNI d \<noteq> None" by (auto simp: deploy_all_def split: if_splits)
  define st where "st = group_final (deploy_group E d) Deploying (components E (GetDockerNetworkResourceName c) d) sched u"
  have "Wait st = (Ok (), u')" using u i by (simp add: deploy_all_def deployComponents_def st_def)
  then have "gr_panic st = None" "fst (Wait st) = Ok ()" by (auto simp: Wait_def split: option.splits)
  then have "\<forall>i < length (components E (GetDockerNetworkResourceName c) d). calls_of i st = [(Deploy_stage, Ok ()), (Health_stage, Ok ())]"
    using group_outcome(1) [OF _ st_def] by (simp add: before_check_def)
  with i show ?thesis unfolding Let_def st_def by (rule_tac deploy_cluster_Ok [OF c]) blast
qed

text \<open>A deployment without an ingress is not skipped over but panics once its cluster is up.\<close>

lemma Deploy_without_ingress_panics:
  assumes "deploy_cluster E d kubecfg w = (Ok c, w')" "d_Ingress d = None" "d_ReportUsage d = False"
  shows "\<exists>p. fst (Deploy E sched d kubecfg w) = Panic p"
  using assms by (auto simp: Deploy_def watched_deploy_def deploy_all_def deferred_def Let_def split: prod.splits)

text \<open>The wait for health alone: it succeeds exactly if every component is found healthy.\<close>

lemma Healthy_exact:
  assumes "Cluster_Healthy (de_shell E) (d_Cluster d) w = (Ok (), w1)"
    and st: "st = group_final (health_group E d) Checking (components E (GetDockerNetworkResourceName (d_Cluster d)) d) sched w1"
    and np: "gr_panic st = None"
  shows "fst (Healthy E sched d w) = Ok () \<longleftrightarrow>
    (\<forall>i < length (components E (GetDockerNetworkResourceName (d_Cluster d)) d). calls_of i st = [(Health_stage, Ok ())])"
  using group_outcome(1) [OF _ st np] assms by (simp add: Healthy_def amap_err_def before_check_def)

section \<open>A deployment cleans up\<close>

definition deploy_frame :: "('w \<Rightarrow> 'v) \<Rightarrow> 'w deploy_env \<Rightarrow> bool" where
  "deploy_frame view E \<longleftrightarrow>
     gar_frame view (cl_gar (de_cluster E)) \<and> keeps view (cl_uuid (de_cluster E)) \<and>
     (\<forall>k. keeps view (de_BuildConfig E k)) \<and> (\<forall>c. keeps view (de_NewClient E c)) \<and>
     kclient_frame view (de_kClient E) \<and> metal_frame view (de_metal E) \<and> keeps view (de_ServerVersion E) \<and>
     keeps view (de_PodWatcher E) \<and> keeps view (de_EventWatcher E) \<and>
     (\<forall>x w. view (de_set_pods E x w) = view w) \<and> (\<forall>x w. view (de_set_events E x w) = view w) \<and>
     keeps view (de_NewReporter E) \<and> (\<forall>e. keeps view (de_ReportStart E e)) \<and> (\<forall>i r. keeps view (de_ReportEnd E i r)) \<and>
     keeps view (de_CloseReporter E)"

lemma keeps_snd: "keeps view m \<Longrightarrow> view (snd (m w)) = view w"
  by (metis keepsD prod.collapse)

lemma advance_view:
  assumes "\<And>c. c \<in> set comps \<Longrightarrow> keeps view (cp_Deploy c) \<and> keeps view (cp_Healthy c)" "length (gr_phases st) = length comps"
  shows "view (gr_world (advance X comps i st)) = view (gr_world st)"
proof -
  have "view (gr_world (after_call X comps i s (m (gr_world st)) st)) = view (gr_world st)" if "keeps view m" for s m
    using keeps_snd [OF that, of "gr_world st"]
    by (auto simp: after_call_def Let_def split: prod.splits result.splits)
  moreover have "keeps view (cp_Deploy (comps ! i)) \<and> keeps view (cp_Healthy (comps ! i))" if "i < length comps"
    using assms(1) that by simp
  ultimately show ?thesis using assms(2) by (auto simp: advance_def split: phase.splits)
qed

lemma group_run_view:
  assumes "\<And>c. c \<in> set comps \<Longrightarrow> keeps view (cp_Deploy c) \<and> keeps view (cp_Healthy c)"
  shows "length (gr_phases st) = length comps \<Longrightarrow> view (gr_world (group_run X comps sched st)) = view (gr_world st)"
  by (induction sched arbitrary: st) (simp_all add: advance_view [OF assms])

lemma keeps_deployComponents:
  assumes S: "tidy view (de_shell E)" and E: "deploy_frame view E"
  shows "keeps view (deployComponents E sched network d)"
proof (rule keepsI)
  fix w r w' assume run: "deployComponents E sched network d w = (r, w')"
  have "keeps view (cp_Deploy c) \<and> keeps view (cp_Healthy c)" if "c \<in> set (components E network d)" for c
    using that S E unfolding components_def
    by (auto simp: deploy_frame_def MetalLB_Healthy_def intro!: keeps_intros split: option.splits)
  then have "length (gr_phases st) = length (components E network d) \<Longrightarrow>
      view (gr_world (group_run (deploy_group E d) (components E network d) l st)) = view (gr_world st)" for l st
    by (rule group_run_view)
  with run show "view w' = view w" by (auto simp: deployComponents_def group_final_def Wait_def group_start_def)
qed

lemma keeps_cleanup: "(\<And>x w. view (set_w x w) = view w) \<Longrightarrow> keeps view (cleanup_with get set_w r)"
  by (rule keepsI) (auto simp: cleanup_with_def split: prod.splits)

lemma view_deferred: "(\<And>r. keeps view (c r)) \<Longrightarrow> view (snd (deferred b c r w)) = view w"
  by (cases rule: deferred_cases [of b c r w]) (simp_all add: keeps_snd)

lemma keeps_watched_deploy:
  assumes S: "tidy view (de_shell E)" and E: "deploy_frame view E"
  shows "keeps view (watched_deploy E sched c d)"
proof (rule keepsI)
  fix w r' w' assume run: "watched_deploy E sched c d w = (r', w')"
  obtain pods w1 where 1: "started (de_PodWatcher E) w = (pods, w1)" by fastforce
  obtain evs w2 where 2: "started (de_EventWatcher E) w1 = (evs, w2)" by fastforce
  obtain r w3 where 3: "deploy_all E sched c d w2 = (r, w3)" by fastforce
  obtain r1 w4 where 4: "deferred evs (cleanup_with (de_events E) (de_set_events E)) r w3 = (r1, w4)" by fastforce
  have w': "w' = snd (deferred pods (cleanup_with (de_pods E) (de_set_pods E)) r1 w4)"
    using run by (simp add: watched_deploy_def 1 2 3 4)
  have "view w1 = view w" "view w2 = view w1"
    using 1 2 E by (auto simp: started_def deploy_frame_def dest: keepsD split: prod.splits)
  moreover have "keeps view (deploy_all E sched c d)"
    unfolding deploy_all_def by (intro keeps_intros keeps_deployComponents S E)
  then have "view w3 = view w2" using 3 by (rule keepsD)
  moreover have kc: "keeps view (cleanup_with (de_events E) (de_set_events E) q)" "keeps view (cleanup_with (de_pods E) (de_set_pods E) q)" for q
    using E by (simp_all add: deploy_frame_def keeps_cleanup)
  have "view (snd (deferred evs (cleanup_with (de_events E) (de_set_events E)) r w3)) = view w3" by (rule view_deferred [OF kc(1)])
  then have "view w4 = view w3" by (simp add: 4)
  moreover have "view w' = view w4" unfolding w' by (rule view_deferred [OF kc(2)])
  ultimately show "view w' = view w" by simp
qed

lemma view_report:
  assumes E: "deploy_frame view E"
  shows "view (snd (reportDeployEvent E d w)) = view w"
proof -
  obtain q1 u1 where 1: "de_NewReporter E w = (q1, u1)" by fastforce
  obtain q2 u2 where 2: "de_ReportStart E (event d) u1 = (q2, u2)" by fastforce
  have "keeps view (de_NewReporter E)" "keeps view (de_ReportStart E (event d))" using E by (simp_all add: deploy_frame_def)
  then have "view u1 = view w" "view u2 = view u1" using 1 2 by (auto dest: keepsD)
  then show ?thesis by (cases q1; cases q2) (simp_all add: reportDeployEvent_def 1 2)
qed

lemma keeps_Deploy:
  assumes S: "tidy view (de_shell E)" and E: "deploy_frame view E"
    and C: "keeps view (Cluster_Deploy (de_shell E) (de_cluster E) (d_Cluster d))"
  shows "keeps view (Deploy E sched d kubecfg)"
proof (rule keepsI)
  fix w r' w' assume run: "Deploy E sched d kubecfg w = (r', w')"
  obtain fin w0 where 0: "(if d_ReportUsage d then reportDeployEvent E d w else (Finish_nothing, w)) = (fin, w0)" by fastforce
  obtain r w1 where 1: "abind (deploy_cluster E d kubecfg) (\<lambda>c. watched_deploy E sched c d) w0 = (r, w1)" by fastforce
  have fr: "shell_frame view (de_shell E)" by (rule tidy_frame [OF S])
  have "keeps view (Cluster_Healthy (de_shell E) c)" for c
    unfolding Cluster_Healthy_def cluster_info_def using fr by (auto intro!: keeps_intros split: cluster_spec.split)
  then have "keeps view (deploy_cluster E d kubecfg)"
    unfolding deploy_cluster_def checkDependencies_def validateKubectlVersion_def validateClusterVersion_def Let_def
    using C E fr by (auto simp: deploy_frame_def intro!: keeps_intros)
  then have "keeps view (abind (deploy_cluster E d kubecfg) (\<lambda>c. watched_deploy E sched c d))"
    by (intro keeps_abind keeps_watched_deploy S E)
  then have "view w1 = view w0" using 1 by (rule keepsD)
  moreover have "view w0 = view w" using 0 view_report [OF E, of d w] by (auto split: if_splits)
  moreover have "view (run_finish E fin q w1) = view w1" for q
    using E by (cases fin) (simp_all add: run_finish_def deploy_frame_def keeps_snd)
  ultimately show "view w' = view w" using run by (auto simp: Deploy_def 0 1)
qed


section \<open>Concrete deployments\<close>

definition ex_api :: "('w, 'o) api" where
  "ex_api = \<lparr>api_Create = (\<lambda>ns x. aret x), api_Get = (\<lambda>ns n. aerr (APINotFound n)), api_List = (\<lambda>ns sel. aret []), api_Delete = (\<lambda>ns n. aret ())\<rparr>"

definition ex_kclient :: "sys kclient" where
  "ex_kclient =
     \<lparr>kc_WatchDeployments = (\<lambda>n. aret ([Seen \<lparr>dp_SpecReplicas = None, dp_Available = 0, dp_Ready = 0, dp_Unavailable = 1, dp_Replicas = 1, dp_Updated = 1\<rparr>,
        Seen \<lparr>dp_SpecReplicas = None, dp_Available = 1, dp_Ready = 1, dp_Unavailable = 0, dp_Replicas = 1, dp_Updated = 1\<rparr>], ContextCanceled)),
      kc_WatchDaemonSets = (\<lambda>ns sel. aret ([Seen \<lparr>dm_Ready = 1, dm_Desired = 1, dm_Unavailable = 0\<rparr>], ContextCanceled)),
      kc_Secrets = ex_api\<rparr>"

definition ex_metal :: "sys metal_env" where
  "ex_metal = \<lparr>me_NewDocker = aret (), me_NewMetal = aret (), me_Rand = aret ''random'', me_Base64 = (\<lambda>s. s),
     me_NetworkList = aret [\<lparr>dn_Name = ''bridge'', dn_Subnets = [None, Some ''172.18.0.0/16'']\<rparr>], me_Pools = ex_api, me_L2 = ex_api\<rparr>"

definition ex_version :: version where
  "ex_version = \<lparr>v_Major = 1, v_Minor = 36, v_Patch = 1, v_Pre = [], v_Build = []\<rparr>"

definition ex_deploy_env :: "(string list \<Rightarrow> string \<times> err option) \<Rightarrow> sys deploy_env" where
  "ex_deploy_env says =
     \<lparr>de_shell = mem_shell says, de_cluster = ex_cluster_env\<lparr>cl_semver := \<lparr>sv_Parse = (\<lambda>s. Ok ex_version), sv_LT = (\<lambda>a b. False), sv_String = (\<lambda>v. [])\<rparr>\<rparr>,
      de_BuildConfig = (\<lambda>k. aret \<lparr>rc_QPS = 5, rc_Burst = 10\<rparr>), de_NewClient = (\<lambda>c. aret ()), de_kClient = ex_kclient, de_metal = ex_metal,
      de_ServerVersion = aret ''v1.36.1'', de_UnmarshalVersions = (\<lambda>s. Ok (Some ''v1.36.1'', Some ''v1.36.1'')),
      de_PodWatcher = aret (), de_pods = (\<lambda>w. newWatcher new_pod_watch), de_set_pods = (\<lambda>x w. w),
      de_EventWatcher = aerr EOF, de_events = (\<lambda>w. newWatcher []), de_set_events = (\<lambda>x w. w),
      de_NewReporter = aret (), de_ReportStart = (\<lambda>e. aret ''id''), de_ReportEnd = (\<lambda>i r. aret ()), de_CloseReporter = aret (),
      de_overall = (\<lambda>t w. None), de_own = (\<lambda>i w. None)\<rparr>"

definition ex_deployment :: deployment where
  "ex_deployment =
     \<lparr>d_Cluster = External [],
      d_Ingress = Some \<lparr>mb_IPCount = 100, mb_ManifestDir = ''/m'', mb_Manifest = [], mb_ManifestData = None\<rparr>,
      d_CNI = Some \<lparr>ms_ManifestDir = [], ms_Manifest = ''meshnet.yaml'', ms_ManifestData = None\<rparr>,
      d_Controllers = [Lemming \<lparr>op_Operator = ''lemming.yaml'', op_OperatorData = None, op_ManifestDir = []\<rparr>],
      d_Timeout = 0, d_ReportUsage = True\<rparr>"

definition ex_quiet :: "sys deploy_env" where
  "ex_quiet = ex_deploy_env (\<lambda>c. ([], None))"

lemma ex_command: "LogCommand (mem_shell (\<lambda>c. ([], None))) cmd args w = (Ok (), w\<lparr>sys_log := sys_log w @ [cmd # args]\<rparr>)"
  by (simp add: LogCommand_def run_err_def runCommand_def mem_shell_def abind_def)

lemma ex_healthy: "deploymentHealthy ex_kclient name w = (Ok (), w)" "Meshnet_Healthy ex_kclient w = (Ok (), w)"
  by (simp_all add: deploymentHealthy_def Meshnet_Healthy_def ex_kclient_def all_replicas_def daemon_ready_def amap_err_def abind_def)

lemma ex_metal_simps:
  "me_NewDocker ex_metal = aret ()" "me_NewMetal ex_metal = aret ()" "me_Rand ex_metal = aret ''random''" "me_Pools ex_metal = ex_api"
  "me_L2 ex_metal = ex_api" "me_NetworkList ex_metal = aret [\<lparr>dn_Name = ''bridge'', dn_Subnets = [None, Some ''172.18.0.0/16'']\<rparr>]"
  "kc_Secrets ex_kclient = ex_api"
  by (simp_all add: ex_metal_def ex_kclient_def)

lemma ex_api_simps:
  "api_Create ex_api ns x = aret x" "api_Get ex_api ns n = aerr (APINotFound n)"
  by (simp_all add: ex_api_def)

lemma ex_create_pool: "create_pool S ex_api pool n w = (Ok (), w)"
  by (cases n) (simp_all add: ex_api_simps atry_def)

lemma ex_metallb:
  assumes "mb_ManifestData m = None"
  shows "fst (MetalLB_Deploy (mem_shell (\<lambda>c. ([], None))) ex_kclient ex_metal [] m w) = Ok ()"
proof -
  have "find_subnet [None, Some ''172.18.0.0/16''] = Ok (Some [172, 18, 0, 0])" by code_simp
  then have "metallb_pool S ex_metal [] m v = (Ok (), v)" for S v
    by (simp add: metallb_pool_def network_subnets_def ex_metal_simps ex_api_simps ex_create_pool amap_err_def del: find_subnet.simps)
  moreover have "metallb_secret ex_kclient ex_metal v = (Ok (), v)" for v
    by (simp add: metallb_secret_def ex_metal_simps ex_api_simps amap_err_def atry_def)
  ultimately show ?thesis
    using assms
    by (simp add: MetalLB_Deploy_def staged_def apply_manifest_def ex_command MetalLB_Healthy_def ex_healthy ex_metal_simps ex_api_simps amap_err_def atry_def)
qed

lemma ex_components_ok:
  assumes "c \<in> set (components ex_quiet [] ex_deployment)"
  shows "fst (cp_Deploy c w) = Ok () \<and> fst (cp_Healthy c w) = Ok ()"
  using assms
  by (auto simp: components_def ex_quiet_def ex_deploy_env_def ex_deployment_def ex_metallb MetalLB_Healthy_def ex_healthy Meshnet_Deploy_def staged_def
      apply_manifest_def ex_command amap_err_def Controller_Deploy_def Lemming_Deploy_def Controller_Healthy_def)

lemma ex_quiet_simps:
  "de_PodWatcher ex_quiet = aret ()" "de_EventWatcher ex_quiet = aerr EOF" "de_pods ex_quiet w = newWatcher new_pod_watch" "de_set_pods ex_quiet x w = w"
  "de_NewReporter ex_quiet = aret ()" "de_ReportStart ex_quiet e = aret ''id''"
  by (simp_all add: ex_quiet_def ex_deploy_env_def)

lemma ex_cluster_up: "fst (deploy_cluster ex_quiet ex_deployment ''kubecfg'' sys_start) = Ok (External [])"
  by code_simp

theorem Deploy_means_healthy_witness:
  "\<exists>w'. Deploy ex_quiet [2, 0, 1, 1] ex_deployment ''kubecfg'' sys_start = (Ok (), w') \<and>
   (\<exists>c u. \<forall>i < 3. calls_of i (group_final (deploy_group ex_quiet ex_deployment) Deploying
      (components ex_quiet (GetDockerNetworkResourceName c) ex_deployment) [2, 0, 1, 1] u) = [(Deploy_stage, Ok ()), (Health_stage, Ok ())])"
proof -
  obtain w1 where c: "deploy_cluster ex_quiet ex_deployment ''kubecfg'' sys_start = (Ok (External []), w1)"
    using ex_cluster_up by (metis prod.collapse)
  have g: "fst (deploy_all ex_quiet [2, 0, 1, 1] (External []) ex_deployment w) = Ok ()" for w
    using group_all_Ok [of "components ex_quiet [] ex_deployment" Deploying, OF ex_components_ok] by (simp add: deploy_all_def deployComponents_def GetDockerNetworkResourceName_def ex_deployment_def)
  have "fst (watched_deploy ex_quiet [2, 0, 1, 1] (External []) ex_deployment w) = Ok ()" for w
  proof -
    obtain v where "deploy_all ex_quiet [2, 0, 1, 1] (External []) ex_deployment w = (Ok (), v)" using g by (metis prod.collapse)
    then show ?thesis
      by (simp add: watched_deploy_def ex_quiet_simps started_def deferred_def cleanup_with_def Cleanup_def stop_def newWatcher_def)
  qed
  then obtain w2 where "watched_deploy ex_quiet [2, 0, 1, 1] (External []) ex_deployment w1 = (Ok (), w2)" by (metis prod.collapse)
  then have "fst (Deploy ex_quiet [2, 0, 1, 1] ex_deployment ''kubecfg'' sys_start) = Ok ()"
    using c by (simp add: Deploy_def ex_quiet_simps reportDeployEvent_def ex_deployment_def)
  then obtain w' where w': "Deploy ex_quiet [2, 0, 1, 1] ex_deployment ''kubecfg'' sys_start = (Ok (), w')" by (metis prod.collapse)
  have len: "length (components E network ex_deployment) = 3" for E :: "sys deploy_env" and network by (simp add: components_def ex_deployment_def)
  from Deploy_means_healthy [OF w'] w' show ?thesis unfolding Let_def len by blast
qed

text \<open>The login to a registry fails while the docker configuration is elsewhere.\<close>

definition ex_refused :: "unit result \<times> sys" where
  "ex_refused = Deploy (ex_deploy_env ex_says) [] (ex_deployment\<lparr>d_Cluster := Kind ex_kind\<rparr>) ''kubecfg'' sys_start"

lemma ex_deploy_frame: "deploy_frame view (ex_deploy_env says)"
  by (simp add: deploy_frame_def ex_deploy_env_def ex_cluster_env_def gar_frame_def ex_kclient_def kclient_frame_def ex_metal_def metal_frame_def
      ex_api_def api_frame_def never_panics_def keeps_intros)


end
