(* ===== verification/Controller_Server.thy ===== *)
theory Controller_Server
  imports Deploy_Run Topo_Manager Vendor_Registry
begin

text \<open>
  The controller, \<open>controller/server/main.go\<close>: requests are turned into deployments and topologies, and the
  server keeps a table of each, guarded by a mutex. A handler that takes a mutex holds it until it returns, so
  that the calls of the handlers on one table come one after the other. \<open>topo.New\<close> is here too, which connects
  the loading of a topology with the operations of its manager.
\<close>

section \<open>topo.New\<close>

text \<open>A manager: clients, the loaded topology, its node objects, its meshnet resources.\<close>

record 'w tmgr =
  tm_env :: "'w create_env"
  tm_mgr :: "'w mgr"
  tm_topo :: topology
  tm_specs :: "mtopo list result"
  tm_nodes :: "'w nodes"

record 'w topo_env =
  te_InClusterConfig :: "('w, rest_config) act"
  te_BuildConfig :: "string \<Rightarrow> ('w, rest_config) act"
  te_NewKube :: "rest_config \<Rightarrow> ('w, 'w kube) act"
  te_NewDynamic :: "rest_config \<Rightarrow> ('w, ('w, mtopo) api) act"
  te_pidMax :: pid_max
  te_order :: "(string, nat) gomap \<Rightarrow> (string, nat) gomap"
  te_object :: "node \<Rightarrow> 'w nod"
  te_specs_of :: "node \<Rightarrow> mtopo list result"
  te_specs_order :: "(string, mtopo list) gomap \<Rightarrow> (string, mtopo list) gomap"
  te_create :: "'w create_env"
  te_watch :: "string \<Rightarrow> ns_event list result"

definition manager_of :: "'w topo_env \<Rightarrow> 'w kube \<Rightarrow> ('w, mtopo) api \<Rightarrow> manager \<Rightarrow> 'w tmgr" where
  "manager_of E kClient dClient m =
     \<lparr>tm_env = te_create E,
      tm_mgr = \<lparr>mg_kClient = kClient, mg_dClient = dClient, mg_name = t_Name (m_topo m), mg_skipDeleteWait = False\<rparr>,
      tm_topo = m_topo m,
      tm_specs = topologySpecs (te_specs_of E) (te_specs_order E) m,
      tm_nodes = map (\<lambda>(name, i). (name, te_object E (t_Nodes (m_topo m) ! i))) (m_nodes m)\<rparr>"

definition topo_New :: "'w topo_env \<Rightarrow> topology \<Rightarrow> string \<Rightarrow> ('w, 'w tmgr) act" where
  "topo_New E topo kubecfg =
     abind (atry (te_InClusterConfig E)) (\<lambda>r.
     abind (case r of Ok c \<Rightarrow> aret c | Error _ \<Rightarrow> te_BuildConfig E kubecfg | Panic p \<Rightarrow> apanic p) (\<lambda>rCfg.
     abind (te_NewKube E (tune rCfg)) (\<lambda>kClient.
     abind (te_NewDynamic E (tune rCfg)) (\<lambda>dClient.
       alift (rbind (rmap_err (Errorw ''failed to load topology: %w'' []) (load kne_vendors (te_pidMax E) (te_order E) topo)) (\<lambda>m.
         Ok (manager_of E kClient dClient m)))))))"

text \<open>The nodes of the topology as the node objects see them, which share the messages.\<close>

definition shared_nodes :: "topology \<Rightarrow> 'w nodes \<Rightarrow> node list" where
  "shared_nodes t nodes = map (\<lambda>n. case map_of nodes (n_Name n) of Some x \<Rightarrow> nd_proto x | None \<Rightarrow> n) (t_Nodes t)"

section \<open>Requests\<close>

text \<open>The messages of \<open>proto/controller.proto\<close>, without the deprecated fields, which the controller does not read.\<close>

datatype manifest = Manifest_Data string | Manifest_File string | Manifest_unset

record kind_request =
  kr_Name :: string
  kr_Recycle :: bool
  kr_Version :: string
  kr_Image :: string
  kr_Retain :: bool
  kr_Kubecfg :: string
  kr_GoogleArtifactRegistries :: "string list"
  kr_ContainerImages :: "(string, string) gomap"
  kr_Config :: string
  kr_AdditionalManifests :: "string list"

record kubeadm_request =
  ar_CriSocket :: string
  ar_PodNetworkCidr :: string
  ar_PodNetworkAddOnManifest :: manifest
  ar_TokenTtl :: string
  ar_Network :: string
  ar_AllowControlPlaneScheduling :: bool
  ar_CredentialProviderConfig :: string
  ar_ImageRepository :: string
  ar_KubernetesVersion :: string

datatype cluster_request = Request_Kind kind_request | Request_Kubeadm kubeadm_request | Request_External string | Request_unset

datatype controller_request =
  Ceoslab manifest | Srlinux manifest | Ixiatg manifest manifest | Lemming_request manifest | Cdnos_request manifest | Controller_unset

record create_cluster_request =
  cr_ClusterSpec :: cluster_request
  cr_Metallb :: "(manifest \<times> 32 word) option"
  cr_Meshnet :: "manifest option"
  cr_ControllerSpecs :: "controller_request list"

record create_topology_request =
  tr_Topology :: "topology option"
  tr_Kubecfg :: string

record join_request =
  jr_ApiServerEndpoint :: string
  jr_Token :: string
  jr_DiscoveryTokenCaCertHash :: string
  jr_CriSocket :: string
  jr_CredentialProviderConfig :: string

section \<open>The server\<close>

record 'w ctl_env =
  cx_deploy :: "'w deploy_env"
  cx_topo :: "'w topo_env"
  cx_Getwd :: "('w, string) act"
  cx_home :: string
  cx_reportUsage :: bool
  cx_Marshal :: "topology \<Rightarrow> string result"
  cx_Unmarshal :: "string \<Rightarrow> topology result"

record ctl_server =
  deployments :: "(string, deployment) gomap"
  topos :: "(string, string) gomap"

definition newServer :: ctl_server where
  "newServer = \<lparr>deployments = [], topos = []\<rparr>"

text \<open>Defaults below the home directory; all of them are empty if there is none.\<close>

definition under_home :: "'w ctl_env \<Rightarrow> string list \<Rightarrow> string" where
  "under_home E path = (if cx_home E = [] then [] else filepath_Join (cx_home E # path))"

definition defaultKubeCfg :: "'w ctl_env \<Rightarrow> string" where "defaultKubeCfg E = under_home E [''.kube'', ''config'']"
definition defaultTopoBasePath :: "'w ctl_env \<Rightarrow> string" where "defaultTopoBasePath E = under_home E [''kne'', ''examples'']"

definition default_manifest :: "'w ctl_env \<Rightarrow> string list \<Rightarrow> string" where
  "default_manifest E path = under_home E ([''kne'', ''manifests''] @ path)"

definition IsAbs :: "string \<Rightarrow> bool" where "IsAbs p = HasPrefix p ''/''"

definition filepath_Abs :: "'w ctl_env \<Rightarrow> string \<Rightarrow> ('w, string) act" where
  "filepath_Abs E p = (if IsAbs p then aret (filepath_Clean p) else abind (cx_Getwd E) (\<lambda>wd. aret (filepath_Join [wd, p])))"

text \<open>On a failure of \<open>Abs\<close> the variable \<open>path\<close> is already overwritten with its empty result.\<close>

definition validatePath :: "'w ctl_env \<Rightarrow> string \<Rightarrow> ('w, string) act" where
  "validatePath E path =
     abind (amap_err (\<lambda>_. Errorf ''failed to evaluate absolute path: %q'' [[]]) (filepath_Abs E path)) (\<lambda>p.
     abind (amap_err (\<lambda>_. Errorf ''path %q does not exist'' [p]) (sh_Stat (de_shell (cx_deploy E)) p)) (\<lambda>_. aret p))"

definition valid_or :: "string \<Rightarrow> 'w ctl_env \<Rightarrow> string \<Rightarrow> ('w, string) act" where
  "valid_or shown E path = amap_err (\<lambda>_. Errorf ''failed to validate path %q'' [shown]) (validatePath E path)"

subsection \<open>Deployments from requests\<close>

text \<open>A manifest is given by its contents or else by the path of a file, for which there is a default.\<close>

definition manifest_of :: "'w ctl_env \<Rightarrow> string list \<Rightarrow> manifest \<Rightarrow> ('w, string option \<times> string) act" where
  "manifest_of E dflt_path m =
     (case m of
        Manifest_Data d \<Rightarrow> aret (Some d, [])
      | _ \<Rightarrow>
          (let path = (case m of Manifest_File f \<Rightarrow> if f \<noteq> [] then f else default_manifest E dflt_path | _ \<Rightarrow> default_manifest E dflt_path) in
           abind (valid_or path E path) (\<lambda>p. aret (None, p))))"

fun valid_all :: "'w ctl_env \<Rightarrow> string list \<Rightarrow> ('w, string list) act" where
  "valid_all E [] = aret []"
| "valid_all E (p # ps) = abind (valid_or p E p) (\<lambda>q. abind (valid_all E ps) (\<lambda>qs. aret (q # qs)))"

text \<open>The \<open>kubecfg\<close> of the request is not used.\<close>

definition kind_spec :: "'w ctl_env \<Rightarrow> kind_request \<Rightarrow> ('w, cluster_spec) act" where
  "kind_spec E k =
     abind (if kr_Config k \<noteq> [] then valid_or (kr_Config k) E (kr_Config k) else aret []) (\<lambda>config.
     abind (valid_all E (kr_AdditionalManifests k)) (\<lambda>manifests.
       aret (Kind \<lparr>ks_Name = kr_Name k, ks_Recycle = kr_Recycle k, ks_Version = kr_Version k, ks_Image = kr_Image k, ks_Retain = kr_Retain k,
         ks_Wait = [], ks_Kubecfg = [], ks_GoogleArtifactRegistries = kr_GoogleArtifactRegistries k, ks_ContainerImages = kr_ContainerImages k,
         ks_KindConfigFile = config, ks_AdditionalManifests = manifests\<rparr>)))"

text \<open>For the credential provider the message of a failure shows the empty result instead of the path.\<close>

definition kubeadm_spec :: "'w ctl_env \<Rightarrow> kubeadm_request \<Rightarrow> ('w, cluster_spec) act" where
  "kubeadm_spec E k =
     abind (manifest_of E [''flannel'', ''manifest.yaml''] (ar_PodNetworkAddOnManifest k)) (\<lambda>(data, path).
     abind (if ar_CredentialProviderConfig k \<noteq> [] then valid_or [] E (ar_CredentialProviderConfig k) else aret []) (\<lambda>cred.
       aret (Kubeadm \<lparr>km_CRISocket = ar_CriSocket k, km_PodNetworkCIDR = ar_PodNetworkCidr k, km_PodNetworkAddOnManifest = path,
         km_PodNetworkAddOnManifestData = data, km_CredentialProviderConfig = cred, km_TokenTTL = ar_TokenTtl k, km_Network = ar_Network k,
         km_AllowControlPlaneScheduling = ar_AllowControlPlaneScheduling k, km_ImageRepository = ar_ImageRepository k,
         km_ServiceNodePortRange = [], km_KubernetesVersion = ar_KubernetesVersion k\<rparr>)))"

definition cluster_of :: "'w ctl_env \<Rightarrow> cluster_request \<Rightarrow> ('w, cluster_spec) act" where
  "cluster_of E c =
     (case c of
        Request_Kind k \<Rightarrow> kind_spec E k
      | Request_Kubeadm k \<Rightarrow> kubeadm_spec E k
      | Request_External network \<Rightarrow> aret (External network)
      | Request_unset \<Rightarrow> aerr (Errorf ''cluster type not supported: %T'' [''<nil>'']))"

definition operator_of :: "'w ctl_env \<Rightarrow> string list \<Rightarrow> manifest \<Rightarrow> ('w, operator_spec) act" where
  "operator_of E path m =
     abind (manifest_of E path m) (\<lambda>(data, p). aret \<lparr>op_Operator = p, op_OperatorData = data, op_ManifestDir = []\<rparr>)"

definition controller_of :: "'w ctl_env \<Rightarrow> controller_request \<Rightarrow> ('w, controller_spec) act" where
  "controller_of E c =
     (case c of
        Ceoslab m \<Rightarrow> abind (operator_of E [''controllers'', ''ceoslab'', ''manifest.yaml''] m) (\<lambda>s. aret (CEOSLab s))
      | Srlinux m \<Rightarrow> abind (operator_of E [''controllers'', ''srlinux'', ''manifest.yaml''] m) (\<lambda>s. aret (SRLinux s))
      | Ixiatg m cfg \<Rightarrow>
          abind (manifest_of E [''keysight'', ''ixiatg-operator.yaml''] m) (\<lambda>(data, p).
          abind (manifest_of E [''keysight'', ''ixiatg-configmap.yaml''] cfg) (\<lambda>(cdata, cp).
            aret (IxiaTG \<lparr>op_Operator = p, op_OperatorData = data, op_ManifestDir = [], ix_ConfigMap = cp, ix_ConfigMapData = cdata\<rparr>)))
      | Lemming_request m \<Rightarrow> abind (operator_of E [''controllers'', ''lemming'', ''manifest.yaml''] m) (\<lambda>s. aret (Lemming s))
      | Cdnos_request _ \<Rightarrow> aerr (Errorf ''controller type not supported: %T'' [''*controller.ControllerSpec_Cdnos''])
      | Controller_unset \<Rightarrow> aerr (Errorf ''controller type not supported: %T'' [''<nil>'']))"

fun controllers_of :: "'w ctl_env \<Rightarrow> controller_request list \<Rightarrow> ('w, controller_spec list) act" where
  "controllers_of E [] = aret []"
| "controllers_of E (c # cs) = abind (controller_of E c) (\<lambda>s. abind (controllers_of E cs) (\<lambda>ss. aret (s # ss)))"

definition ingress_of :: "'w ctl_env \<Rightarrow> (manifest \<times> 32 word) option \<Rightarrow> ('w, metallb_spec) act" where
  "ingress_of E m =
     (case m of
        None \<Rightarrow> aerr (Errorf ''ingress spec not supported: %T'' [''<nil>''])
      | Some (man, ipCount) \<Rightarrow>
          abind (manifest_of E [''metallb'', ''manifest.yaml''] man) (\<lambda>(data, p).
            aret \<lparr>mb_IPCount = sint ipCount, mb_ManifestDir = [], mb_Manifest = p, mb_ManifestData = data\<rparr>))"

definition cni_of :: "'w ctl_env \<Rightarrow> manifest option \<Rightarrow> ('w, meshnet_spec) act" where
  "cni_of E m =
     (case m of
        None \<Rightarrow> aerr (Errorf ''cni type not supported: %T'' [''<nil>''])
      | Some man \<Rightarrow>
          abind (manifest_of E [''meshnet'', ''grpc'', ''manifest.yaml''] man) (\<lambda>(data, p).
            aret \<lparr>ms_ManifestDir = [], ms_Manifest = p, ms_ManifestData = data\<rparr>))"

definition newDeployment :: "'w ctl_env \<Rightarrow> create_cluster_request \<Rightarrow> ('w, deployment) act" where
  "newDeployment E req =
     abind (cluster_of E (cr_ClusterSpec req)) (\<lambda>cluster.
     abind (ingress_of E (cr_Metallb req)) (\<lambda>ing.
     abind (cni_of E (cr_Meshnet req)) (\<lambda>cni.
     abind (controllers_of E (cr_ControllerSpecs req)) (\<lambda>controllers.
       aret \<lparr>d_Cluster = cluster, d_Ingress = Some ing, d_CNI = Some cni, d_Controllers = controllers, d_Timeout = 0,
         d_ReportUsage = cx_reportUsage E\<rparr>))))"

subsection \<open>Replies\<close>

text \<open>
  A handler replies, refuses with a status, hands on an error that is not a status, panics, or does not return
  within the fuel of its loops.
\<close>

datatype 'a reply =
  Reply 'a | Refused code string "string list" "err option" | Failed err | Crashed string | Hanging

text \<open>The reply to a call: its error becomes a status with the given code and message.\<close>

definition reply :: "(err \<Rightarrow> 'b reply) \<Rightarrow> ('a \<Rightarrow> 'w \<Rightarrow> 'b reply \<times> ctl_server \<times> 'w) \<Rightarrow> ctl_server \<Rightarrow> 'a result \<times> 'w \<Rightarrow> 'b reply \<times> ctl_server \<times> 'w" where
  "reply f k sv x =
     (case x of
        (Ok y, w) \<Rightarrow> k y w
      | (Error e, w) \<Rightarrow> (f e, sv, w)
      | (Panic p, w) \<Rightarrow> (Crashed p, sv, w))"

datatype cluster_state = CLUSTER_STATE_UNSPECIFIED | CLUSTER_STATE_CREATING | CLUSTER_STATE_RUNNING | CLUSTER_STATE_ERROR

subsection \<open>Clusters\<close>

text \<open>
  \<open>Deploy\<close> also writes to the specs it is called on: clients, the default image, the file a manifest's contents
  were written to. The table keeps the deployment as it was parsed. \<open>GetName\<close>, \<open>Delete\<close> and \<open>Apply\<close> read none of
  these fields, and \<open>Healthy\<close> reads the clients only, which the environment gives.
\<close>

definition CreateCluster ::
  "'w ctl_env \<Rightarrow> nat list \<Rightarrow> create_cluster_request \<Rightarrow> ctl_server \<Rightarrow> 'w \<Rightarrow> (string \<times> cluster_state) reply \<times> ctl_server \<times> 'w" where
  "CreateCluster E sched req sv w =
     reply (\<lambda>e. Refused InvalidArgument ''unable to parse request: %v'' [] (Some e)) (\<lambda>d w1.
       let name = GetName (d_Cluster d) in
       if map_of (deployments sv) name \<noteq> None then (Refused AlreadyExists ''cluster %q already exists'' [name] None, sv, w1)
       else
         reply (\<lambda>e. Refused Internal ''failed to deploy cluster: %v'' [] (Some e)) (\<lambda>_ w2.
           (Reply (name, CLUSTER_STATE_RUNNING), sv\<lparr>deployments := put name d (deployments sv)\<rparr>, w2)) sv
           (Deploy (cx_deploy E) sched d (defaultKubeCfg E) w1)) sv
       (newDeployment E req w)"

definition with_cluster ::
  "string \<Rightarrow> string \<Rightarrow> (deployment \<Rightarrow> 'w \<Rightarrow> 'b reply \<times> ctl_server \<times> 'w) \<Rightarrow> ctl_server \<Rightarrow> 'w \<Rightarrow> 'b reply \<times> ctl_server \<times> 'w" where
  "with_cluster msg name k sv w =
     (case map_of (deployments sv) name of
        None \<Rightarrow> (Refused NotFound msg [name] None, sv, w)
      | Some d \<Rightarrow> k d w)"

definition DeleteCluster :: "'w ctl_env \<Rightarrow> string \<Rightarrow> ctl_server \<Rightarrow> 'w \<Rightarrow> unit reply \<times> ctl_server \<times> 'w" where
  "DeleteCluster E name sv w =
     with_cluster ''cluster %q not found, can only delete clusters created using TopologyManager'' name (\<lambda>d w1.
       reply (\<lambda>e. Refused Internal ''failed to delete cluster: %v'' [] (Some e)) (\<lambda>_ w2.
         (Reply (), sv\<lparr>deployments := del name (deployments sv)\<rparr>, w2)) sv
         (Delete_deployment (cx_deploy E) d w1)) sv w"

text \<open>The join command of \<open>kubeadm\<close>, taken apart.\<close>

definition after :: "string \<Rightarrow> string \<Rightarrow> string option" where
  "after p s = (if HasPrefix s p then Some (drop (length p) s) else None)"

definition span_ne :: "(char \<Rightarrow> bool) \<Rightarrow> string \<Rightarrow> (string \<times> string) option" where
  "span_ne P s = (if takeWhile P s = [] then None else Some (takeWhile P s, dropWhile P s))"

definition join_match :: "string \<Rightarrow> (string \<times> string \<times> string) option" where
  "join_match out =
     Option.bind (after ''kubeadm join '' out) (\<lambda>s1.
     Option.bind (span_ne (\<lambda>c. token_char c \<or> c = CHR ''.'' \<or> c = CHR '':'') s1) (\<lambda>(endpoint, s2).
     Option.bind (after '' --token '' s2) (\<lambda>s3.
     Option.bind (span_ne (\<lambda>c. token_char c \<or> c = CHR ''.'') s3) (\<lambda>(token, s4).
     Option.bind (after '' --discovery-token-ca-cert-hash '' s4) (\<lambda>s5.
     Option.bind (span_ne (\<lambda>c. token_char c \<or> c = CHR '':'') s5) (\<lambda>(hash, _).
       Some (endpoint, token, hash)))))))"

record show_cluster_response =
  sr_State :: cluster_state
  sr_ApiServerEndpoint :: string
  sr_Token :: string
  sr_DiscoveryTokenCaCertHash :: string
  sr_CriSocket :: string

definition show_state :: "cluster_state \<Rightarrow> show_cluster_response" where
  "show_state s = \<lparr>sr_State = s, sr_ApiServerEndpoint = [], sr_Token = [], sr_DiscoveryTokenCaCertHash = [], sr_CriSocket = []\<rparr>"

definition show_kubeadm :: "'w ctl_env \<Rightarrow> KubeadmSpec \<Rightarrow> ctl_server \<Rightarrow> 'w \<Rightarrow> show_cluster_response reply \<times> ctl_server \<times> 'w" where
  "show_kubeadm E k sv w =
     reply (\<lambda>_. Refused FailedPrecondition ''install kubeadm to show cluster'' [] None) (\<lambda>_ w1.
       reply (\<lambda>e. Refused Internal ''failed to get kubeadm cluster token: %v'' [] (Some e)) (\<lambda>out w2.
         (case join_match out of
            None \<Rightarrow> Refused Internal ''failed to parse kubeadm cluster token from %q (matches %v)'' [out, ''[]''] None
          | Some (endpoint, token, hash) \<Rightarrow>
              Reply \<lparr>sr_State = CLUSTER_STATE_RUNNING, sr_ApiServerEndpoint = endpoint, sr_Token = token, sr_DiscoveryTokenCaCertHash = hash,
                sr_CriSocket = km_CRISocket k\<rparr>, sv, w2)) sv
         (out_or (\<lambda>_ e. e) (OutCommand (de_shell (cx_deploy E)) ''kubeadm'' [''token'', ''create'', ''--print-join-command'']) w1)) sv
       (sh_LookPath (de_shell (cx_deploy E)) ''kubeadm'' w)"

definition ShowCluster :: "'w ctl_env \<Rightarrow> nat list \<Rightarrow> string \<Rightarrow> ctl_server \<Rightarrow> 'w \<Rightarrow> show_cluster_response reply \<times> ctl_server \<times> 'w" where
  "ShowCluster E sched name sv w =
     with_cluster ''cluster %q not found, can only show clusters created using TopologyManager'' name (\<lambda>d w1.
       reply (\<lambda>_. Reply (show_state CLUSTER_STATE_ERROR)) (\<lambda>_ w2.
         case d_Cluster d of
           Kubeadm k \<Rightarrow> show_kubeadm E k sv w2
         | _ \<Rightarrow> (Reply (show_state CLUSTER_STATE_RUNNING), sv, w2)) sv
         (Healthy (cx_deploy E) sched d w1)) sv w"

definition ApplyCluster :: "'w ctl_env \<Rightarrow> string \<Rightarrow> string \<Rightarrow> ctl_server \<Rightarrow> 'w \<Rightarrow> unit reply \<times> ctl_server \<times> 'w" where
  "ApplyCluster E name cfg sv w =
     with_cluster ''cluster %q not found, can only apply config to clusters created using TopologyManager'' name (\<lambda>d w1.
       reply Failed (\<lambda>_ w2. (Reply (), sv, w2)) sv (kubectlApply (de_shell (cx_deploy E)) cfg w1)) sv w"

definition join_args :: "join_request \<Rightarrow> string list" where
  "join_args req =
     [''kubeadm'', ''join'', jr_ApiServerEndpoint req] @
     (if jr_Token req \<noteq> [] then [''--token'', jr_Token req] else []) @
     (if jr_DiscoveryTokenCaCertHash req \<noteq> [] then [''--discovery-token-ca-cert-hash'', jr_DiscoveryTokenCaCertHash req] else []) @
     (if jr_CriSocket req \<noteq> [] then [''--cri-socket'', jr_CriSocket req] else [])"

definition JoinCluster :: "'w ctl_env \<Rightarrow> join_request \<Rightarrow> ctl_server \<Rightarrow> 'w \<Rightarrow> unit reply \<times> ctl_server \<times> 'w" where
  "JoinCluster E req sv w =
     (let S = de_shell (cx_deploy E) in
      reply (\<lambda>_. Refused FailedPrecondition ''install kubeadm to join'' [] None) (\<lambda>_ w1.
        if jr_ApiServerEndpoint req = [] then (Refused FailedPrecondition ''api server endpoint required'' [] None, sv, w1)
        else
          reply (\<lambda>e. Refused Internal ''failed to join kubeadm cluster: %v'' [] (Some e)) (\<lambda>_ w2.
            if jr_CredentialProviderConfig req = [] then (Reply (), sv, w2)
            else reply Failed (\<lambda>_ w3. (Reply (), sv, w3)) sv (EnableCredentialProvider S (jr_CredentialProviderConfig req) w2)) sv
            (LogCommand S ''sudo'' (join_args req) w1)) sv
        (sh_LookPath S ''kubeadm'' w))"

subsection \<open>Topologies\<close>

text \<open>A node with a configuration file gets the path made absolute, if the file is there.\<close>

definition GetData :: "node \<Rightarrow> string" where
  "GetData n = (case cfg_ConfigData (GetConfig n) of Some (Config_Data d) \<Rightarrow> d | _ \<Rightarrow> [])"

definition topo_path :: "'w ctl_env \<Rightarrow> string \<Rightarrow> string" where
  "topo_path E path = (if IsAbs path then path else filepath_Join [defaultTopoBasePath E, path])"

definition fix_config :: "'w ctl_env \<Rightarrow> node \<Rightarrow> ('w, node) act" where
  "fix_config E n =
     (if GetData n \<noteq> [] \<or> n_Config n = None \<or> GetFile (GetConfig n) = [] then aret n
      else
        (let path = topo_path E (GetFile (GetConfig n)) in
         abind (validatePath E path) (\<lambda>_.
           aret (n\<lparr>n_Config := map_option (\<lambda>c. c\<lparr>cfg_ConfigData := Some (Config_File path)\<rparr>) (n_Config n)\<rparr>))))"

fun fix_configs ::
  "'w ctl_env \<Rightarrow> node list \<Rightarrow> (node list \<Rightarrow> 'w \<Rightarrow> 'b reply \<times> ctl_server \<times> 'w) \<Rightarrow> ctl_server \<Rightarrow> 'w \<Rightarrow> 'b reply \<times> ctl_server \<times> 'w" where
  "fix_configs E [] k sv w = k [] w"
| "fix_configs E (n # ns) k sv w =
     reply (\<lambda>e. Refused InvalidArgument ''config file not found for node %q: %v'' [n_Name n] (Some e))
       (\<lambda>n' w1. fix_configs E ns (\<lambda>ns'. k (n' # ns')) sv w1) sv (fix_config E n w)"

text \<open>
  After the topology is created it is in the table, even if showing it then fails. The state of the reply is a
  constant, whatever state \<open>Show\<close> has found.
\<close>

definition show_created ::
  "string \<Rightarrow> string \<Rightarrow> 'w tmgr \<Rightarrow> 'w nodes \<Rightarrow> ctl_server \<Rightarrow> 'w \<Rightarrow> (string \<times> topology_state \<times> node list) reply \<times> ctl_server \<times> 'w" where
  "show_created name txt tm nodes sv w =
     (let sv1 = sv\<lparr>topos := put name txt (topos sv)\<rparr> in
      reply (\<lambda>e. Refused Internal ''failed to validate topology state: %v'' [] (Some e)) (\<lambda>(_, ns) w1. (Reply (name, TS_RUNNING, ns), sv1, w1)) sv1
        (Show (tm_mgr tm) nodes (shared_nodes (tm_topo tm) nodes) w))"

definition create_topology ::
  "nat \<Rightarrow> 'w ctl_env \<Rightarrow> topology \<Rightarrow> string \<Rightarrow> string \<Rightarrow> ctl_server \<Rightarrow> 'w \<Rightarrow> (string \<times> topology_state \<times> node list) reply \<times> ctl_server \<times> 'w" where
  "create_topology fuel E t txt kubecfg sv w =
     reply (\<lambda>e. Refused InvalidArgument ''kubecfg %q does not exist: %v'' [kubecfg] (Some e)) (\<lambda>kcfg w1.
       reply (\<lambda>e. Refused Internal ''failed to create topology manager: %v'' [] (Some e)) (\<lambda>tm w2.
         case Create_topo fuel ((tm_env tm)\<lparr>ce_reportUsage := cx_reportUsage E\<rparr>) (tm_mgr tm) (tm_specs tm) (tm_nodes tm) 0 w2 of
           None \<Rightarrow> (Hanging, sv, w2)
         | Some (Ok _, nodes, w3) \<Rightarrow> show_created (t_Name t) txt tm nodes sv w3
         | Some (Error e, _, w3) \<Rightarrow> (Refused Internal ''failed to create topology: %v'' [] (Some e), sv, w3)
         | Some (Panic p, _, w3) \<Rightarrow> (Crashed p, sv, w3)) sv
         (topo_New (cx_topo E) t kcfg w1)) sv
       (validatePath E kubecfg w)"

definition CreateTopology ::
  "nat \<Rightarrow> 'w ctl_env \<Rightarrow> create_topology_request \<Rightarrow> ctl_server \<Rightarrow> 'w \<Rightarrow> (string \<times> topology_state \<times> node list) reply \<times> ctl_server \<times> 'w" where
  "CreateTopology fuel E req sv w =
     (case tr_Topology req of
        None \<Rightarrow> (Refused InvalidArgument ''invalid request: missing topology protobuf'' [] None, sv, w)
      | Some t \<Rightarrow>
          if t_Name t = [] then (Refused InvalidArgument ''missing topology name'' [] None, sv, w)
          else if map_of (topos sv) (t_Name t) \<noteq> None then (Refused AlreadyExists ''topology %q already exists'' [t_Name t] None, sv, w)
          else
            fix_configs E (t_Nodes t) (\<lambda>ns w1.
              let t' = t\<lparr>t_Nodes := ns\<rparr> in
              reply (\<lambda>e. Refused Internal ''invalid topology protobuf: %v'' [] (Some e)) (\<lambda>txt w2.
                create_topology fuel E t' txt (if tr_Kubecfg req \<noteq> [] then tr_Kubecfg req else defaultKubeCfg E) sv w2) sv
                (cx_Marshal E t', w1)) sv w)"

text \<open>The handlers of a topology that exists: its text is read and a manager is made for it.\<close>

definition with_topology ::
  "'w ctl_env \<Rightarrow> (topology \<Rightarrow> err \<Rightarrow> 'b reply) \<Rightarrow> string \<Rightarrow> ('w tmgr \<Rightarrow> 'w \<Rightarrow> 'b reply \<times> ctl_server \<times> 'w) \<Rightarrow> ctl_server \<Rightarrow> 'w \<Rightarrow> 'b reply \<times> ctl_server \<times> 'w" where
  "with_topology E new_msg name k sv w =
     (case map_of (topos sv) name of
        None \<Rightarrow> (Refused NotFound ''topology %q not found'' [name] None, sv, w)
      | Some txt \<Rightarrow>
          reply (\<lambda>e. Refused Internal ''invalid topology protobuf: %v'' [] (Some e)) (\<lambda>t w1.
            reply (\<lambda>e. Refused Internal ''default kubecfg %q does not exist: %v'' [defaultKubeCfg E] (Some e)) (\<lambda>kcfg w2.
              reply (new_msg t) k sv (topo_New (cx_topo E) t kcfg w2)) sv
              (validatePath E (defaultKubeCfg E) w1)) sv
            (cx_Unmarshal E txt, w))"

definition manager_failed :: "topology \<Rightarrow> err \<Rightarrow> 'b reply" where
  "manager_failed t e = Refused Internal ''failed to create topology manager: %v'' [] (Some e)"

definition manager_failed_for :: "topology \<Rightarrow> err \<Rightarrow> 'b reply" where
  "manager_failed_for t e = Refused Internal ''failed to create topology manager for %s: %v'' [t_Name t] (Some e)"

definition DeleteTopology :: "'w ctl_env \<Rightarrow> string \<Rightarrow> ctl_server \<Rightarrow> 'w \<Rightarrow> unit reply \<times> ctl_server \<times> 'w" where
  "DeleteTopology E name sv w =
     with_topology E manager_failed name (\<lambda>tm w1.
       case Delete_topo (tm_mgr tm) (tm_nodes tm) (te_watch (cx_topo E) (mg_name (tm_mgr tm))) w1 of
         None \<Rightarrow> (Hanging, sv, w1)
       | Some x \<Rightarrow>
           reply (\<lambda>e. Refused Internal ''failed to delete topology: %v'' [] (Some e))
             (\<lambda>_ w2. (Reply (), sv\<lparr>topos := del name (topos sv)\<rparr>, w2)) sv x) sv w"

definition ShowTopology :: "'w ctl_env \<Rightarrow> string \<Rightarrow> ctl_server \<Rightarrow> 'w \<Rightarrow> (topology_state \<times> node list) reply \<times> ctl_server \<times> 'w" where
  "ShowTopology E name sv w =
     with_topology E manager_failed name (\<lambda>tm w1.
       reply (\<lambda>e. Refused Internal ''failed to show topology: %v'' [] (Some e)) (\<lambda>x w2. (Reply x, sv, w2)) sv
         (Show (tm_mgr tm) (tm_nodes tm) (shared_nodes (tm_topo tm) (tm_nodes tm)) w1)) sv w"

definition PushConfig :: "'w ctl_env \<Rightarrow> string \<Rightarrow> string \<Rightarrow> string \<Rightarrow> ctl_server \<Rightarrow> 'w \<Rightarrow> unit reply \<times> ctl_server \<times> 'w" where
  "PushConfig E name device cfg sv w =
     with_topology E manager_failed_for name (\<lambda>tm w1.
       reply (\<lambda>e. Refused Internal ''failed to push config to device %q: %v'' [device] (Some e)) (\<lambda>_ w2. (Reply (), sv, w2)) sv
         (ConfigPush (tm_nodes tm) device cfg w1)) sv w"

definition ResetConfig :: "'w ctl_env \<Rightarrow> string \<Rightarrow> string \<Rightarrow> ctl_server \<Rightarrow> 'w \<Rightarrow> unit reply \<times> ctl_server \<times> 'w" where
  "ResetConfig E name device sv w =
     with_topology E manager_failed_for name (\<lambda>tm w1.
       reply (\<lambda>e. Refused Internal ''failed to reset config for device %q: %v'' [device] (Some e)) (\<lambda>_ w2. (Reply (), sv, w2)) sv
         (ResetCfg (tm_nodes tm) device w1)) sv w"

section \<open>The deployments of requests are well formed\<close>

text \<open>What an operation returns, when it returns a value.\<close>

definition yields :: "('a \<Rightarrow> bool) \<Rightarrow> ('w, 'a) act \<Rightarrow> bool" where
  "yields P m \<longleftrightarrow> (\<forall>w x w'. m w = (Ok x, w') \<longrightarrow> P x)"

named_theorems yields_intros

lemma yieldsD: "yields P m \<Longrightarrow> m w = (Ok x, w') \<Longrightarrow> P x"
  by (auto simp: yields_def)

lemma yields_aret [yields_intros]: "P x \<Longrightarrow> yields P (aret x)"
  by (simp add: yields_def)

lemma yields_aerr [yields_intros]: "yields P (aerr e)"
  by (simp add: yields_def)

lemma yields_abind: "yields Q m \<Longrightarrow> (\<And>x. Q x \<Longrightarrow> yields P (f x)) \<Longrightarrow> yields P (abind m f)"
  unfolding yields_def by (metis abind_OkD)

lemma yields_amap_err: "yields P m \<Longrightarrow> yields P (amap_err f m)"
  by (simp add: yields_def amap_err_Ok)

lemma yields_any: "yields (\<lambda>_. True) m"
  by (simp add: yields_def)

lemma IsAbs_Clean: "IsAbs p \<Longrightarrow> IsAbs (filepath_Clean p)"
  by (simp add: IsAbs_def filepath_Clean_def HasPrefix_def Let_def)

lemma IsAbs_Join:
  assumes "IsAbs p"
  shows "IsAbs (filepath_Join (p # ps))"
proof -
  have "p \<noteq> []" "prefix ''/'' p" using assms by (auto simp: IsAbs_def HasPrefix_def)
  then have "prefix ''/'' (StrJoin ''/'' (p # ps))" by (cases ps) (auto simp: prefix_def)
  then show ?thesis using \<open>p \<noteq> []\<close> IsAbs_Clean [of "StrJoin ''/'' (p # ps)"]
    by (simp add: filepath_Join_def IsAbs_def HasPrefix_def)
qed

text \<open>The working directory is an absolute path.\<close>

definition Getwd_absolute :: "'w ctl_env \<Rightarrow> bool" where
  "Getwd_absolute E \<longleftrightarrow> yields IsAbs (cx_Getwd E)"

lemma filepath_Abs_absolute: "Getwd_absolute E \<Longrightarrow> yields IsAbs (filepath_Abs E p)"
  unfolding filepath_Abs_def Getwd_absolute_def
  by (auto intro!: yields_intros IsAbs_Clean IsAbs_Join yields_abind [where Q = IsAbs])

lemma validatePath_absolute: "Getwd_absolute E \<Longrightarrow> yields IsAbs (validatePath E p)"
  unfolding validatePath_def
  by (rule yields_abind [OF yields_amap_err [OF filepath_Abs_absolute]], assumption, rule yields_abind [OF yields_any], rule yields_aret)

lemma valid_or_absolute: "Getwd_absolute E \<Longrightarrow> yields IsAbs (valid_or shown E p)"
  unfolding valid_or_def by (intro yields_amap_err validatePath_absolute)

text \<open>A manifest is its contents, or an absolute path; an optional file is none, or an absolute path.\<close>

definition manifest_ok :: "string option \<Rightarrow> string \<Rightarrow> bool" where
  "manifest_ok data path \<longleftrightarrow> (case data of None \<Rightarrow> IsAbs path | Some _ \<Rightarrow> path = [])"

definition optional_path :: "string \<Rightarrow> bool" where
  "optional_path p \<longleftrightarrow> p = [] \<or> IsAbs p"

definition cluster_spec_ok :: "cluster_spec \<Rightarrow> bool" where
  "cluster_spec_ok c \<longleftrightarrow>
     (case c of
        Kind k \<Rightarrow> optional_path (ks_KindConfigFile k) \<and> list_all IsAbs (ks_AdditionalManifests k)
      | Kubeadm k \<Rightarrow>
          manifest_ok (km_PodNetworkAddOnManifestData k) (km_PodNetworkAddOnManifest k) \<and> optional_path (km_CredentialProviderConfig k)
      | External _ \<Rightarrow> True)"

definition operator_ok :: "('a operator_spec_scheme) \<Rightarrow> bool" where
  "operator_ok s \<longleftrightarrow> manifest_ok (op_OperatorData s) (op_Operator s)"

definition controller_ok :: "controller_spec \<Rightarrow> bool" where
  "controller_ok c \<longleftrightarrow>
     (case c of
        CEOSLab s \<Rightarrow> operator_ok s
      | SRLinux s \<Rightarrow> operator_ok s
      | Lemming s \<Rightarrow> operator_ok s
      | IxiaTG s \<Rightarrow> operator_ok s \<and> manifest_ok (ix_ConfigMapData s) (ix_ConfigMap s)
      | _ \<Rightarrow> False)"

definition deployment_ok :: "deployment \<Rightarrow> bool" where
  "deployment_ok d \<longleftrightarrow>
     cluster_spec_ok (d_Cluster d) \<and>
     (\<exists>i. d_Ingress d = Some i \<and> manifest_ok (mb_ManifestData i) (mb_Manifest i)) \<and>
     (\<exists>c. d_CNI d = Some c \<and> manifest_ok (ms_ManifestData c) (ms_Manifest c)) \<and>
     list_all controller_ok (d_Controllers d)"

lemma manifest_of_ok: "Getwd_absolute E \<Longrightarrow> yields (\<lambda>(data, p). manifest_ok data p) (manifest_of E d m)"
  unfolding manifest_of_def Let_def
  by (cases m) (auto simp: manifest_ok_def intro!: yields_abind [OF valid_or_absolute] yields_aret)

lemma valid_all_ok: "Getwd_absolute E \<Longrightarrow> yields (list_all IsAbs) (valid_all E ps)"
proof (induction ps)
  case (Cons p ps)
  show ?case
    using Cons by (auto intro!: yields_abind [OF valid_or_absolute] yields_abind [where Q = "list_all IsAbs"] yields_aret)
qed (simp add: yields_aret)

lemma optional_valid_or: "Getwd_absolute E \<Longrightarrow> yields optional_path (if p \<noteq> [] then valid_or shown E p else aret [])"
  by (auto simp: optional_path_def yields_def dest: yieldsD [OF valid_or_absolute])

lemma kind_spec_ok: "Getwd_absolute E \<Longrightarrow> yields cluster_spec_ok (kind_spec E k)"
  unfolding kind_spec_def
  by (rule yields_abind [OF optional_valid_or], assumption, rule yields_abind [OF valid_all_ok], assumption, rule yields_aret)
     (simp add: cluster_spec_ok_def)

lemma kubeadm_spec_ok: "Getwd_absolute E \<Longrightarrow> yields cluster_spec_ok (kubeadm_spec E k)"
  unfolding kubeadm_spec_def
  by (rule yields_abind [OF manifest_of_ok], assumption, clarify, rule yields_abind [OF optional_valid_or], assumption, rule yields_aret)
     (simp add: cluster_spec_ok_def)

lemma cluster_of_ok: "Getwd_absolute E \<Longrightarrow> yields cluster_spec_ok (cluster_of E c)"
  by (cases c) (simp_all add: cluster_of_def kind_spec_ok kubeadm_spec_ok yields_aret yields_aerr cluster_spec_ok_def [of "External _"])

lemma operator_of_ok: "Getwd_absolute E \<Longrightarrow> yields operator_ok (operator_of E path m)"
  unfolding operator_of_def by (auto simp: operator_ok_def intro!: yields_aret yields_abind [OF manifest_of_ok])

lemma controller_of_ok: "Getwd_absolute E \<Longrightarrow> yields controller_ok (controller_of E c)"
  unfolding controller_of_def
  by (cases c) (auto simp: controller_ok_def operator_ok_def
      intro!: yields_aret yields_aerr yields_abind [OF operator_of_ok] yields_abind [OF manifest_of_ok])

lemma controllers_of_ok: "Getwd_absolute E \<Longrightarrow> yields (list_all controller_ok) (controllers_of E cs)"
proof (induction cs)
  case (Cons c cs)
  show ?case
    using Cons by (auto intro!: yields_abind [OF controller_of_ok] yields_abind [where Q = "list_all controller_ok"] yields_aret)
qed (simp add: yields_aret)

lemma ingress_of_ok: "Getwd_absolute E \<Longrightarrow> yields (\<lambda>i. manifest_ok (mb_ManifestData i) (mb_Manifest i)) (ingress_of E m)"
  unfolding ingress_of_def
  by (auto intro!: yields_aret yields_aerr yields_abind [OF manifest_of_ok] split: option.split)

lemma cni_of_ok: "Getwd_absolute E \<Longrightarrow> yields (\<lambda>c. manifest_ok (ms_ManifestData c) (ms_Manifest c)) (cni_of E m)"
  unfolding cni_of_def
  by (auto intro!: yields_aret yields_aerr yields_abind [OF manifest_of_ok] split: option.split)

text \<open>The name a request gives its cluster.\<close>

definition request_name :: "create_cluster_request \<Rightarrow> string" where
  "request_name req = (case cr_ClusterSpec req of Request_Kind k \<Rightarrow> or_default (kr_Name k) ''kne'' | _ \<Rightarrow> ''kne'')"

lemma kind_spec_name: "yields (\<lambda>c. GetName c = or_default (kr_Name k) ''kne'') (kind_spec E k)"
  unfolding kind_spec_def
  by (rule yields_abind [OF yields_any], rule yields_abind [OF yields_any], rule yields_aret)
     (simp add: GetName_def Kind_GetName_def or_default_def)

lemma kubeadm_spec_name: "yields (\<lambda>c. GetName c = ''kne'') (kubeadm_spec E k)"
  unfolding kubeadm_spec_def
  by (rule yields_abind [OF yields_any], clarify, rule yields_abind [OF yields_any], rule yields_aret) (simp add: GetName_def)

lemma cluster_of_name: "yields (\<lambda>c. GetName c = request_name (req\<lparr>cr_ClusterSpec := r\<rparr>)) (cluster_of E r)"
  by (cases r) (simp_all add: cluster_of_def request_name_def kind_spec_name kubeadm_spec_name yields_aret yields_aerr GetName_def [of "External _"])

lemma newDeployment_name: "yields (\<lambda>d. GetName (d_Cluster d) = request_name req) (newDeployment E req)"
  unfolding newDeployment_def
  by (rule yields_abind [OF cluster_of_name [where req = req and r = "cr_ClusterSpec req"]], rule yields_abind [OF yields_any],
      rule yields_abind [OF yields_any], rule yields_abind [OF yields_any], rule yields_aret) simp

lemma controllers_of_length: "yields (\<lambda>ss. length ss = length cs) (controllers_of E cs)"
proof (induction cs)
  case (Cons c cs)
  show ?case
    by (simp only: controllers_of.simps, rule yields_abind [OF yields_any], rule yields_abind [OF Cons], rule yields_aret) simp
qed (simp add: yields_def)

lemma newDeployment_controllers: "yields (\<lambda>d. length (d_Controllers d) = length (cr_ControllerSpecs req)) (newDeployment E req)"
  unfolding newDeployment_def
  by (rule yields_abind [OF yields_any], rule yields_abind [OF yields_any], rule yields_abind [OF yields_any],
      rule yields_abind [OF controllers_of_length], rule yields_aret) simp

text \<open>
  C33. A request that is accepted becomes a well-formed deployment: ingress and CNI are present, every controller
  is of a kind that can be deployed, every manifest is given by contents or by an absolute path (never by both),
  every other path is absolute, and the cluster is named as requested. The working directory is an absolute path.
\<close>

theorem newDeployment_well_formed:
  assumes "Getwd_absolute E" and "newDeployment E req w = (Ok d, w')"
  shows "deployment_ok d \<and> GetName (d_Cluster d) = request_name req \<and> length (d_Controllers d) = length (cr_ControllerSpecs req)"
proof -
  have "yields deployment_ok (newDeployment E req)"
    unfolding newDeployment_def
    by (rule yields_abind [OF cluster_of_ok [OF assms(1)]], rule yields_abind [OF ingress_of_ok [OF assms(1)]],
        rule yields_abind [OF cni_of_ok [OF assms(1)]], rule yields_abind [OF controllers_of_ok [OF assms(1)]], rule yields_aret)
       (simp add: deployment_ok_def)
  then have "deployment_ok d" using assms(2) by (rule yieldsD)
  moreover have "GetName (d_Cluster d) = request_name req" using newDeployment_name assms(2) by (rule yieldsD)
  moreover have "length (d_Controllers d) = length (cr_ControllerSpecs req)" using newDeployment_controllers assms(2) by (rule yieldsD)
  ultimately show ?thesis by blast
qed

section \<open>The tables under any sequence of calls\<close>

datatype rpc =
  Call_CreateCluster "nat list" create_cluster_request
| Call_DeleteCluster string
| Call_ShowCluster "nat list" string
| Call_ApplyCluster string string
| Call_JoinCluster join_request
| Call_CreateTopology create_topology_request
| Call_DeleteTopology string
| Call_ShowTopology string
| Call_PushConfig string string string
| Call_ResetConfig string string

text \<open>What the tables show of a call: whether there was a reply, and the state after it.\<close>

definition observed :: "'a reply \<times> ctl_server \<times> 'w \<Rightarrow> bool \<times> ctl_server \<times> 'w" where
  "observed x = (case x of (r, sv, w) \<Rightarrow> (case r of Reply _ \<Rightarrow> True | _ \<Rightarrow> False, sv, w))"

fun serve :: "nat \<Rightarrow> 'w ctl_env \<Rightarrow> rpc \<Rightarrow> ctl_server \<times> 'w \<Rightarrow> bool \<times> ctl_server \<times> 'w" where
  "serve fuel E (Call_CreateCluster sched req) (sv, w) = observed (CreateCluster E sched req sv w)"
| "serve fuel E (Call_DeleteCluster name) (sv, w) = observed (DeleteCluster E name sv w)"
| "serve fuel E (Call_ShowCluster sched name) (sv, w) = observed (ShowCluster E sched name sv w)"
| "serve fuel E (Call_ApplyCluster name cfg) (sv, w) = observed (ApplyCluster E name cfg sv w)"
| "serve fuel E (Call_JoinCluster req) (sv, w) = observed (JoinCluster E req sv w)"
| "serve fuel E (Call_CreateTopology req) (sv, w) = observed (CreateTopology fuel E req sv w)"
| "serve fuel E (Call_DeleteTopology name) (sv, w) = observed (DeleteTopology E name sv w)"
| "serve fuel E (Call_ShowTopology name) (sv, w) = observed (ShowTopology E name sv w)"
| "serve fuel E (Call_PushConfig name dev cfg) (sv, w) = observed (PushConfig E name dev cfg sv w)"
| "serve fuel E (Call_ResetConfig name dev) (sv, w) = observed (ResetConfig E name dev sv w)"

text \<open>
  The contract: two sets of names. A call that is refused leaves both as they are, with one exception, the
  topology that was created and could not be shown.
\<close>

type_synonym tables = "string set \<times> string set"

inductive spec_step :: "rpc \<Rightarrow> bool \<Rightarrow> tables \<Rightarrow> tables \<Rightarrow> bool" where
  refused: "spec_step c False s s"
| cluster_created: "request_name req \<notin> C \<Longrightarrow> spec_step (Call_CreateCluster sched req) True (C, T) (insert (request_name req) C, T)"
| cluster_deleted: "name \<in> C \<Longrightarrow> spec_step (Call_DeleteCluster name) True (C, T) (C - {name}, T)"
| cluster_shown: "name \<in> C \<Longrightarrow> spec_step (Call_ShowCluster sched name) True (C, T) (C, T)"
| cluster_applied: "name \<in> C \<Longrightarrow> spec_step (Call_ApplyCluster name cfg) True (C, T) (C, T)"
| cluster_joined: "jr_ApiServerEndpoint req \<noteq> [] \<Longrightarrow> spec_step (Call_JoinCluster req) True s s"
| topology_created: "tr_Topology req = Some t \<Longrightarrow> t_Name t \<noteq> [] \<Longrightarrow> t_Name t \<notin> T \<Longrightarrow>
    spec_step (Call_CreateTopology req) ok (C, T) (C, insert (t_Name t) T)"
| topology_deleted: "name \<in> T \<Longrightarrow> spec_step (Call_DeleteTopology name) True (C, T) (C, T - {name})"
| topology_shown: "name \<in> T \<Longrightarrow> spec_step (Call_ShowTopology name) True (C, T) (C, T)"
| config_pushed: "name \<in> T \<Longrightarrow> spec_step (Call_PushConfig name dev cfg) True (C, T) (C, T)"
| config_reset: "name \<in> T \<Longrightarrow> spec_step (Call_ResetConfig name dev) True (C, T) (C, T)"

definition known_names :: "ctl_server \<times> 'w \<Rightarrow> tables" where
  "known_names s = (set (map fst (deployments (fst s))), set (map fst (topos (fst s))))"

text \<open>Every deployment is stored under its cluster's name; every text is that of a topology with the name it is stored under.\<close>

definition tables_ok :: "'w ctl_env \<Rightarrow> ctl_server \<times> 'w \<Rightarrow> bool" where
  "tables_ok E s \<longleftrightarrow>
     wf_map (deployments (fst s)) \<and> wf_map (topos (fst s)) \<and>
     list_all (\<lambda>(name, d). GetName (d_Cluster d) = name \<and> d_Ingress d \<noteq> None \<and> d_CNI d \<noteq> None) (deployments (fst s)) \<and>
     list_all (\<lambda>(name, txt). name \<noteq> [] \<and> (\<exists>t. t_Name t = name \<and> cx_Marshal E t = Ok txt)) (topos (fst s))"

subsection \<open>A server of calls and its contract\<close>

fun serve_all :: "('c \<Rightarrow> 's \<Rightarrow> bool \<times> 's) \<Rightarrow> 'c list \<Rightarrow> 's \<Rightarrow> bool list \<times> 's" where
  "serve_all f [] s = ([], s)"
| "serve_all f (c # cs) s = (let (ok, s1) = f c s; (oks, s2) = serve_all f cs s1 in (ok # oks, s2))"

inductive conforms :: "('c \<Rightarrow> bool \<Rightarrow> 'a \<Rightarrow> 'a \<Rightarrow> bool) \<Rightarrow> 'c list \<Rightarrow> bool list \<Rightarrow> 'a \<Rightarrow> 'a \<Rightarrow> bool" for spec where
  none: "conforms spec [] [] a a"
| call: "spec c ok a a1 \<Longrightarrow> conforms spec cs oks a1 a2 \<Longrightarrow> conforms spec (c # cs) (ok # oks) a a2"

locale call_server =
  fixes f :: "'c \<Rightarrow> 's \<Rightarrow> bool \<times> 's" and view :: "'s \<Rightarrow> 'a" and spec :: "'c \<Rightarrow> bool \<Rightarrow> 'a \<Rightarrow> 'a \<Rightarrow> bool" and good :: "'s \<Rightarrow> bool"
  assumes refines: "f c s = (ok, s1) \<Longrightarrow> spec c ok (view s) (view s1)"
    and keeps_good: "f c s = (ok, s1) \<Longrightarrow> good s \<Longrightarrow> good s1"
begin

lemma all_refine: "conforms spec cs (fst (serve_all f cs s)) (view s) (view (snd (serve_all f cs s)))"
proof (induction cs arbitrary: s)
  case (Cons c cs)
  obtain ok s1 where "f c s = (ok, s1)" by fastforce
  then show ?case using refines [of c s ok s1] Cons.IH [of s1] by (auto intro: conforms.call split: prod.split)
qed (simp add: conforms.none)

lemma all_good: "good s \<Longrightarrow> good (snd (serve_all f cs s))"
proof (induction cs arbitrary: s)
  case (Cons c cs)
  obtain ok s1 where "f c s = (ok, s1)" by fastforce
  then show ?case using keeps_good [of c s ok s1] Cons.prems Cons.IH [of s1] by (simp add: split_beta)
qed simp

end

subsection \<open>The controller is such a server\<close>

text \<open>A handler that does not reply leaves the tables alone, or goes on after a call that succeeded.\<close>

definition unanswered :: "'a reply \<Rightarrow> bool" where
  "unanswered r \<longleftrightarrow> (case r of Reply _ \<Rightarrow> False | _ \<Rightarrow> True)"

lemma unanswered_simps [simp]:
  "\<not> unanswered (Reply x)" "unanswered (Refused c m a e)" "unanswered (Failed err)" "unanswered (Crashed p)" "unanswered Hanging"
  by (simp_all add: unanswered_def)

lemma observed_iff: "observed x = (ok, sv, w) \<longleftrightarrow> (\<exists>r. x = (r, sv, w) \<and> ok = (\<not> unanswered r))"
  by (cases x; cases "fst x") (auto simp: observed_def unanswered_def)

lemma reply_cases:
  assumes "reply f k sv x = (r, sv', w')" and "\<And>e. unanswered (f e)"
  obtains (through) y w1 where "x = (Ok y, w1)" "k y w1 = (r, sv', w')" | (stopped) "unanswered r" "sv' = sv"
  using assms by (auto simp: reply_def split: prod.splits result.splits)

lemma fix_configs_cases:
  assumes "fix_configs E ns k sv w = (r, sv', w')"
  obtains (through) ns' w1 where "k ns' w1 = (r, sv', w')" | (stopped) "unanswered r" "sv' = sv"
  using assms
proof (induction E ns k sv w arbitrary: thesis rule: fix_configs.induct)
  case (2 E n ns k sv w)
  from 2(4) show ?case
    by (auto elim!: reply_cases intro: 2(1) 2(2) 2(3))
qed auto

text \<open>The handlers of an existing cluster or topology.\<close>

lemma with_cluster_cases:
  assumes "with_cluster msg name k sv w = (r, sv', w')"
  obtains (found) d where "map_of (deployments sv) name = Some d" "k d w = (r, sv', w')" | (stopped) "unanswered r" "sv' = sv"
  using assms by (auto simp: with_cluster_def split: option.splits)

lemma with_topology_cases:
  assumes "with_topology E msg name k sv w = (r, sv', w')" and "\<And>t e. unanswered (msg t e)"
  obtains (found) b tm w1 where "map_of (topos sv) name = Some b" "k tm w1 = (r, sv', w')" | (stopped) "unanswered r" "sv' = sv"
  using assms by (auto simp: with_topology_def split: option.splits elim!: reply_cases)

lemma manager_failed_unanswered [simp]: "unanswered (manager_failed t e)" "unanswered (manager_failed_for t e)"
  by (simp_all add: manager_failed_def manager_failed_for_def)

text \<open>What each handler does to the tables.\<close>

lemma newDeployment_nameD: "newDeployment E req v = (Ok d, v') \<Longrightarrow> GetName (d_Cluster d) = request_name req"
  by (rule yieldsD [OF newDeployment_name])

lemma CreateCluster_tables:
  assumes "CreateCluster E sched req sv w = (r, sv', w')"
  shows "(unanswered r \<and> sv' = sv) \<or>
    (\<not> unanswered r \<and> map_of (deployments sv) (request_name req) = None \<and>
     (\<exists>d v v'. newDeployment E req v = (Ok d, v') \<and> sv' = sv\<lparr>deployments := put (request_name req) d (deployments sv)\<rparr>))"
  using assms unfolding CreateCluster_def Let_def
  by (auto simp: newDeployment_nameD elim!: reply_cases split: if_splits) blast+

lemma DeleteCluster_tables:
  assumes "DeleteCluster E name sv w = (r, sv', w')"
  shows "(unanswered r \<and> sv' = sv) \<or>
    (\<not> unanswered r \<and> map_of (deployments sv) name \<noteq> None \<and> sv' = sv\<lparr>deployments := del name (deployments sv)\<rparr>)"
  using assms unfolding DeleteCluster_def by (auto elim!: with_cluster_cases reply_cases)

lemma show_kubeadm_tables: "show_kubeadm E k sv w = (r, sv', w') \<Longrightarrow> sv' = sv"
  unfolding show_kubeadm_def by (auto simp: reply_def split: prod.splits result.splits)

lemma ShowCluster_tables:
  assumes "ShowCluster E sched name sv w = (r, sv', w')"
  shows "sv' = sv \<and> (unanswered r \<or> map_of (deployments sv) name \<noteq> None)"
  using assms unfolding ShowCluster_def
  by (auto simp: reply_def elim!: with_cluster_cases dest: show_kubeadm_tables split: prod.splits result.splits cluster_spec.splits)

lemma ApplyCluster_tables:
  assumes "ApplyCluster E name cfg sv w = (r, sv', w')"
  shows "sv' = sv \<and> (unanswered r \<or> map_of (deployments sv) name \<noteq> None)"
  using assms unfolding ApplyCluster_def by (auto elim!: with_cluster_cases reply_cases)

lemma JoinCluster_tables:
  assumes "JoinCluster E req sv w = (r, sv', w')"
  shows "sv' = sv \<and> (unanswered r \<or> jr_ApiServerEndpoint req \<noteq> [])"
  using assms unfolding JoinCluster_def Let_def by (auto elim!: reply_cases split: if_splits)

lemma DeleteTopology_tables:
  assumes "DeleteTopology E name sv w = (r, sv', w')"
  shows "(unanswered r \<and> sv' = sv) \<or> (\<not> unanswered r \<and> map_of (topos sv) name \<noteq> None \<and> sv' = sv\<lparr>topos := del name (topos sv)\<rparr>)"
  using assms unfolding DeleteTopology_def by (auto elim!: with_topology_cases reply_cases split: option.splits)

lemma ShowTopology_tables:
  assumes "ShowTopology E name sv w = (r, sv', w')"
  shows "sv' = sv \<and> (unanswered r \<or> map_of (topos sv) name \<noteq> None)"
  using assms unfolding ShowTopology_def by (auto elim!: with_topology_cases reply_cases)

lemma PushConfig_tables:
  assumes "PushConfig E name dev cfg sv w = (r, sv', w')"
  shows "sv' = sv \<and> (unanswered r \<or> map_of (topos sv) name \<noteq> None)"
  using assms unfolding PushConfig_def by (auto elim!: with_topology_cases reply_cases)

lemma ResetConfig_tables:
  assumes "ResetConfig E name dev sv w = (r, sv', w')"
  shows "sv' = sv \<and> (unanswered r \<or> map_of (topos sv) name \<noteq> None)"
  using assms unfolding ResetConfig_def by (auto elim!: with_topology_cases reply_cases)

lemma create_topology_tables:
  assumes "create_topology fuel E t txt kubecfg sv w = (r, sv', w')"
  shows "(unanswered r \<and> sv' = sv) \<or> sv' = sv\<lparr>topos := put (t_Name t) txt (topos sv)\<rparr>"
  using assms unfolding create_topology_def show_created_def Let_def
  by (auto elim!: reply_cases split: option.splits result.splits prod.splits)

lemma CreateTopology_tables:
  assumes "CreateTopology fuel E req sv w = (r, sv', w')"
  shows "(unanswered r \<and> sv' = sv) \<or>
    (\<exists>t t' txt. tr_Topology req = Some t \<and> t_Name t \<noteq> [] \<and> map_of (topos sv) (t_Name t) = None \<and> t_Name t' = t_Name t \<and>
       cx_Marshal E t' = Ok txt \<and> sv' = sv\<lparr>topos := put (t_Name t) txt (topos sv)\<rparr>)"
proof (cases "unanswered r \<and> sv' = sv")
  case False
  with assms obtain t ns' v1 where t: "tr_Topology req = Some t" "t_Name t \<noteq> []" "map_of (topos sv) (t_Name t) = None"
    and k: "reply (\<lambda>e. Refused Internal ''invalid topology protobuf: %v'' [] (Some e)) (\<lambda>txt w2.
         create_topology fuel E (t\<lparr>t_Nodes := ns'\<rparr>) txt (if tr_Kubecfg req \<noteq> [] then tr_Kubecfg req else defaultKubeCfg E) sv w2) sv
         (cx_Marshal E (t\<lparr>t_Nodes := ns'\<rparr>), v1) = (r, sv', w')"
    unfolding CreateTopology_def Let_def by (auto elim!: fix_configs_cases split: option.splits if_splits)
  from k False obtain b v2 where "cx_Marshal E (t\<lparr>t_Nodes := ns'\<rparr>) = Ok b"
    "create_topology fuel E (t\<lparr>t_Nodes := ns'\<rparr>) b (if tr_Kubecfg req \<noteq> [] then tr_Kubecfg req else defaultKubeCfg E) sv v2 = (r, sv', w')"
    by (auto elim!: reply_cases)
  then have "t_Name (t\<lparr>t_Nodes := ns'\<rparr>) = t_Name t \<and> cx_Marshal E (t\<lparr>t_Nodes := ns'\<rparr>) = Ok b \<and>
      sv' = sv\<lparr>topos := put (t_Name t) b (topos sv)\<rparr>"
    using False create_topology_tables [of fuel E "t\<lparr>t_Nodes := ns'\<rparr>" b] by fastforce
  with t show ?thesis by blast
qed simp

lemma names_put: "set (map fst (put k v m)) = insert k (set (map fst m))" "set (map fst (del k m)) = set (map fst m) - {k}"
  by (simp_all add: dom_update delete_keys)

lemma map_of_names: "map_of m k = Some v \<Longrightarrow> k \<in> set (map fst m)" "map_of m k = None \<Longrightarrow> k \<notin> set (map fst m)"
  by (auto simp: map_of_eq_None_iff dest: map_of_SomeD intro: rev_image_eqI)

lemma serve_refines:
  assumes "serve fuel E c s = (ok, s1)"
  shows "spec_step c ok (known_names s) (known_names s1)"
proof -
  obtain sv w sv1 w1 where s: "s = (sv, w)" "s1 = (sv1, w1)" by (cases s, cases s1) auto
  have "serve fuel E c (sv, w) = (ok, sv1, w1)" using assms s by simp
  then show ?thesis
    unfolding s known_names_def
    by (cases c)
       (auto simp: observed_iff names_put simp del: set_map intro!: spec_step.intros dest: map_of_names
         dest!: CreateCluster_tables DeleteCluster_tables ShowCluster_tables ApplyCluster_tables JoinCluster_tables
           CreateTopology_tables DeleteTopology_tables ShowTopology_tables PushConfig_tables ResetConfig_tables)
qed

lemma list_all_put: "list_all P m \<Longrightarrow> P (k, v) \<Longrightarrow> list_all P (put k v m)"
  by (induction m) auto

lemma list_all_del: "list_all P m \<Longrightarrow> list_all P (del k m)"
  by (induction m) auto

lemma newDeployment_parts: "newDeployment E req v = (Ok d, v') \<Longrightarrow> d_Ingress d \<noteq> None \<and> d_CNI d \<noteq> None"
  unfolding newDeployment_def by (auto elim!: abind_OkD)

lemma serve_tables_ok:
  assumes "serve fuel E c s = (ok, s1)" and "tables_ok E s"
  shows "tables_ok E s1"
proof -
  obtain sv w sv1 w1 where s: "s = (sv, w)" "s1 = (sv1, w1)" by (cases s, cases s1) auto
  have "serve fuel E c (sv, w) = (ok, sv1, w1)" using assms s by simp
  then have "sv1 = sv \<or> (\<exists>req d v v'. newDeployment E req v = (Ok d, v') \<and> sv1 = sv\<lparr>deployments := put (request_name req) d (deployments sv)\<rparr>) \<or>
    (\<exists>name. sv1 = sv\<lparr>deployments := del name (deployments sv)\<rparr>) \<or> (\<exists>name. sv1 = sv\<lparr>topos := del name (topos sv)\<rparr>) \<or>
    (\<exists>t b. t_Name t \<noteq> [] \<and> cx_Marshal E t = Ok b \<and> sv1 = sv\<lparr>topos := put (t_Name t) b (topos sv)\<rparr>)"
    by (cases c) (auto simp: observed_iff dest!: CreateCluster_tables DeleteCluster_tables ShowCluster_tables ApplyCluster_tables
      JoinCluster_tables CreateTopology_tables DeleteTopology_tables ShowTopology_tables PushConfig_tables ResetConfig_tables; metis)+
  then show ?thesis
    using assms(2) unfolding s tables_ok_def
    by (auto simp: wf_map_del newDeployment_nameD dest: newDeployment_parts intro!: list_all_put list_all_del)
qed

interpretation ctl: call_server "serve fuel E" known_names spec_step "tables_ok E" for fuel E
  by unfold_locales (rule serve_refines, assumption, rule serve_tables_ok)


text \<open>
  C34. Whatever calls the controller has been given, each cluster is stored once and under its own name, with the
  ingress and the CNI that its deployment needs, and each stored text can be read and is a topology with the name
  it is stored under, so that a call on a stored topology is never refused for its text. Reading a text that was
  written gives back the message.
\<close>

theorem controller_tables_sound:
  assumes "\<And>t b. cx_Marshal E t = Ok b \<Longrightarrow> cx_Unmarshal E b = Ok t"
    and "snd (serve_all (serve fuel E) cs (newServer, w)) = (sv, w')"
  shows "(map_of (deployments sv) name = Some d \<longrightarrow> GetName (d_Cluster d) = name \<and> d_Ingress d \<noteq> None \<and> d_CNI d \<noteq> None) \<and>
    (map_of (topos sv) name = Some b \<longrightarrow> name \<noteq> [] \<and> (\<exists>t. cx_Unmarshal E b = Ok t \<and> t_Name t = name))"
proof -
  have "tables_ok E (sv, w')"
    using ctl.all_good [of E "(newServer, w)" fuel cs] assms(2) by (simp add: tables_ok_def newServer_def)
  then show ?thesis
    using assms(1) by (fastforce simp: tables_ok_def list_all_iff dest: map_of_SomeD)
qed

section \<open>The join command\<close>

lemma after_append [simp]: "after p (p @ s) = Some s"
  by (simp add: after_def HasPrefix_def)

lemma span_ne_append:
  assumes "s \<noteq> []" and "list_all P s" and "rest = [] \<or> \<not> P (hd rest)"
  shows "span_ne P (s @ rest) = Some (s, rest)"
proof -
  have "takeWhile P (s @ rest) = s" "dropWhile P (s @ rest) = rest"
    using assms(2,3) by (induction s) (cases rest; auto)+
  then show ?thesis using assms(1) by (simp add: span_ne_def)
qed

text \<open>The characters of an endpoint, of a token and of a hash.\<close>

definition endpoint_char :: "char \<Rightarrow> bool" where
  "endpoint_char c \<longleftrightarrow> token_char c \<or> c = CHR ''.'' \<or> c = CHR '':''"

definition join_command :: "string \<Rightarrow> string \<Rightarrow> string \<Rightarrow> string" where
  "join_command endpoint token hash =
     ''kubeadm join '' @ endpoint @ '' --token '' @ token @ '' --discovery-token-ca-cert-hash '' @ hash"


section \<open>A concrete controller\<close>

definition idle_shell :: "'w shell" where
  "idle_shell =
     \<lparr>os_ReadFile = (\<lambda>p. aret []), os_MkdirAll = (\<lambda>p. aret ()), os_CreateTemp = (\<lambda>d p. aret p),
      os_Write = (\<lambda>p d. aret ()), os_Chmod = (\<lambda>p m. aret ()), os_Close = (\<lambda>p. aret ()), os_Remove = (\<lambda>p. aret ()), os_IsNotExist = (\<lambda>e. False),
      sh_Command = (\<lambda>i c. aret ([], None)), sh_LookPath = aret, sh_Stat = (\<lambda>p. aret ()),
      sh_Create = (\<lambda>p. aret ()), sh_WriteFile = (\<lambda>p d. aret ()), sh_MkdirTemp = aret, sh_RemoveAll = (\<lambda>p. aret ()),
      sh_Getenv = (\<lambda>v. aret []), sh_Setenv = (\<lambda>v x. aret ()), sh_Sleep = (\<lambda>t. aret ())\<rparr>"

definition idle_deploy_env :: "'w deploy_env" where
  "idle_deploy_env =
     \<lparr>de_shell = idle_shell,
      de_cluster = \<lparr>cl_semver = \<lparr>sv_Parse = (\<lambda>s. Ok ex_version), sv_LT = (\<lambda>a b. False), sv_String = (\<lambda>v. [])\<rparr>,
        cl_gar = \<lparr>ge_FindCredentials = aret (), ge_Token = aret [], ge_Marshal = (\<lambda>rs. Ok []), ge_Unmarshal = (\<lambda>s. Ok [])\<rparr>,
        cl_yaml = \<lparr>ye_Init = (\<lambda>_. Ok []), ye_Cluster = (\<lambda>_. Ok [])\<rparr>,
        cl_uuid = aret [], cl_home = ''/root'', cl_normalizeImageRef = Ok, cl_setPIDMaxScript = []\<rparr>,
      de_BuildConfig = (\<lambda>k. aret \<lparr>rc_QPS = 5, rc_Burst = 10\<rparr>), de_NewClient = (\<lambda>c. aret ()),
      de_kClient = \<lparr>kc_WatchDeployments = (\<lambda>n. aerr EOF), kc_WatchDaemonSets = (\<lambda>ns sel. aerr EOF), kc_Secrets = ex_api\<rparr>,
      de_metal = \<lparr>me_NewDocker = aret (), me_NewMetal = aret (), me_Rand = aret [], me_Base64 = (\<lambda>s. s), me_NetworkList = aret [],
        me_Pools = ex_api, me_L2 = ex_api\<rparr>,
      de_ServerVersion = aret [], de_UnmarshalVersions = (\<lambda>s. Ok (None, None)),
      de_PodWatcher = aerr EOF, de_pods = (\<lambda>w. newWatcher new_pod_watch), de_set_pods = (\<lambda>x w. w),
      de_EventWatcher = aerr EOF, de_events = (\<lambda>w. newWatcher []), de_set_events = (\<lambda>x w. w),
      de_NewReporter = aret (), de_ReportStart = (\<lambda>e. aret []), de_ReportEnd = (\<lambda>i r. aret ()), de_CloseReporter = aret (),
      de_overall = (\<lambda>t w. None), de_own = (\<lambda>i w. None)\<rparr>"

definition topo_named :: "string \<Rightarrow> topology" where
  "topo_named n = \<lparr>t_Name = n, t_Nodes = [], t_Links = []\<rparr>"

definition ex_ctl_env :: "topo_world ctl_env" where
  "ex_ctl_env =
     \<lparr>cx_deploy = idle_deploy_env,
      cx_topo = \<lparr>te_InClusterConfig = aerr EOF, te_BuildConfig = (\<lambda>k. aret \<lparr>rc_QPS = 5, rc_Burst = 10\<rparr>), te_NewKube = (\<lambda>c. aret mem_kube),
        te_NewDynamic = (\<lambda>c. aret (mg_dClient mem_mgr)), te_pidMax = None, te_order = (\<lambda>m. m),
        te_object = base_nod mem_kube mem_os (\<lambda>_. True) ''demo'' ''/base'', te_specs_of = (\<lambda>n. Ok []), te_specs_order = (\<lambda>m. m),
        te_create = ex_create_env, te_watch = (\<lambda>n. Ok [NSEvent True (Some n)])\<rparr>,
      cx_Getwd = aret ''/work'', cx_home = ''/root'', cx_reportUsage = False,
      cx_Marshal = (\<lambda>t. if t_Nodes t = [] \<and> t_Links t = [] then Ok (t_Name t) else Error EOF), cx_Unmarshal = (\<lambda>b. Ok (topo_named b))\<rparr>"

definition ex_request :: create_cluster_request where
  "ex_request =
     \<lparr>cr_ClusterSpec = Request_Kind \<lparr>kr_Name = [], kr_Recycle = True, kr_Version = [], kr_Image = [], kr_Retain = False, kr_Kubecfg = [],
        kr_GoogleArtifactRegistries = [], kr_ContainerImages = [], kr_Config = ''kind.yaml'', kr_AdditionalManifests = [''../m.yaml'']\<rparr>,
      cr_Metallb = Some (Manifest_unset, 50), cr_Meshnet = Some (Manifest_Data ''yaml''), cr_ControllerSpecs = [Lemming_request (Manifest_File ''l.yaml'')]\<rparr>"

definition ex_parsed :: deployment where
  "ex_parsed = the_Ok (fst (newDeployment ex_ctl_env ex_request mem_start))"

definition ex_served :: "bool list \<times> ctl_server \<times> topo_world" where
  "ex_served = serve_all (serve 3 ex_ctl_env)
     [Call_ShowTopology ''demo'', Call_CreateTopology \<lparr>tr_Topology = Some (topo_named ''demo''), tr_Kubecfg = []\<rparr>,
      Call_CreateTopology \<lparr>tr_Topology = Some (topo_named ''demo''), tr_Kubecfg = []\<rparr>] (newServer, mem_start)"

theorem newDeployment_well_formed_witness:
  "newDeployment ex_ctl_env ex_request mem_start = (Ok ex_parsed, mem_start) \<and> deployment_ok ex_parsed \<and> GetName (d_Cluster ex_parsed) = ''kne''"
proof -
  have r: "newDeployment ex_ctl_env ex_request mem_start = (Ok ex_parsed, mem_start)" by code_simp
  have "Getwd_absolute ex_ctl_env" by (simp add: Getwd_absolute_def ex_ctl_env_def yields_def IsAbs_def HasPrefix_def)
  from newDeployment_well_formed [OF this r] r show ?thesis by (simp add: request_name_def ex_request_def or_default_def)
qed

theorem controller_tables_sound_witness:
  "fst ex_served = [False, True, False] \<and> topos (fst (snd ex_served)) = [(''demo'', ''demo'')] \<and>
   (\<exists>t. cx_Unmarshal ex_ctl_env ''demo'' = Ok t \<and> t_Name t = ''demo'')"
proof -
  have e: "fst ex_served = [False, True, False]" "topos (fst (snd ex_served)) = [(''demo'', ''demo'')]" by code_simp+
  have "map_of (topos (fst (snd ex_served))) ''demo'' = Some ''demo'' \<longrightarrow> ''demo'' \<noteq> [] \<and> (\<exists>t. cx_Unmarshal ex_ctl_env ''demo'' = Ok t \<and> t_Name t = ''demo'')"
    using controller_tables_sound [where E = ex_ctl_env and sv = "fst (snd ex_served)" and w' = "snd (snd ex_served)" and name = "''demo''"
        and b = "''demo''" and fuel = 3 and w = mem_start]
    by (auto simp: ex_served_def ex_ctl_env_def topo_named_def split: if_splits)
  with e show ?thesis by simp
qed


end
