(* ===== verification/Spec2Isabelle.thy ===== *)
theory Spec2Isabelle
  imports Vendor_Registry Vendor_Pods Vendor_CRD Vendor_CLI Bridge_Server Topo_Manager Deploy_Run Controller_Server
begin

text \<open>
  A verification library for KNE, the Kubernetes network emulation of \<open>openconfig/kne\<close>. KNE deploys a cluster,
  loads a description of nodes and links, creates a pod or a custom resource for each node, wires the nodes by
  resources of the CNI plugin meshnet, waits for the nodes, and reports on them. Paths are relative to the
  directory \<open>src\<close>.

  \<^bold>\<open>The parts and how they interact.\<close> A controller (\<open>controller/server\<close>) takes requests. Requests on clusters become
  deployments (\<open>deploy\<close>), which call the cluster tools (\<open>cluster/kind\<close>, \<open>cluster/kubeadm\<close>, through \<open>exec/run\<close>) and
  deploy the ingress, the CNI and the controllers of vendors. Requests on topologies become topology managers
  (\<open>topo/topo.go\<close>), which own node objects. The node base (\<open>topo/node/node.go\<close>) has the shared operations, the
  packages below \<open>topo/node\<close> have what is special about a vendor. Watchers of pods and events (\<open>pods\<close>, \<open>events\<close>) run
  beside deployments and topologies and cancel them. The bridge (\<open>bridge\<close>) carries frames and link states between
  interfaces of different clusters; the forward nodes run it in their pods.

  \<^bold>\<open>Conventions.\<close>
  \<^item> \<open>KNE_Prelude\<close>: Go errors, results (a value, an error or a panic), Go maps as association lists in their
    iteration order, strings, decimal numbers, and the generic lemmas. A theorem that holds for every iteration
    order says so by an arbitrary list or an order as a parameter.
  \<^item> \<open>Kube_API\<close>: an operation with effects takes a world and gives a result and a world; \<open>abind\<close>, \<open>atry\<close> and their
    relatives compose them as the source does. The Kubernetes API, files, commands, clocks and the drivers of
    devices are code outside the repository: records of operations that the definitions take as arguments. What a
    theorem needs of them is a named hypothesis (\<open>api_ok\<close>, \<open>api_frame\<close>, \<open>conns_ok\<close> and others), and an instance in
    memory shows that the hypotheses can hold. \<open>keeps\<close>, \<open>stable\<close> and \<open>yields\<close> are the small logics for views of the
    world that stay, predicates that stay and results that are well formed.
  \<^item> Ports, key sizes and MTUs are words of 32 bits as in the protocol buffers, and the range checks and
    conversions of the source are written out. Go's \<open>int\<close> is an integer where the source cannot overflow.

  \<^bold>\<open>The theories.\<close>
  \<^item> \<open>Topo_Proto\<close>: the messages of \<open>proto/topo.proto\<close> and meshnet's resources, as records.
  \<^item> \<open>Node_Links\<close>, \<open>Topo_Load\<close>, \<open>Topo_Wiring\<close>, \<open>Topo_Specs\<close>: \<open>GetNodeLinks\<close>, \<open>TopologySpecs\<close> and \<open>New\<close> of
    \<open>topo/node/node.go\<close>; \<open>load\<close>, \<open>topologySpecs\<close> and \<open>setLinkPeer\<close> of \<open>topo/topo.go\<close>. A successful load wires every
    link at both ends and nothing else; load succeeds exactly on topologies that fit; the resources at the two
    ends of a link name each other. The locale \<open>spec_provider\<close> is what the manager relies on of a node's resources.
  \<^item> \<open>Vendor_Base\<close>, \<open>Vendor_Hosts\<close>, \<open>Vendor_NOS\<close>, \<open>Vendor_Cisco\<close>, \<open>Vendor_Proxy\<close>, \<open>Vendor_Registry\<close>: the constructors
    and defaults of all vendors and the registry. The locale \<open>vendor_defaults\<close> is the contract of a \<open>defaults\<close>
    function, interpreted for each of them; with it, constructing a node again from its description changes
    nothing, arista apart. \<open>Net_IP\<close> has the parts of Go's package \<open>net\<close> that are used.
  \<^item> \<open>Node_Service\<close>, \<open>Node_Pod\<close>: services, pods, configurations, constraints and status of \<open>topo/node/node.go\<close>.
    Services are created all or not at all, deletion undoes creation, the merge of reported services is a round
    trip, constraints are checked exactly.
  \<^item> \<open>Vendor_Forward\<close>, \<open>Vendor_Pods\<close>: the pods of forward, alpine, sonic, ciena and cisco nodes and of proxies; the
    plan of bridge processes is exactly the one that the wires ask for.
  \<^item> \<open>Vendor_CRD\<close>: the node types whose pods an operator makes (arista, nokia, openconfig, drivenets, keysight):
    \<open>CreateCRD\<close>, \<open>lineCards\<close>, \<open>lemmingCreate\<close>, \<open>cdnosCreate\<close>, \<open>newCRD\<close>, \<open>waitForState\<close> and the operations around
    them. Line cards are those that the interfaces name; the topologies of a traffic generator are grouped by pod.
  \<^item> \<open>Vendor_CLI\<close>: \<open>GetCLIConn\<close>, \<open>ConfigPush\<close>, \<open>ResetCfg\<close> and \<open>GenerateSelfSigned\<close> of arista, nokia, juniper and
    cisco, the juniper pod, the cisco status. Sessions of three of the vendors are closed on every path; the
    escaping of nokia configurations is a round trip through the quoting of a shell.
  \<^item> \<open>Topo_Status\<close>, \<open>Topo_Manager\<close>: the waiting loops, \<open>push\<close>, \<open>Create\<close>, \<open>Delete\<close>, \<open>Show\<close> and \<open>Resources\<close> of
    \<open>topo/topo.go\<close>. Loops with a timeout return, and a node that is not reported as pending was seen running; push
    validates before it changes the cluster; success of each operation means what it should.
  \<^item> \<open>Watchers\<close>: the statuses, the filters of the streams, and the goroutine with its error channel as a step
    relation. The locale \<open>watch_handler\<close> is the contract of the handlers of \<open>pods/status.go\<close> and \<open>events/status.go\<close>.
  \<^item> \<open>Bridge_Link\<close>, \<open>Bridge_Demux\<close>, \<open>Bridge_Server\<close>: link states with the pair of bridges as a step relation, the
    demultiplexer over bounded channels, the table of demultiplexers, the loops of \<open>Transmit\<close> and of the client.
    A settled pair agrees, except where it has latched down; no channel is closed twice or written after its
    close; each subscriber sees a queue of its own; one reader per interface.
  \<^item> \<open>Shell\<close>, \<open>Deploy_Cluster\<close>, \<open>Deploy_Specs\<close>, \<open>Deploy_Run\<close>: commands and files, kind and kubeadm, the clusters,
    the ingress, the CNI and the controllers, and \<open>Deploy\<close>, \<open>Healthy\<close> and \<open>Delete\<close> of a deployment. The error group
    is a set of goroutines under an arbitrary schedule. Success means that everything was deployed and found
    healthy; nothing temporary stays; the pool of addresses has its bounds.
  \<^item> \<open>Controller_Server\<close>: all handlers of \<open>controller/server/main.go\<close>. For every sequence of calls the tables of the
    server refine two sets of names (locale \<open>call_server\<close>), deployments from requests are well formed, and the join
    command of kubeadm is a round trip.
  \<^item> This theory has the properties of loading that need all vendors at once.

  \<^bold>\<open>Loops and fuel.\<close> A loop over a list or a map is structural. A loop that may run for ever takes a number of
  rounds as fuel, and running out of it is \<open>None\<close>. The polling loop \<open>poll\<close> is shared by \<open>checkNodeStatus\<close>,
  \<open>checkServiceStatus\<close>, \<open>waitForState\<close> and the waits of juniper; \<open>poll_returns\<close> shows that one round more than the
  timeout divided by the pause is enough, since a pause takes at least its time (\<open>waitForState_returns\<close>,
  \<open>wait_loop_returns\<close>). \<open>waitClusterReady\<close> returns at the first second at which the nodes are ready. \<open>GetCLIConn\<close>
  tries for ever, as its comment says; its fuel bounds the number of tries, and no claim is made that it returns.
  A schedule of goroutines is a list of choices, after which each goroutine that is left runs to its end.

  \<^bold>\<open>Not modelled.\<close> The commands of \<open>kne_cli\<close> and \<open>cmd\<close> (flags, YAML, printing around the operations above),
  \<open>load\<close> (decoding by reflection), \<open>metrics\<close> (a cloud client), \<open>logshim\<close>, the fakes and mocks, generated code, the
  script of \<open>init_wait\<close>, the experiments under \<open>x\<close>, and the vendored meshnet daemon and plugin, which act on kernel
  interfaces. Of modelled parts: log output, options for tests, the sizes of volumes and the \<open>seccomp\<close> profile of
  juniper pods, opening raw and netlink sockets, and \<open>DefaultNodeConstraints\<close>, which returns constants. Mutexes make
  calls atomic; where goroutines share state, the models are step relations or schedules.
\<close>

section \<open>Loading a topology with the vendors of KNE\<close>

definition ex_node :: "string \<Rightarrow> vendor \<Rightarrow> node" where
  "ex_node name v = empty_node\<lparr>n_Name := name, n_Vendor := v\<rparr>"

definition ex_link :: "string \<Rightarrow> string \<Rightarrow> string \<Rightarrow> string \<Rightarrow> link" where
  "ex_link a ai z zi = \<lparr>l_ANode = a, l_AInt = ai, l_ZNode = z, l_ZInt = zi\<rparr>"

text \<open>A host and a Ciena router, joined by one link.\<close>

definition ex_topo :: topology where
  "ex_topo = \<lparr>t_Name = ''demo'', t_Nodes = [ex_node ''h1'' V_HOST, ex_node ''r1'' V_CIENA],
     t_Links = [ex_link ''h1'' ''eth1'' ''r1'' ''1/1/2'']\<rparr>"

definition ex_manager :: manager where
  "ex_manager = the_Ok (load kne_vendors None (\<lambda>m. m) ex_topo)"

lemma ex_load: "load kne_vendors None (\<lambda>m. m) ex_topo = Ok ex_manager"
proof -
  have "is_Ok (load kne_vendors None (\<lambda>m. m) ex_topo)" by code_simp
  then show ?thesis by (auto simp: ex_manager_def is_Ok_iff)
qed

lemma ex_hyps: "named ex_topo" "ren_ok kne_renaming ex_topo" "unwired ex_topo"
  by (simp_all add: named_def ren_ok_def unwired_def ex_topo_def ex_node_def ex_link_def empty_node_def
      used_ifcs_def keys_def kne_renaming_def no_rename_def ciena_renaming_def wf_node_def)




lemma ex_accepts: "accepts kne_vendors None ex_topo"
  by (simp add: accepts_def ex_topo_def ex_node_def run_pid_max_def New_def getImpl_def kne_vendors_def
      host_New_def ciena_New_def Let_def empty_node_def)


section \<open>From a loaded topology to meshnet resources\<close>


lemma ex_loaded: "loaded kne_vendors kne_renaming ex_topo ex_manager"
proof -
  have "\<forall>l \<in> set (t_Links ex_topo). (l_ANode l, l_AInt l) \<noteq> (l_ZNode l, l_ZInt l)"
    by (simp add: ex_topo_def ex_link_def)
  then show ?thesis
    using ex_load ex_hyps kne_vendors_ok range_order_id unfolding loaded_def by blast
qed

lemma ex_wired: "\<forall>n \<in> set (manager_nodes ex_manager). wired_node n"
proof -
  have "list_all (\<lambda>n. distinct (map fst (n_Interfaces n)) \<and>
      list_all (\<lambda>(k, i). k \<noteq> ''eth0'' \<and> ifc_PeerName i \<noteq> [] \<and> ifc_PeerIntName i \<noteq> []) (n_Interfaces n))
      (manager_nodes ex_manager)" by code_simp
  then show ?thesis
    by (auto simp: list_all_iff wired_node_def wf_map_def has_peer_def)
qed


text \<open>
  No link is lost: every link of a loaded topology has an end among the resources that \<open>topologySpecs\<close>
  returns.
\<close>

theorem specs_cover_links:
  assumes "loaded kne_vendors kne_renaming topo m" and "\<forall>n \<in> set (manager_nodes m). wired_node n"
    and "range_order ord" and "topologySpecs TopologySpecs ord m = Ok ts" and "j < length (t_Links topo)"
  shows "\<exists>(p, x) \<in> set (ends_of ts). ml_UID x = int j"
  using base.topologySpecs_complete [OF assms] .

lemma ex_specs: "topologySpecs TopologySpecs (\<lambda>m. m) ex_manager =
    Ok (the_Ok (topologySpecs TopologySpecs (\<lambda>m. m) ex_manager))"
proof -
  have "is_Ok (topologySpecs TopologySpecs (\<lambda>m. m) ex_manager)" by code_simp
  then show ?thesis by (auto simp: is_Ok_iff)
qed

theorem specs_cover_links_witness:
  "\<exists>(p, x) \<in> set (ends_of (the_Ok (topologySpecs TopologySpecs (\<lambda>m. m) ex_manager))). ml_UID x = 0"
  using specs_cover_links [OF ex_loaded ex_wired range_order_id ex_specs, of 0] by (simp add: ex_topo_def)

end
